(* ===== verification/Prelude.thy ===== *)
theory Prelude
  imports
    Main
    "HOL-Library.Word"
    "HOL-Library.AList"
    "HOL-Library.Multiset"
    "HOL-Library.List_Lexorder"
    "HOL-Library.Char_ord"
    "HOL-Library.Product_Lexorder"
    "HOL-Library.Signed_Division"
begin

text \<open>
  Shared vocabulary of the development: the machine integers of Go at their width, the
  two pieces of the Go runtime the code calls but does not define (the seeded hash of
  \<^verbatim>\<open>hash/maphash\<close> and the matcher of \<^verbatim>\<open>regexp\<close>), \<^verbatim>\<open>cmp.Compare\<close>, decimal and
  base-36 printing and parsing of unsigned integers, \<^verbatim>\<open>strings.Split\<close> and
  \<^verbatim>\<open>strings.Join\<close>, error results as sums, and the laws of three-way comparators that
  every \<^verbatim>\<open>Compare\<close> method of the code has to satisfy.
\<close>

named_theorems go_defs \<open>definitions of small library functions, unfolded on closed terms\<close>
named_theorems cmp_simps \<open>facts on three-way comparison\<close>

section \<open>Machine integers and the runtime\<close>

type_synonym u8 = "8 word"
type_synonym u32 = "32 word"
type_synonym u64 = "64 word"

text \<open>
  \<^verbatim>\<open>maphash\<close> under the process-wide seed is some fixed function of the bytes written;
  \<^verbatim>\<open>regexp.Compile\<close> answers with a matcher or an error; the third field is the text that
  \<^verbatim>\<open>time.Unix(d, 0).UTC().Format(time.RFC3339)\<close> gives for a date. They are arguments of the
  model: nothing is assumed of them unless a theorem says so.
\<close>

record runtime =
  maphash :: "u8 list \<Rightarrow> u64"
  regexp :: "string \<Rightarrow> (string \<Rightarrow> bool) option"
  rfc3339 :: "u64 \<Rightarrow> string"

text \<open>A concrete runtime, for evaluation on examples only.\<close>

definition demo_runtime :: runtime where
  "demo_runtime = \<lparr>maphash = (\<lambda>bs. fold (\<lambda>b h. h * 31 + ucast b) bs 7), regexp = (\<lambda>_. None),
     rfc3339 = (\<lambda>_. [])\<rparr>"

definition le_bytes :: "nat \<Rightarrow> nat \<Rightarrow> u8 list" where
  "le_bytes k n = map (\<lambda>i. word_of_nat (n div 256 ^ i)) [0..<k]"

lemma length_le_bytes [simp]: "length (le_bytes k n) = k"
  by (simp add: le_bytes_def)

text \<open>A Go slice: \<^verbatim>\<open>nil\<close> is \<open>None\<close>, and ranging over it visits nothing.\<close>

type_synonym 'a slice = "'a list option"

definition elems :: "'a slice \<Rightarrow> 'a list" where
  "elems xs = (case xs of None \<Rightarrow> [] | Some ys \<Rightarrow> ys)"

lemma elems_simps [simp]: "elems None = []" "elems (Some ys) = ys"
  by (simp_all add: elems_def)

lemma list_all2_left: "list_all2 P xs ys \<Longrightarrow> x \<in> set xs \<Longrightarrow> \<exists>y \<in> set ys. P x y"
  by (induction rule: list_all2_induct) auto

lemma list_all2_right: "list_all2 P xs ys \<Longrightarrow> y \<in> set ys \<Longrightarrow> \<exists>x \<in> set xs. P x y"
  by (induction rule: list_all2_induct) auto

section \<open>Errors as values\<close>

definition bind_res :: "'e + 'a \<Rightarrow> ('a \<Rightarrow> 'e + 'b) \<Rightarrow> 'e + 'b" where
  "bind_res r f = (case r of Inl e \<Rightarrow> Inl e | Inr x \<Rightarrow> f x)"

lemma bind_res_simps [simp]:
  "bind_res (Inl e) f = Inl e"
  "bind_res (Inr x) f = f x"
  by (simp_all add: bind_res_def)

lemma bind_res_cong [fundef_cong]:
  assumes "r = r'" and "\<And>x. r' = Inr x \<Longrightarrow> f x = g x"
  shows "bind_res r f = bind_res r' g"
  using assms by (cases r') auto

lemma bind_res_eq_Inr: "bind_res r f = Inr y \<longleftrightarrow> (\<exists>x. r = Inr x \<and> f x = Inr y)"
  by (cases r) auto

lemma bind_res_eq_Inl:
  "bind_res r f = Inl e \<longleftrightarrow> r = Inl e \<or> (\<exists>x. r = Inr x \<and> f x = Inl e)"
  by (cases r) auto

text \<open>A loop over a list that stops at the first error, and one that threads a state and may panic.\<close>

fun traverse :: "('a \<Rightarrow> 'e + 'b) \<Rightarrow> 'a list \<Rightarrow> 'e + 'b list" where
  "traverse f [] = Inr []"
| "traverse f (x # xs) = bind_res (f x) (\<lambda>y. bind_res (traverse f xs) (\<lambda>ys. Inr (y # ys)))"

fun thread :: "('a \<Rightarrow> 's \<Rightarrow> ('b \<times> 's) option) \<Rightarrow> 'a list \<Rightarrow> 's \<Rightarrow> ('b list \<times> 's) option" where
  "thread f [] s = Some ([], s)"
| "thread f (x # xs) s = (case f x s of None \<Rightarrow> None
     | Some (y, s1) \<Rightarrow> (case thread f xs s1 of None \<Rightarrow> None | Some (ys, s2) \<Rightarrow> Some (y # ys, s2)))"

lemma traverse_cong [fundef_cong]:
  assumes "xs = ys" "\<And>x. x \<in> set ys \<Longrightarrow> f x = g x"
  shows "traverse f xs = traverse g ys"
  unfolding assms(1) using assms(2) by (induction ys) (simp_all cong: bind_res_cong)

lemma thread_cong [fundef_cong]:
  assumes "xs = ys" "s = t" "\<And>x s. x \<in> set ys \<Longrightarrow> f x s = g x s"
  shows "thread f xs s = thread g ys t"
  unfolding assms(1,2) using assms(3) by (induction ys arbitrary: t) (auto split: option.splits)

lemma traverse_map: "traverse f (map g xs) = traverse (\<lambda>x. f (g x)) xs"
  by (induction xs) simp_all

lemma traverse_Inr: "traverse f xs = Inr ys \<longleftrightarrow> list_all2 (\<lambda>x y. f x = Inr y) xs ys"
proof (induction xs arbitrary: ys)
  case (Cons x xs)
  then show ?case by (cases ys) (auto simp: bind_res_eq_Inr)
qed auto

lemma traverse_all:
  assumes "traverse f xs = Inr ys" "\<And>x y. x \<in> set xs \<Longrightarrow> f x = Inr y \<Longrightarrow> Q y"
  shows "\<forall>y \<in> set ys. Q y"
proof
  fix y assume "y \<in> set ys"
  then obtain i where i: "i < length ys" "y = ys ! i" by (auto simp: in_set_conv_nth)
  then have "i < length xs" "f (xs ! i) = Inr y"
    using assms(1) by (auto simp: traverse_Inr list_all2_conv_all_nth)
  then show "Q y" by (intro assms(2)[of "xs ! i" y]) simp_all
qed

lemma thread_forall:
  "\<forall>x \<in> set xs. \<forall>s y s'. f x s = Some (y, s') \<longrightarrow> Q y \<Longrightarrow> thread f xs s = Some (ys, s') \<Longrightarrow> \<forall>y \<in> set ys. Q y"
proof (induction xs arbitrary: s ys)
  case (Cons x xs)
  obtain y s1 zs where y: "f x s = Some (y, s1)" "thread f xs s1 = Some (zs, s')" "ys = y # zs"
    using Cons.prems(2) by (auto split: option.splits)
  have "\<forall>z \<in> set zs. Q z" by (rule Cons.IH[OF _ y(2)]) (use Cons.prems(1) in simp)
  moreover have "Q y" using Cons.prems(1) y(1) by (meson list.set_intros(1))
  ultimately show ?case using y(3) by simp
qed simp

lemma thread_all:
  assumes "thread f xs s = Some (ys, s')" "\<And>x s y s'. x \<in> set xs \<Longrightarrow> f x s = Some (y, s') \<Longrightarrow> Q y"
  shows "\<forall>y \<in> set ys. Q y"
  by (rule thread_forall[OF _ assms(1)]) (simp add: assms(2))

lemma thread_append:
  "thread f (xs @ ys) s = (case thread f xs s of None \<Rightarrow> None | Some (as, s1) \<Rightarrow>
     (case thread f ys s1 of None \<Rightarrow> None | Some (bs, s2) \<Rightarrow> Some (as @ bs, s2)))"
  by (induction xs arbitrary: s) (auto split: option.splits)

lemma traverse_pure: "(\<And>x. x \<in> set xs \<Longrightarrow> f x = Inr (g x)) \<Longrightarrow> traverse f xs = Inr (map g xs)"
  by (induction xs) simp_all

lemma thread_pure: "(\<And>x s. f x s = Some (g x, s)) \<Longrightarrow> thread f xs s = Some (map g xs, s)"
  by (induction xs arbitrary: s) simp_all

section \<open>Three-way comparison\<close>

definition cmp_Compare :: "'a::linorder \<Rightarrow> 'a \<Rightarrow> int" where
  "cmp_Compare x y = (if x < y then - 1 else if x = y then 0 else 1)"

lemma cmp_Compare_0 [simp]: "cmp_Compare x y = 0 \<longleftrightarrow> x = y"
  by (auto simp: cmp_Compare_def)

lemma cmp_Compare_refl [simp]: "cmp_Compare x x = 0"
  by simp

lemma cmp_Compare_sym: "cmp_Compare y x = - cmp_Compare x y"
  by (auto simp: cmp_Compare_def)

lemma cmp_Compare_le [cmp_simps]: "cmp_Compare x y \<le> 0 \<longleftrightarrow> x \<le> y"
  by (auto simp: cmp_Compare_def)

lemma cmp_Compare_lt [cmp_simps]: "cmp_Compare x y < 0 \<longleftrightarrow> x < y"
  by (auto simp: cmp_Compare_def)

lemma cmp_Compare_range: "cmp_Compare x y \<in> {- 1, 0, 1}"
  by (auto simp: cmp_Compare_def)

text \<open>
  The contract every \<^verbatim>\<open>Compare\<close> method has to meet on the values \<open>A\<close> it is used on: a
  total preorder, given by the sign of the result. Sorting and set comparison rely on it.
\<close>

locale comparator_on =
  fixes A :: "'a set" and c :: "'a \<Rightarrow> 'a \<Rightarrow> int"
  assumes refl: "x \<in> A \<Longrightarrow> c x x = 0"
    and sym: "x \<in> A \<Longrightarrow> y \<in> A \<Longrightarrow> c y x = - c x y"
    and trans: "x \<in> A \<Longrightarrow> y \<in> A \<Longrightarrow> z \<in> A \<Longrightarrow> c x y \<le> 0 \<Longrightarrow> c y z \<le> 0 \<Longrightarrow> c x z \<le> 0"
begin

lemma sym_le: "x \<in> A \<Longrightarrow> y \<in> A \<Longrightarrow> c y x \<le> 0 \<longleftrightarrow> 0 \<le> c x y"
  using sym[of x y] by simp

lemma sym_lt: "x \<in> A \<Longrightarrow> y \<in> A \<Longrightarrow> c y x < 0 \<longleftrightarrow> 0 < c x y"
  using sym[of x y] by simp

lemma eq_sym: "x \<in> A \<Longrightarrow> y \<in> A \<Longrightarrow> c y x = 0 \<longleftrightarrow> c x y = 0"
  using sym[of x y] by simp

lemma total: "x \<in> A \<Longrightarrow> y \<in> A \<Longrightarrow> c x y \<le> 0 \<or> c y x \<le> 0"
  using sym_le[of x y] by linarith

lemma eq_trans:
  assumes "x \<in> A" "y \<in> A" "z \<in> A" "c x y = 0" "c y z = 0"
  shows "c x z = 0"
proof -
  have "c x z \<le> 0" using assms trans[of x y z] by simp
  moreover have "c z y = 0" "c y x = 0" using assms eq_sym[of x y] eq_sym[of y z] by simp_all
  then have "c z x \<le> 0" using assms trans[of z y x] by simp
  ultimately show ?thesis using sym_le[of x z] assms by simp
qed

lemma lt_le_trans:
  assumes "x \<in> A" "y \<in> A" "z \<in> A" "c x y < 0" "c y z \<le> 0"
  shows "c x z < 0"
proof -
  have "c x z \<le> 0" using assms trans[of x y z] by simp
  moreover have "c x z \<noteq> 0"
  proof
    assume "c x z = 0"
    then have "c z x \<le> 0" using eq_sym[of x z] assms by simp
    then have "c y x \<le> 0" using trans[of y z x] assms by simp
    then show False using sym_le[of x y] assms by simp
  qed
  ultimately show ?thesis by simp
qed

lemma eq_lt_trans:
  assumes "x \<in> A" "y \<in> A" "z \<in> A" "c x y = 0" "c y z < 0"
  shows "c x z < 0"
proof -
  have "c x z \<le> 0" using assms trans[of x y z] by simp
  moreover have "c x z \<noteq> 0"
    using assms eq_trans[of y x z] eq_sym[of x y] by auto
  ultimately show ?thesis by simp
qed

end

lemma comparator_on_subset:
  assumes c: "comparator_on A c" and sub: "B \<subseteq> A"
  shows "comparator_on B c"
proof (rule comparator_on.intro)
  fix x y z
  show "x \<in> B \<Longrightarrow> c x x = 0"
    using comparator_on.refl[OF c, of x] sub by blast
  show "x \<in> B \<Longrightarrow> y \<in> B \<Longrightarrow> c y x = - c x y"
    using comparator_on.sym[OF c, of x y] sub by blast
  show "x \<in> B \<Longrightarrow> y \<in> B \<Longrightarrow> z \<in> B \<Longrightarrow> c x y \<le> 0 \<Longrightarrow> c y z \<le> 0 \<Longrightarrow> c x z \<le> 0"
    using comparator_on.trans[OF c, of x y z] sub by blast
qed

lemma comparator_on_cong:
  assumes c: "comparator_on A c" and eq: "\<And>x y. x \<in> A \<Longrightarrow> y \<in> A \<Longrightarrow> c x y = d x y"
  shows "comparator_on A d"
proof (rule comparator_on.intro)
  fix x y z
  show "x \<in> A \<Longrightarrow> d x x = 0"
    using comparator_on.refl[OF c, of x] eq[of x x] by simp
  show "x \<in> A \<Longrightarrow> y \<in> A \<Longrightarrow> d y x = - d x y"
    using comparator_on.sym[OF c, of x y] eq[of x y] eq[of y x] by simp
  show "x \<in> A \<Longrightarrow> y \<in> A \<Longrightarrow> z \<in> A \<Longrightarrow> d x y \<le> 0 \<Longrightarrow> d y z \<le> 0 \<Longrightarrow> d x z \<le> 0"
    using comparator_on.trans[OF c, of x y z] eq[of x y] eq[of y z] eq[of x z] by simp
qed

interpretation cmp_std: comparator_on UNIV "cmp_Compare :: 'a::linorder \<Rightarrow> 'a \<Rightarrow> int"
  by unfold_locales (auto simp: cmp_Compare_def split: if_splits)

text \<open>
  The recurring shape \<^verbatim>\<open>if x := ...; x != 0 { return x }\<close> of the \<^verbatim>\<open>Compare\<close> methods.
\<close>

definition then_cmp :: "int \<Rightarrow> int \<Rightarrow> int" where
  "then_cmp x y = (if x \<noteq> 0 then x else y)"

lemma then_cmp_simps [simp]:
  "then_cmp 0 y = y"
  "x \<noteq> 0 \<Longrightarrow> then_cmp x y = x"
  "then_cmp x 0 = x"
  by (simp_all add: then_cmp_def)

lemma then_cmp_0 [simp]: "then_cmp x y = 0 \<longleftrightarrow> x = 0 \<and> y = 0"
  by (auto simp: then_cmp_def)

lemma comparator_on_guard:
  assumes c: "comparator_on A c"
    and d: "\<And>x. x \<in> A \<Longrightarrow> comparator_on {y \<in> A. c x y = 0} d"
  shows "comparator_on A (\<lambda>x y. then_cmp (c x y) (d x y))"
proof (rule comparator_on.intro)
  note eqs = comparator_on.eq_sym[OF c] comparator_on.refl[OF c]
  fix x y z
  show "x \<in> A \<Longrightarrow> then_cmp (c x x) (d x x) = 0"
    using comparator_on.refl[OF d, of x x] comparator_on.refl[OF c, of x] by simp
  show "x \<in> A \<Longrightarrow> y \<in> A \<Longrightarrow> then_cmp (c y x) (d y x) = - then_cmp (c x y) (d x y)"
    using comparator_on.sym[OF c, of x y] comparator_on.sym[OF d, of x x y] eqs(2)[of x]
    by (auto simp: then_cmp_def)
  assume A: "x \<in> A" "y \<in> A" "z \<in> A"
    and le: "then_cmp (c x y) (d x y) \<le> 0" "then_cmp (c y z) (d y z) \<le> 0"
  show "then_cmp (c x z) (d x z) \<le> 0"
  proof (cases "c x y = 0 \<and> c y z = 0")
    case True
    then have "c x z = 0" using comparator_on.eq_trans[OF c, of x y z] A by simp
    with True le A show ?thesis
      using comparator_on.trans[OF d, of x x y z] eqs(2)[of x] by simp
  next
    case False
    with le have "c x y \<le> 0" "c y z \<le> 0" "c x y < 0 \<or> c y z < 0"
      by (auto simp: then_cmp_def split: if_splits)
    then have "c x z < 0"
      using comparator_on.lt_le_trans[OF c, of x y z] comparator_on.eq_lt_trans[OF c, of x y z] A
      by (cases "c x y < 0") auto
    then show ?thesis by simp
  qed
qed

lemma comparator_on_then:
  assumes "comparator_on A c" "comparator_on A d"
  shows "comparator_on A (\<lambda>x y. then_cmp (c x y) (d x y))"
  using assms by (auto intro: comparator_on_guard comparator_on_subset)

lemma comparator_on_map:
  assumes c: "comparator_on B c" and f: "\<And>x. x \<in> A \<Longrightarrow> f x \<in> B"
  shows "comparator_on A (\<lambda>x y. c (f x) (f y))"
proof (rule comparator_on.intro)
  fix x y z
  show "x \<in> A \<Longrightarrow> c (f x) (f x) = 0"
    using comparator_on.refl[OF c, of "f x"] f by blast
  show "x \<in> A \<Longrightarrow> y \<in> A \<Longrightarrow> c (f y) (f x) = - c (f x) (f y)"
    using comparator_on.sym[OF c, of "f x" "f y"] f by blast
  show "x \<in> A \<Longrightarrow> y \<in> A \<Longrightarrow> z \<in> A \<Longrightarrow> c (f x) (f y) \<le> 0 \<Longrightarrow> c (f y) (f z) \<le> 0 \<Longrightarrow>
      c (f x) (f z) \<le> 0"
    using comparator_on.trans[OF c, of "f x" "f y" "f z"] f by blast
qed

lemma comparator_on_Un_guard:
  \<comment> \<open>values of different kinds are ordered by their kind alone\<close>
  assumes k: "\<And>x y. x \<in> A \<Longrightarrow> y \<in> A \<Longrightarrow> k x \<noteq> k y \<Longrightarrow> c x y = cmp_Compare (k x) (k y)"
    and same: "\<And>i. comparator_on {x \<in> A. k x = i} c"
  shows "comparator_on A c"
proof (rule comparator_on_cong)
  show "comparator_on A (\<lambda>x y. then_cmp (cmp_Compare (k x) (k y)) (c x y))"
  proof (rule comparator_on_guard)
    show "comparator_on A (\<lambda>x y. cmp_Compare (k x) (k y))"
      by (rule comparator_on_map[OF cmp_std.comparator_on_axioms]) simp
    fix x assume "x \<in> A"
    then show "comparator_on {y \<in> A. cmp_Compare (k x) (k y) = 0} c"
      using same[of "k x"] by (rule_tac comparator_on_subset) auto
  qed
  show "x \<in> A \<Longrightarrow> y \<in> A \<Longrightarrow> then_cmp (cmp_Compare (k x) (k y)) (c x y) = c x y" for x y
    using k[of x y] by (cases "k x = k y") auto
qed

section \<open>Printing and parsing of unsigned integers\<close>

definition digit_char :: "nat \<Rightarrow> char" where
  [go_defs]: "digit_char d = (if d < 10 then char_of (48 + d) else char_of (87 + d))"

definition digit_val :: "char \<Rightarrow> nat option" where
  [go_defs]: "digit_val ch = (let n = of_char ch :: nat in
     if 48 \<le> n \<and> n \<le> 57 then Some (n - 48)
     else if 97 \<le> n \<and> n \<le> 122 then Some (n - 87)
     else if 65 \<le> n \<and> n \<le> 90 then Some (n - 55)
     else None)"

lemma digit_val_char [simp]: "d < 36 \<Longrightarrow> digit_val (digit_char d) = Some d"
  by (auto simp: digit_char_def digit_val_def Let_def)

lemma digit_char_not_comma: "d < 36 \<Longrightarrow> digit_char d \<noteq> CHR '',''"
proof
  assume "d < 36" and "digit_char d = CHR '',''"
  then have "digit_val (CHR '','') = Some d" using digit_val_char by metis
  then show False by (simp add: digit_val_def)
qed

function format_uint :: "nat \<Rightarrow> nat \<Rightarrow> string" where
  "format_uint b n = (if b < 2 \<or> n < b then [digit_char n]
     else format_uint b (n div b) @ [digit_char (n mod b)])"
  by pat_completeness auto
termination
  by (relation "measure snd") auto

declare format_uint.simps [simp del]

text \<open>\<^verbatim>\<open>strconv.ParseUint(s, base, 64)\<close>: the empty string, a character that is no digit of
  the base, and a value beyond 64 bits are errors.\<close>

fun parse_digits :: "nat \<Rightarrow> nat \<Rightarrow> string \<Rightarrow> nat option" where
  "parse_digits b acc [] = Some acc"
| "parse_digits b acc (ch # s) = (case digit_val ch of
     None \<Rightarrow> None
   | Some d \<Rightarrow> if d < b then parse_digits b (acc * b + d) s else None)"

definition parse_uint64 :: "nat \<Rightarrow> string \<Rightarrow> u64 option" where
  "parse_uint64 b s = (if s = [] then None else (case parse_digits b 0 s of
     None \<Rightarrow> None
   | Some n \<Rightarrow> if n < 2 ^ 64 then Some (word_of_nat n) else None))"

lemma format_uint_nonempty [simp]: "format_uint b n \<noteq> []"
  by (subst format_uint.simps) simp

lemma parse_digits_append:
  "parse_digits b acc (s @ t) =
     (case parse_digits b acc s of None \<Rightarrow> None | Some a \<Rightarrow> parse_digits b a t)"
  by (induction s arbitrary: acc) (auto split: option.splits)

lemma parse_format_uint:
  assumes "2 \<le> b" "b \<le> 36"
  shows "parse_digits b 0 (format_uint b n) = Some n"
proof (induction n rule: less_induct)
  case (less n)
  show ?case
  proof (cases "n < b")
    case True
    with assms show ?thesis by (subst format_uint.simps) simp
  next
    case False
    have m: "n mod b < b" using assms by simp
    moreover have "n div b < n" using False assms by (simp add: div_less_dividend)
    ultimately have "parse_digits b 0 (format_uint b (n div b)) = Some (n div b)"
      using less.IH by simp
    moreover have "digit_val (digit_char (n mod b)) = Some (n mod b)"
      using m assms by (intro digit_val_char) linarith
    ultimately show ?thesis using False assms
      by (subst format_uint.simps) (simp add: parse_digits_append del: digit_val_char)
  qed
qed

lemma parse_uint64_format [simp]:
  "2 \<le> b \<Longrightarrow> b \<le> 36 \<Longrightarrow> parse_uint64 b (format_uint b (unat w)) = Some (w :: u64)"
  using unsigned_less[of w] by (simp add: parse_uint64_def parse_format_uint)

lemma format_uint_no_comma:
  assumes "b \<le> 36" "2 \<le> b"
  shows "CHR '','' \<notin> set (format_uint b n)"
proof (induction n rule: less_induct)
  case (less n)
  show ?case
  proof (cases "n < b")
    case True
    with assms digit_char_not_comma[of n] show ?thesis
      by (subst format_uint.simps) auto
  next
    case False
    have "n mod b < 36" using assms mod_less_divisor[of b n] by linarith
    then have "CHR '','' \<noteq> digit_char (n mod b)"
      using digit_char_not_comma by metis
    moreover have "n div b < n" using False assms by (simp add: div_less_dividend)
    ultimately show ?thesis using less.IH False assms
      by (subst format_uint.simps) auto
  qed
qed

text \<open>The verbs \<^verbatim>\<open>%d\<close> on unsigned and signed integers, and \<^verbatim>\<open>hex.EncodeToString\<close>.\<close>

definition show_nat :: "nat \<Rightarrow> string" where
  "show_nat n = format_uint 10 n"

definition show_int :: "int \<Rightarrow> string" where
  "show_int i = (if i < 0 then CHR ''-'' # show_nat (nat (- i)) else show_nat (nat i))"

definition hex_encode :: "u8 list \<Rightarrow> string" where
  "hex_encode bs = concat (map (\<lambda>b. [digit_char (unat b div 16), digit_char (unat b mod 16)]) bs)"

section \<open>strings.Split and strings.Join\<close>

fun split_on :: "char \<Rightarrow> string \<Rightarrow> string list" where
  "split_on sep [] = [[]]"
| "split_on sep (ch # s) = (if ch = sep then [] # split_on sep s
     else (case split_on sep s of [] \<Rightarrow> [[ch]] | p # ps \<Rightarrow> (ch # p) # ps))"

fun join_with :: "string \<Rightarrow> string list \<Rightarrow> string" where
  "join_with sep [] = []"
| "join_with sep [p] = p"
| "join_with sep (p # q # ps) = p @ sep @ join_with sep (q # ps)"

lemma split_on_nonempty: "split_on sep s \<noteq> []"
  by (induction s) (auto split: list.splits)

lemma split_on_no_sep: "sep \<notin> set p \<Longrightarrow> split_on sep p = [p]"
  by (induction p) auto

lemma split_on_append: "sep \<notin> set p \<Longrightarrow> split_on sep (p @ sep # s) = p # split_on sep s"
  by (induction p) auto

lemma split_join:
  "ps \<noteq> [] \<Longrightarrow> \<forall>p \<in> set ps. sep \<notin> set p \<Longrightarrow> split_on sep (join_with [sep] ps) = ps"
proof (induction "[sep]" ps rule: join_with.induct)
  case (3 p q ps)
  then show ?case by (simp add: split_on_append)
qed (auto simp: split_on_no_sep)

end
