(* ===== verification/HashSets.thy ===== *)
theory HashSets
  imports Prelude
begin

text \<open>
  The package \<^verbatim>\<open>internal/set\<close>: the hash builder, sorting and three-way comparison of
  sequences (\<^verbatim>\<open>helpers.go\<close>), and the hash set with buckets (\<^verbatim>\<open>hashset.go\<close>).
  The interfaces \<^verbatim>\<open>Hashable\<close> and \<^verbatim>\<open>Equality\<close> of the elements are the arguments \<open>h\<close>
  (the built hash) and \<open>eq\<close> of the operations. The map of buckets is an association
  list: its order stands for one of the orders in which Go may range over the map, and
  the theorems speak of sets, not of that order. The contract that makes a hash set a set
  is the locale \<open>hash_elements\<close>; the element types of the code interpret it in their theories.
\<close>

section \<open>helpers.go: the hash builder\<close>

type_synonym HashBuilder = "u8 list"

definition NewHashBuilder :: HashBuilder where
  "NewHashBuilder = []"

definition HashBuilder_Uint64 :: "HashBuilder \<Rightarrow> u64 \<Rightarrow> HashBuilder" where
  "HashBuilder_Uint64 hb n = hb @ le_bytes 8 (unat n)"

definition HashBuilder_Int64 :: "HashBuilder \<Rightarrow> u64 \<Rightarrow> HashBuilder" where
  "HashBuilder_Int64 hb n = HashBuilder_Uint64 hb n"

definition HashBuilder_Bool :: "HashBuilder \<Rightarrow> bool \<Rightarrow> HashBuilder" where
  "HashBuilder_Bool hb b = (if b then hb @ [1] else hb @ [0])"

definition HashBuilder_Byte :: "HashBuilder \<Rightarrow> u8 \<Rightarrow> HashBuilder" where
  "HashBuilder_Byte hb b = hb @ [b]"

definition HashBuilder_Bytes :: "HashBuilder \<Rightarrow> u8 list \<Rightarrow> HashBuilder" where
  "HashBuilder_Bytes hb bs = hb @ bs"

definition HashBuilder_String :: "HashBuilder \<Rightarrow> string \<Rightarrow> HashBuilder" where
  "HashBuilder_String hb s = hb @ map (\<lambda>ch. word_of_nat (of_char ch)) s"

definition HashBuilder_Hashable :: "('a \<Rightarrow> HashBuilder \<Rightarrow> HashBuilder) \<Rightarrow> HashBuilder \<Rightarrow> 'a \<Rightarrow> HashBuilder" where
  "HashBuilder_Hashable hash hb item = hash item hb"

definition HashBuilder_Build :: "runtime \<Rightarrow> HashBuilder \<Rightarrow> u64" where
  "HashBuilder_Build rt hb = maphash rt hb"

text \<open>The expression \<^verbatim>\<open>x.Hash(NewHashBuilder()).Build()\<close> of the hash set.\<close>

definition built_hash :: "runtime \<Rightarrow> ('a \<Rightarrow> HashBuilder \<Rightarrow> HashBuilder) \<Rightarrow> 'a \<Rightarrow> u64" where
  "built_hash rt hash x = HashBuilder_Build rt (hash x NewHashBuilder)"

section \<open>helpers.go: comparison and sorting\<close>

definition CompareBool :: "bool \<Rightarrow> bool \<Rightarrow> int" where
  "CompareBool a b = (if a = b then 0 else if \<not> a then - 1 else 1)"

lemma CompareBool_cmp: "CompareBool a b = cmp_Compare a b"
  by (auto simp: CompareBool_def cmp_Compare_def)

text \<open>\<^verbatim>\<open>slices.SortedFunc\<close>: the order of elements that compare equal is left open by Go;
  the model keeps their order.\<close>

fun insert_by :: "('a \<Rightarrow> 'a \<Rightarrow> int) \<Rightarrow> 'a \<Rightarrow> 'a list \<Rightarrow> 'a list" where
  "insert_by c x [] = [x]"
| "insert_by c x (y # ys) = (if c x y \<le> 0 then x # y # ys else y # insert_by c x ys)"

fun SortedFunc :: "('a \<Rightarrow> 'a \<Rightarrow> int) \<Rightarrow> 'a list \<Rightarrow> 'a list" where
  "SortedFunc c [] = []"
| "SortedFunc c (x # xs) = insert_by c x (SortedFunc c xs)"

definition Sorted :: "('a \<Rightarrow> 'a \<Rightarrow> int) \<Rightarrow> 'a list \<Rightarrow> 'a list" where
  "Sorted c input = SortedFunc c input"

text \<open>The loop over the positions of two slices of one length.\<close>

fun compare_positions :: "('a \<Rightarrow> 'a \<Rightarrow> int) \<Rightarrow> 'a list \<Rightarrow> 'a list \<Rightarrow> int" where
  "compare_positions c (a # as) (b # bs) =
     (let x = c a b in if x \<noteq> 0 then x else compare_positions c as bs)"
| "compare_positions c _ _ = 0"

definition Compared :: "('a \<Rightarrow> 'a \<Rightarrow> int) \<Rightarrow> 'a list \<Rightarrow> 'a list \<Rightarrow> int" where
  "Compared c aSeq bSeq =
     (let x = cmp_Compare (length aSeq) (length bSeq) in
      if x \<noteq> 0 then x
      else compare_positions c (SortedFunc c aSeq) (SortedFunc c bSeq))"

text \<open>The second argument may be the nil slice, here \<open>None\<close>.\<close>

definition ComparedSlices :: "('a \<Rightarrow> 'a \<Rightarrow> int) \<Rightarrow> 'a list \<Rightarrow> 'a list option \<Rightarrow> int" where
  "ComparedSlices c a ob = (case ob of
     None \<Rightarrow> 1
   | Some b \<Rightarrow>
       (let x = cmp_Compare (length a) (length b) in
        if x \<noteq> 0 then x else compare_positions c a b))"

lemma insert_by_cong:
  assumes "\<And>y. y \<in> set ys \<Longrightarrow> c x y = d x y"
  shows "insert_by c x ys = insert_by d x ys"
  using assms by (induction ys) auto

lemma mset_insert_by [simp]: "mset (insert_by c x ys) = add_mset x (mset ys)"
  by (induction ys) auto

lemma mset_SortedFunc [simp]: "mset (SortedFunc c xs) = mset xs"
  by (induction xs) auto

lemma set_SortedFunc [simp]: "set (SortedFunc c xs) = set xs"
  by (metis mset_SortedFunc set_mset_mset)

lemma length_SortedFunc [simp]: "length (SortedFunc c xs) = length xs"
  by (metis mset_SortedFunc size_mset)

lemma distinct_SortedFunc [simp]: "distinct (SortedFunc c xs) = distinct xs"
  by (metis mset_SortedFunc mset_eq_imp_distinct_iff)

lemma SortedFunc_cong [fundef_cong]:
  assumes "xs = ys" and "\<And>a b. a \<in> set ys \<Longrightarrow> b \<in> set ys \<Longrightarrow> c a b = d a b"
  shows "SortedFunc c xs = SortedFunc d ys"
  unfolding assms(1) using assms(2)
proof (induction ys)
  case (Cons y ys)
  then show ?case by (auto intro: insert_by_cong)
qed simp

lemma compare_positions_cong [fundef_cong]:
  assumes "as = as'" "bs = bs'"
    and "\<And>a b. a \<in> set as' \<Longrightarrow> b \<in> set bs' \<Longrightarrow> c a b = d a b"
  shows "compare_positions c as bs = compare_positions d as' bs'"
  unfolding assms(1,2) using assms(3)
proof (induction c as' bs' rule: compare_positions.induct)
  case (1 c a as b bs)
  then show ?case by (simp add: Let_def)
qed auto

lemma Compared_cong [fundef_cong]:
  assumes "as = as'" "bs = bs'"
    and "\<And>a b. a \<in> set as' \<union> set bs' \<Longrightarrow> b \<in> set as' \<union> set bs' \<Longrightarrow> c a b = d a b"
  shows "Compared c as bs = Compared d as' bs'"
proof -
  have "SortedFunc c as' = SortedFunc d as'" "SortedFunc c bs' = SortedFunc d bs'"
    by (rule SortedFunc_cong; simp add: assms(3))+
  moreover have "compare_positions c (SortedFunc d as') (SortedFunc d bs') =
      compare_positions d (SortedFunc d as') (SortedFunc d bs')"
    by (rule compare_positions_cong) (simp_all add: assms(3))
  ultimately show ?thesis by (simp add: Compared_def assms(1,2))
qed

lemma ComparedSlices_Some:
  "ComparedSlices c a (Some b) = then_cmp (cmp_Compare (length a) (length b)) (compare_positions c a b)"
  by (simp add: ComparedSlices_def then_cmp_def Let_def)

lemma Compared_then:
  "Compared c a b = then_cmp (cmp_Compare (length a) (length b))
     (compare_positions c (SortedFunc c a) (SortedFunc c b))"
  by (simp add: Compared_def then_cmp_def Let_def)

subsection \<open>Comparison of sequences keeps the comparator laws\<close>

lemma compare_positions_list_all2:
  "compare_positions c as bs = 0 \<Longrightarrow> length as = length bs \<Longrightarrow> list_all2 (\<lambda>a b. c a b = 0) as bs"
  by (induction c as bs rule: compare_positions.induct) (auto simp: Let_def split: if_splits)

lemma list_all2_compare_positions:
  "list_all2 (\<lambda>a b. c a b = 0) as bs \<Longrightarrow> compare_positions c as bs = 0"
  by (induction rule: list_all2_induct) auto

context comparator_on begin

lemma positions: "comparator_on {xs. length xs = n \<and> set xs \<subseteq> A} (compare_positions c)"
proof (induction n)
  case 0
  show ?case by (rule comparator_on.intro) auto
next
  case (Suc n)
  have "comparator_on {xs. length xs = Suc n \<and> set xs \<subseteq> A}
      (\<lambda>xs ys. then_cmp (c (hd xs) (hd ys)) (compare_positions c (tl xs) (tl ys)))"
    by (intro comparator_on_then comparator_on_map[OF comparator_on_axioms]
          comparator_on_map[OF Suc.IH])
       (auto simp: length_Suc_conv)
  then show ?case
    by (rule comparator_on_cong) (auto simp: length_Suc_conv then_cmp_def)
qed

lemma slices: "comparator_on {xs. set xs \<subseteq> A} (\<lambda>a b. ComparedSlices c a (Some b))"
  unfolding ComparedSlices_Some
proof (rule comparator_on_guard)
  show "comparator_on {xs. set xs \<subseteq> A} (\<lambda>x y. cmp_Compare (length x) (length y))"
    by (rule comparator_on_map[OF cmp_std.comparator_on_axioms]) simp
  fix x :: "'a list"
  show "comparator_on {y \<in> {xs. set xs \<subseteq> A}. cmp_Compare (length x) (length y) = 0}
      (compare_positions c)"
    by (rule comparator_on_subset[OF positions[of "length x"]]) auto
qed

lemma compared: "comparator_on {xs. set xs \<subseteq> A} (Compared c)"
proof -
  have "comparator_on {xs. set xs \<subseteq> A}
      (\<lambda>a b. ComparedSlices c (SortedFunc c a) (Some (SortedFunc c b)))"
    by (rule comparator_on_map[OF slices]) simp
  then show ?thesis
    by (rule comparator_on_cong) (simp add: ComparedSlices_Some Compared_then)
qed

lemma sorted_insert_by:
  assumes "x \<in> A" "set ys \<subseteq> A" "sorted_wrt (\<lambda>a b. c a b \<le> 0) ys"
  shows "sorted_wrt (\<lambda>a b. c a b \<le> 0) (insert_by c x ys)"
  using assms
proof (induction ys)
  case (Cons y ys)
  have set: "set (insert_by c x ys) = insert x (set ys)"
    by (metis mset_insert_by set_mset_add_mset_insert set_mset_mset)
  show ?case
  proof (cases "c x y \<le> 0")
    case True
    with Cons.prems show ?thesis using trans[of x y] by fastforce
  next
    case False
    then have "c y x \<le> 0" using Cons.prems sym_le[of x y] by simp
    with Cons False set show ?thesis by auto
  qed
qed simp

lemma sorted_SortedFunc:
  "set xs \<subseteq> A \<Longrightarrow> sorted_wrt (\<lambda>a b. c a b \<le> 0) (SortedFunc c xs)"
  by (induction xs) (simp_all add: sorted_insert_by)

lemma sorted_classes_unique:
  assumes "sorted_wrt (\<lambda>a b. c a b \<le> 0) xs" "sorted_wrt (\<lambda>a b. c a b \<le> 0) ys"
    and "set xs \<subseteq> A" "set ys \<subseteq> A"
    and "\<And>a. a \<in> A \<Longrightarrow> length (filter (\<lambda>b. c a b = 0) xs) = length (filter (\<lambda>b. c a b = 0) ys)"
  shows "list_all2 (\<lambda>a b. c a b = 0) xs ys"
  using assms
proof (induction xs arbitrary: ys)
  case Nil
  have "ys = []"
  proof (rule ccontr)
    assume "ys \<noteq> []"
    then obtain y zs where "ys = y # zs" by (cases ys) auto
    with Nil.prems(4) Nil.prems(5)[of y] refl[of y] show False by simp
  qed
  then show ?case by simp
next
  case (Cons x xs)
  have xA: "x \<in> A" using Cons.prems by simp
  have "filter (\<lambda>b. c x b = 0) ys \<noteq> []"
    using Cons.prems(5)[OF xA] refl[OF xA] by auto
  then obtain y zs where ys: "ys = y # zs" by (cases ys) auto
  have yA: "y \<in> A" using Cons.prems ys by simp
  have "c x y \<le> 0"
  proof -
    have "filter (\<lambda>b. c y b = 0) (x # xs) \<noteq> []"
      using Cons.prems(5)[OF yA] ys refl[OF yA] by auto
    then obtain w where w: "w \<in> set (x # xs)" "c y w = 0"
      unfolding filter_empty_conv by blast
    then have "w \<in> A" "c x w \<le> 0" using Cons.prems refl[OF xA] by auto
    moreover have "c w y \<le> 0" using w(2) eq_sym[of w y] \<open>w \<in> A\<close> yA by simp
    ultimately show ?thesis using trans[of x w y] xA yA by simp
  qed
  moreover have "c y x \<le> 0"
  proof -
    from \<open>filter (\<lambda>b. c x b = 0) ys \<noteq> []\<close>
    obtain w where w: "w \<in> set ys" "c x w = 0"
      unfolding filter_empty_conv by blast
    then have "w \<in> A" "c y w \<le> 0" using Cons.prems ys refl[OF yA] by auto
    moreover have "c w x \<le> 0" using w(2) eq_sym[of w x] \<open>w \<in> A\<close> xA by simp
    ultimately show ?thesis using trans[of y w x] xA yA by simp
  qed
  ultimately have xy: "c x y = 0" using sym_le[of x y] xA yA by simp
  have same: "c a x = 0 \<longleftrightarrow> c a y = 0" if "a \<in> A" for a
    using eq_trans[of a x y] eq_trans[of a y x] eq_sym[of x y] xy xA yA that by auto
  have "list_all2 (\<lambda>a b. c a b = 0) xs zs"
  proof (rule Cons.IH)
    fix a assume "a \<in> A"
    then show "length (filter (\<lambda>b. c a b = 0) xs) = length (filter (\<lambda>b. c a b = 0) zs)"
      using Cons.prems(5)[of a] same[of a] ys by (simp split: if_splits)
  qed (use Cons.prems ys in auto)
  with xy ys show ?case by simp
qed

text \<open>Two sequences compare as equal exactly when every element has the same number of
  equals in both, in whatever order they come.\<close>

lemma compared_0_iff:
  assumes "set xs \<subseteq> A" "set ys \<subseteq> A"
  shows "Compared c xs ys = 0 \<longleftrightarrow>
    (\<forall>a \<in> A. length (filter (\<lambda>b. c a b = 0) xs) = length (filter (\<lambda>b. c a b = 0) ys))"
    (is "_ \<longleftrightarrow> (\<forall>a \<in> A. ?n a xs = ?n a ys)")
proof
  have n: "?n a (SortedFunc c zs) = ?n a zs" for a zs
    by (metis mset_SortedFunc mset_filter size_mset)
  {
    assume 0: "Compared c xs ys = 0"
    then have "length xs = length ys"
      "compare_positions c (SortedFunc c xs) (SortedFunc c ys) = 0"
      by (simp_all add: Compared_then)
    then have all2: "list_all2 (\<lambda>a b. c a b = 0) (SortedFunc c xs) (SortedFunc c ys)"
      by (intro compare_positions_list_all2) simp_all
    have "?n a us = ?n a vs"
      if "list_all2 (\<lambda>a b. c a b = 0) us vs" "set us \<subseteq> A" "set vs \<subseteq> A" "a \<in> A" for a us vs
      using that
    proof (induction rule: list_all2_induct)
      case (Cons x xs y ys)
      then have "c a x = 0 \<longleftrightarrow> c a y = 0"
        using eq_trans[of a x y] eq_trans[of a y x] eq_sym[of x y] by auto
      with Cons show ?case by simp
    qed simp
    with all2 assms show "\<forall>a \<in> A. ?n a xs = ?n a ys" by (metis n set_SortedFunc)
  next
    assume eq: "\<forall>a \<in> A. ?n a xs = ?n a ys"
    have all2: "list_all2 (\<lambda>a b. c a b = 0) (SortedFunc c xs) (SortedFunc c ys)"
      by (rule sorted_classes_unique) (use assms eq n sorted_SortedFunc in auto)
    then have "length xs = length ys" by (metis length_SortedFunc list_all2_lengthD)
    with all2 show "Compared c xs ys = 0"
      by (simp add: Compared_then list_all2_compare_positions)
  }
qed

lemma compared_mset: "set xs \<subseteq> A \<Longrightarrow> mset xs = mset ys \<Longrightarrow> Compared c xs ys = 0"
proof -
  assume A: "set xs \<subseteq> A" and m: "mset xs = mset ys"
  have "set ys \<subseteq> A" using A mset_eq_setD[OF m] by simp
  moreover have "length (filter P xs) = length (filter P ys)" for P
    using arg_cong[OF m, of "\<lambda>M. size (filter_mset P M)"] by (simp flip: mset_filter)
  ultimately show ?thesis using A by (simp add: compared_0_iff)
qed

end

text \<open>Where only equal values compare as equal, comparison of sequences decides equality of
  lists and of multisets.\<close>

locale order_on = comparator_on +
  assumes antisym: "x \<in> A \<Longrightarrow> y \<in> A \<Longrightarrow> c x y = 0 \<Longrightarrow> x = y"
begin

lemma eq_iff: "x \<in> A \<Longrightarrow> y \<in> A \<Longrightarrow> c x y = 0 \<longleftrightarrow> x = y"
  using antisym refl by blast

lemma slices_0_iff:
  assumes "set xs \<subseteq> A" "set ys \<subseteq> A"
  shows "ComparedSlices c xs (Some ys) = 0 \<longleftrightarrow> xs = ys"
proof
  assume "ComparedSlices c xs (Some ys) = 0"
  then have "list_all2 (\<lambda>a b. c a b = 0) xs ys"
    by (intro compare_positions_list_all2) (simp_all add: ComparedSlices_Some)
  then show "xs = ys" using assms
    by (induction rule: list_all2_induct) (auto intro: antisym)
next
  assume "xs = ys"
  then show "ComparedSlices c xs (Some ys) = 0"
    using comparator_on.refl[OF slices] assms by simp
qed

lemma compared_0_mset:
  assumes "set xs \<subseteq> A" "set ys \<subseteq> A"
  shows "Compared c xs ys = 0 \<longleftrightarrow> mset xs = mset ys"
proof
  assume "Compared c xs ys = 0"
  then have "ComparedSlices c (SortedFunc c xs) (Some (SortedFunc c ys)) = 0"
    by (simp add: Compared_then ComparedSlices_Some)
  then have "SortedFunc c xs = SortedFunc c ys"
    using slices_0_iff[of "SortedFunc c xs" "SortedFunc c ys"] assms by simp
  then show "mset xs = mset ys" by (metis mset_SortedFunc)
qed (use assms compared_mset in blast)

lemma sorted_unique:
  assumes "set xs \<subseteq> A" "mset xs = mset ys"
  shows "SortedFunc c xs = SortedFunc c ys"
proof -
  have ys: "set ys \<subseteq> A" using assms by (metis mset_eq_setD)
  have "ComparedSlices c (SortedFunc c xs) (Some (SortedFunc c ys)) = 0"
    using compared_mset[OF assms] by (simp add: Compared_then ComparedSlices_Some)
  then show ?thesis
    using slices_0_iff[of "SortedFunc c xs" "SortedFunc c ys"] assms(1) ys by simp
qed

end

interpretation cmp_order: order_on UNIV "cmp_Compare :: 'a::linorder \<Rightarrow> 'a \<Rightarrow> int"
  by unfold_locales simp

section \<open>hashset.go\<close>

datatype 'a hashset = HashSet (buckets: "(u64 \<times> 'a list) list") (hs_size: nat)

definition HashSet_empty :: "'a hashset" where
  "HashSet_empty = HashSet [] 0"

definition HashSet_Size :: "'a hashset \<Rightarrow> nat" where
  "HashSet_Size s = hs_size s"

definition HashSet_Clone :: "'a hashset \<Rightarrow> 'a hashset" where
  "HashSet_Clone s = HashSet (map (\<lambda>(h, bucket). (h, [] @ bucket)) (buckets s)) (hs_size s)"

definition HashSet_Iter :: "'a hashset \<Rightarrow> 'a list" where
  "HashSet_Iter s = concat (map snd (buckets s))"

definition HashSet_Insert ::
    "('a \<Rightarrow> u64) \<Rightarrow> ('a \<Rightarrow> 'a \<Rightarrow> bool) \<Rightarrow> 'a hashset \<Rightarrow> 'a \<Rightarrow> bool \<times> 'a hashset" where
  "HashSet_Insert h eq s newElement =
     (let k = h newElement;
          bucket = (case map_of (buckets s) k of None \<Rightarrow> [] | Some b \<Rightarrow> b)
      in if list_ex (\<lambda>existingElement. eq existingElement newElement) bucket then (False, s)
         else (True, HashSet (AList.update k (bucket @ [newElement]) (buckets s)) (Suc (hs_size s))))"

definition NewHashSet :: "('a \<Rightarrow> u64) \<Rightarrow> ('a \<Rightarrow> 'a \<Rightarrow> bool) \<Rightarrow> 'a list \<Rightarrow> 'a hashset" where
  "NewHashSet h eq values = fold (\<lambda>v s. snd (HashSet_Insert h eq s v)) values HashSet_empty"

text \<open>\<^verbatim>\<open>Remove\<close> overwrites the first equal element by the last one of its bucket and
  shortens the bucket.\<close>

fun find_index :: "('a \<Rightarrow> bool) \<Rightarrow> 'a list \<Rightarrow> nat option" where
  "find_index P [] = None"
| "find_index P (x # xs) = (if P x then Some 0 else map_option Suc (find_index P xs))"

definition HashSet_Remove ::
    "('a \<Rightarrow> u64) \<Rightarrow> ('a \<Rightarrow> 'a \<Rightarrow> bool) \<Rightarrow> 'a hashset \<Rightarrow> 'a \<Rightarrow> bool \<times> 'a hashset" where
  "HashSet_Remove h eq s toRemove =
     (let k = h toRemove in
      case map_of (buckets s) k of
        None \<Rightarrow> (False, s)
      | Some bucket \<Rightarrow>
          (case find_index (\<lambda>existingElement. eq existingElement toRemove) bucket of
             None \<Rightarrow> (False, s)
           | Some i \<Rightarrow> (True, HashSet
               (AList.update k (butlast (bucket[i := last bucket])) (buckets s)) (hs_size s - 1))))"

definition HashSet_Contains ::
    "('a \<Rightarrow> u64) \<Rightarrow> ('a \<Rightarrow> 'a \<Rightarrow> bool) \<Rightarrow> 'a hashset \<Rightarrow> 'a \<Rightarrow> bool" where
  "HashSet_Contains h eq s element =
     (let k = h element;
          bucket = (case map_of (buckets s) k of None \<Rightarrow> [] | Some b \<Rightarrow> b)
      in list_ex (\<lambda>existingElement. eq existingElement element) bucket)"

definition HashSet_Intersect ::
    "('a \<Rightarrow> u64) \<Rightarrow> ('a \<Rightarrow> 'a \<Rightarrow> bool) \<Rightarrow> 'a hashset \<Rightarrow> 'a hashset \<Rightarrow> 'a hashset" where
  "HashSet_Intersect h eq s other =
     fold (\<lambda>leftElement result. if HashSet_Contains h eq other leftElement
             then snd (HashSet_Insert h eq result leftElement) else result)
       (HashSet_Iter s) (NewHashSet h eq [])"

definition HashSet_Union ::
    "('a \<Rightarrow> u64) \<Rightarrow> ('a \<Rightarrow> 'a \<Rightarrow> bool) \<Rightarrow> 'a hashset \<Rightarrow> 'a hashset \<Rightarrow> 'a hashset" where
  "HashSet_Union h eq s other =
     fold (\<lambda>newElement result. snd (HashSet_Insert h eq result newElement))
       (HashSet_Iter other) (HashSet_Clone s)"

definition HashSet_IsSuperSet ::
    "('a \<Rightarrow> u64) \<Rightarrow> ('a \<Rightarrow> 'a \<Rightarrow> bool) \<Rightarrow> 'a hashset \<Rightarrow> 'a hashset \<Rightarrow> bool" where
  "HashSet_IsSuperSet h eq s other =
     list_all (\<lambda>otherElement. HashSet_Contains h eq s otherElement) (HashSet_Iter other)"

definition HashSet_ToSlice :: "'a hashset \<Rightarrow> 'a list" where
  "HashSet_ToSlice s = HashSet_Iter s"

lemma HashSet_Clone_id [simp]: "HashSet_Clone s = s"
  by (cases s) (simp add: HashSet_Clone_def case_prod_unfold)

lemma HashSet_Iter_empty [simp]: "HashSet_Iter HashSet_empty = []"
  by (simp add: HashSet_Iter_def HashSet_empty_def)

lemma set_hashset_Iter: "set_hashset s = set (HashSet_Iter s)"
  by (cases s) (auto simp: HashSet_Iter_def)

section \<open>What the operations promise\<close>

text \<open>
  \<open>hs_inv\<close>: buckets have distinct keys, every element lies in the bucket of its hash, no
  element occurs twice, and the stored size is the number of elements.
\<close>

definition hs_inv :: "('a \<Rightarrow> u64) \<Rightarrow> ('a \<Rightarrow> bool) \<Rightarrow> 'a hashset \<Rightarrow> bool" where
  "hs_inv h ok s \<longleftrightarrow> distinct (map fst (buckets s)) \<and>
     (\<forall>(k, b) \<in> set (buckets s). \<forall>x \<in> set b. h x = k \<and> ok x) \<and>
     distinct (HashSet_Iter s) \<and> hs_size s = length (HashSet_Iter s)"

abbreviation hs_set :: "'a hashset \<Rightarrow> 'a set" where
  "hs_set s \<equiv> set (HashSet_Iter s)"

definition bucket_at :: "'a hashset \<Rightarrow> u64 \<Rightarrow> 'a list" where
  "bucket_at s k = (case map_of (buckets s) k of None \<Rightarrow> [] | Some b \<Rightarrow> b)"

lemma concat_update_mset:
  "distinct (map fst al) \<Longrightarrow>
   mset (concat (map snd (AList.update k b al))) + mset (case map_of al k of None \<Rightarrow> [] | Some b' \<Rightarrow> b')
     = mset (concat (map snd al)) + mset b"
proof (induction al)
  case (Cons a al)
  show ?case
  proof (cases "fst a = k")
    case True
    then show ?thesis by (cases a) simp
  next
    case False
    with Cons show ?thesis by (cases a) (simp add: ac_simps)
  qed
qed simp

lemma hs_inv_empty [simp]: "hs_inv h ok HashSet_empty"
  by (simp add: hs_inv_def HashSet_empty_def HashSet_Iter_def)

lemma hs_inv_distinct: "hs_inv h ok s \<Longrightarrow> distinct (HashSet_Iter s)"
  by (simp add: hs_inv_def)

lemma hs_inv_ok: "hs_inv h ok s \<Longrightarrow> x \<in> hs_set s \<Longrightarrow> ok x"
  by (auto simp: hs_inv_def HashSet_Iter_def)

lemma hs_inv_size: "hs_inv h ok s \<Longrightarrow> HashSet_Size s = card (hs_set s)"
  by (simp add: hs_inv_def HashSet_Size_def distinct_card)

lemma hs_inv_member:
  "hs_inv h ok s \<Longrightarrow> (k, b) \<in> set (buckets s) \<Longrightarrow> x \<in> set b \<Longrightarrow> x \<in> hs_set s \<and> h x = k"
  by (force simp: hs_inv_def HashSet_Iter_def)

lemma in_update_cases:
  "(k, b) \<in> set (AList.update k' v al) \<Longrightarrow> (k, b) \<in> set al \<or> k = k' \<and> b = v"
  by (induction al) (auto split: if_splits)

lemma hs_inv_bucket:
  assumes "hs_inv h ok s"
  shows "x \<in> set (bucket_at s k) \<longleftrightarrow> x \<in> hs_set s \<and> h x = k"
proof
  assume "x \<in> set (bucket_at s k)"
  then obtain b where "(k, b) \<in> set (buckets s)" "x \<in> set b"
    unfolding bucket_at_def by (cases "map_of (buckets s) k") (auto dest: map_of_SomeD)
  with assms show "x \<in> hs_set s \<and> h x = k"
    by (force simp: hs_inv_def HashSet_Iter_def)
next
  assume "x \<in> hs_set s \<and> h x = k"
  then obtain k' b where b: "(k', b) \<in> set (buckets s)" "x \<in> set b" and k: "h x = k"
    by (auto simp: HashSet_Iter_def)
  with assms have "k' = k" by (fastforce simp: hs_inv_def)
  with b assms have "map_of (buckets s) k = Some b"
    by (simp add: hs_inv_def)
  with b show "x \<in> set (bucket_at s k)" by (simp add: bucket_at_def)
qed

lemma find_index_Some: "find_index P xs = Some i \<Longrightarrow> i < length xs \<and> P (xs ! i)"
  by (induction xs arbitrary: i) (auto split: if_splits)

lemma find_index_None: "find_index P xs = None \<longleftrightarrow> (\<forall>x \<in> set xs. \<not> P x)"
  by (induction xs) auto

lemma mset_swap_remove:
  assumes "i < length b"
  shows "mset (butlast (b[i := last b])) = mset b - {#b ! i#}"
proof (cases "i = length b - 1")
  case True
  with assms obtain c z where "b = c @ [z]" by (cases b rule: rev_cases) auto
  with True show ?thesis by simp
next
  case False
  with assms have i: "i < length (butlast b)" and b: "b \<noteq> []" by auto
  have "butlast (b[i := last b]) = (butlast b)[i := last b]"
    using False by (simp add: butlast_list_update)
  then have "mset (butlast (b[i := last b])) = add_mset (last b) (mset (butlast b) - {#b ! i#})"
    using i by (simp add: mset_update nth_butlast)
  moreover have "mset b = add_mset (last b) (mset (butlast b))"
    using b by (metis append_butlast_last_id mset.simps(1,2) mset_append union_mset_add_mset_right add_0_right)
  moreover have "b ! i \<in># mset (butlast b)"
    using i by (metis nth_butlast nth_mem_mset)
  ultimately show ?thesis by simp
qed

text \<open>The contract of the element type: on the values it is used with, \<^verbatim>\<open>Equal\<close> is
  equality. The hash is then automatically the same on equal elements.\<close>

locale hash_elements =
  fixes h :: "'a \<Rightarrow> u64" and eq :: "'a \<Rightarrow> 'a \<Rightarrow> bool" and ok :: "'a \<Rightarrow> bool"
  assumes eq_iff: "ok x \<Longrightarrow> ok y \<Longrightarrow> eq x y \<longleftrightarrow> x = y"
begin

abbreviation "good \<equiv> hs_inv h ok"

lemma bucket_ex:
  assumes "good s" "ok x"
  shows "list_ex (\<lambda>e. eq e x) (bucket_at s (h x)) \<longleftrightarrow> x \<in> hs_set s"
  using assms eq_iff hs_inv_ok[OF assms(1)] hs_inv_bucket[OF assms(1), of _ "h x"]
  by (auto simp: list_ex_iff)

lemma contains_iff: "good s \<Longrightarrow> ok x \<Longrightarrow> HashSet_Contains h eq s x \<longleftrightarrow> x \<in> hs_set s"
  using bucket_ex[of s x] by (simp add: HashSet_Contains_def bucket_at_def Let_def)

lemma insert_eq:
  assumes "good s" "ok x"
  shows "HashSet_Insert h eq s x = (if x \<in> hs_set s then (False, s)
    else (True, HashSet (AList.update (h x) (bucket_at s (h x) @ [x]) (buckets s)) (Suc (hs_size s))))"
  using bucket_ex[OF assms] by (simp add: HashSet_Insert_def bucket_at_def Let_def)

lemma fst_insert: "good s \<Longrightarrow> ok x \<Longrightarrow> fst (HashSet_Insert h eq s x) \<longleftrightarrow> x \<notin> hs_set s"
  by (simp add: insert_eq)

lemma mset_insert:
  assumes "good s" "ok x" "x \<notin> hs_set s"
  shows "mset (HashSet_Iter (snd (HashSet_Insert h eq s x))) = add_mset x (mset (HashSet_Iter s))"
proof -
  have "distinct (map fst (buckets s))" using assms by (simp add: hs_inv_def)
  from concat_update_mset[OF this, of "h x" "bucket_at s (h x) @ [x]"]
  show ?thesis
    using assms by (simp add: insert_eq HashSet_Iter_def bucket_at_def split: option.splits)
qed

lemma set_insert:
  assumes "good s" "ok x"
  shows "hs_set (snd (HashSet_Insert h eq s x)) = insert x (hs_set s)"
proof (cases "x \<in> hs_set s")
  case True
  then show ?thesis using assms by (auto simp: insert_eq)
next
  case False
  show ?thesis
    using arg_cong[OF mset_insert[OF assms False], of set_mset] by simp
qed

lemma inv_insert:
  assumes "good s" "ok x"
  shows "good (snd (HashSet_Insert h eq s x))"
proof (cases "x \<in> hs_set s")
  case True
  then show ?thesis using assms by (simp add: insert_eq)
next
  case False
  let ?s = "snd (HashSet_Insert h eq s x)"
  have bk: "buckets ?s = AList.update (h x) (bucket_at s (h x) @ [x]) (buckets s)"
    "hs_size ?s = Suc (hs_size s)"
    using assms False by (simp_all add: insert_eq)
  have m: "mset (HashSet_Iter ?s) = mset (x # HashSet_Iter s)"
    using mset_insert[OF assms False] by simp
  have "distinct (HashSet_Iter ?s)" "length (HashSet_Iter ?s) = Suc (length (HashSet_Iter s))"
    using mset_eq_imp_distinct_iff[OF m] mset_eq_length[OF m] assms(1) False
    by (simp_all add: hs_inv_def)
  moreover have elems: "h y = k \<and> ok y" if "(k, b) \<in> set (buckets ?s)" "y \<in> set b" for k b y
  proof -
    note kb = that(1) and y = that(2)
    have "(k, b) \<in> set (buckets s) \<or> k = h x \<and> b = bucket_at s (h x) @ [x]"
      using kb unfolding bk by (rule in_update_cases)
    then have "y \<in> hs_set s \<and> h y = k \<or> y = x \<and> k = h x"
      using y assms(1) hs_inv_bucket[OF assms(1), of y "h x"] hs_inv_member[OF assms(1)]
      by fastforce
    then show ?thesis
      using assms hs_inv_ok[OF assms(1), of y] by blast
  qed
  moreover have "distinct (map fst (buckets ?s))"
    using assms by (simp add: bk distinct_update hs_inv_def)
  moreover have "\<forall>(k, b) \<in> set (buckets ?s). \<forall>y \<in> set b. h y = k \<and> ok y"
    using elems by blast
  moreover have "hs_size s = length (HashSet_Iter s)" using assms(1) by (simp add: hs_inv_def)
  ultimately show ?thesis unfolding hs_inv_def bk(2) by simp
qed

lemma fold_insert:
  assumes "good s" "\<forall>x \<in> set xs. ok x"
  shows "good (fold (\<lambda>v s. snd (HashSet_Insert h eq s v)) xs s)" (is ?A)
    and "hs_set (fold (\<lambda>v s. snd (HashSet_Insert h eq s v)) xs s) = hs_set s \<union> set xs" (is ?B)
proof -
  have "?A \<and> ?B" using assms
    by (induction xs arbitrary: s) (auto simp: inv_insert set_insert)
  then show ?A ?B by simp_all
qed

lemma new: "\<forall>x \<in> set xs. ok x \<Longrightarrow> good (NewHashSet h eq xs)"
  "\<forall>x \<in> set xs. ok x \<Longrightarrow> hs_set (NewHashSet h eq xs) = set xs"
  unfolding NewHashSet_def by (simp_all add: fold_insert)

lemma union:
  assumes "good s" "good t"
  shows "good (HashSet_Union h eq s t)" "hs_set (HashSet_Union h eq s t) = hs_set s \<union> hs_set t"
  unfolding HashSet_Union_def HashSet_Clone_id
  using fold_insert[OF assms(1)] hs_inv_ok[OF assms(2)] by simp_all

lemma intersect:
  assumes "good s" "good t"
  shows "good (HashSet_Intersect h eq s t)"
    "hs_set (HashSet_Intersect h eq s t) = hs_set s \<inter> hs_set t"
proof -
  have g: "\<forall>x \<in> set xs. ok x \<Longrightarrow> good r \<Longrightarrow>
      (let r' = fold (\<lambda>e result. if HashSet_Contains h eq t e
             then snd (HashSet_Insert h eq result e) else result) xs r in
       good r' \<and> hs_set r' = hs_set r \<union> (set xs \<inter> hs_set t))" for xs r
  proof (induction xs arbitrary: r)
    case (Cons x xs)
    let ?r = "if HashSet_Contains h eq t x then snd (HashSet_Insert h eq r x) else r"
    have "good ?r" "hs_set ?r = hs_set r \<union> ({x} \<inter> hs_set t)"
      using Cons.prems assms by (simp_all add: contains_iff inv_insert set_insert)
    with Cons.IH[of ?r] Cons.prems show ?case by (auto simp: Let_def)
  qed (simp add: Let_def)
  show "good (HashSet_Intersect h eq s t)"
    "hs_set (HashSet_Intersect h eq s t) = hs_set s \<inter> hs_set t"
    using g[of "HashSet_Iter s" "NewHashSet h eq []"] hs_inv_ok[OF assms(1)] new[of "[]"]
    by (simp_all add: HashSet_Intersect_def Let_def)
qed

lemma remove:
  assumes s: "good s" and x: "ok x"
  shows "fst (HashSet_Remove h eq s x) \<longleftrightarrow> x \<in> hs_set s" (is ?A)
    and "mset (HashSet_Iter (snd (HashSet_Remove h eq s x))) = mset (HashSet_Iter s) - {#x#}" (is ?B)
    and "hs_set (snd (HashSet_Remove h eq s x)) = hs_set s - {x}" (is ?C)
proof -
  let ?b = "bucket_at s (h x)" and ?t = "snd (HashSet_Remove h eq s x)"
  have mem: "y \<in> set ?b \<longleftrightarrow> y \<in> hs_set s \<and> h y = h x" for y by (rule hs_inv_bucket[OF s])
  have eqx: "y \<in> set ?b \<Longrightarrow> eq y x \<longleftrightarrow> y = x" for y
    using mem[of y] hs_inv_ok[OF s, of y] eq_iff[of y x] x by blast
  have "?A \<and> ?B"
  proof (cases "x \<in> hs_set s")
    case False
    then have "find_index (\<lambda>e. eq e x) ?b = None"
      unfolding find_index_None using eqx mem by blast
    then have "HashSet_Remove h eq s x = (False, s)"
      by (cases "map_of (buckets s) (h x)") (simp_all add: HashSet_Remove_def bucket_at_def Let_def)
    with False show ?thesis by (simp add: diff_single_trivial)
  next
    case True
    then have "x \<in> set ?b" using mem by blast
    then obtain i where i: "find_index (\<lambda>e. eq e x) ?b = Some i"
      using eqx[of x] find_index_None[of "\<lambda>e. eq e x" ?b] by (cases "find_index (\<lambda>e. eq e x) ?b") auto
    then have bi: "i < length ?b" "?b ! i = x"
      using find_index_Some[OF i] eqx[of "?b ! i"] by auto
    have bk: "map_of (buckets s) (h x) = Some ?b"
      using \<open>x \<in> set ?b\<close> by (cases "map_of (buckets s) (h x)") (simp_all add: bucket_at_def)
    have r: "HashSet_Remove h eq s x = (True, HashSet
        (AList.update (h x) (butlast (?b[i := last ?b])) (buckets s)) (hs_size s - 1))"
      using i bk by (simp add: HashSet_Remove_def Let_def)
    have d: "distinct (map fst (buckets s))" using s by (simp add: hs_inv_def)
    let ?al = "AList.update (h x) (butlast (?b[i := last ?b])) (buckets s)"
    have "mset (concat (map snd ?al)) + mset ?b = mset (concat (map snd (buckets s))) + (mset ?b - {#x#})"
      using concat_update_mset[OF d, of "h x" "butlast (?b[i := last ?b])"]
        mset_swap_remove[OF bi(1)] bi(2) bk by simp
    then have "mset (HashSet_Iter ?t) + mset ?b = mset (HashSet_Iter s) + (mset ?b - {#x#})"
      using r by (simp add: HashSet_Iter_def)
    moreover obtain B where "mset ?b = add_mset x B"
      using \<open>x \<in> set ?b\<close> by (metis mset_add set_mset_mset)
    ultimately have "mset (HashSet_Iter s) + B = add_mset x (mset (HashSet_Iter ?t)) + B" by simp
    then have "mset (HashSet_Iter s) = add_mset x (mset (HashSet_Iter ?t))"
      by (rule add_right_imp_eq)
    with True r show ?thesis by simp
  qed
  then show ?A and b: ?B by simp_all
  have "distinct (HashSet_Iter s)" using s by (rule hs_inv_distinct)
  then have "set_mset (mset (HashSet_Iter s) - {#x#}) = hs_set s - {x}"
    by (simp flip: mset_remove1 add: set_remove1_eq)
  with arg_cong[OF b, of set_mset] show ?C by simp
qed

lemma superset: "good s \<Longrightarrow> good t \<Longrightarrow> HashSet_IsSuperSet h eq s t \<longleftrightarrow> hs_set t \<subseteq> hs_set s"
  using hs_inv_ok[of h ok t] contains_iff[of s]
  by (auto simp: HashSet_IsSuperSet_def list_all_iff)

end

section \<open>Elements whose equality is coarser than identity, or not reflexive\<close>

text \<open>
  A weaker contract: elements that \<^verbatim>\<open>Equal\<close> identifies have the same meaning under
  \<open>m\<close>, but \<^verbatim>\<open>Equal\<close> need not be reflexive. A set may then hold copies, yet it still
  stands for the right set of meanings.
\<close>

definition hs_shape :: "('a \<Rightarrow> u64) \<Rightarrow> ('a \<Rightarrow> bool) \<Rightarrow> 'a hashset \<Rightarrow> bool" where
  "hs_shape h ok s \<longleftrightarrow> distinct (map fst (buckets s)) \<and>
     (\<forall>(k, b) \<in> set (buckets s). \<forall>x \<in> set b. h x = k \<and> ok x) \<and>
     hs_size s = length (HashSet_Iter s)"

lemma hs_inv_shape: "hs_inv h ok s \<Longrightarrow> hs_shape h ok s"
  by (simp add: hs_inv_def hs_shape_def)

lemma hs_shape_ok: "hs_shape h ok s \<Longrightarrow> x \<in> hs_set s \<Longrightarrow> ok x"
  by (auto simp: hs_shape_def HashSet_Iter_def)

lemma hs_shape_bucket:
  assumes "hs_shape h ok s" "x \<in> set (bucket_at s k)"
  shows "x \<in> hs_set s \<and> h x = k \<and> ok x"
proof -
  obtain b where "(k, b) \<in> set (buckets s)" "x \<in> set b"
    using assms(2) unfolding bucket_at_def
    by (cases "map_of (buckets s) k") (auto dest: map_of_SomeD)
  then show ?thesis using assms(1) by (force simp: hs_shape_def HashSet_Iter_def)
qed

locale hash_elements_upto =
  fixes h :: "'a \<Rightarrow> u64" and eq :: "'a \<Rightarrow> 'a \<Rightarrow> bool" and ok :: "'a \<Rightarrow> bool" and m :: "'a \<Rightarrow> 'b"
  assumes eq_same: "ok x \<Longrightarrow> ok y \<Longrightarrow> eq x y \<Longrightarrow> m x = m y"
begin

abbreviation "shaped \<equiv> hs_shape h ok"

lemma insert_cases:
  assumes "shaped s" "ok x"
  obtains (old) e where "HashSet_Insert h eq s x = (False, s)" "e \<in> hs_set s" "m e = m x"
  | (new) "HashSet_Insert h eq s x =
      (True, HashSet (AList.update (h x) (bucket_at s (h x) @ [x]) (buckets s)) (Suc (hs_size s)))"
proof (cases "list_ex (\<lambda>e. eq e x) (bucket_at s (h x))")
  case True
  then obtain e where e: "e \<in> set (bucket_at s (h x))" "eq e x" by (auto simp: list_ex_iff)
  then have "e \<in> hs_set s" "ok e" using hs_shape_bucket[OF assms(1)] by auto
  then have "m e = m x" using eq_same e(2) assms(2) by simp
  moreover have "HashSet_Insert h eq s x = (False, s)"
    using True by (simp add: HashSet_Insert_def bucket_at_def Let_def)
  ultimately show ?thesis using old[of e] \<open>e \<in> hs_set s\<close> by simp
next
  case False
  then have "HashSet_Insert h eq s x =
      (True, HashSet (AList.update (h x) (bucket_at s (h x) @ [x]) (buckets s)) (Suc (hs_size s)))"
    by (simp add: HashSet_Insert_def bucket_at_def Let_def)
  then show ?thesis by (rule new)
qed

lemma insert_shaped:
  assumes "shaped s" "ok x"
  shows "shaped (snd (HashSet_Insert h eq s x))"
    and "m ` hs_set (snd (HashSet_Insert h eq s x)) = insert (m x) (m ` hs_set s)"
    and "hs_set s \<subseteq> hs_set (snd (HashSet_Insert h eq s x))"
proof -
  let ?s = "snd (HashSet_Insert h eq s x)"
  have "shaped ?s \<and> m ` hs_set ?s = insert (m x) (m ` hs_set s) \<and> hs_set s \<subseteq> hs_set ?s"
  proof (cases rule: insert_cases[OF assms])
    case (1 e)
    then show ?thesis using assms(1) by (auto simp: image_iff) metis
  next
    case 2
    let ?al = "AList.update (h x) (bucket_at s (h x) @ [x]) (buckets s)"
    have d: "distinct (map fst (buckets s))" using assms(1) by (simp add: hs_shape_def)
    have mset: "mset (concat (map snd ?al)) = add_mset x (mset (HashSet_Iter s))"
      using concat_update_mset[OF d, of "h x" "bucket_at s (h x) @ [x]"]
      by (simp add: HashSet_Iter_def bucket_at_def split: option.splits)
    have set: "hs_set ?s = insert x (hs_set s)"
      using arg_cong[OF mset, of set_mset] 2 by (simp add: HashSet_Iter_def)
    have len: "length (HashSet_Iter ?s) = Suc (length (HashSet_Iter s))"
      using arg_cong[OF mset, of size] 2 by (simp add: HashSet_Iter_def)
    have elems: "h y = k \<and> ok y" if "(k, b) \<in> set ?al" "y \<in> set b" for k b y
    proof -
      have "(k, b) \<in> set (buckets s) \<or> k = h x \<and> b = bucket_at s (h x) @ [x]"
        using that(1) by (rule in_update_cases)
      then show ?thesis
      proof
        assume "(k, b) \<in> set (buckets s)"
        then show ?thesis using assms(1) that(2) by (auto simp: hs_shape_def)
      next
        assume "k = h x \<and> b = bucket_at s (h x) @ [x]"
        then show ?thesis using hs_shape_bucket[OF assms(1), of y "h x"] that(2) assms(2) by auto
      qed
    qed
    have "buckets ?s = ?al" "hs_size ?s = length (HashSet_Iter ?s)"
      using 2 len assms(1) by (simp_all add: hs_shape_def)
    moreover have "distinct (map fst ?al)" using d by (simp add: distinct_update)
    moreover have "\<forall>(k, b) \<in> set ?al. \<forall>y \<in> set b. h y = k \<and> ok y" using elems by blast
    ultimately have "shaped ?s" unfolding hs_shape_def by simp
    then show ?thesis using set by auto
  qed
  then show "shaped ?s" "m ` hs_set ?s = insert (m x) (m ` hs_set s)" "hs_set s \<subseteq> hs_set ?s"
    by simp_all
qed

lemma fold_shaped:
  assumes "shaped s" "\<forall>x \<in> set xs. ok x"
  shows "shaped (fold (\<lambda>v s. snd (HashSet_Insert h eq s v)) xs s)" (is ?A)
    and "m ` hs_set (fold (\<lambda>v s. snd (HashSet_Insert h eq s v)) xs s) = m ` hs_set s \<union> m ` set xs" (is ?B)
proof -
  have "?A \<and> ?B" using assms
    by (induction xs arbitrary: s) (auto simp: insert_shaped)
  then show ?A ?B by simp_all
qed

lemma new_shaped: "\<forall>x \<in> set xs. ok x \<Longrightarrow> shaped (NewHashSet h eq xs)"
  "\<forall>x \<in> set xs. ok x \<Longrightarrow> m ` hs_set (NewHashSet h eq xs) = m ` set xs"
proof -
  have "shaped HashSet_empty" by (rule hs_inv_shape) simp
  then show "\<forall>x \<in> set xs. ok x \<Longrightarrow> shaped (NewHashSet h eq xs)"
    "\<forall>x \<in> set xs. ok x \<Longrightarrow> m ` hs_set (NewHashSet h eq xs) = m ` set xs"
    unfolding NewHashSet_def by (simp_all add: fold_shaped)
qed

lemma union_shaped:
  assumes "shaped s" "shaped t"
  shows "shaped (HashSet_Union h eq s t)"
    "m ` hs_set (HashSet_Union h eq s t) = m ` hs_set s \<union> m ` hs_set t"
  unfolding HashSet_Union_def HashSet_Clone_id
  using fold_shaped[OF assms(1)] hs_shape_ok[OF assms(2)] by simp_all

end

sublocale hash_elements \<subseteq> upto: hash_elements_upto h eq ok "\<lambda>x. x"
  by unfold_locales (simp add: eq_iff)

end
