(* ===== verification/Terms.thy ===== *)
theory Terms
  imports HashSets
begin

text \<open>
  Datalog terms (\<^verbatim>\<open>datalog/datalog.go\<close>): the seven kinds of values with their comparison,
  equality, hash and printing. The dynamic dispatch of the interface \<^verbatim>\<open>Term\<close> is
  \<open>Term_Compare\<close>, \<open>Term_Hash\<close> and \<open>Term_String\<close>; a nil interface value is \<open>None\<close>.
  Comparison is a total preorder on all terms and decides equality on terms without sets;
  two equal sets can be hashed differently, because the hash follows the order in which
  the buckets are visited.
\<close>

section \<open>The data\<close>

datatype Term =
    TVariable u32
  | TInteger u64   \<comment> \<open>an int64, read with \<open>sint\<close>\<close>
  | TString u64
  | TDate u64
  | TBytes "u8 list"
  | TBool bool
  | TSet "Term hashset"

datatype TermType =
    TermTypeVariable | TermTypeInteger | TermTypeString | TermTypeDate
  | TermTypeBytes | TermTypeBool | TermTypeSet

fun TermType_iota :: "TermType \<Rightarrow> nat" where
  "TermType_iota TermTypeVariable = 0"
| "TermType_iota TermTypeInteger = 1"
| "TermType_iota TermTypeString = 2"
| "TermType_iota TermTypeDate = 3"
| "TermType_iota TermTypeBytes = 4"
| "TermType_iota TermTypeBool = 5"
| "TermType_iota TermTypeSet = 6"

fun Term_Type :: "Term \<Rightarrow> TermType" where
  "Term_Type (TVariable _) = TermTypeVariable"
| "Term_Type (TInteger _) = TermTypeInteger"
| "Term_Type (TString _) = TermTypeString"
| "Term_Type (TDate _) = TermTypeDate"
| "Term_Type (TBytes _) = TermTypeBytes"
| "Term_Type (TBool _) = TermTypeBool"
| "Term_Type (TSet _) = TermTypeSet"

lemma Term_Type_cases:
  "Term_Type t = TermTypeVariable \<longleftrightarrow> (\<exists>x. t = TVariable x)"
  "Term_Type t = TermTypeInteger \<longleftrightarrow> (\<exists>x. t = TInteger x)"
  "Term_Type t = TermTypeString \<longleftrightarrow> (\<exists>x. t = TString x)"
  "Term_Type t = TermTypeDate \<longleftrightarrow> (\<exists>x. t = TDate x)"
  "Term_Type t = TermTypeBytes \<longleftrightarrow> (\<exists>x. t = TBytes x)"
  "Term_Type t = TermTypeBool \<longleftrightarrow> (\<exists>x. t = TBool x)"
  "Term_Type t = TermTypeSet \<longleftrightarrow> (\<exists>x. t = TSet x)"
  by (cases t; simp)+

definition cmp_Type :: "TermType \<Rightarrow> TermType \<Rightarrow> int" where
  "cmp_Type a b = cmp_Compare (TermType_iota a) (TermType_iota b)"

definition type_byte :: "TermType \<Rightarrow> u8" where
  "type_byte k = word_of_nat (TermType_iota k)"

lemma TermType_iota_inj [simp]: "TermType_iota a = TermType_iota b \<longleftrightarrow> a = b"
  by (cases a; cases b) simp_all

lemma cmp_Type_0 [simp]: "cmp_Type a b = 0 \<longleftrightarrow> a = b"
  by (simp add: cmp_Type_def)

section \<open>Comparison\<close>

definition Variable_Compare :: "u32 \<Rightarrow> Term option \<Rightarrow> int" where
  "Variable_Compare v t = (case t of None \<Rightarrow> 1 | Some t' \<Rightarrow>
     (let x = cmp_Type TermTypeVariable (Term_Type t') in
      if x \<noteq> 0 then x else (case t' of TVariable v2 \<Rightarrow> cmp_Compare v v2 | _ \<Rightarrow> 0)))"

definition Integer_Compare :: "u64 \<Rightarrow> Term option \<Rightarrow> int" where
  "Integer_Compare i t = (case t of None \<Rightarrow> 1 | Some t' \<Rightarrow>
     (let x = cmp_Type TermTypeInteger (Term_Type t') in
      if x \<noteq> 0 then x else (case t' of TInteger i2 \<Rightarrow> cmp_Compare (sint i) (sint i2) | _ \<Rightarrow> 0)))"

definition String_Compare :: "u64 \<Rightarrow> Term option \<Rightarrow> int" where
  "String_Compare s t = (case t of None \<Rightarrow> 1 | Some t' \<Rightarrow>
     (let x = cmp_Type TermTypeString (Term_Type t') in
      if x \<noteq> 0 then x else (case t' of TString s2 \<Rightarrow> cmp_Compare s s2 | _ \<Rightarrow> 0)))"

definition Date_Compare :: "u64 \<Rightarrow> Term option \<Rightarrow> int" where
  "Date_Compare d t = (case t of None \<Rightarrow> 1 | Some t' \<Rightarrow>
     (let x = cmp_Type TermTypeDate (Term_Type t') in
      if x \<noteq> 0 then x else (case t' of TDate d2 \<Rightarrow> cmp_Compare d d2 | _ \<Rightarrow> 0)))"

definition Bytes_Compare :: "u8 list \<Rightarrow> Term option \<Rightarrow> int" where
  "Bytes_Compare b t = (case t of None \<Rightarrow> 1 | Some t' \<Rightarrow>
     (let x = cmp_Type TermTypeBytes (Term_Type t') in
      if x \<noteq> 0 then x else (case t' of TBytes b2 \<Rightarrow> cmp_Compare b b2 | _ \<Rightarrow> 0)))"

definition Bool_Compare :: "bool \<Rightarrow> Term option \<Rightarrow> int" where
  "Bool_Compare b t = (case t of None \<Rightarrow> 1 | Some t' \<Rightarrow>
     (let x = cmp_Type TermTypeBool (Term_Type t') in
      if x \<noteq> 0 then x else (case t' of TBool b2 \<Rightarrow> CompareBool b b2 | _ \<Rightarrow> 0)))"

text \<open>\<^verbatim>\<open>Set.Compare\<close>, over the comparison of the elements.\<close>

definition Set_Compare :: "(Term \<Rightarrow> Term \<Rightarrow> int) \<Rightarrow> Term hashset \<Rightarrow> Term option \<Rightarrow> int" where
  "Set_Compare c s t = (case t of None \<Rightarrow> 1 | Some t' \<Rightarrow>
     (let x = cmp_Type TermTypeSet (Term_Type t') in
      if x \<noteq> 0 then x
      else (case t' of
          TSet s2 \<Rightarrow>
            (let x = Compared c (HashSet_Iter s) (HashSet_Iter s2) in if x \<noteq> 0 then x else 0)
        | _ \<Rightarrow> cmp_Compare (HashSet_Size s) 0)))"

fun elements_of :: "Term option \<Rightarrow> Term set" where
  "elements_of (Some (TSet s)) = set (HashSet_Iter s)"
| "elements_of _ = {}"

lemma Set_Compare_cong [fundef_cong]:
  assumes "s = s'" "t = t'"
    and "\<And>a b. a \<in> set (HashSet_Iter s') \<union> elements_of t' \<Longrightarrow>
      b \<in> set (HashSet_Iter s') \<union> elements_of t' \<Longrightarrow> c a b = d a b"
  shows "Set_Compare c s t = Set_Compare d s' t'"
proof -
  have "Compared c (HashSet_Iter s') (HashSet_Iter s2) = Compared d (HashSet_Iter s') (HashSet_Iter s2)"
    if "t' = Some (TSet s2)" for s2
    by (rule Compared_cong) (use assms(3) that in auto)
  then show ?thesis
    by (auto simp: Set_Compare_def assms(1,2) Let_def split: option.splits Term.splits)
qed

lemma size_element: "x \<in> set (HashSet_Iter s) \<Longrightarrow> size x < size (TSet s)"
proof -
  have el: "x \<in> set xs \<Longrightarrow> size x < size_list size xs" for xs :: "Term list"
    by (induction xs) auto
  have "x \<in> set (concat (map snd bs)) \<Longrightarrow>
      size x < size_list (size_prod (\<lambda>_. 0) (size_list size)) bs" for bs :: "(u64 \<times> Term list) list"
  proof (induction bs)
    case (Cons b bs)
    then consider "x \<in> set (snd b)" | "x \<in> set (concat (map snd bs))" by auto
    then show ?case
    proof cases
      case 1
      then show ?thesis using el[of "snd b"] by (cases b) simp
    next
      case 2
      then show ?thesis using Cons.IH by (cases b) simp
    qed
  qed simp
  then show "x \<in> set (HashSet_Iter s) \<Longrightarrow> size x < size (TSet s)"
    by (cases s) (fastforce simp: HashSet_Iter_def)
qed

function Term_Compare :: "Term \<Rightarrow> Term option \<Rightarrow> int" where
  "Term_Compare (TVariable v) t = Variable_Compare v t"
| "Term_Compare (TInteger i) t = Integer_Compare i t"
| "Term_Compare (TString s) t = String_Compare s t"
| "Term_Compare (TDate d) t = Date_Compare d t"
| "Term_Compare (TBytes b) t = Bytes_Compare b t"
| "Term_Compare (TBool b) t = Bool_Compare b t"
| "Term_Compare (TSet s) t = Set_Compare (\<lambda>a b. Term_Compare a (Some b)) s t"
  by pat_completeness auto
termination
proof (relation "measure (\<lambda>(a, t). max (size a) (case t of None \<Rightarrow> 0 | Some b \<Rightarrow> size b))", simp)
  fix s t a b
  assume "a \<in> set (HashSet_Iter s) \<union> elements_of t" "b \<in> set (HashSet_Iter s) \<union> elements_of t"
  moreover have "size x < max (size (TSet s)) (case t of None \<Rightarrow> 0 | Some b \<Rightarrow> size b)"
    if "x \<in> set (HashSet_Iter s) \<union> elements_of t" for x
  proof -
    have "size x < size (TSet s) \<or> size x < (case t of None \<Rightarrow> 0 | Some b \<Rightarrow> size b)"
      using that size_element[of x] by (cases t rule: elements_of.cases) auto
    then show ?thesis unfolding less_max_iff_disj .
  qed
  ultimately show "((a, Some b), (TSet s, t)) \<in>
      measure (\<lambda>(a, t). max (size a) (case t of None \<Rightarrow> 0 | Some b \<Rightarrow> size b))"
    by simp
qed

abbreviation term_cmp :: "Term \<Rightarrow> Term \<Rightarrow> int" where
  "term_cmp a b \<equiv> Term_Compare a (Some b)"

text \<open>The \<^verbatim>\<open>Equal\<close> methods all read \<^verbatim>\<open>x.Compare(t) == 0\<close>.\<close>

definition Term_Equal :: "Term \<Rightarrow> Term option \<Rightarrow> bool" where
  "Term_Equal a t \<longleftrightarrow> Term_Compare a t = 0"

section \<open>Hash\<close>

definition Variable_Hash :: "u32 \<Rightarrow> HashBuilder \<Rightarrow> HashBuilder" where
  "Variable_Hash v builder =
     HashBuilder_Uint64 (HashBuilder_Byte builder (type_byte TermTypeVariable)) (ucast v)"

definition Integer_Hash :: "u64 \<Rightarrow> HashBuilder \<Rightarrow> HashBuilder" where
  "Integer_Hash i builder =
     HashBuilder_Uint64 (HashBuilder_Byte builder (type_byte TermTypeInteger)) i"

definition String_Hash :: "u64 \<Rightarrow> HashBuilder \<Rightarrow> HashBuilder" where
  "String_Hash s builder =
     HashBuilder_Uint64 (HashBuilder_Byte builder (type_byte TermTypeString)) s"

definition Date_Hash :: "u64 \<Rightarrow> HashBuilder \<Rightarrow> HashBuilder" where
  "Date_Hash d builder =
     HashBuilder_Uint64 (HashBuilder_Byte builder (type_byte TermTypeDate)) d"

definition Bytes_Hash :: "u8 list \<Rightarrow> HashBuilder \<Rightarrow> HashBuilder" where
  "Bytes_Hash b builder =
     HashBuilder_Bytes (HashBuilder_Byte builder (type_byte TermTypeBytes)) b"

definition Bool_Hash :: "bool \<Rightarrow> HashBuilder \<Rightarrow> HashBuilder" where
  "Bool_Hash b builder =
     HashBuilder_Bool (HashBuilder_Byte builder (type_byte TermTypeBool)) b"

text \<open>\<^verbatim>\<open>Set.Hash\<close> writes the elements in the order the iterator yields them.\<close>

definition Set_Hash :: "(Term \<Rightarrow> HashBuilder \<Rightarrow> HashBuilder) \<Rightarrow> Term hashset \<Rightarrow> HashBuilder \<Rightarrow> HashBuilder" where
  "Set_Hash hash s builder =
     fold (\<lambda>term builder. hash term builder) (HashSet_Iter s)
       (HashBuilder_Byte builder (type_byte TermTypeSet))"

lemma Set_Hash_cong [fundef_cong]:
  assumes "s = s'" "b = b'" and "\<And>a hb. a \<in> set (HashSet_Iter s') \<Longrightarrow> f a hb = g a hb"
  shows "Set_Hash f s b = Set_Hash g s' b'"
  unfolding Set_Hash_def assms(1,2) by (rule fold_cong) (use assms(3) in auto)

function Term_Hash :: "Term \<Rightarrow> HashBuilder \<Rightarrow> HashBuilder" where
  "Term_Hash (TVariable v) builder = Variable_Hash v builder"
| "Term_Hash (TInteger i) builder = Integer_Hash i builder"
| "Term_Hash (TString s) builder = String_Hash s builder"
| "Term_Hash (TDate d) builder = Date_Hash d builder"
| "Term_Hash (TBytes b) builder = Bytes_Hash b builder"
| "Term_Hash (TBool b) builder = Bool_Hash b builder"
| "Term_Hash (TSet s) builder = Set_Hash Term_Hash s builder"
  by pat_completeness auto
termination
  by (relation "measure (\<lambda>(a, _). size a)") (auto dest: size_element)

abbreviation term_hash :: "runtime \<Rightarrow> Term \<Rightarrow> u64" where
  "term_hash rt \<equiv> built_hash rt Term_Hash"

abbreviation term_eq :: "Term \<Rightarrow> Term \<Rightarrow> bool" where
  "term_eq a b \<equiv> Term_Equal a (Some b)"

section \<open>Sets of terms\<close>

definition NewSet :: "runtime \<Rightarrow> Term list \<Rightarrow> Term hashset" where
  "NewSet rt terms = NewHashSet (term_hash rt) term_eq terms"

definition Set_Intersect :: "runtime \<Rightarrow> Term hashset \<Rightarrow> Term hashset \<Rightarrow> Term hashset" where
  "Set_Intersect rt s s2 = HashSet_Intersect (term_hash rt) term_eq s s2"

definition Set_Union :: "runtime \<Rightarrow> Term hashset \<Rightarrow> Term hashset \<Rightarrow> Term hashset" where
  "Set_Union rt s s2 = HashSet_Union (term_hash rt) term_eq s s2"

section \<open>Printing\<close>

definition Variable_String :: "u32 \<Rightarrow> string" where
  "Variable_String v = ''$'' @ show_nat (unat v)"

definition Integer_String :: "u64 \<Rightarrow> string" where
  "Integer_String i = show_int (sint i)"

definition String_String :: "u64 \<Rightarrow> string" where
  "String_String s = ''#'' @ show_nat (unat s)"

definition Date_String :: "runtime \<Rightarrow> u64 \<Rightarrow> string" where
  "Date_String rt d = rfc3339 rt d"

definition Bytes_String :: "u8 list \<Rightarrow> string" where
  "Bytes_String b = ''hex:'' @ hex_encode b"

definition Bool_String :: "bool \<Rightarrow> string" where
  "Bool_String b = (if b then ''true'' else ''false'')"

definition Set_String :: "(Term \<Rightarrow> string) \<Rightarrow> Term hashset \<Rightarrow> string" where
  "Set_String str s =
     (if HashSet_Size s = 0 then ''{,}''
      else (let strSlice = map str (Sorted term_cmp (HashSet_Iter s)) in
        ''{'' @ join_with '', '' (SortedFunc cmp_Compare strSlice) @ ''}''))"

lemma Set_String_cong [fundef_cong]:
  assumes "s = s'" and "\<And>a. a \<in> set (HashSet_Iter s') \<Longrightarrow> f a = g a"
  shows "Set_String f s = Set_String g s'"
proof -
  have "map f (Sorted term_cmp (HashSet_Iter s')) = map g (Sorted term_cmp (HashSet_Iter s'))"
    using assms(2) by (simp add: Sorted_def)
  then show ?thesis unfolding Set_String_def assms(1) by (simp only:)
qed

function Term_String :: "runtime \<Rightarrow> Term \<Rightarrow> string" where
  "Term_String rt (TVariable v) = Variable_String v"
| "Term_String rt (TInteger i) = Integer_String i"
| "Term_String rt (TString s) = String_String s"
| "Term_String rt (TDate d) = Date_String rt d"
| "Term_String rt (TBytes b) = Bytes_String b"
| "Term_String rt (TBool b) = Bool_String b"
| "Term_String rt (TSet s) = Set_String (\<lambda>a. Term_String rt a) s"
  by pat_completeness auto
termination
  by (relation "measure (\<lambda>(_, a). size a)") (auto dest: size_element)

section \<open>What comparison promises\<close>

lemmas method_Compare_defs =
  Variable_Compare_def Integer_Compare_def String_Compare_def Date_Compare_def
  Bytes_Compare_def Bool_Compare_def Set_Compare_def CompareBool_cmp

text \<open>Terms of different kinds are ordered by their kind; terms of one kind by their value.\<close>

lemma term_cmp_types:
  "Term_Type a \<noteq> Term_Type b \<Longrightarrow> term_cmp a b = cmp_Type (Term_Type a) (Term_Type b)"
  by (cases a) (simp_all add: method_Compare_defs Let_def)

lemma term_cmp_same [simp]:
  "term_cmp (TVariable v) (TVariable v2) = cmp_Compare v v2"
  "term_cmp (TInteger i) (TInteger i2) = cmp_Compare (sint i) (sint i2)"
  "term_cmp (TString s) (TString s2) = cmp_Compare s s2"
  "term_cmp (TDate d) (TDate d2) = cmp_Compare d d2"
  "term_cmp (TBytes b) (TBytes b2) = cmp_Compare b b2"
  "term_cmp (TBool c) (TBool c2) = cmp_Compare c c2"
  "term_cmp (TSet x) (TSet y) = Compared term_cmp (HashSet_Iter x) (HashSet_Iter y)"
  by (simp_all add: method_Compare_defs Let_def)

fun is_atomic :: "Term \<Rightarrow> bool" where
  "is_atomic (TSet _) = False"
| "is_atomic _ = True"

declare Term_Compare.simps [simp del]

text \<open>A view of the terms of one kind as values of a linear order.\<close>

lemma comparator_on_kind:
  assumes "\<And>x. x \<in> A \<Longrightarrow> x = f (g x)"
    and "\<And>u v. term_cmp (f u) (f v) = cmp_Compare (key u :: 'k::linorder) (key v)"
  shows "comparator_on A term_cmp"
proof (rule comparator_on_cong)
  show "comparator_on A (\<lambda>x y. cmp_Compare (key (g x)) (key (g y)))"
    by (rule comparator_on_map[OF cmp_std.comparator_on_axioms]) simp
  show "x \<in> A \<Longrightarrow> y \<in> A \<Longrightarrow> cmp_Compare (key (g x)) (key (g y)) = term_cmp x y" for x y
    using assms(1)[of x] assms(1)[of y] assms(2)[of "g x" "g y"] by simp
qed

lemma comparator_on_atoms:
  assumes "k \<noteq> TermTypeSet"
  shows "comparator_on {t \<in> A. Term_Type t = k} term_cmp"
proof (cases k)
  case TermTypeVariable
  show ?thesis unfolding TermTypeVariable
    by (rule comparator_on_kind[where f = TVariable and g = "\<lambda>t. case t of TVariable v \<Rightarrow> v" and key = id])
       (auto simp: cmp_simps split: Term.splits)
next
  case TermTypeInteger
  show ?thesis unfolding TermTypeInteger
    by (rule comparator_on_kind[where f = TInteger and g = "\<lambda>t. case t of TInteger v \<Rightarrow> v" and key = sint])
       (auto simp: cmp_simps split: Term.splits)
next
  case TermTypeString
  show ?thesis unfolding TermTypeString
    by (rule comparator_on_kind[where f = TString and g = "\<lambda>t. case t of TString v \<Rightarrow> v" and key = id])
       (auto simp: cmp_simps split: Term.splits)
next
  case TermTypeDate
  show ?thesis unfolding TermTypeDate
    by (rule comparator_on_kind[where f = TDate and g = "\<lambda>t. case t of TDate v \<Rightarrow> v" and key = id])
       (auto simp: cmp_simps split: Term.splits)
next
  case TermTypeBytes
  show ?thesis unfolding TermTypeBytes
    by (rule comparator_on_kind[where f = TBytes and g = "\<lambda>t. case t of TBytes v \<Rightarrow> v" and key = id])
       (auto simp: cmp_simps split: Term.splits)
next
  case TermTypeBool
  show ?thesis unfolding TermTypeBool
    by (rule comparator_on_kind[where f = TBool and g = "\<lambda>t. case t of TBool v \<Rightarrow> v" and key = id])
       (auto simp: cmp_simps split: Term.splits)
qed (use assms in simp)

lemma comparator_on_size: "comparator_on {t. size t < n} term_cmp"
proof (induction n)
  case 0
  show ?case by (rule comparator_on.intro) simp_all
next
  case (Suc n)
  show ?case
  proof (rule comparator_on_Un_guard[where k = "\<lambda>t. TermType_iota (Term_Type t)"])
    show "TermType_iota (Term_Type x) \<noteq> TermType_iota (Term_Type y) \<Longrightarrow>
        term_cmp x y = cmp_Compare (TermType_iota (Term_Type x)) (TermType_iota (Term_Type y))" for x y
      using term_cmp_types[of x y] by (simp add: cmp_Type_def)
    fix i
    show "comparator_on {x \<in> {t. size t < Suc n}. TermType_iota (Term_Type x) = i} term_cmp"
    proof (cases "\<exists>k. k \<noteq> TermTypeSet \<and> i = TermType_iota k")
      case True
      then obtain k where k: "k \<noteq> TermTypeSet" "i = TermType_iota k" by blast
      show ?thesis
        by (rule comparator_on_subset[OF comparator_on_atoms[OF k(1), of UNIV]]) (auto simp: k(2))
    next
      case False
      let ?A = "{x \<in> {t. size t < Suc n}. TermType_iota (Term_Type x) = i}"
      let ?f = "\<lambda>t. case t of TSet s \<Rightarrow> HashSet_Iter s"
      have sets: "\<exists>s. x = TSet s \<and> set (HashSet_Iter s) \<subseteq> {t. size t < n}" if "x \<in> ?A" for x
      proof -
        have "Term_Type x = TermTypeSet" using False that by auto
        then obtain s where s: "x = TSet s" by (cases x) simp_all
        have "size y < n" if "y \<in> set (HashSet_Iter s)" for y
          using size_element[OF that] \<open>x \<in> ?A\<close> s by simp
        with s show ?thesis by auto
      qed
      show ?thesis
      proof (rule comparator_on_cong)
        show "comparator_on ?A (\<lambda>x y. Compared term_cmp (?f x) (?f y))"
          by (rule comparator_on_map[OF comparator_on.compared[OF Suc.IH]]) (use sets in fastforce)
        show "x \<in> ?A \<Longrightarrow> y \<in> ?A \<Longrightarrow> Compared term_cmp (?f x) (?f y) = term_cmp x y" for x y
          using sets[of x] sets[of y] by (auto simp: cmp_simps)
      qed
    qed
  qed
qed

interpretation term_preorder: comparator_on UNIV term_cmp
proof (rule comparator_on.intro)
  fix x y z :: Term
  let ?n = "Suc (size x + size y + size z)"
  note c = comparator_on_size[of ?n]
  show "term_cmp x x = 0"
    by (rule comparator_on.refl[OF c]) simp
  show "term_cmp y x = - term_cmp x y"
    by (rule comparator_on.sym[OF c]) simp_all
  show "term_cmp x y \<le> 0 \<Longrightarrow> term_cmp y z \<le> 0 \<Longrightarrow> term_cmp x z \<le> 0"
    by (rule comparator_on.trans[OF c, of x y z]) simp_all
qed

interpretation atom_order: order_on "{t. is_atomic t}" term_cmp
proof (rule order_on.intro)
  show "comparator_on {t. is_atomic t} term_cmp"
    by (rule comparator_on_subset[OF term_preorder.comparator_on_axioms]) simp
  show "order_on_axioms {t. is_atomic t} term_cmp"
  proof
    fix x y assume "x \<in> {t. is_atomic t}" "y \<in> {t. is_atomic t}" and eq: "term_cmp x y = 0"
    moreover from eq have "Term_Type x = Term_Type y" using term_cmp_types[of x y] by fastforce
    ultimately show "x = y" by (cases x; cases y) (auto intro: signed_word_eqI)
  qed
qed

lemma atom_eq_iff: "is_atomic a \<Longrightarrow> is_atomic b \<Longrightarrow> term_eq a b \<longleftrightarrow> a = b"
  using atom_order.eq_iff[of a b] by (simp add: Term_Equal_def)

lemma atom_eq_term: "is_atomic a \<Longrightarrow> term_eq a b \<longleftrightarrow> a = b"
  using atom_eq_iff[of a b] term_cmp_types[of a b]
  by (cases b; cases a) (simp_all add: Term_Equal_def)

interpretation atom_set: hash_elements "term_hash rt" term_eq is_atomic for rt
  by unfold_locales (rule atom_eq_iff)

text \<open>
  \<^verbatim>\<open>Term.Compare\<close> is a total preorder on all terms, sets of sets included: reflexive,
  antisymmetric in sign, transitive. Sorting of sets and facts is well defined.
\<close>

theorem Term_Compare_total_preorder:
  "Term_Compare a (Some a) = 0 \<and>
   Term_Compare b (Some a) = - Term_Compare a (Some b) \<and>
   (Term_Compare a (Some b) \<le> 0 \<longrightarrow> Term_Compare b (Some c) \<le> 0 \<longrightarrow> Term_Compare a (Some c) \<le> 0)"
  using term_preorder.refl[of a] term_preorder.sym[of a b] term_preorder.trans[of a b c] by simp

theorem Term_Compare_total_preorder_witness:
  "Term_Compare (TInteger 1) (Some (TBool True)) \<le> 0 \<and>
   Term_Compare (TBool True) (Some (TSet HashSet_empty)) \<le> 0 \<and>
   Term_Compare (TInteger 1) (Some (TSet HashSet_empty)) \<le> 0"
proof -
  have "Term_Compare (TInteger 1) (Some (TBool True)) \<le> 0"
    "Term_Compare (TBool True) (Some (TSet HashSet_empty)) \<le> 0"
    by (simp_all add: term_cmp_types cmp_Type_def cmp_Compare_def)
  then show ?thesis
    using Term_Compare_total_preorder[of "TInteger 1" "TBool True" "TSet HashSet_empty"] by blast
qed

text \<open>
  Two sets of values are equal for \<^verbatim>\<open>Equal\<close> exactly when they hold the same values,
  whatever the layout of their buckets, provided they were built by the set operations.
\<close>

theorem Set_Equal_extensional:
  assumes "hs_inv (term_hash rt) is_atomic s" and "hs_inv (term_hash rt) is_atomic t"
  shows "Term_Equal (TSet s) (Some (TSet t)) \<longleftrightarrow> hs_set s = hs_set t"
proof -
  have "hs_set s \<subseteq> {t. is_atomic t}" "hs_set t \<subseteq> {t. is_atomic t}"
    using hs_inv_ok[OF assms(1)] hs_inv_ok[OF assms(2)] by auto
  then have "Compared term_cmp (HashSet_Iter s) (HashSet_Iter t) = 0 \<longleftrightarrow>
      mset (HashSet_Iter s) = mset (HashSet_Iter t)"
    by (rule atom_order.compared_0_mset)
  then show ?thesis
    using assms by (simp add: Term_Equal_def cmp_simps hs_inv_distinct set_eq_iff_mset_eq_distinct)
qed

theorem Set_Equal_extensional_witness:
  "Term_Equal (TSet (NewSet demo_runtime [TInteger 1, TBool True]))
     (Some (TSet (NewSet demo_runtime [TBool True, TInteger 1, TBool True])))"
proof -
  have inv: "hs_inv (term_hash demo_runtime) is_atomic (NewSet demo_runtime xs)"
    "hs_set (NewSet demo_runtime xs) = set xs" if "\<forall>x \<in> set xs. is_atomic x" for xs
    using atom_set.new[of xs demo_runtime] that by (simp_all add: NewSet_def)
  show ?thesis
    by (subst Set_Equal_extensional[OF inv(1) inv(1)]) (auto simp: inv(2))
qed

text \<open>
  Equal sets can write different bytes into the hash: \<^verbatim>\<open>Set.Hash\<close> follows the
  iteration order of the bucket map while \<^verbatim>\<open>Set.Equal\<close> ignores it. A hash set of facts
  that hold sets can therefore store one fact twice.
\<close>

theorem equal_sets_hash_apart:
  "\<exists>s t. Term_Equal (TSet s) (Some (TSet t)) \<and> hs_inv (term_hash rt) is_atomic s \<and>
     hs_inv (term_hash rt) is_atomic t \<and>
     Term_Hash (TSet s) NewHashBuilder \<noteq> Term_Hash (TSet t) NewHashBuilder"
proof -
  let ?a = "TBool True" and ?b = "TBool False"
  define k1 k2 where "k1 = term_hash rt ?a" and "k2 = term_hash rt ?b"
  define s t where "s = (if k1 = k2 then HashSet [(k1, [?a, ?b])] 2 else HashSet [(k1, [?a]), (k2, [?b])] 2)"
    and "t = (if k1 = k2 then HashSet [(k1, [?b, ?a])] 2 else HashSet [(k2, [?b]), (k1, [?a])] 2)"
  have it: "HashSet_Iter s = [?a, ?b]" "HashSet_Iter t = [?b, ?a]"
    by (simp_all add: s_def t_def HashSet_Iter_def)
  have inv: "hs_inv (term_hash rt) is_atomic s" "hs_inv (term_hash rt) is_atomic t"
    by (auto simp: hs_inv_def s_def t_def HashSet_Iter_def k1_def k2_def)
  have "Compared term_cmp (HashSet_Iter s) (HashSet_Iter t) = 0"
    using term_preorder.compared_mset[of "HashSet_Iter s" "HashSet_Iter t"] by (simp add: it)
  then have "Term_Equal (TSet s) (Some (TSet t))"
    unfolding Term_Equal_def term_cmp_same .
  moreover have "Term_Hash (TSet s) NewHashBuilder \<noteq> Term_Hash (TSet t) NewHashBuilder"
    by (simp add: Set_Hash_def it Bool_Hash_def HashBuilder_Bool_def HashBuilder_Byte_def)
  ultimately show ?thesis using inv by blast
qed

end
