(* ===== verification/Symbols.thy ===== *)
theory Symbols
  imports Terms
begin

text \<open>
  The symbol table (\<^verbatim>\<open>datalog/symbol.go\<close>) and the public key table
  (\<^verbatim>\<open>datalog/publickeys.go\<close>). Both intern values: an insertion returns an index that keeps
  its meaning while the table grows. That contract is the locale \<open>intern_table\<close>, which both
  tables interpret. A Go panic is \<open>None\<close>.
\<close>

section \<open>symbol.go: the table\<close>

definition DEFAULT_SYMBOLS :: "string list" where
  "DEFAULT_SYMBOLS = [''read'', ''write'', ''resource'', ''operation'', ''right'', ''time'', ''role'',
     ''owner'', ''tenant'', ''namespace'', ''user'', ''team'', ''service'', ''admin'', ''email'',
     ''group'', ''member'', ''ip_address'', ''client'', ''client_ip'', ''domain'', ''path'',
     ''version'', ''cluster'', ''node'', ''hostname'', ''nonce'', ''query'']"

definition OFFSET :: nat where
  "OFFSET = 1024"

type_synonym SymbolTable = "string list"

definition SymbolTable_Insert :: "SymbolTable \<Rightarrow> string \<Rightarrow> u64 \<times> SymbolTable" where
  "SymbolTable_Insert t s =
     (case find_index (\<lambda>v. v = s) DEFAULT_SYMBOLS of
        Some i \<Rightarrow> (word_of_nat i, t)
      | None \<Rightarrow>
          (case find_index (\<lambda>v. v = s) t of
             Some i \<Rightarrow> (word_of_nat (OFFSET + i), t)
           | None \<Rightarrow> (let t' = t @ [s] in (word_of_nat (OFFSET + length t' - 1), t'))))"

definition SymbolTable_Sym :: "SymbolTable \<Rightarrow> string \<Rightarrow> Term option" where
  "SymbolTable_Sym t s =
     (case find_index (\<lambda>v. v = s) DEFAULT_SYMBOLS of
        Some i \<Rightarrow> Some (TString (word_of_nat i))
      | None \<Rightarrow>
          (case find_index (\<lambda>v. v = s) t of
             Some i \<Rightarrow> Some (TString (word_of_nat (OFFSET + i)))
           | None \<Rightarrow> None))"

text \<open>\<^verbatim>\<open>Index\<close> panics when the symbol is absent.\<close>

definition SymbolTable_Index :: "SymbolTable \<Rightarrow> string \<Rightarrow> u64 option" where
  "SymbolTable_Index t s =
     (case find_index (\<lambda>v. v = s) DEFAULT_SYMBOLS of
        Some i \<Rightarrow> Some (word_of_nat i)
      | None \<Rightarrow>
          (case find_index (\<lambda>v. v = s) t of
             Some i \<Rightarrow> Some (word_of_nat (OFFSET + i))
           | None \<Rightarrow> None))"

text \<open>
  \<^verbatim>\<open>int(sy)\<close> reinterprets the 64 bits as a signed number, so a symbol from \<open>2 ^ 63\<close> on is
  negative, passes both comparisons and indexes the array of default symbols out of range: a panic.
\<close>

definition SymbolTable_Str :: "SymbolTable \<Rightarrow> u64 \<Rightarrow> string option" where
  "SymbolTable_Str t sy =
     (if sint sy < 1024 then
        (if sint sy > int (length DEFAULT_SYMBOLS) - 1
         then Some (''<invalid symbol '' @ show_nat (unat sy) @ ''>'')
         else if sint sy < 0 then None
         else Some (DEFAULT_SYMBOLS ! nat (sint sy)))
      else if sint sy - 1024 > int (length t) - 1
      then Some (''<invalid symbol '' @ show_nat (unat sy) @ ''>'')
      else Some (t ! nat (sint sy - 1024)))"

definition SymbolTable_Var :: "SymbolTable \<Rightarrow> u32 \<Rightarrow> string" where
  "SymbolTable_Var t v =
     (if unat v < 1024 then
        (if int (unat v) > int (length DEFAULT_SYMBOLS) - 1
         then ''<invalid variable '' @ show_nat (unat v) @ ''>''
         else DEFAULT_SYMBOLS ! unat v)
      else if int (unat v) - 1024 > int (length t) - 1
      then ''<invalid variable '' @ show_nat (unat v) @ ''>''
      else t ! (unat v - 1024))"

definition SymbolTable_Clone :: "SymbolTable \<Rightarrow> SymbolTable" where
  "SymbolTable_Clone t = t"

text \<open>The split-off part and what is left; \<^verbatim>\<open>None\<close> is the panic.\<close>

definition SymbolTable_SplitOff :: "SymbolTable \<Rightarrow> nat \<Rightarrow> (SymbolTable \<times> SymbolTable) option" where
  "SymbolTable_SplitOff t at' =
     (if at' > length t then None else Some (drop at' t, take at' t))"

definition SymbolTable_Len :: "SymbolTable \<Rightarrow> nat" where
  "SymbolTable_Len t = length t"

definition SymbolTable_IsDisjoint :: "SymbolTable \<Rightarrow> SymbolTable \<Rightarrow> bool" where
  "SymbolTable_IsDisjoint t other = list_all (\<lambda>os. \<not> List.member t os) other"

definition SymbolTable_Extend :: "SymbolTable \<Rightarrow> SymbolTable \<Rightarrow> SymbolTable" where
  "SymbolTable_Extend t other = fold (\<lambda>s t. snd (SymbolTable_Insert t s)) other t"

text \<open>\<^verbatim>\<open>FormatTerm\<close>: resolves strings and variables, also inside sets.\<close>

definition format_set :: "(Term \<Rightarrow> string option) \<Rightarrow> Term hashset \<Rightarrow> string option" where
  "format_set fmt v =
     (case those (map fmt (Sorted term_cmp (HashSet_Iter v))) of
        None \<Rightarrow> None
      | Some elements \<Rightarrow>
          (if length elements = 0 then Some ''{,}''
           else Some (''{'' @ join_with '', '' elements @ ''}'')))"

lemma format_set_cong [fundef_cong]:
  assumes "s = s'" and "\<And>a. a \<in> set (HashSet_Iter s') \<Longrightarrow> f a = g a"
  shows "format_set f s = format_set g s'"
proof -
  have "map f (Sorted term_cmp (HashSet_Iter s')) = map g (Sorted term_cmp (HashSet_Iter s'))"
    using assms(2) by (simp add: Sorted_def)
  then show ?thesis unfolding format_set_def assms(1) by (simp only:)
qed

function SymbolTable_FormatTerm :: "runtime \<Rightarrow> SymbolTable \<Rightarrow> Term \<Rightarrow> string option" where
  "SymbolTable_FormatTerm rt t (TString s) =
     (case SymbolTable_Str t s of None \<Rightarrow> None | Some str \<Rightarrow> Some (''\"'' @ str @ ''\"''))"
| "SymbolTable_FormatTerm rt t (TVariable v) = Some (''$'' @ SymbolTable_Var t v)"
| "SymbolTable_FormatTerm rt t (TSet v) = format_set (\<lambda>elem. SymbolTable_FormatTerm rt t elem) v"
| "SymbolTable_FormatTerm rt t (TInteger i) = Some (Term_String rt (TInteger i))"
| "SymbolTable_FormatTerm rt t (TDate d) = Some (Term_String rt (TDate d))"
| "SymbolTable_FormatTerm rt t (TBytes b) = Some (Term_String rt (TBytes b))"
| "SymbolTable_FormatTerm rt t (TBool b) = Some (Term_String rt (TBool b))"
  by pat_completeness auto
termination
  by (relation "measure (\<lambda>(_, _, a). size a)") (auto dest: size_element)

section \<open>publickeys.go\<close>

text \<open>The protobuf enumeration of signature algorithms is an open 32-bit integer.\<close>

type_synonym Algorithm = u32

definition Ed25519 :: Algorithm where "Ed25519 = 0"

definition SECP256R1 :: Algorithm where "SECP256R1 = 1"

datatype PublicKey = PublicKey (pk_Key: "u8 list") (pk_Algorithm: Algorithm)

definition PublicKey_Equal :: "PublicKey \<Rightarrow> PublicKey \<Rightarrow> bool" where
  "PublicKey_Equal pk other \<longleftrightarrow> pk_Algorithm pk = pk_Algorithm other \<and> pk_Key pk = pk_Key other"

type_synonym PublicKeyTable = "PublicKey list"

definition NewPublicKeyTable :: PublicKeyTable where
  "NewPublicKeyTable = []"

definition PublicKeyTable_Clone :: "PublicKeyTable option \<Rightarrow> PublicKeyTable option" where
  "PublicKeyTable_Clone t = (case t of None \<Rightarrow> None | Some ks \<Rightarrow> Some ks)"

definition PublicKeyTable_Insert :: "PublicKeyTable \<Rightarrow> PublicKey \<Rightarrow> u64 \<times> PublicKeyTable" where
  "PublicKeyTable_Insert t newKey =
     (case find_index (\<lambda>existingKey. PublicKey_Equal existingKey newKey) t of
        Some index \<Rightarrow> (word_of_nat index, t)
      | None \<Rightarrow> (let t' = t @ [newKey] in (word_of_nat (length t' - 1), t')))"

definition PublicKeyTable_Extend :: "PublicKeyTable \<Rightarrow> PublicKeyTable \<Rightarrow> PublicKeyTable" where
  "PublicKeyTable_Extend t other = fold (\<lambda>k t. snd (PublicKeyTable_Insert t k)) other t"

definition PublicKeyTable_Index :: "PublicKeyTable \<Rightarrow> PublicKey \<Rightarrow> int \<times> bool" where
  "PublicKeyTable_Index t pk =
     (case find_index (\<lambda>existingKey. PublicKey_Equal existingKey pk) t of
        Some i \<Rightarrow> (int i, True) | None \<Rightarrow> (- 1, False))"

definition PublicKeyTable_SplitOff :: "PublicKeyTable \<Rightarrow> nat \<Rightarrow> (PublicKeyTable \<times> PublicKeyTable) option" where
  "PublicKeyTable_SplitOff t at' =
     (if at' > length t then None else Some (drop at' t, take at' t))"

lemma PublicKey_Equal_iff [simp]: "PublicKey_Equal a b \<longleftrightarrow> a = b"
  by (auto simp: PublicKey_Equal_def intro: PublicKey.expand)

section \<open>The contract of an interning table\<close>

text \<open>
  \<open>room n s\<close>: the indices still fit their type after \<open>n\<close> more insertions. \<open>get\<close> is the
  meaning of an index.
\<close>

locale intern_table =
  fixes ins :: "'s \<Rightarrow> 'a \<Rightarrow> 'i \<times> 's" and get :: "'s \<Rightarrow> 'i \<Rightarrow> 'a option"
    and room :: "nat \<Rightarrow> 's \<Rightarrow> bool"
  assumes get_ins: "room (Suc n) s \<Longrightarrow> get (snd (ins s x)) (fst (ins s x)) = Some x"
    and get_stable: "room (Suc n) s \<Longrightarrow> get s i = Some y \<Longrightarrow> get (snd (ins s x)) i = Some y"
    and room_ins: "room (Suc n) s \<Longrightarrow> room n (snd (ins s x))"
begin

lemma fold_stable:
  "room (length xs) s \<Longrightarrow> get s i = Some y \<Longrightarrow> get (fold (\<lambda>x s. snd (ins s x)) xs s) i = Some y"
  by (induction xs arbitrary: s) (auto intro: get_stable room_ins)

lemma fold_interned:
  "room (length xs) s \<Longrightarrow> x \<in> set xs \<Longrightarrow> \<exists>i. get (fold (\<lambda>x s. snd (ins s x)) xs s) i = Some x"
proof (induction xs arbitrary: s)
  case (Cons z xs)
  have r: "room (length xs) (snd (ins s z))" using Cons.prems by (simp add: room_ins)
  show ?case
  proof (cases "x = z")
    case True
    have "get (snd (ins s z)) (fst (ins s z)) = Some z"
      using Cons.prems(1) by (auto intro: get_ins)
    then show ?thesis using fold_stable[OF r] True by auto
  next
    case False
    then show ?thesis using Cons.IH[OF r] Cons.prems by simp
  qed
qed simp

end

text \<open>The meaning of a symbol: a default symbol, or an entry of the table from 1024 on.\<close>

definition sym_get :: "SymbolTable \<Rightarrow> u64 \<Rightarrow> string option" where
  "sym_get t sy =
     (if unat sy < length DEFAULT_SYMBOLS then Some (DEFAULT_SYMBOLS ! unat sy)
      else if 1024 \<le> unat sy \<and> unat sy < 1024 + length t then Some (t ! (unat sy - 1024))
      else None)"

definition sym_room :: "nat \<Rightarrow> SymbolTable \<Rightarrow> bool" where
  "sym_room n t \<longleftrightarrow> 1024 + length t + n < 2 ^ 63"

definition key_get :: "PublicKeyTable \<Rightarrow> u64 \<Rightarrow> PublicKey option" where
  "key_get t i = (if unat i < length t then Some (t ! unat i) else None)"

definition key_room :: "nat \<Rightarrow> PublicKeyTable \<Rightarrow> bool" where
  "key_room n t \<longleftrightarrow> length t + n < 2 ^ 64"

lemma length_DEFAULT_SYMBOLS [simp]: "length DEFAULT_SYMBOLS = 28"
  by (simp add: DEFAULT_SYMBOLS_def)

lemma unat_word_of_nat_small: "n < 2 ^ 64 \<Longrightarrow> unat (word_of_nat n :: u64) = n"
  by (simp add: unsigned_of_nat take_bit_nat_eq_self)

lemma sint_small: "unat w < 2 ^ 63 \<Longrightarrow> sint (w :: u64) = int (unat w)"
proof -
  assume "unat w < 2 ^ 63"
  then have "int (unat w) < 2 ^ 63" by (metis of_nat_less_numeral_power_cancel_iff)
  then have "uint w < 2 ^ 63" by simp
  moreover have "- (2 ^ 63) \<le> uint w" by (rule order.trans[OF _ uint_ge_0]) simp
  ultimately show ?thesis by (simp add: sint_uint signed_take_bit_int_eq_self_iff)
qed

lemma sint_negative: "sint (w :: u64) < 0 \<longleftrightarrow> 2 ^ 63 \<le> unat w"
proof
  assume "2 ^ 63 \<le> unat w"
  show "sint w < 0"
  proof (rule ccontr)
    assume "\<not> sint w < 0"
    moreover have "sint w < 2 ^ 63" using sint_less[of w] by simp
    moreover have "uint w = sint w mod 2 ^ 64"
      using uint_sint[of w] by (simp only: take_bit_eq_mod) simp
    ultimately have "uint w < 2 ^ 63" by simp
    then have "int (unat w) < 2 ^ 63" by simp
    then have "unat w < 2 ^ 63" by (metis of_nat_less_numeral_power_cancel_iff)
    with \<open>2 ^ 63 \<le> unat w\<close> show False by simp
  qed
next
  assume "sint w < 0"
  then show "2 ^ 63 \<le> unat w" using sint_small[of w] by (metis linorder_not_less of_nat_less_0_iff)
qed

lemma Str_sym_get:
  assumes "sym_room 0 t" and get: "sym_get t sy = Some s"
  shows "SymbolTable_Str t sy = Some s"
proof -
  obtain n where n: "unat sy = n" by blast
  have "n < 2 ^ 63" using assms n by (auto simp: sym_get_def sym_room_def split: if_splits)
  then have "sint sy = int n" using n sint_small[of sy] by metis
  with get n show ?thesis
    by (cases "n < 28") (auto simp: sym_get_def SymbolTable_Str_def nat_diff_distrib split: if_splits)
qed

lemma find_index_eq: "find_index (\<lambda>v. v = x) xs = Some i \<Longrightarrow> i < length xs \<and> xs ! i = x"
  using find_index_Some[of "\<lambda>v. v = x" xs i] by blast

interpretation sym_table: intern_table SymbolTable_Insert sym_get sym_room
proof
  fix n s x i y
  assume room: "sym_room (Suc n) s"
  then have len: "1024 + length s < 2 ^ 63" by (simp add: sym_room_def)
  have w: "k < 1024 + length s + 1 \<Longrightarrow> unat (word_of_nat k :: u64) = k" for k
    using len by (intro unat_word_of_nat_small) simp
  show "sym_get (snd (SymbolTable_Insert s x)) (fst (SymbolTable_Insert s x)) = Some x"
  proof (cases "find_index (\<lambda>v. v = x) DEFAULT_SYMBOLS")
    case (Some k)
    then show ?thesis using find_index_eq[OF Some] w[of k]
      by (simp add: SymbolTable_Insert_def sym_get_def)
  next
    case None
    show ?thesis
    proof (cases "find_index (\<lambda>v. v = x) s")
      case (Some k)
      have fi: "k < length s" "s ! k = x" using find_index_eq[OF Some] by simp_all
      have "unat (word_of_nat (1024 + k) :: u64) = 1024 + k" using fi by (intro w) simp
      then show ?thesis using fi Some None
        by (simp add: SymbolTable_Insert_def sym_get_def OFFSET_def del: of_nat_add)
    next
      case n: None
      have "unat (word_of_nat (1024 + length s) :: u64) = 1024 + length s" by (intro w) simp
      then show ?thesis using n None
        by (simp add: SymbolTable_Insert_def sym_get_def OFFSET_def Let_def del: of_nat_add)
    qed
  qed
  show "sym_get s i = Some y \<Longrightarrow> sym_get (snd (SymbolTable_Insert s x)) i = Some y"
    by (auto simp: sym_get_def SymbolTable_Insert_def Let_def nth_append split: option.splits if_splits)
  show "sym_room n (snd (SymbolTable_Insert s x))"
    using room by (auto simp: sym_room_def SymbolTable_Insert_def Let_def split: option.splits)
qed

interpretation key_table: intern_table PublicKeyTable_Insert key_get key_room
proof
  fix n s x i y
  assume room: "key_room (Suc n) s"
  have w: "k \<le> length s \<Longrightarrow> unat (word_of_nat k :: u64) = k" for k
    using room by (intro unat_word_of_nat_small) (simp add: key_room_def)
  show "key_get (snd (PublicKeyTable_Insert s x)) (fst (PublicKeyTable_Insert s x)) = Some x"
  proof (cases "find_index (\<lambda>v. v = x) s")
    case (Some k)
    then show ?thesis using find_index_eq[OF Some] w[of k]
      by (simp add: PublicKeyTable_Insert_def key_get_def)
  qed (use w[of "length s"] in \<open>simp add: PublicKeyTable_Insert_def key_get_def Let_def\<close>)
  show "key_get s i = Some y \<Longrightarrow> key_get (snd (PublicKeyTable_Insert s x)) i = Some y"
    by (auto simp: key_get_def PublicKeyTable_Insert_def Let_def nth_append split: option.splits if_splits)
  show "key_room n (snd (PublicKeyTable_Insert s x))"
    using room by (auto simp: key_room_def PublicKeyTable_Insert_def Let_def split: option.splits)
qed

section \<open>Properties\<close>

text \<open>No symbol is listed twice, neither in the table nor among the default symbols.\<close>

definition symtab_wf :: "SymbolTable \<Rightarrow> bool" where
  "symtab_wf t \<longleftrightarrow> distinct (DEFAULT_SYMBOLS @ t)"

lemma find_index_not_in: "find_index (\<lambda>v. v = x) xs = None \<longleftrightarrow> x \<notin> set xs"
  using find_index_None[of "\<lambda>v. v = x" xs] by blast

lemma SymbolTable_Insert_set:
  "set (DEFAULT_SYMBOLS @ snd (SymbolTable_Insert t s)) = insert s (set (DEFAULT_SYMBOLS @ t))"
proof -
  have "find_index (\<lambda>v. v = s) xs = Some i \<Longrightarrow> s \<in> set xs" for xs i
    using find_index_not_in[of s xs] by (metis option.distinct(1))
  then show ?thesis
    by (fastforce simp: SymbolTable_Insert_def Let_def split: option.splits)
qed

lemma SymbolTable_Insert_wf: "symtab_wf t \<Longrightarrow> symtab_wf (snd (SymbolTable_Insert t s))"
  by (auto simp: symtab_wf_def SymbolTable_Insert_def Let_def find_index_not_in split: option.splits)

lemma SymbolTable_Insert_prefix: "\<exists>us. snd (SymbolTable_Insert t s) = t @ us"
  by (auto simp: SymbolTable_Insert_def Let_def split: option.splits)

lemma sym_get_inj:
  assumes "symtab_wf t" "sym_get t a = Some s" "sym_get t b = Some s"
  shows "a = b"
proof -
  have idx: "\<exists>k < length (DEFAULT_SYMBOLS @ t). (DEFAULT_SYMBOLS @ t) ! k = s \<and>
      unat c = (if k < 28 then k else k + 996)" if "sym_get t c = Some s" for c
  proof (cases "unat c < 28")
    case True
    with that show ?thesis
      by (intro exI[of _ "unat c"]) (simp add: sym_get_def nth_append)
  next
    case False
    with that show ?thesis
      by (intro exI[of _ "unat c - 996"]) (auto simp: sym_get_def nth_append split: if_splits)
  qed
  have "unat a = unat b"
    using idx[OF assms(2)] idx[OF assms(3)] assms(1)
    by (metis nth_eq_iff_index_eq symtab_wf_def)
  then show ?thesis by (simp add: word_unat_eq_iff)
qed

text \<open>
  Interning a symbol returns an identifier that prints back as that symbol, every
  symbol known before keeps its text, and the table stays free of duplicates.
\<close>

theorem SymbolTable_Insert_correct:
  assumes "symtab_wf t" and "1024 + length t + 1 < 2 ^ 63"
  shows "SymbolTable_Str (snd (SymbolTable_Insert t s)) (fst (SymbolTable_Insert t s)) = Some s \<and>
    (\<forall>sy r. sym_get t sy = Some r \<longrightarrow> SymbolTable_Str (snd (SymbolTable_Insert t s)) sy = Some r) \<and>
    symtab_wf (snd (SymbolTable_Insert t s))"
proof -
  have r: "sym_room (Suc 0) t" using assms(2) by (simp add: sym_room_def)
  then show ?thesis
    using sym_table.get_ins[OF r, of s] sym_table.get_stable[OF r] sym_table.room_ins[OF r, of s]
      SymbolTable_Insert_wf[OF assms(1)] by (blast intro: Str_sym_get)
qed

theorem SymbolTable_Insert_correct_witness:
  "SymbolTable_Str (snd (SymbolTable_Insert [''file1''] ''read'')) (fst (SymbolTable_Insert [''file1''] ''read'')) =
     Some ''read'' \<and>
   SymbolTable_Str (snd (SymbolTable_Insert [''file1''] ''file2'')) (fst (SymbolTable_Insert [''file1''] ''file2'')) =
     Some ''file2''"
proof -
  have wf: "symtab_wf [''file1'']" by (simp add: symtab_wf_def DEFAULT_SYMBOLS_def)
  show ?thesis
    using SymbolTable_Insert_correct[OF wf, of "''read''"] SymbolTable_Insert_correct[OF wf, of "''file2''"]
    by simp
qed

text \<open>
  In a table without duplicates two known symbols are equal as identifiers exactly when they
  are equal as texts: comparing identifiers, as matching does, compares the strings.
\<close>

theorem symbol_ids_decide_text:
  assumes "symtab_wf t" and "sym_room 0 t" and "sym_get t a \<noteq> None" and "sym_get t b \<noteq> None"
  shows "SymbolTable_Str t a = SymbolTable_Str t b \<longleftrightarrow> a = b"
proof -
  obtain s where s: "sym_get t a = Some s" using assms(3) by blast
  obtain r where r: "sym_get t b = Some r" using assms(4) by blast
  show ?thesis
    using Str_sym_get[OF assms(2) s] Str_sym_get[OF assms(2) r] sym_get_inj[OF assms(1), of a s b] s r
    by auto
qed

theorem symbol_ids_decide_text_witness:
  "SymbolTable_Str [''file1'', ''file2''] 1024 \<noteq> SymbolTable_Str [''file1'', ''file2''] 1025"
  using symbol_ids_decide_text[of "[''file1'', ''file2'']" 1024 1025]
  by (simp add: symtab_wf_def DEFAULT_SYMBOLS_def sym_room_def sym_get_def)

text \<open>
  \<^verbatim>\<open>Str\<close> panics on exactly the identifiers from \<open>2 ^ 63\<close> on; no other identifier,
  known or not, makes it fail. Such an identifier can arrive in a serialized block.
\<close>

theorem SymbolTable_Str_panics_iff: "SymbolTable_Str t sy = None \<longleftrightarrow> 2 ^ 63 \<le> unat sy"
  using sint_negative[of sy] by (auto simp: SymbolTable_Str_def)

text \<open>
  Splitting a table and extending the kept part by the split-off part gives the table back:
  what a block builder splits off is exactly what its readers have to add.
\<close>

theorem SymbolTable_SplitOff_Extend:
  assumes "symtab_wf t" and "SymbolTable_SplitOff t k = Some (off, kept)"
  shows "SymbolTable_Extend kept off = t \<and> SymbolTable_IsDisjoint kept off"
proof -
  have ext: "symtab_wf (a @ b) \<Longrightarrow> SymbolTable_Extend a b = a @ b" for a b
  proof (induction b arbitrary: a)
    case (Cons x b)
    then have "find_index (\<lambda>v. v = x) DEFAULT_SYMBOLS = None" "find_index (\<lambda>v. v = x) a = None"
      by (auto simp: find_index_not_in symtab_wf_def)
    then have "snd (SymbolTable_Insert a x) = a @ [x]" by (simp add: SymbolTable_Insert_def Let_def)
    with Cons.IH[of "a @ [x]"] Cons.prems show ?case by (simp add: SymbolTable_Extend_def)
  qed (simp add: SymbolTable_Extend_def)
  have t: "t = kept @ off"
    using assms(2) by (auto simp: SymbolTable_SplitOff_def split: if_splits)
  moreover have "SymbolTable_IsDisjoint kept off"
    using assms(1) t by (auto simp: SymbolTable_IsDisjoint_def symtab_wf_def list_all_iff)
  ultimately show ?thesis using ext assms(1) by simp
qed

theorem SymbolTable_SplitOff_Extend_witness:
  "SymbolTable_Extend [''a''] [''b'', ''c''] = [''a'', ''b'', ''c'']"
  using SymbolTable_SplitOff_Extend[of "[''a'', ''b'', ''c'']" 1 "[''b'', ''c'']" "[''a'']"]
  by (simp add: symtab_wf_def DEFAULT_SYMBOLS_def SymbolTable_SplitOff_def)

text \<open>
  The public key table gives each key one index for good: inserting returns an index
  at which the key is found, and earlier indices, which scopes in blocks hold, keep
  pointing at their keys through any number of insertions.
\<close>

theorem PublicKeyTable_Extend_stable:
  assumes "length t + length other < 2 ^ 64"
  shows "(\<forall>i k. key_get t i = Some k \<longrightarrow> key_get (PublicKeyTable_Extend t other) i = Some k) \<and>
    (\<forall>k \<in> set other. \<exists>i. key_get (PublicKeyTable_Extend t other) i = Some k)"
proof -
  have r: "key_room (length other) t" using assms by (simp add: key_room_def)
  show ?thesis
    unfolding PublicKeyTable_Extend_def
    using key_table.fold_stable[OF r] key_table.fold_interned[OF r] by blast
qed

theorem PublicKeyTable_Extend_stable_witness:
  "key_get (PublicKeyTable_Extend [PublicKey [1] Ed25519] [PublicKey [2] Ed25519]) 0 =
     Some (PublicKey [1] Ed25519)"
proof -
  have "key_get [PublicKey [1] Ed25519] 0 = Some (PublicKey [1] Ed25519)"
    by (simp add: key_get_def)
  then show ?thesis
    using PublicKeyTable_Extend_stable[of "[PublicKey [1] Ed25519]" "[PublicKey [2] Ed25519]"] by simp
qed

end
