(* ===== verification/Origins.thy ===== *)
theory Origins
  imports HashSets
begin

text \<open>
  Block identifiers (\<^verbatim>\<open>datalog/datalog.go\<close>), origins, trusted origins, the signature registry
  (\<^verbatim>\<open>datalog/origin.go\<close>) and scopes (\<^verbatim>\<open>datalog/scope.go\<close>). An origin is a hash set of block
  identifiers; fact and rule sets use its encoding as a string as the key of a map, so the
  encoding has to be injective: \<open>NewOriginFromString_EncodeToString\<close> and
  \<open>EncodeToString_inj\<close>. \<open>trusted_blocks\<close> is the specification of the scopes: the blocks a
  rule or check may read, which \<open>NewTrustedOriginFromScopes\<close> computes.
\<close>

section \<open>Block identifiers\<close>

type_synonym BlockID = u64

definition AuthorizerBlockID :: u64 where
  "AuthorizerBlockID = - 1"

definition BlockID_IsAuthorizer :: "BlockID \<Rightarrow> bool" where
  "BlockID_IsAuthorizer i \<longleftrightarrow> i = AuthorizerBlockID"

definition BlockID_Compare :: "BlockID \<Rightarrow> BlockID \<Rightarrow> int" where
  "BlockID_Compare i j =
     (let iIsAuthorizer = BlockID_IsAuthorizer i; jIsAuthorizer = BlockID_IsAuthorizer j in
      if iIsAuthorizer \<and> \<not> jIsAuthorizer then - 1
      else if \<not> iIsAuthorizer \<and> jIsAuthorizer then 1
      else cmp_Compare i j)"

definition BlockID_Equal :: "BlockID \<Rightarrow> BlockID \<Rightarrow> bool" where
  "BlockID_Equal i j \<longleftrightarrow> BlockID_Compare i j = 0"

definition BlockID_Hash :: "BlockID \<Rightarrow> HashBuilder \<Rightarrow> HashBuilder" where
  "BlockID_Hash i builder = HashBuilder_Uint64 builder i"

abbreviation block_hash :: "runtime \<Rightarrow> BlockID \<Rightarrow> u64" where
  "block_hash rt \<equiv> built_hash rt BlockID_Hash"

text \<open>The authorizer's identifier is the largest 64-bit value and orders first, as if it
  were minus one: adding one makes the order the usual one.\<close>

lemma BlockID_Compare_plus_one: "BlockID_Compare i j = cmp_Compare (i + 1) (j + 1)"
proof -
  have suc: "i \<noteq> - 1 \<Longrightarrow> unat (i + 1) = Suc (unat i)" for i :: u64
    using unatSuc[of i] by (simp add: add.commute eq_neg_iff_add_eq_0)
  have pos: "i \<noteq> - 1 \<Longrightarrow> 0 < i + 1" for i :: u64
    using suc[of i] by (simp add: word_less_nat_alt)
  show ?thesis
    using suc[of i] suc[of j] pos[of i] pos[of j]
    by (auto simp: BlockID_Compare_def BlockID_IsAuthorizer_def AuthorizerBlockID_def cmp_Compare_def
        Let_def word_less_nat_alt)
qed

interpretation bid_order: order_on UNIV BlockID_Compare
proof -
  have "comparator_on UNIV BlockID_Compare"
    unfolding BlockID_Compare_plus_one
    by (rule comparator_on_map[OF cmp_std.comparator_on_axioms]) simp
  then show "order_on UNIV BlockID_Compare"
    by (rule order_on.intro) (simp add: order_on_axioms_def BlockID_Compare_plus_one)
qed

lemma BlockID_Equal_iff [simp]: "BlockID_Equal i j \<longleftrightarrow> i = j"
  using bid_order.eq_iff[of i j] by (simp add: BlockID_Equal_def)

interpretation bid_set: hash_elements "block_hash rt" BlockID_Equal "\<lambda>_. True" for rt
  by unfold_locales simp

section \<open>Origins\<close>

type_synonym Origin = "BlockID hashset"

datatype origin_error = EmptyEncodedBlockIDs | ParseUintError string

definition NewOrigin :: "runtime \<Rightarrow> u64 \<Rightarrow> u64 list \<Rightarrow> Origin" where
  "NewOrigin rt firstBlockID moreBlockIDs =
     fold (\<lambda>v s. snd (HashSet_Insert (block_hash rt) BlockID_Equal s v)) moreBlockIDs
       (NewHashSet (block_hash rt) BlockID_Equal [firstBlockID])"

fun insert_parts :: "runtime \<Rightarrow> string list \<Rightarrow> Origin \<Rightarrow> origin_error + Origin" where
  "insert_parts rt [] setBlockIDs = Inr setBlockIDs"
| "insert_parts rt (part # parts) setBlockIDs = (case parse_uint64 36 part of
     None \<Rightarrow> Inl (ParseUintError part)
   | Some num \<Rightarrow> insert_parts rt parts
       (snd (HashSet_Insert (block_hash rt) BlockID_Equal setBlockIDs num)))"

definition NewOriginFromString :: "runtime \<Rightarrow> string \<Rightarrow> origin_error + Origin" where
  "NewOriginFromString rt encodedBlockIDs =
     (if encodedBlockIDs = [] then Inl EmptyEncodedBlockIDs
      else insert_parts rt (split_on (CHR '','') encodedBlockIDs)
        (NewHashSet (block_hash rt) BlockID_Equal []))"

definition Origin_Contains :: "runtime \<Rightarrow> Origin \<Rightarrow> BlockID \<Rightarrow> bool" where
  "Origin_Contains rt o1 i = HashSet_Contains (block_hash rt) BlockID_Equal o1 i"

definition Origin_InsertIDs :: "runtime \<Rightarrow> Origin \<Rightarrow> u64 list \<Rightarrow> Origin" where
  "Origin_InsertIDs rt o1 blockIDs =
     fold (\<lambda>v s. snd (HashSet_Insert (block_hash rt) BlockID_Equal s v)) blockIDs o1"

definition Origin_InsertIDSlice :: "runtime \<Rightarrow> Origin \<Rightarrow> BlockID list \<Rightarrow> Origin" where
  "Origin_InsertIDSlice rt o1 blockIDs =
     HashSet_Union (block_hash rt) BlockID_Equal o1 (NewHashSet (block_hash rt) BlockID_Equal blockIDs)"

definition Origin_InsertOrigin :: "runtime \<Rightarrow> Origin \<Rightarrow> Origin \<Rightarrow> Origin" where
  "Origin_InsertOrigin rt o1 other = HashSet_Union (block_hash rt) BlockID_Equal o1 other"

definition Origin_clone :: "Origin \<Rightarrow> Origin" where
  "Origin_clone o1 = HashSet_Clone o1"

definition Origin_With :: "runtime \<Rightarrow> Origin \<Rightarrow> u64 list \<Rightarrow> Origin" where
  "Origin_With rt o1 blockIDs =
     fold (\<lambda>blockID result. Origin_InsertIDs rt result [blockID]) blockIDs (Origin_clone o1)"

definition Origin_IsSuperSet :: "runtime \<Rightarrow> Origin \<Rightarrow> Origin \<Rightarrow> bool" where
  "Origin_IsSuperSet rt o1 other = HashSet_IsSuperSet (block_hash rt) BlockID_Equal o1 other"

text \<open>The loop writes a comma before every identifier but the first.\<close>

definition Origin_EncodeToString :: "Origin \<Rightarrow> string" where
  "Origin_EncodeToString o1 =
     fst (fold (\<lambda>id (b, i). ((if i > (0::nat) then b @ '','' else b) @ format_uint 36 (unat id), i + 1))
       (Sorted BlockID_Compare (HashSet_Iter o1)) ([], 0))"

definition Origin_BlockIDs :: "Origin \<Rightarrow> u64 list" where
  "Origin_BlockIDs o1 = map (\<lambda>blockID. blockID) (Sorted BlockID_Compare (HashSet_Iter o1))"

definition Origin_Compare :: "Origin \<Rightarrow> Origin \<Rightarrow> int" where
  "Origin_Compare o1 o2 =
     (let sl1 = Sorted BlockID_Compare (HashSet_Iter o1);
          sl2 = Sorted BlockID_Compare (HashSet_Iter o2);
          minLen = min (length sl1) (length sl2);
          x = compare_positions BlockID_Compare (take minLen sl1) (take minLen sl2)
      in if x \<noteq> 0 then x else cmp_Compare (length sl1) (length sl2))"

subsection \<open>What origins promise\<close>

abbreviation origin_ok :: "runtime \<Rightarrow> Origin \<Rightarrow> bool" where
  "origin_ok rt \<equiv> hs_inv (block_hash rt) (\<lambda>_. True)"

lemma NewOrigin_ok [simp]: "origin_ok rt (NewOrigin rt b bs)"
  and set_NewOrigin [simp]: "hs_set (NewOrigin rt b bs) = insert b (set bs)"
  unfolding NewOrigin_def
  using bid_set.fold_insert[of rt "NewHashSet (block_hash rt) BlockID_Equal [b]" bs]
    bid_set.new[of "[b]" rt] by simp_all

lemma InsertIDs_ok [simp]: "origin_ok rt o1 \<Longrightarrow> origin_ok rt (Origin_InsertIDs rt o1 bs)"
  and set_InsertIDs [simp]: "origin_ok rt o1 \<Longrightarrow> hs_set (Origin_InsertIDs rt o1 bs) = hs_set o1 \<union> set bs"
  unfolding Origin_InsertIDs_def using bid_set.fold_insert[of rt o1 bs] by simp_all

lemma InsertIDSlice_ok [simp]: "origin_ok rt o1 \<Longrightarrow> origin_ok rt (Origin_InsertIDSlice rt o1 bs)"
  and set_InsertIDSlice [simp]:
    "origin_ok rt o1 \<Longrightarrow> hs_set (Origin_InsertIDSlice rt o1 bs) = hs_set o1 \<union> set bs"
  unfolding Origin_InsertIDSlice_def
  using bid_set.union[of rt o1 "NewHashSet (block_hash rt) BlockID_Equal bs"] bid_set.new[of bs rt]
  by simp_all

lemma InsertOrigin_ok [simp]:
    "origin_ok rt o1 \<Longrightarrow> origin_ok rt o2 \<Longrightarrow> origin_ok rt (Origin_InsertOrigin rt o1 o2)"
  and set_InsertOrigin [simp]:
    "origin_ok rt o1 \<Longrightarrow> origin_ok rt o2 \<Longrightarrow> hs_set (Origin_InsertOrigin rt o1 o2) = hs_set o1 \<union> hs_set o2"
  unfolding Origin_InsertOrigin_def using bid_set.union[of rt o1 o2] by simp_all

lemma Origin_clone_id [simp]: "Origin_clone o1 = o1"
  by (simp add: Origin_clone_def)

lemma With_eq: "Origin_With rt o1 bs = Origin_InsertIDs rt o1 bs"
  by (simp add: Origin_With_def Origin_InsertIDs_def)

lemma IsSuperSet_iff [simp]:
  "origin_ok rt o1 \<Longrightarrow> origin_ok rt o2 \<Longrightarrow> Origin_IsSuperSet rt o1 o2 \<longleftrightarrow> hs_set o2 \<subseteq> hs_set o1"
  unfolding Origin_IsSuperSet_def by (rule bid_set.superset)

lemma encode_loop:
  "fst (fold (\<lambda>id (b, i). ((if i > (0::nat) then b @ '','' else b) @ f id, i + 1)) ids (b, Suc i)) =
     b @ concat (map (\<lambda>id. '','' @ f id) ids)"
  by (induction ids arbitrary: b i) simp_all

lemma join_concat: "join_with sep (p # ps) = p @ concat (map (\<lambda>q. sep @ q) ps)"
  by (induction ps arbitrary: p) simp_all

lemma EncodeToString_join:
  "Origin_EncodeToString o1 =
     join_with '','' (map (\<lambda>id. format_uint 36 (unat id)) (Sorted BlockID_Compare (HashSet_Iter o1)))"
proof (cases "Sorted BlockID_Compare (HashSet_Iter o1)")
  case (Cons id ids)
  then show ?thesis
    using encode_loop[of "\<lambda>id. format_uint 36 (unat id)" ids "format_uint 36 (unat id)" 0]
    by (simp add: Origin_EncodeToString_def join_concat comp_def)
qed (simp add: Origin_EncodeToString_def)

lemma insert_parts_format:
  "insert_parts rt (map (\<lambda>id. format_uint 36 (unat id)) ids) s = Inr (Origin_InsertIDs rt s ids)"
  by (induction ids arbitrary: s) (simp_all add: Origin_InsertIDs_def)

lemma decode_encode:
  assumes "HashSet_Iter o1 \<noteq> []"
  shows "NewOriginFromString rt (Origin_EncodeToString o1) =
    Inr (Origin_InsertIDs rt HashSet_empty (Sorted BlockID_Compare (HashSet_Iter o1)))"
proof -
  let ?ids = "Sorted BlockID_Compare (HashSet_Iter o1)"
  let ?ps = "map (\<lambda>id. format_uint 36 (unat id)) ?ids"
  have ne: "?ps \<noteq> []" using assms
    by (metis Sorted_def length_SortedFunc length_greater_0_conv map_is_Nil_conv)
  then have "join_with '','' ?ps \<noteq> []"
    by (cases ?ps) (auto simp: join_concat map_eq_Cons_conv)
  moreover have "split_on (CHR '','') (join_with '','' ?ps) = ?ps"
    using ne by (intro split_join) (auto simp: format_uint_no_comma)
  ultimately show ?thesis
    by (simp add: NewOriginFromString_def EncodeToString_join insert_parts_format NewHashSet_def)
qed

text \<open>
  Decoding the map key that a fact set derives from an origin returns the same block
  identifiers, so no fact changes its origin on the way through the map.
\<close>

theorem NewOriginFromString_EncodeToString:
  assumes "origin_ok rt o1" and "hs_set o1 \<noteq> {}"
  shows "\<exists>o2. NewOriginFromString rt (Origin_EncodeToString o1) = Inr o2 \<and>
    origin_ok rt o2 \<and> hs_set o2 = hs_set o1"
  using assms decode_encode[of o1 rt] by (auto simp: Sorted_def)

lemma EncodeToString_inj:
  assumes "origin_ok rt o1" "origin_ok rt o2"
  shows "Origin_EncodeToString o1 = Origin_EncodeToString o2 \<longleftrightarrow> hs_set o1 = hs_set o2"
proof
  assume eq: "hs_set o1 = hs_set o2"
  have "mset (HashSet_Iter o1) = mset (HashSet_Iter o2)"
    using assms eq by (simp add: hs_inv_distinct set_eq_iff_mset_eq_distinct)
  then have "SortedFunc BlockID_Compare (HashSet_Iter o1) = SortedFunc BlockID_Compare (HashSet_Iter o2)"
    by (intro bid_order.sorted_unique) simp_all
  then show "Origin_EncodeToString o1 = Origin_EncodeToString o2"
    by (simp add: EncodeToString_join Sorted_def)
next
  assume eq: "Origin_EncodeToString o1 = Origin_EncodeToString o2"
  have empty: "Origin_EncodeToString p = [] \<longleftrightarrow> HashSet_Iter p = []" for p
  proof -
    have "length (Sorted BlockID_Compare (HashSet_Iter p)) = length (HashSet_Iter p)"
      by (simp add: Sorted_def)
    then show ?thesis
      by (cases "Sorted BlockID_Compare (HashSet_Iter p)") (auto simp: EncodeToString_join join_concat)
  qed
  show "hs_set o1 = hs_set o2"
  proof (cases "HashSet_Iter o1 = []")
    case True
    then show ?thesis using eq empty[of o1] empty[of o2] by simp
  next
    case False
    then have "HashSet_Iter o2 \<noteq> []" using eq empty by metis
    with False eq decode_encode[of o1 rt] decode_encode[of o2 rt] have
      "Origin_InsertIDs rt HashSet_empty (Sorted BlockID_Compare (HashSet_Iter o1)) =
       Origin_InsertIDs rt HashSet_empty (Sorted BlockID_Compare (HashSet_Iter o2))" by simp
    from arg_cong[OF this, of hs_set] show ?thesis by (simp add: Sorted_def)
  qed
qed

theorem NewOriginFromString_EncodeToString_witness:
  "\<exists>o2. NewOriginFromString demo_runtime
      (Origin_EncodeToString (NewOrigin demo_runtime AuthorizerBlockID [37])) = Inr o2 \<and>
    hs_set o2 = {AuthorizerBlockID, 37}"
  using NewOriginFromString_EncodeToString[of "demo_runtime"
      "NewOrigin demo_runtime AuthorizerBlockID [37]"]
  by auto

section \<open>Scopes\<close>

datatype ScopeType = AuthorityScopeType | PreviousScopeType | PublicKeyScopeType

fun ScopeType_iota :: "ScopeType \<Rightarrow> nat" where
  "ScopeType_iota AuthorityScopeType = 0"
| "ScopeType_iota PreviousScopeType = 1"
| "ScopeType_iota PublicKeyScopeType = 2"

datatype Scope = Scope (scope_Type: ScopeType) (scope_PublicKeyTableIndex: u64)

definition Scope_Compare :: "Scope \<Rightarrow> Scope \<Rightarrow> int" where
  "Scope_Compare s other =
     (let x = cmp_Compare (ScopeType_iota (scope_Type s)) (ScopeType_iota (scope_Type other)) in
      if x \<noteq> 0 then x
      else cmp_Compare (scope_PublicKeyTableIndex s) (scope_PublicKeyTableIndex other))"

definition Scope_Equal :: "Scope \<Rightarrow> Scope \<Rightarrow> bool" where
  "Scope_Equal s other \<longleftrightarrow> Scope_Compare s other = 0"

definition Scope_Hash :: "Scope \<Rightarrow> HashBuilder \<Rightarrow> HashBuilder" where
  "Scope_Hash s builder =
     HashBuilder_Uint64 (HashBuilder_Uint64 builder (word_of_nat (ScopeType_iota (scope_Type s))))
       (scope_PublicKeyTableIndex s)"

lemma ScopeType_iota_inj [simp]: "ScopeType_iota s = ScopeType_iota t \<longleftrightarrow> s = t"
  by (cases s; cases t) simp_all

interpretation scope_order: order_on UNIV Scope_Compare
proof -
  have "comparator_on UNIV (\<lambda>s t. then_cmp
      (cmp_Compare (ScopeType_iota (scope_Type s)) (ScopeType_iota (scope_Type t)))
      (cmp_Compare (scope_PublicKeyTableIndex s) (scope_PublicKeyTableIndex t)))"
    by (intro comparator_on_then comparator_on_map[OF cmp_std.comparator_on_axioms]) simp_all
  note laws = this
  have eq: "Scope_Compare s t = then_cmp
      (cmp_Compare (ScopeType_iota (scope_Type s)) (ScopeType_iota (scope_Type t)))
      (cmp_Compare (scope_PublicKeyTableIndex s) (scope_PublicKeyTableIndex t))" for s t
    by (simp add: Scope_Compare_def then_cmp_def Let_def)
  have "comparator_on UNIV Scope_Compare"
    by (rule comparator_on_cong[OF laws]) (simp add: eq)
  then show "order_on UNIV Scope_Compare"
    by (rule order_on.intro) (auto simp: order_on_axioms_def eq intro: Scope.expand)
qed

section \<open>The signature registry\<close>

type_synonym SignatureRegistry = "(u64 \<times> BlockID hashset) list"

definition SignatureRegistry_Insert ::
    "runtime \<Rightarrow> SignatureRegistry \<Rightarrow> u64 \<Rightarrow> BlockID list \<Rightarrow> SignatureRegistry" where
  "SignatureRegistry_Insert rt sr publicKeyTableIndex newBlockIDs =
     (let new = NewHashSet (block_hash rt) BlockID_Equal newBlockIDs in
      case map_of sr publicKeyTableIndex of
        Some oldBlockIDs \<Rightarrow>
          AList.update publicKeyTableIndex (HashSet_Union (block_hash rt) BlockID_Equal oldBlockIDs new) sr
      | None \<Rightarrow> AList.update publicKeyTableIndex new sr)"

definition SignatureRegistry_Clone :: "runtime \<Rightarrow> SignatureRegistry \<Rightarrow> SignatureRegistry" where
  "SignatureRegistry_Clone rt sr = map (\<lambda>(k, v). (k,
     fold (\<lambda>id newSet. snd (HashSet_Insert (block_hash rt) BlockID_Equal newSet id)) (HashSet_Iter v)
       (NewHashSet (block_hash rt) BlockID_Equal []))) sr"

text \<open>The abstract registry: the blocks signed by the key at an index of the key table.\<close>

definition signed_by :: "SignatureRegistry \<Rightarrow> u64 \<Rightarrow> BlockID set" where
  "signed_by sr k = (case map_of sr k of None \<Rightarrow> {} | Some ids \<Rightarrow> hs_set ids)"

definition registry_ok :: "runtime \<Rightarrow> SignatureRegistry \<Rightarrow> bool" where
  "registry_ok rt sr \<longleftrightarrow> (\<forall>ids \<in> snd ` set sr. origin_ok rt ids)"

lemma registry_ok_Nil [simp]: "registry_ok rt []"
  by (simp add: registry_ok_def)

lemma registry_ok_lookup: "registry_ok rt sr \<Longrightarrow> map_of sr k = Some ids \<Longrightarrow> origin_ok rt ids"
  by (force simp: registry_ok_def dest: map_of_SomeD)

lemma registry_ok_update:
  "registry_ok rt sr \<Longrightarrow> origin_ok rt ids \<Longrightarrow> registry_ok rt (AList.update k ids sr)"
  unfolding registry_ok_def using in_update_cases[of _ _ k ids sr] by fastforce

lemma SignatureRegistry_Insert_spec:
  assumes "registry_ok rt sr"
  shows "registry_ok rt (SignatureRegistry_Insert rt sr k ids)" (is ?A)
    and "signed_by (SignatureRegistry_Insert rt sr k ids) j =
      (if j = k then signed_by sr k \<union> set ids else signed_by sr j)" (is ?B)
proof -
  let ?new = "NewHashSet (block_hash rt) BlockID_Equal ids"
  have new: "origin_ok rt ?new" "hs_set ?new = set ids" using bid_set.new[of ids rt] by simp_all
  have upd: "signed_by (AList.update k v sr) j = (if j = k then hs_set v else signed_by sr j)" for v
    by (simp add: signed_by_def update_conv')
  have "?A \<and> ?B"
  proof (cases "map_of sr k")
    case None
    then have "SignatureRegistry_Insert rt sr k ids = AList.update k ?new sr" "signed_by sr k = {}"
      by (simp_all add: SignatureRegistry_Insert_def signed_by_def)
    then show ?thesis using registry_ok_update[OF assms new(1)] upd new by simp
  next
    case (Some old)
    let ?u = "HashSet_Union (block_hash rt) BlockID_Equal old ?new"
    have u: "origin_ok rt ?u" "hs_set ?u = hs_set old \<union> set ids"
      using bid_set.union[OF registry_ok_lookup[OF assms Some] new(1)] new(2) by simp_all
    from Some have "SignatureRegistry_Insert rt sr k ids = AList.update k ?u sr"
      "signed_by sr k = hs_set old"
      by (simp_all add: SignatureRegistry_Insert_def signed_by_def)
    then show ?thesis using registry_ok_update[OF assms u(1)] upd u by simp
  qed
  then show ?A ?B by simp_all
qed

lemma SignatureRegistry_Clone_spec:
  "registry_ok rt (SignatureRegistry_Clone rt sr)"
  "signed_by (SignatureRegistry_Clone rt sr) k = signed_by sr k"
proof -
  have f: "origin_ok rt (fold (\<lambda>id newSet. snd (HashSet_Insert (block_hash rt) BlockID_Equal newSet id)) ids
       (NewHashSet (block_hash rt) BlockID_Equal []))"
    "hs_set (fold (\<lambda>id newSet. snd (HashSet_Insert (block_hash rt) BlockID_Equal newSet id)) ids
       (NewHashSet (block_hash rt) BlockID_Equal [])) = set ids" for ids
    using bid_set.fold_insert[of rt "NewHashSet (block_hash rt) BlockID_Equal []" ids]
      bid_set.new[of "[]" rt] by simp_all
  show "registry_ok rt (SignatureRegistry_Clone rt sr)"
    by (auto simp: SignatureRegistry_Clone_def registry_ok_def f)
  show "signed_by (SignatureRegistry_Clone rt sr) k = signed_by sr k"
    by (cases "map_of sr k") (simp_all add: SignatureRegistry_Clone_def signed_by_def map_of_map f)
qed

section \<open>Trusted origins\<close>

type_synonym TrustedOrigin = Origin

definition NewTrustedOrigin :: "runtime \<Rightarrow> TrustedOrigin" where
  "NewTrustedOrigin rt = NewOrigin rt 0 [AuthorizerBlockID]"

definition NewTrustedOriginFromString :: "runtime \<Rightarrow> string \<Rightarrow> origin_error + TrustedOrigin" where
  "NewTrustedOriginFromString rt encodedBlockIDs =
     bind_res (NewOriginFromString rt encodedBlockIDs) (\<lambda>origin. Inr origin)"

definition TrustedOrigin_With :: "runtime \<Rightarrow> TrustedOrigin \<Rightarrow> u64 list \<Rightarrow> TrustedOrigin" where
  "TrustedOrigin_With rt to blockIDs = Origin_With rt to blockIDs"

text \<open>\<^verbatim>\<open>for i := range currentBlockID\<close>\<close>

definition range_u64 :: "u64 \<Rightarrow> u64 list" where
  "range_u64 n = map word_of_nat [0..<unat n]"

definition insert_scope ::
    "runtime \<Rightarrow> u64 \<Rightarrow> SignatureRegistry \<Rightarrow> Scope \<Rightarrow> Origin \<Rightarrow> Origin" where
  "insert_scope rt currentBlockID signatureRegistry scope origin = (case scope_Type scope of
     AuthorityScopeType \<Rightarrow> Origin_InsertIDs rt origin [0]
   | PreviousScopeType \<Rightarrow>
       (if currentBlockID \<noteq> AuthorizerBlockID
        then fold (\<lambda>i org. Origin_InsertIDs rt org [i]) (range_u64 currentBlockID) origin
        else origin)
   | PublicKeyScopeType \<Rightarrow>
       (case map_of signatureRegistry (scope_PublicKeyTableIndex scope) of
          Some blockIDs \<Rightarrow> Origin_InsertIDSlice rt origin (HashSet_Iter blockIDs)
        | None \<Rightarrow> origin))"

definition NewTrustedOriginFromScopes ::
    "runtime \<Rightarrow> Scope list \<Rightarrow> Scope list \<Rightarrow> u64 \<Rightarrow> SignatureRegistry \<Rightarrow> TrustedOrigin" where
  "NewTrustedOriginFromScopes rt blockScopes ruleScopes currentBlockID signatureRegistry =
     (let origin = NewOrigin rt AuthorizerBlockID [currentBlockID];
          scopes = (if length ruleScopes = 0 then blockScopes else ruleScopes)
      in if length scopes = 0 then TrustedOrigin_With rt (NewTrustedOrigin rt) [currentBlockID]
         else fold (insert_scope rt currentBlockID signatureRegistry) scopes origin)"

text \<open>The specification: which blocks a scope adds, and which blocks are trusted in all.\<close>

fun scope_blocks :: "u64 \<Rightarrow> SignatureRegistry \<Rightarrow> Scope \<Rightarrow> BlockID set" where
  "scope_blocks cur sr (Scope AuthorityScopeType _) = {0}"
| "scope_blocks cur sr (Scope PreviousScopeType _) = (if cur = AuthorizerBlockID then {} else {..<cur})"
| "scope_blocks cur sr (Scope PublicKeyScopeType k) = signed_by sr k"

definition trusted_blocks :: "Scope list \<Rightarrow> Scope list \<Rightarrow> u64 \<Rightarrow> SignatureRegistry \<Rightarrow> BlockID set" where
  "trusted_blocks blockScopes ruleScopes cur sr =
     (let scopes = if ruleScopes = [] then blockScopes else ruleScopes in
      {AuthorizerBlockID, cur} \<union>
        (if scopes = [] then {0} else (\<Union>sc \<in> set scopes. scope_blocks cur sr sc)))"

lemma set_range_u64: "set (range_u64 n) = {..<n}"
proof -
  have "i \<in> word_of_nat ` {0..<unat n}" if "i < n" for i
    using that by (intro image_eqI[of _ _ "unat i"]) (simp_all add: word_less_nat_alt)
  moreover have "word_of_nat k < n" if "k < unat n" for k
    using that order_less_trans[OF that unsigned_less]
    by (simp add: word_less_nat_alt unsigned_of_nat take_bit_nat_eq_self)
  ultimately show ?thesis by (auto simp: range_u64_def)
qed

lemma insert_scope_spec:
  assumes "origin_ok rt origin"
  shows "origin_ok rt (insert_scope rt cur sr sc origin)" (is ?A)
    and "hs_set (insert_scope rt cur sr sc origin) = hs_set origin \<union> scope_blocks cur sr sc" (is ?B)
proof -
  have f: "fold (\<lambda>i org. Origin_InsertIDs rt org [i]) ids origin = Origin_InsertIDs rt origin ids" for ids
    by (simp add: Origin_InsertIDs_def)
  have "?A \<and> ?B" using assms
    by (cases "(cur, sr, sc)" rule: scope_blocks.cases)
       (auto simp: insert_scope_def f set_range_u64 signed_by_def split: option.splits)
  then show ?A ?B by simp_all
qed

lemma fold_insert_scope:
  "origin_ok rt origin \<Longrightarrow> origin_ok rt (fold (insert_scope rt cur sr) scs origin) \<and>
   hs_set (fold (insert_scope rt cur sr) scs origin) = hs_set origin \<union> (\<Union>sc \<in> set scs. scope_blocks cur sr sc)"
  by (induction scs arbitrary: origin) (auto simp: insert_scope_spec)

lemma NewTrustedOriginFromScopes_ok [simp]:
  "origin_ok rt (NewTrustedOriginFromScopes rt bs rs cur sr)"
  by (simp add: NewTrustedOriginFromScopes_def Let_def TrustedOrigin_With_def With_eq
      NewTrustedOrigin_def fold_insert_scope)

lemma set_NewTrustedOriginFromScopes:
  "hs_set (NewTrustedOriginFromScopes rt bs rs cur sr) = trusted_blocks bs rs cur sr"
  by (auto simp: NewTrustedOriginFromScopes_def trusted_blocks_def Let_def TrustedOrigin_With_def
      With_eq NewTrustedOrigin_def fold_insert_scope)

text \<open>
  C9: a rule or check trusts exactly the authorizer, its own block and the blocks its scopes name:
  rule scopes replace block scopes, no scope at all means the authority block, the
  previous scope never reaches a later block, and a public key reaches exactly the blocks
  registered for it.
\<close>

theorem NewTrustedOriginFromScopes_trusts:
  "origin_ok rt (NewTrustedOriginFromScopes rt bs rs cur sr) \<and>
   hs_set (NewTrustedOriginFromScopes rt bs rs cur sr) = trusted_blocks bs rs cur sr"
  by (simp add: set_NewTrustedOriginFromScopes)

text \<open>
  Without public-key scopes a block never trusts a block that comes after it: an
  attenuating block cannot inject facts into the checks of earlier blocks.
\<close>

theorem no_later_block_trusted:
  assumes "\<forall>sc \<in> set bs \<union> set rs. scope_Type sc \<noteq> PublicKeyScopeType"
    and "b \<in> hs_set (NewTrustedOriginFromScopes rt bs rs cur sr)"
  shows "b = AuthorizerBlockID \<or> b \<le> cur"
proof -
  have "b = AuthorizerBlockID \<or> b \<le> cur"
    if "b \<in> scope_blocks cur sr sc" "scope_Type sc \<noteq> PublicKeyScopeType" for sc
    using that by (cases "(cur, sr, sc)" rule: scope_blocks.cases) (auto split: if_splits)
  then show ?thesis
    using assms by (auto simp: set_NewTrustedOriginFromScopes trusted_blocks_def Let_def split: if_splits)
qed

theorem no_later_block_trusted_witness:
  "0 \<in> hs_set (NewTrustedOriginFromScopes demo_runtime [] [Scope PreviousScopeType 0] 2 []) \<and>
    (0 = AuthorizerBlockID \<or> 0 \<le> (2 :: u64))"
proof -
  have "0 \<in> hs_set (NewTrustedOriginFromScopes demo_runtime [] [Scope PreviousScopeType 0] 2 [])"
    by (simp add: set_NewTrustedOriginFromScopes trusted_blocks_def AuthorizerBlockID_def)
  then show ?thesis
    using no_later_block_trusted[of "[]" "[Scope PreviousScopeType 0]" 0 demo_runtime 2 "[]"] by simp
qed

end
