(* ===== verification/Surface.thy ===== *)
theory Surface
  imports Symbols Origins
begin

text \<open>
  The terms of \<^verbatim>\<open>types.go\<close>, in which callers write facts and rules and whose names are
  strings, and their interning: \<^verbatim>\<open>convert\<close> turns a term into one of the datalog package and
  records its strings in a symbol table, \<^verbatim>\<open>fromDatalogID\<close> reads it read_back. The locale
  \<open>interning\<close> is the contract of such a pair; lists of what satisfies it satisfy it too.
\<close>

section \<open>Terms\<close>

text \<open>A \<^verbatim>\<open>time.Time\<close> without monotonic clock: seconds since 1970 as an int64, and nanoseconds.\<close>

type_synonym time = "u64 \<times> nat"

datatype BTerm =
    BVariable string
  | BInteger u64
  | BString string
  | BDate time
  | BBytes "u8 list"
  | BBool bool
  | BSet "BTerm hashset"

datatype BTermType =
    BTermTypeSymbol | BTermTypeVariable | BTermTypeInteger | BTermTypeString | BTermTypeDate
  | BTermTypeBytes | BTermTypeBool | BTermTypeSet

fun BTermType_iota :: "BTermType \<Rightarrow> nat" where
  "BTermType_iota BTermTypeSymbol = 0"
| "BTermType_iota BTermTypeVariable = 1"
| "BTermType_iota BTermTypeInteger = 2"
| "BTermType_iota BTermTypeString = 3"
| "BTermType_iota BTermTypeDate = 4"
| "BTermType_iota BTermTypeBytes = 5"
| "BTermType_iota BTermTypeBool = 6"
| "BTermType_iota BTermTypeSet = 7"

fun BTerm_Type :: "BTerm \<Rightarrow> BTermType" where
  "BTerm_Type (BVariable _) = BTermTypeVariable"
| "BTerm_Type (BInteger _) = BTermTypeInteger"
| "BTerm_Type (BString _) = BTermTypeString"
| "BTerm_Type (BDate _) = BTermTypeDate"
| "BTerm_Type (BBytes _) = BTermTypeBytes"
| "BTerm_Type (BBool _) = BTermTypeBool"
| "BTerm_Type (BSet _) = BTermTypeSet"

definition btype_byte :: "BTermType \<Rightarrow> u8" where
  "btype_byte k = word_of_nat (BTermType_iota k)"

lemma BTermType_iota_inj [simp]: "BTermType_iota a = BTermType_iota b \<longleftrightarrow> a = b"
  by (cases a; cases b) simp_all

section \<open>Comparison\<close>

text \<open>
  All \<^verbatim>\<open>Compare\<close> methods begin alike: nil comes first, then the types decide. \<open>f\<close> compares
  values of the method's own type and is 0 on the others, which it never sees.
\<close>

definition compare_as :: "BTermType \<Rightarrow> BTerm option \<Rightarrow> (BTerm \<Rightarrow> int) \<Rightarrow> int" where
  "compare_as k other f = (case other of None \<Rightarrow> 1 | Some other \<Rightarrow>
     (let x = cmp_Compare (BTermType_iota k) (BTermType_iota (BTerm_Type other)) in
      if x \<noteq> 0 then x else f other))"

definition BVariable_Compare :: "string \<Rightarrow> BTerm option \<Rightarrow> int" where
  "BVariable_Compare a other = compare_as BTermTypeVariable other
     (\<lambda>other. case other of BVariable other2 \<Rightarrow> cmp_Compare a other2 | _ \<Rightarrow> 0)"

definition BInteger_Compare :: "u64 \<Rightarrow> BTerm option \<Rightarrow> int" where
  "BInteger_Compare a other = compare_as BTermTypeInteger other
     (\<lambda>other. case other of BInteger other2 \<Rightarrow> cmp_Compare (sint a) (sint other2) | _ \<Rightarrow> 0)"

definition BString_Compare :: "string \<Rightarrow> BTerm option \<Rightarrow> int" where
  "BString_Compare a other = compare_as BTermTypeString other
     (\<lambda>other. case other of BString other2 \<Rightarrow> cmp_Compare a other2 | _ \<Rightarrow> 0)"

text \<open>\<^verbatim>\<open>time.Time\<close> counts its seconds from the year 1, in an int64.\<close>

definition internal_time :: "time \<Rightarrow> int \<times> nat" where
  "internal_time t = (sint (fst t + 62135596800), snd t)"

definition BDate_Compare :: "time \<Rightarrow> BTerm option \<Rightarrow> int" where
  "BDate_Compare a other = compare_as BTermTypeDate other
     (\<lambda>other. case other of BDate other2 \<Rightarrow> cmp_Compare (internal_time a) (internal_time other2) | _ \<Rightarrow> 0)"

definition BBytes_Compare :: "u8 list \<Rightarrow> BTerm option \<Rightarrow> int" where
  "BBytes_Compare a other = compare_as BTermTypeBytes other
     (\<lambda>other. case other of BBytes other2 \<Rightarrow> cmp_Compare a other2 | _ \<Rightarrow> 0)"

definition BBool_Compare :: "bool \<Rightarrow> BTerm option \<Rightarrow> int" where
  "BBool_Compare b other = compare_as BTermTypeBool other
     (\<lambda>other. case other of BBool other2 \<Rightarrow> CompareBool b other2 | _ \<Rightarrow> 0)"

definition BSet_Compare :: "(BTerm \<Rightarrow> BTerm \<Rightarrow> int) \<Rightarrow> BTerm hashset \<Rightarrow> BTerm option \<Rightarrow> int" where
  "BSet_Compare c a other = compare_as BTermTypeSet other
     (\<lambda>other. case other of BSet b \<Rightarrow> Compared c (HashSet_Iter a) (HashSet_Iter b)
        | _ \<Rightarrow> cmp_Compare (HashSet_Size a) 0)"

fun belements_of :: "BTerm option \<Rightarrow> BTerm set" where
  "belements_of (Some (BSet s)) = set (HashSet_Iter s)"
| "belements_of _ = {}"

lemma BSet_Compare_cong [fundef_cong]:
  assumes "s = s'" "t = t'"
    and "\<And>a b. a \<in> set (HashSet_Iter s') \<union> belements_of t' \<Longrightarrow>
      b \<in> set (HashSet_Iter s') \<union> belements_of t' \<Longrightarrow> c a b = d a b"
  shows "BSet_Compare c s t = BSet_Compare d s' t'"
proof -
  have "Compared c (HashSet_Iter s') (HashSet_Iter s2) = Compared d (HashSet_Iter s') (HashSet_Iter s2)"
    if "t' = Some (BSet s2)" for s2
    by (rule Compared_cong) (use assms(3) that in auto)
  then show ?thesis
    by (auto simp: BSet_Compare_def compare_as_def assms(1,2) Let_def split: option.splits BTerm.splits)
qed

lemma bsize_element: "x \<in> set (HashSet_Iter s) \<Longrightarrow> size x < size (BSet s)"
proof -
  have el: "x \<in> set xs \<Longrightarrow> size x < size_list size xs" for xs :: "BTerm list"
    by (induction xs) auto
  have "x \<in> set (concat (map snd bs)) \<Longrightarrow>
      size x < size_list (size_prod (\<lambda>_. 0) (size_list size)) bs" for bs :: "(u64 \<times> BTerm list) list"
  proof (induction bs)
    case (Cons b bs)
    then consider "x \<in> set (snd b)" | "x \<in> set (concat (map snd bs))" by auto
    then show ?case
    proof cases
      case 1
      then show ?thesis using el[of "snd b"] by (cases b) simp
    next
      case 2
      then show ?thesis using Cons.IH by (cases b) simp
    qed
  qed simp
  then show "x \<in> set (HashSet_Iter s) \<Longrightarrow> size x < size (BSet s)"
    by (cases s) (fastforce simp: HashSet_Iter_def)
qed

function BTerm_Compare :: "BTerm \<Rightarrow> BTerm option \<Rightarrow> int" where
  "BTerm_Compare (BVariable v) t = BVariable_Compare v t"
| "BTerm_Compare (BInteger i) t = BInteger_Compare i t"
| "BTerm_Compare (BString s) t = BString_Compare s t"
| "BTerm_Compare (BDate d) t = BDate_Compare d t"
| "BTerm_Compare (BBytes b) t = BBytes_Compare b t"
| "BTerm_Compare (BBool b) t = BBool_Compare b t"
| "BTerm_Compare (BSet s) t = BSet_Compare (\<lambda>a b. BTerm_Compare a (Some b)) s t"
  by pat_completeness auto
termination
proof (relation "measure (\<lambda>(a, t). max (size a) (case t of None \<Rightarrow> 0 | Some b \<Rightarrow> size b))", simp)
  fix s t a b
  assume "a \<in> set (HashSet_Iter s) \<union> belements_of t" "b \<in> set (HashSet_Iter s) \<union> belements_of t"
  moreover have "size x < max (size (BSet s)) (case t of None \<Rightarrow> 0 | Some b \<Rightarrow> size b)"
    if "x \<in> set (HashSet_Iter s) \<union> belements_of t" for x
  proof -
    have "size x < size (BSet s) \<or> size x < (case t of None \<Rightarrow> 0 | Some b \<Rightarrow> size b)"
      using that bsize_element[of x] by (cases t rule: belements_of.cases) auto
    then show ?thesis unfolding less_max_iff_disj .
  qed
  ultimately show "((a, Some b), (BSet s, t)) \<in>
      measure (\<lambda>(a, t). max (size a) (case t of None \<Rightarrow> 0 | Some b \<Rightarrow> size b))"
    by simp
qed

definition BTerm_Equal :: "BTerm \<Rightarrow> BTerm option \<Rightarrow> bool" where
  "BTerm_Equal a other \<longleftrightarrow> BTerm_Compare a other = 0"

abbreviation bterm_eq :: "BTerm \<Rightarrow> BTerm \<Rightarrow> bool" where
  "bterm_eq a b \<equiv> BTerm_Equal a (Some b)"

section \<open>Hash\<close>

definition BVariable_Hash :: "string \<Rightarrow> HashBuilder \<Rightarrow> HashBuilder" where
  "BVariable_Hash a builder =
     HashBuilder_String (HashBuilder_Byte builder (btype_byte BTermTypeVariable)) (''$'' @ a)"

definition BInteger_Hash :: "u64 \<Rightarrow> HashBuilder \<Rightarrow> HashBuilder" where
  "BInteger_Hash a builder = HashBuilder_Int64 (HashBuilder_Byte builder (btype_byte BTermTypeInteger)) a"

definition BString_Hash :: "string \<Rightarrow> HashBuilder \<Rightarrow> HashBuilder" where
  "BString_Hash a builder = HashBuilder_String (HashBuilder_Byte builder (btype_byte BTermTypeString)) a"

definition BDate_Hash :: "time \<Rightarrow> HashBuilder \<Rightarrow> HashBuilder" where
  "BDate_Hash a builder = HashBuilder_Int64 (HashBuilder_Byte builder (btype_byte BTermTypeDate))
     (fst a * 1000000000 + word_of_nat (snd a))"

definition BBytes_Hash :: "u8 list \<Rightarrow> HashBuilder \<Rightarrow> HashBuilder" where
  "BBytes_Hash a builder = HashBuilder_Bytes (HashBuilder_Byte builder (btype_byte BTermTypeBytes)) a"

definition BBool_Hash :: "bool \<Rightarrow> HashBuilder \<Rightarrow> HashBuilder" where
  "BBool_Hash b builder = HashBuilder_Bool (HashBuilder_Byte builder (btype_byte BTermTypeBool)) b"

definition BSet_Hash :: "(BTerm \<Rightarrow> HashBuilder \<Rightarrow> HashBuilder) \<Rightarrow> BTerm hashset \<Rightarrow> HashBuilder \<Rightarrow> HashBuilder" where
  "BSet_Hash hash a builder = fold (\<lambda>term builder. hash term builder) (HashSet_Iter a)
     (HashBuilder_Byte builder (btype_byte BTermTypeSet))"

lemma BSet_Hash_cong [fundef_cong]:
  assumes "s = s'" "b = b'" and "\<And>a hb. a \<in> set (HashSet_Iter s') \<Longrightarrow> f a hb = g a hb"
  shows "BSet_Hash f s b = BSet_Hash g s' b'"
  unfolding BSet_Hash_def assms(1,2) by (rule fold_cong) (use assms(3) in auto)

function BTerm_Hash :: "BTerm \<Rightarrow> HashBuilder \<Rightarrow> HashBuilder" where
  "BTerm_Hash (BVariable v) builder = BVariable_Hash v builder"
| "BTerm_Hash (BInteger i) builder = BInteger_Hash i builder"
| "BTerm_Hash (BString s) builder = BString_Hash s builder"
| "BTerm_Hash (BDate d) builder = BDate_Hash d builder"
| "BTerm_Hash (BBytes b) builder = BBytes_Hash b builder"
| "BTerm_Hash (BBool b) builder = BBool_Hash b builder"
| "BTerm_Hash (BSet s) builder = BSet_Hash BTerm_Hash s builder"
  by pat_completeness auto
termination
  by (relation "measure (\<lambda>(a, _). size a)") (auto dest: bsize_element)

abbreviation bterm_hash :: "runtime \<Rightarrow> BTerm \<Rightarrow> u64" where
  "bterm_hash rt \<equiv> built_hash rt BTerm_Hash"

definition BNewSet :: "runtime \<Rightarrow> BTerm list \<Rightarrow> BTerm hashset" where
  "BNewSet rt terms = NewHashSet (bterm_hash rt) bterm_eq terms"

section \<open>Equality of values\<close>

fun bterm_atomic :: "BTerm \<Rightarrow> bool" where
  "bterm_atomic (BSet _) = False"
| "bterm_atomic _ = True"

lemma internal_time_inj [simp]: "internal_time a = internal_time b \<longleftrightarrow> a = b"
  by (cases a; cases b) (auto simp: internal_time_def dest: signed_word_eqI)

lemma bterm_eq_iff: "bterm_atomic a \<Longrightarrow> bterm_eq a b \<longleftrightarrow> a = b"
  by (cases a; cases b)
     (auto simp: BTerm_Equal_def BTerm_Compare.simps BVariable_Compare_def BInteger_Compare_def BString_Compare_def
       BDate_Compare_def BBytes_Compare_def BBool_Compare_def compare_as_def Let_def CompareBool_cmp intro: signed_word_eqI)

interpretation bterm_set: hash_elements "bterm_hash rt" bterm_eq bterm_atomic for rt
  by unfold_locales (rule bterm_eq_iff)

section \<open>Interning terms\<close>

datatype conv_error =
    ConvPanic                \<comment> \<open>a symbol from \<open>2 ^ 63\<close> on, or a nil key table\<close>
  | InvalidKeyIndex u64

type_synonym converted = "(Term \<times> SymbolTable) option"

definition BVariable_convert :: "string \<Rightarrow> SymbolTable \<Rightarrow> converted" where
  "BVariable_convert a symbols = (let (sy, symbols') = SymbolTable_Insert symbols a in Some (TVariable (ucast sy), symbols'))"

definition BInteger_convert :: "u64 \<Rightarrow> SymbolTable \<Rightarrow> converted" where
  "BInteger_convert a symbols = Some (TInteger a, symbols)"

definition BString_convert :: "string \<Rightarrow> SymbolTable \<Rightarrow> converted" where
  "BString_convert a symbols = (let (sy, symbols') = SymbolTable_Insert symbols a in Some (TString sy, symbols'))"

definition BDate_convert :: "time \<Rightarrow> SymbolTable \<Rightarrow> converted" where
  "BDate_convert a symbols = Some (TDate (fst a), symbols)"

definition BBytes_convert :: "u8 list \<Rightarrow> SymbolTable \<Rightarrow> converted" where
  "BBytes_convert a symbols = Some (TBytes a, symbols)"

definition BBool_convert :: "bool \<Rightarrow> SymbolTable \<Rightarrow> converted" where
  "BBool_convert a symbols = Some (TBool a, symbols)"

function BTerm_convert :: "runtime \<Rightarrow> BTerm \<Rightarrow> SymbolTable \<Rightarrow> converted" where
  "BTerm_convert rt (BVariable a) symbols = BVariable_convert a symbols"
| "BTerm_convert rt (BInteger a) symbols = BInteger_convert a symbols"
| "BTerm_convert rt (BString a) symbols = BString_convert a symbols"
| "BTerm_convert rt (BDate a) symbols = BDate_convert a symbols"
| "BTerm_convert rt (BBytes a) symbols = BBytes_convert a symbols"
| "BTerm_convert rt (BBool a) symbols = BBool_convert a symbols"
| "BTerm_convert rt (BSet a) symbols =
     (case thread (\<lambda>e symbols. BTerm_convert rt e symbols) (HashSet_Iter a) symbols of
        None \<Rightarrow> None
      | Some (es, symbols') \<Rightarrow>
          Some (TSet (fold (\<lambda>e datalogSet. snd (HashSet_Insert (term_hash rt) term_eq datalogSet e)) es (NewSet rt [])),
            symbols'))"
  by pat_completeness auto
termination
  by (relation "measure (\<lambda>(_, a, _). size a)") (auto dest: bsize_element)

declare BVariable_convert_def [simp] BInteger_convert_def [simp] BString_convert_def [simp]
declare BDate_convert_def [simp] BBytes_convert_def [simp] BBool_convert_def [simp]

definition read_Str :: "SymbolTable \<Rightarrow> u64 \<Rightarrow> conv_error + string" where
  "read_Str symbols sy = (case SymbolTable_Str symbols sy of None \<Rightarrow> Inl ConvPanic | Some s \<Rightarrow> Inr s)"

function fromDatalogID :: "runtime \<Rightarrow> SymbolTable \<Rightarrow> Term \<Rightarrow> conv_error + BTerm" where
  "fromDatalogID rt symbols (TVariable v) = bind_res (read_Str symbols (ucast v)) (\<lambda>s. Inr (BVariable s))"
| "fromDatalogID rt symbols (TInteger i) = Inr (BInteger i)"
| "fromDatalogID rt symbols (TString sy) = bind_res (read_Str symbols sy) (\<lambda>s. Inr (BString s))"
| "fromDatalogID rt symbols (TDate d) = Inr (BDate (d, 0))"
| "fromDatalogID rt symbols (TBytes b) = Inr (BBytes b)"
| "fromDatalogID rt symbols (TBool b) = Inr (BBool b)"
| "fromDatalogID rt symbols (TSet setIDs) =
     bind_res (traverse (\<lambda>term. fromDatalogID rt symbols term) (HashSet_Iter setIDs)) (\<lambda>terms. Inr (BSet (BNewSet rt terms)))"
  by pat_completeness auto
termination
  by (relation "measure (\<lambda>(_, _, a). size a)") (auto dest: size_element)

section \<open>The contract of interning\<close>

text \<open>
  \<open>conv\<close> interns into a state that only grows (\<open>le\<close>); \<open>read_back\<close>, on any later state whose
  indices still fit, reads the value again.
\<close>

locale interning =
  fixes conv :: "'a \<Rightarrow> 's \<Rightarrow> ('b \<times> 's) option" and read_back :: "'s \<Rightarrow> 'b \<Rightarrow> conv_error + 'a"
    and ok :: "'a \<Rightarrow> bool" and le :: "'s \<Rightarrow> 's \<Rightarrow> bool" and fits :: "'s \<Rightarrow> bool"
  assumes le_refl: "le s s" and le_trans: "le s t \<Longrightarrow> le t u \<Longrightarrow> le s u"
    and conv_le: "ok x \<Longrightarrow> conv x s = Some (y, s') \<Longrightarrow> le s s'"
    and round: "ok x \<Longrightarrow> conv x s = Some (y, s') \<Longrightarrow> le s' t \<Longrightarrow> fits t \<Longrightarrow> read_back t y = Inr x"
    and conv_returns: "ok x \<Longrightarrow> conv x s \<noteq> None"
begin

lemma thread_le: "\<forall>x \<in> set xs. ok x \<Longrightarrow> thread conv xs s = Some (ys, s') \<Longrightarrow> le s s'"
proof (induction xs arbitrary: s ys)
  case (Cons x xs)
  obtain y s1 zs where y: "conv x s = Some (y, s1)" "thread conv xs s1 = Some (zs, s')"
    using Cons.prems(2) by (auto split: option.splits)
  show ?case
    by (rule le_trans[OF conv_le[OF _ y(1)] Cons.IH[OF _ y(2)]]) (use Cons.prems(1) in simp_all)
qed (simp add: le_refl)

lemma thread_round:
  "\<forall>x \<in> set xs. ok x \<Longrightarrow> thread conv xs s = Some (ys, s') \<Longrightarrow> le s' t \<Longrightarrow> fits t \<Longrightarrow> traverse (read_back t) ys = Inr xs"
proof (induction xs arbitrary: s ys)
  case (Cons x xs)
  obtain y s1 zs where y: "conv x s = Some (y, s1)" "thread conv xs s1 = Some (zs, s')" "ys = y # zs"
    using Cons.prems(2) by (auto split: option.splits)
  have "le s1 s'" using thread_le[OF _ y(2)] Cons.prems(1) by simp
  then have "read_back t y = Inr x" using round[OF _ y(1)] Cons.prems le_trans by simp
  then show ?case using Cons.IH[OF _ y(2)] Cons.prems y(3) by simp
qed simp

lemma thread_returns: "\<forall>x \<in> set xs. ok x \<Longrightarrow> thread conv xs s \<noteq> None"
proof (induction xs arbitrary: s)
  case (Cons x xs)
  then obtain y s1 where y: "conv x s = Some (y, s1)" using conv_returns[of x s] by auto
  then show ?case using Cons.IH[of s1] Cons.prems by auto
qed simp

end

text \<open>Lists of values that are interned one after the other are interned.\<close>

lemma interning_list:
  assumes "interning conv read_back ok le fits"
  shows "interning (thread conv) (\<lambda>t. traverse (read_back t)) (\<lambda>xs. \<forall>x \<in> set xs. ok x) le fits"
proof (rule interning.intro)
  show "le s s" for s by (rule interning.le_refl[OF assms])
  show "le s u" if "le s t" "le t u" for s t u by (rule interning.le_trans[OF assms that])
  show "le s s'" if "\<forall>x \<in> set xs. ok x" "thread conv xs s = Some (ys, s')" for xs s ys s'
    by (rule interning.thread_le[OF assms that])
  show "traverse (read_back t) ys = Inr xs"
    if "\<forall>x \<in> set xs. ok x" "thread conv xs s = Some (ys, s')" "le s' t" "fits t" for xs s ys s' t
    by (rule interning.thread_round[OF assms that])
  show "thread conv xs s \<noteq> None" if "\<forall>x \<in> set xs. ok x" for xs s
    by (rule interning.thread_returns[OF assms that])
qed

text \<open>A later symbol table keeps every string, and its symbols must fit into 32 bits, as variables do.\<close>

definition sym_le :: "SymbolTable \<Rightarrow> SymbolTable \<Rightarrow> bool" where
  "sym_le s t \<longleftrightarrow> (\<exists>us. t = s @ us)"

definition sym_fits :: "SymbolTable \<Rightarrow> bool" where
  "sym_fits t \<longleftrightarrow> 1024 + length t \<le> 2 ^ 32"

lemma sym_le_refl [simp]: "sym_le s s"
  by (simp add: sym_le_def)

lemma sym_le_trans: "sym_le s t \<Longrightarrow> sym_le t u \<Longrightarrow> sym_le s u"
  by (auto simp: sym_le_def)

lemma Insert_le: "SymbolTable_Insert s x = (sy, s') \<Longrightarrow> sym_le s s'"
  by (auto simp: sym_le_def SymbolTable_Insert_def Let_def split: option.splits)

lemma Var_sym_get:
  assumes "sym_get t sy = Some x" "unat v = unat sy"
  shows "SymbolTable_Var t v = x"
proof -
  obtain n where n: "unat v = n" "unat sy = n" using assms(2) by metis
  have "length DEFAULT_SYMBOLS = 28" by (simp add: DEFAULT_SYMBOLS_def)
  with assms(1) n show ?thesis by (auto simp: SymbolTable_Var_def sym_get_def split: if_splits)
qed

lemma Insert_sym_get:
  assumes "SymbolTable_Insert s x = (sy, s')" "sym_le s' t" "sym_fits t"
  shows "sym_get t sy = Some x" and "unat (ucast sy :: u32) = unat sy"
proof -
  obtain us where us: "t = s' @ us" using assms(2) by (auto simp: sym_le_def)
  have len: "length s \<le> length s'" using Insert_le[OF assms(1)] by (auto simp: sym_le_def)
  have fits: "1024 + length s' \<le> 2 ^ 32" using assms(3) us by (simp add: sym_fits_def)
  then have room: "sym_room (Suc 0) s" using len by (simp add: sym_room_def)
  have "sym_get s' sy = Some x" using sym_table.get_ins[OF room, of x] assms(1) by simp
  then have get: "sym_get t sy = Some x" "unat sy < 2 ^ 32"
    using fits by (auto simp: sym_get_def us nth_append split: if_splits)
  then show "sym_get t sy = Some x" "unat (ucast sy :: u32) = unat sy"
    by (simp_all add: unsigned_ucast_eq take_bit_nat_eq_self)
qed

lemma Insert_get:
  assumes "SymbolTable_Insert s x = (sy, s')" "sym_le s' t" "sym_fits t"
  shows "SymbolTable_Str t sy = Some x" and "ucast (ucast sy :: u32) = sy" and "SymbolTable_Var t (ucast sy) = x"
proof -
  note get = Insert_sym_get[OF assms]
  have "sym_room 0 t" using assms(3) by (simp add: sym_room_def sym_fits_def)
  then show "SymbolTable_Str t sy = Some x" using Str_sym_get get(1) by blast
  have "unat (ucast (ucast sy :: u32) :: u64) = unat sy"
    using get(2) by (simp add: unsigned_ucast_eq unsigned_take_bit_eq)
  then show "ucast (ucast sy :: u32) = sy" by (rule unsigned_word_eqI)
  show "SymbolTable_Var t (ucast sy) = x"
    using get by (rule Var_sym_get)
qed

text \<open>Atomic terms; dates only survive in whole seconds.\<close>

fun bterm_plain :: "BTerm \<Rightarrow> bool" where
  "bterm_plain (BSet _) = False"
| "bterm_plain (BDate d) = (snd d = 0)"
| "bterm_plain _ = True"

interpretation term_interning: interning "BTerm_convert rt" "fromDatalogID rt" bterm_plain sym_le sym_fits for rt
proof
  fix x s y s' t
  assume x: "bterm_plain x" and c: "BTerm_convert rt x s = Some (y, s')"
  show "sym_le s s'" using x c by (cases x) (auto split: prod.splits intro: Insert_le)
  assume "sym_le s' t" "sym_fits t"
  note g = Insert_get[OF _ this]
  show "fromDatalogID rt t y = Inr x"
    using x c g by (cases x) (auto simp: read_Str_def split: prod.splits)
next
  show "bterm_plain x \<Longrightarrow> BTerm_convert rt x s \<noteq> None" for x s
    by (cases x) (auto split: prod.splits)
qed (auto intro: sym_le_trans)

end
