(* ===== verification/Expressions.thy ===== *)
theory Expressions
  imports Symbols
begin

text \<open>
  Datalog expressions (\<^verbatim>\<open>datalog/expressions.go\<close>): postfix programs over a stack of at
  most \<^verbatim>\<open>maxStackSize\<close> terms. Every operation has its own evaluation, named after its Go
  type. \<^verbatim>\<open>Add\<close> on strings interns the result, so evaluation threads the symbol table.
  A runtime panic is the value \<open>GoPanic\<close> of an operation and \<open>ExprPanic\<close> of a program.
  The theory \<open>ExprSemantics\<close> states what evaluation computes.
\<close>

section \<open>Operations\<close>

definition maxStackSize :: nat where
  "maxStackSize = 1000"

datatype OpType = OpTypeValue | OpTypeUnary | OpTypeBinary

fun OpType_iota :: "OpType \<Rightarrow> nat" where
  "OpType_iota OpTypeValue = 0"
| "OpType_iota OpTypeUnary = 1"
| "OpType_iota OpTypeBinary = 2"

datatype UnaryOpFunc = Negate | Parens | Length

fun UnaryOpType_iota :: "UnaryOpFunc \<Rightarrow> nat" where
  "UnaryOpType_iota Negate = 0"
| "UnaryOpType_iota Parens = 1"
| "UnaryOpType_iota Length = 2"

datatype BinaryOpFunc =
    LessThan | LessOrEqual | GreaterThan | GreaterOrEqual | Equal | Contains | Prefix | Suffix
  | Regex | Add | Sub | Mul | Div | And | Or | Intersection | Union

fun BinaryOpType_iota :: "BinaryOpFunc \<Rightarrow> nat" where
  "BinaryOpType_iota LessThan = 0"
| "BinaryOpType_iota LessOrEqual = 1"
| "BinaryOpType_iota GreaterThan = 2"
| "BinaryOpType_iota GreaterOrEqual = 3"
| "BinaryOpType_iota Equal = 4"
| "BinaryOpType_iota Contains = 5"
| "BinaryOpType_iota Prefix = 6"
| "BinaryOpType_iota Suffix = 7"
| "BinaryOpType_iota Regex = 8"
| "BinaryOpType_iota Add = 9"
| "BinaryOpType_iota Sub = 10"
| "BinaryOpType_iota Mul = 11"
| "BinaryOpType_iota Div = 12"
| "BinaryOpType_iota And = 13"
| "BinaryOpType_iota Or = 14"
| "BinaryOpType_iota Intersection = 15"
| "BinaryOpType_iota Union = 16"

datatype Op = Value Term | UnaryOp UnaryOpFunc | BinaryOp BinaryOpFunc

type_synonym Expression = "Op slice"

fun Op_Type :: "Op \<Rightarrow> OpType" where
  "Op_Type (Value _) = OpTypeValue"
| "Op_Type (UnaryOp _) = OpTypeUnary"
| "Op_Type (BinaryOp _) = OpTypeBinary"

datatype eval_error =
    ErrExprDivByZero
  | ErrInt64Overflow
  | TypeMismatch TermType TermType
  | UnexpectedType TermType
  | RequiresLeft TermType
  | RequiresRight TermType
  | InvalidRegex
  | GoPanic

type_synonym eval_result = "eval_error + Term"

text \<open>A read of the symbol table panics on an identifier from \<open>2 ^ 63\<close> on.\<close>

definition with_Str :: "SymbolTable \<Rightarrow> u64 \<Rightarrow> (string \<Rightarrow> eval_error + 'a) \<Rightarrow> eval_error + 'a" where
  "with_Str symbols s f = (case SymbolTable_Str symbols s of None \<Rightarrow> Inl GoPanic | Some str \<Rightarrow> f str)"

section \<open>Unary operations\<close>

definition Negate_Eval :: "Term \<Rightarrow> eval_result" where
  "Negate_Eval value = (case value of
     TBool b \<Rightarrow> Inr (TBool (\<not> b))
   | _ \<Rightarrow> Inl (UnexpectedType (Term_Type value)))"

definition Parens_Eval :: "Term \<Rightarrow> eval_result" where
  "Parens_Eval value = Inr value"

definition Length_Eval :: "SymbolTable \<Rightarrow> Term \<Rightarrow> eval_result" where
  "Length_Eval symbols value = (case value of
     TString s \<Rightarrow> with_Str symbols s (\<lambda>str. Inr (TInteger (word_of_nat (length str))))
   | TBytes b \<Rightarrow> Inr (TInteger (word_of_nat (length b)))
   | TSet s \<Rightarrow> Inr (TInteger (word_of_nat (HashSet_Size s)))
   | _ \<Rightarrow> Inl (UnexpectedType (Term_Type value)))"

definition UnaryOpFunc_Eval :: "SymbolTable \<Rightarrow> UnaryOpFunc \<Rightarrow> Term \<Rightarrow> eval_result" where
  "UnaryOpFunc_Eval symbols f value = (case f of
     Negate \<Rightarrow> Negate_Eval value
   | Parens \<Rightarrow> Parens_Eval value
   | Length \<Rightarrow> Length_Eval symbols value)"

section \<open>Comparison operations\<close>

definition LessThan_Eval :: "Term \<Rightarrow> Term \<Rightarrow> eval_result" where
  "LessThan_Eval left right =
     (if Term_Type left \<noteq> Term_Type right then Inl (TypeMismatch (Term_Type left) (Term_Type right))
      else (case (left, right) of
          (TInteger l, TInteger r) \<Rightarrow> Inr (TBool (sint l < sint r))
        | (TDate l, TDate r) \<Rightarrow> Inr (TBool (l < r))
        | _ \<Rightarrow> Inl (UnexpectedType (Term_Type left))))"

definition LessOrEqual_Eval :: "Term \<Rightarrow> Term \<Rightarrow> eval_result" where
  "LessOrEqual_Eval left right =
     (if Term_Type left \<noteq> Term_Type right then Inl (TypeMismatch (Term_Type left) (Term_Type right))
      else (case (left, right) of
          (TInteger l, TInteger r) \<Rightarrow> Inr (TBool (sint l \<le> sint r))
        | (TDate l, TDate r) \<Rightarrow> Inr (TBool (l \<le> r))
        | _ \<Rightarrow> Inl (UnexpectedType (Term_Type left))))"

definition GreaterThan_Eval :: "Term \<Rightarrow> Term \<Rightarrow> eval_result" where
  "GreaterThan_Eval left right =
     (if Term_Type left \<noteq> Term_Type right then Inl (TypeMismatch (Term_Type left) (Term_Type right))
      else (case (left, right) of
          (TInteger l, TInteger r) \<Rightarrow> Inr (TBool (sint l > sint r))
        | (TDate l, TDate r) \<Rightarrow> Inr (TBool (l > r))
        | _ \<Rightarrow> Inl (UnexpectedType (Term_Type left))))"

definition GreaterOrEqual_Eval :: "Term \<Rightarrow> Term \<Rightarrow> eval_result" where
  "GreaterOrEqual_Eval left right =
     (if Term_Type left \<noteq> Term_Type right then Inl (TypeMismatch (Term_Type left) (Term_Type right))
      else (case (left, right) of
          (TInteger l, TInteger r) \<Rightarrow> Inr (TBool (sint l \<ge> sint r))
        | (TDate l, TDate r) \<Rightarrow> Inr (TBool (l \<ge> r))
        | _ \<Rightarrow> Inl (UnexpectedType (Term_Type left))))"

definition Equal_Eval :: "Term \<Rightarrow> Term \<Rightarrow> eval_result" where
  "Equal_Eval left right =
     (if Term_Type left \<noteq> Term_Type right then Inl (TypeMismatch (Term_Type left) (Term_Type right))
      else if Term_Type left = TermTypeVariable then Inl (UnexpectedType (Term_Type left))
      else Inr (TBool (Term_Equal left (Some right))))"

section \<open>Strings\<close>

definition has_prefix :: "string \<Rightarrow> string \<Rightarrow> bool" where
  "has_prefix s p \<longleftrightarrow> length p \<le> length s \<and> take (length p) s = p"

definition has_suffix :: "string \<Rightarrow> string \<Rightarrow> bool" where
  "has_suffix s p \<longleftrightarrow> length p \<le> length s \<and> drop (length s - length p) s = p"

fun str_contains :: "string \<Rightarrow> string \<Rightarrow> bool" where
  "str_contains [] p = (p = [])"
| "str_contains (ch # s) p = (has_prefix (ch # s) p \<or> str_contains s p)"

definition Prefix_Eval :: "SymbolTable \<Rightarrow> Term \<Rightarrow> Term \<Rightarrow> eval_result" where
  "Prefix_Eval symbols left right = (case left of
     TString sleft \<Rightarrow> (case right of
         TString sright \<Rightarrow> with_Str symbols sleft (\<lambda>l. with_Str symbols sright (\<lambda>r.
           Inr (TBool (has_prefix l r))))
       | _ \<Rightarrow> Inl (RequiresRight TermTypeString))
   | _ \<Rightarrow> Inl (RequiresLeft TermTypeString))"

definition Suffix_Eval :: "SymbolTable \<Rightarrow> Term \<Rightarrow> Term \<Rightarrow> eval_result" where
  "Suffix_Eval symbols left right = (case left of
     TString sleft \<Rightarrow> (case right of
         TString sright \<Rightarrow> with_Str symbols sleft (\<lambda>l. with_Str symbols sright (\<lambda>r.
           Inr (TBool (has_suffix l r))))
       | _ \<Rightarrow> Inl (RequiresRight TermTypeString))
   | _ \<Rightarrow> Inl (RequiresLeft TermTypeString))"

definition Regex_Eval :: "runtime \<Rightarrow> SymbolTable \<Rightarrow> Term \<Rightarrow> Term \<Rightarrow> eval_result" where
  "Regex_Eval rt symbols left right = (case left of
     TString sleft \<Rightarrow> (case right of
         TString sright \<Rightarrow> with_Str symbols sright (\<lambda>r.
           (case regexp rt r of
              None \<Rightarrow> Inl InvalidRegex
            | Some re \<Rightarrow> with_Str symbols sleft (\<lambda>l. Inr (TBool (re l)))))
       | _ \<Rightarrow> Inl (RequiresRight TermTypeString))
   | _ \<Rightarrow> Inl (RequiresLeft TermTypeString))"

section \<open>Sets\<close>

definition Contains_Eval :: "SymbolTable \<Rightarrow> Term \<Rightarrow> Term \<Rightarrow> eval_result" where
  "Contains_Eval symbols left right = (case left of
     TString sleft \<Rightarrow> (case right of
         TString sright \<Rightarrow> with_Str symbols sleft (\<lambda>l. with_Str symbols sright (\<lambda>r.
           Inr (TBool (str_contains l r))))
       | _ \<Rightarrow> Inl (RequiresRight TermTypeString))
   | _ \<Rightarrow>
      (if Term_Type right = TermTypeVariable then Inl (UnexpectedType (Term_Type right))
       else (case left of
           TSet leftSet \<Rightarrow> (case right of
               TSet rhsset \<Rightarrow> Inr (TBool (list_all (\<lambda>rhselt.
                   list_ex (\<lambda>lhselt. Term_Equal lhselt (Some rhselt)) (HashSet_Iter leftSet))
                 (HashSet_Iter rhsset)))
             | _ \<Rightarrow> Inr (TBool (list_ex (\<lambda>elt. Term_Equal right (Some elt)) (HashSet_Iter leftSet))))
         | _ \<Rightarrow> Inl (RequiresLeft TermTypeSet))))"

definition Intersection_Eval :: "runtime \<Rightarrow> Term \<Rightarrow> Term \<Rightarrow> eval_result" where
  "Intersection_Eval rt left right = (case left of
     TSet leftSet \<Rightarrow> (case right of
         TSet set2 \<Rightarrow> Inr (TSet (Set_Intersect rt leftSet set2))
       | _ \<Rightarrow> Inl (RequiresRight TermTypeSet))
   | _ \<Rightarrow> Inl (RequiresLeft TermTypeSet))"

definition Union_Eval :: "runtime \<Rightarrow> Term \<Rightarrow> Term \<Rightarrow> eval_result" where
  "Union_Eval rt left right = (case left of
     TSet leftSet \<Rightarrow> (case right of
         TSet set2 \<Rightarrow> Inr (TSet (Set_Union rt leftSet set2))
       | _ \<Rightarrow> Inl (RequiresRight TermTypeSet))
   | _ \<Rightarrow> Inl (RequiresLeft TermTypeSet))"

section \<open>Arithmetic\<close>

text \<open>The arithmetic of \<^verbatim>\<open>math/big\<close> is exact; \<^verbatim>\<open>IsInt64\<close> is the range test.\<close>

definition IsInt64 :: "int \<Rightarrow> bool" where
  "IsInt64 i \<longleftrightarrow> - (2 ^ 63) \<le> i \<and> i < 2 ^ 63"

definition int64_or_overflow :: "int \<Rightarrow> eval_result" where
  "int64_or_overflow res = (if \<not> IsInt64 res then Inl ErrInt64Overflow else Inr (TInteger (word_of_int res)))"

definition Add_Eval :: "Term \<Rightarrow> Term \<Rightarrow> SymbolTable \<Rightarrow> eval_result \<times> SymbolTable" where
  "Add_Eval left right symbols = (case left of
     TString sleft \<Rightarrow> (case right of
         TString sright \<Rightarrow>
           (case with_Str symbols sleft (\<lambda>l. with_Str symbols sright (\<lambda>r. Inr (l @ r))) of
              Inl e \<Rightarrow> (Inl e, symbols)
            | Inr str \<Rightarrow> (let (s, symbols') = SymbolTable_Insert symbols str in (Inr (TString s), symbols')))
       | _ \<Rightarrow> (Inl (RequiresRight TermTypeString), symbols))
   | TInteger ileft \<Rightarrow> (case right of
         TInteger iright \<Rightarrow> (int64_or_overflow (sint ileft + sint iright), symbols)
       | _ \<Rightarrow> (Inl (RequiresRight TermTypeInteger), symbols))
   | _ \<Rightarrow> (Inl (RequiresLeft TermTypeInteger), symbols))"

definition Sub_Eval :: "Term \<Rightarrow> Term \<Rightarrow> eval_result" where
  "Sub_Eval left right = (case left of
     TInteger ileft \<Rightarrow> (case right of
         TInteger iright \<Rightarrow> int64_or_overflow (sint ileft - sint iright)
       | _ \<Rightarrow> Inl (RequiresRight TermTypeInteger))
   | _ \<Rightarrow> Inl (RequiresLeft TermTypeInteger))"

definition Mul_Eval :: "Term \<Rightarrow> Term \<Rightarrow> eval_result" where
  "Mul_Eval left right = (case left of
     TInteger ileft \<Rightarrow> (case right of
         TInteger iright \<Rightarrow> int64_or_overflow (sint ileft * sint iright)
       | _ \<Rightarrow> Inl (RequiresRight TermTypeInteger))
   | _ \<Rightarrow> Inl (RequiresLeft TermTypeInteger))"

text \<open>\<^verbatim>\<open>Div\<close> is the division of Go on \<^verbatim>\<open>int64\<close>: towards zero, and wrapping on overflow.\<close>

definition Div_Eval :: "Term \<Rightarrow> Term \<Rightarrow> eval_result" where
  "Div_Eval left right = (case left of
     TInteger ileft \<Rightarrow> (case right of
         TInteger iright \<Rightarrow>
           (if iright = 0 then Inl ErrExprDivByZero
            else Inr (TInteger (word_of_int (sint ileft sdiv sint iright))))
       | _ \<Rightarrow> Inl (RequiresRight TermTypeInteger))
   | _ \<Rightarrow> Inl (RequiresLeft TermTypeInteger))"

definition And_Eval :: "Term \<Rightarrow> Term \<Rightarrow> eval_result" where
  "And_Eval left right = (case left of
     TBool bleft \<Rightarrow> (case right of
         TBool bright \<Rightarrow> Inr (TBool (bleft \<and> bright))
       | _ \<Rightarrow> Inl (RequiresRight TermTypeBool))
   | _ \<Rightarrow> Inl (RequiresLeft TermTypeBool))"

definition Or_Eval :: "Term \<Rightarrow> Term \<Rightarrow> eval_result" where
  "Or_Eval left right = (case left of
     TBool bleft \<Rightarrow> (case right of
         TBool bright \<Rightarrow> Inr (TBool (bleft \<or> bright))
       | _ \<Rightarrow> Inl (RequiresRight TermTypeBool))
   | _ \<Rightarrow> Inl (RequiresLeft TermTypeBool))"

text \<open>The call \<^verbatim>\<open>op.(BinaryOp).Eval(left, right, symbols)\<close>.\<close>

definition BinaryOpFunc_Eval ::
    "runtime \<Rightarrow> BinaryOpFunc \<Rightarrow> Term \<Rightarrow> Term \<Rightarrow> SymbolTable \<Rightarrow> eval_result \<times> SymbolTable" where
  "BinaryOpFunc_Eval rt f left right symbols = (case f of
     LessThan \<Rightarrow> (LessThan_Eval left right, symbols)
   | LessOrEqual \<Rightarrow> (LessOrEqual_Eval left right, symbols)
   | GreaterThan \<Rightarrow> (GreaterThan_Eval left right, symbols)
   | GreaterOrEqual \<Rightarrow> (GreaterOrEqual_Eval left right, symbols)
   | Equal \<Rightarrow> (Equal_Eval left right, symbols)
   | Contains \<Rightarrow> (Contains_Eval symbols left right, symbols)
   | Prefix \<Rightarrow> (Prefix_Eval symbols left right, symbols)
   | Suffix \<Rightarrow> (Suffix_Eval symbols left right, symbols)
   | Regex \<Rightarrow> (Regex_Eval rt symbols left right, symbols)
   | Add \<Rightarrow> Add_Eval left right symbols
   | Sub \<Rightarrow> (Sub_Eval left right, symbols)
   | Mul \<Rightarrow> (Mul_Eval left right, symbols)
   | Div \<Rightarrow> (Div_Eval left right, symbols)
   | And \<Rightarrow> (And_Eval left right, symbols)
   | Or \<Rightarrow> (Or_Eval left right, symbols)
   | Intersection \<Rightarrow> (Intersection_Eval rt left right, symbols)
   | Union \<Rightarrow> (Union_Eval rt left right, symbols))"

section \<open>The stack machine\<close>

type_synonym stack = "Term list"

definition stack_Push :: "'a list \<Rightarrow> 'a \<Rightarrow> 'a list option" where
  "stack_Push s v = (if length s \<ge> maxStackSize then None else Some (s @ [v]))"

definition stack_Pop :: "'a list \<Rightarrow> ('a \<times> 'a list) option" where
  "stack_Pop s = (if length s = 0 then None
     else Some (s ! (length s - 1), take (length s - 1) s))"

datatype expr_error =
    UnknownVariable u32
  | StackOverflow
  | PopUnaryFailed
  | PopRightFailed
  | PopLeftFailed
  | UnaryEvalFailed eval_error
  | BinaryEvalFailed eval_error
  | InvalidResultingStack "Term list"
  | ExprPanic

definition wrap_error :: "(eval_error \<Rightarrow> expr_error) \<Rightarrow> eval_error \<Rightarrow> expr_error" where
  "wrap_error w e = (if e = GoPanic then ExprPanic else w e)"

text \<open>The bindings of a match: a nil pointer is \<open>None\<close>.\<close>

type_synonym bindings = "(u32 \<times> Term option) list"

definition push_or_overflow :: "stack \<Rightarrow> Term \<Rightarrow> expr_error + stack" where
  "push_or_overflow s v = (case stack_Push s v of None \<Rightarrow> Inl StackOverflow | Some s' \<Rightarrow> Inr s')"

definition eval_Value :: "bindings \<Rightarrow> Term \<Rightarrow> stack \<Rightarrow> expr_error + stack" where
  "eval_Value values id' s = (case id' of
     TVariable v \<Rightarrow> (case map_of values v of
         None \<Rightarrow> Inl (UnknownVariable v)
       | Some None \<Rightarrow> Inl ExprPanic
       | Some (Some t) \<Rightarrow> push_or_overflow s t)
   | _ \<Rightarrow> push_or_overflow s id')"

definition eval_UnaryOp :: "SymbolTable \<Rightarrow> UnaryOpFunc \<Rightarrow> stack \<Rightarrow> expr_error + stack" where
  "eval_UnaryOp symbols f s = (case stack_Pop s of
     None \<Rightarrow> Inl PopUnaryFailed
   | Some (v, s') \<Rightarrow> (case UnaryOpFunc_Eval symbols f v of
         Inl e \<Rightarrow> Inl (wrap_error UnaryEvalFailed e)
       | Inr res \<Rightarrow> push_or_overflow s' res))"

definition eval_BinaryOp ::
    "runtime \<Rightarrow> BinaryOpFunc \<Rightarrow> stack \<Rightarrow> SymbolTable \<Rightarrow> (expr_error + stack) \<times> SymbolTable" where
  "eval_BinaryOp rt f s symbols = (case stack_Pop s of
     None \<Rightarrow> (Inl PopRightFailed, symbols)
   | Some (right, s1) \<Rightarrow> (case stack_Pop s1 of
         None \<Rightarrow> (Inl PopLeftFailed, symbols)
       | Some (left, s2) \<Rightarrow> (case BinaryOpFunc_Eval rt f left right symbols of
             (Inl e, symbols') \<Rightarrow> (Inl (wrap_error BinaryEvalFailed e), symbols')
           | (Inr res, symbols') \<Rightarrow> (push_or_overflow s2 res, symbols'))))"

fun eval_op ::
    "runtime \<Rightarrow> bindings \<Rightarrow> Op \<Rightarrow> stack \<Rightarrow> SymbolTable \<Rightarrow> (expr_error + stack) \<times> SymbolTable" where
  "eval_op rt values (Value id') s symbols = (eval_Value values id' s, symbols)"
| "eval_op rt values (UnaryOp f) s symbols = (eval_UnaryOp symbols f s, symbols)"
| "eval_op rt values (BinaryOp f) s symbols = eval_BinaryOp rt f s symbols"

fun eval_ops ::
    "runtime \<Rightarrow> bindings \<Rightarrow> Op list \<Rightarrow> stack \<Rightarrow> SymbolTable \<Rightarrow> (expr_error + stack) \<times> SymbolTable" where
  "eval_ops rt values [] s symbols = (Inr s, symbols)"
| "eval_ops rt values (op # ops) s symbols = (case eval_op rt values op s symbols of
     (Inl e, symbols') \<Rightarrow> (Inl e, symbols')
   | (Inr s', symbols') \<Rightarrow> eval_ops rt values ops s' symbols')"

definition Expression_Evaluate ::
    "runtime \<Rightarrow> Expression \<Rightarrow> bindings \<Rightarrow> SymbolTable \<Rightarrow> (expr_error + Term) \<times> SymbolTable" where
  "Expression_Evaluate rt e values symbols = (case eval_ops rt values (elems e) [] symbols of
     (Inl err, symbols') \<Rightarrow> (Inl err, symbols')
   | (Inr s, symbols') \<Rightarrow>
       (if length s \<noteq> 1 then (Inl (InvalidResultingStack s), symbols')
        else (case stack_Pop s of
            None \<Rightarrow> (Inl PopUnaryFailed, symbols')
          | Some (v, _) \<Rightarrow> (Inr v, symbols'))))"

section \<open>Comparison and hash of expressions\<close>

text \<open>Every operator has methods of its own; a call on the interface is decided by the operator.\<close>

definition Negate_Compare :: "UnaryOpFunc \<Rightarrow> int" where
  "Negate_Compare other = cmp_Compare (UnaryOpType_iota Negate) (UnaryOpType_iota other)"

definition Negate_Hash :: "HashBuilder \<Rightarrow> HashBuilder" where
  "Negate_Hash builder = HashBuilder_Byte builder (word_of_nat (UnaryOpType_iota Negate))"

definition Parens_Compare :: "UnaryOpFunc \<Rightarrow> int" where
  "Parens_Compare other = cmp_Compare (UnaryOpType_iota Parens) (UnaryOpType_iota other)"

definition Parens_Hash :: "HashBuilder \<Rightarrow> HashBuilder" where
  "Parens_Hash builder = HashBuilder_Byte builder (word_of_nat (UnaryOpType_iota Parens))"

definition Length_Compare :: "UnaryOpFunc \<Rightarrow> int" where
  "Length_Compare other = cmp_Compare (UnaryOpType_iota Length) (UnaryOpType_iota other)"

definition Length_Hash :: "HashBuilder \<Rightarrow> HashBuilder" where
  "Length_Hash builder = HashBuilder_Byte builder (word_of_nat (UnaryOpType_iota Length))"

fun UnaryOpFunc_Compare :: "UnaryOpFunc \<Rightarrow> UnaryOpFunc \<Rightarrow> int" where
  "UnaryOpFunc_Compare Negate other = Negate_Compare other"
| "UnaryOpFunc_Compare Parens other = Parens_Compare other"
| "UnaryOpFunc_Compare Length other = Length_Compare other"

fun UnaryOpFunc_Hash :: "UnaryOpFunc \<Rightarrow> HashBuilder \<Rightarrow> HashBuilder" where
  "UnaryOpFunc_Hash Negate builder = Negate_Hash builder"
| "UnaryOpFunc_Hash Parens builder = Parens_Hash builder"
| "UnaryOpFunc_Hash Length builder = Length_Hash builder"

lemma UnaryOpFunc_Compare_iota: "UnaryOpFunc_Compare f g = cmp_Compare (UnaryOpType_iota f) (UnaryOpType_iota g)"
  by (cases f) (simp_all add: Negate_Compare_def Parens_Compare_def Length_Compare_def)

definition LessThan_Compare :: "BinaryOpFunc \<Rightarrow> int" where
  "LessThan_Compare other = cmp_Compare (BinaryOpType_iota LessThan) (BinaryOpType_iota other)"

definition LessThan_Hash :: "HashBuilder \<Rightarrow> HashBuilder" where
  "LessThan_Hash builder = HashBuilder_Byte builder (word_of_nat (BinaryOpType_iota LessThan))"

definition LessOrEqual_Compare :: "BinaryOpFunc \<Rightarrow> int" where
  "LessOrEqual_Compare other = cmp_Compare (BinaryOpType_iota LessOrEqual) (BinaryOpType_iota other)"

definition LessOrEqual_Hash :: "HashBuilder \<Rightarrow> HashBuilder" where
  "LessOrEqual_Hash builder = HashBuilder_Byte builder (word_of_nat (BinaryOpType_iota LessOrEqual))"

definition GreaterThan_Compare :: "BinaryOpFunc \<Rightarrow> int" where
  "GreaterThan_Compare other = cmp_Compare (BinaryOpType_iota GreaterThan) (BinaryOpType_iota other)"

definition GreaterThan_Hash :: "HashBuilder \<Rightarrow> HashBuilder" where
  "GreaterThan_Hash builder = HashBuilder_Byte builder (word_of_nat (BinaryOpType_iota GreaterThan))"

definition GreaterOrEqual_Compare :: "BinaryOpFunc \<Rightarrow> int" where
  "GreaterOrEqual_Compare other = cmp_Compare (BinaryOpType_iota GreaterOrEqual) (BinaryOpType_iota other)"

definition GreaterOrEqual_Hash :: "HashBuilder \<Rightarrow> HashBuilder" where
  "GreaterOrEqual_Hash builder = HashBuilder_Byte builder (word_of_nat (BinaryOpType_iota GreaterOrEqual))"

definition Equal_Compare :: "BinaryOpFunc \<Rightarrow> int" where
  "Equal_Compare other = cmp_Compare (BinaryOpType_iota Equal) (BinaryOpType_iota other)"

definition Equal_Hash :: "HashBuilder \<Rightarrow> HashBuilder" where
  "Equal_Hash builder = HashBuilder_Byte builder (word_of_nat (BinaryOpType_iota Equal))"

definition Contains_Compare :: "BinaryOpFunc \<Rightarrow> int" where
  "Contains_Compare other = cmp_Compare (BinaryOpType_iota Contains) (BinaryOpType_iota other)"

definition Contains_Hash :: "HashBuilder \<Rightarrow> HashBuilder" where
  "Contains_Hash builder = HashBuilder_Byte builder (word_of_nat (BinaryOpType_iota Contains))"

definition Prefix_Compare :: "BinaryOpFunc \<Rightarrow> int" where
  "Prefix_Compare other = cmp_Compare (BinaryOpType_iota Prefix) (BinaryOpType_iota other)"

definition Prefix_Hash :: "HashBuilder \<Rightarrow> HashBuilder" where
  "Prefix_Hash builder = HashBuilder_Byte builder (word_of_nat (BinaryOpType_iota Prefix))"

definition Suffix_Compare :: "BinaryOpFunc \<Rightarrow> int" where
  "Suffix_Compare other = cmp_Compare (BinaryOpType_iota Suffix) (BinaryOpType_iota other)"

definition Suffix_Hash :: "HashBuilder \<Rightarrow> HashBuilder" where
  "Suffix_Hash builder = HashBuilder_Byte builder (word_of_nat (BinaryOpType_iota Suffix))"

definition Regex_Compare :: "BinaryOpFunc \<Rightarrow> int" where
  "Regex_Compare other = cmp_Compare (BinaryOpType_iota Regex) (BinaryOpType_iota other)"

definition Regex_Hash :: "HashBuilder \<Rightarrow> HashBuilder" where
  "Regex_Hash builder = HashBuilder_Byte builder (word_of_nat (BinaryOpType_iota Regex))"

definition Add_Compare :: "BinaryOpFunc \<Rightarrow> int" where
  "Add_Compare other = cmp_Compare (BinaryOpType_iota Add) (BinaryOpType_iota other)"

definition Add_Hash :: "HashBuilder \<Rightarrow> HashBuilder" where
  "Add_Hash builder = HashBuilder_Byte builder (word_of_nat (BinaryOpType_iota Add))"

definition Sub_Compare :: "BinaryOpFunc \<Rightarrow> int" where
  "Sub_Compare other = cmp_Compare (BinaryOpType_iota Sub) (BinaryOpType_iota other)"

definition Sub_Hash :: "HashBuilder \<Rightarrow> HashBuilder" where
  "Sub_Hash builder = HashBuilder_Byte builder (word_of_nat (BinaryOpType_iota Sub))"

definition Mul_Compare :: "BinaryOpFunc \<Rightarrow> int" where
  "Mul_Compare other = cmp_Compare (BinaryOpType_iota Mul) (BinaryOpType_iota other)"

definition Mul_Hash :: "HashBuilder \<Rightarrow> HashBuilder" where
  "Mul_Hash builder = HashBuilder_Byte builder (word_of_nat (BinaryOpType_iota Mul))"

definition Div_Compare :: "BinaryOpFunc \<Rightarrow> int" where
  "Div_Compare other = cmp_Compare (BinaryOpType_iota Div) (BinaryOpType_iota other)"

definition Div_Hash :: "HashBuilder \<Rightarrow> HashBuilder" where
  "Div_Hash builder = HashBuilder_Byte builder (word_of_nat (BinaryOpType_iota Div))"

definition And_Compare :: "BinaryOpFunc \<Rightarrow> int" where
  "And_Compare other = cmp_Compare (BinaryOpType_iota And) (BinaryOpType_iota other)"

definition And_Hash :: "HashBuilder \<Rightarrow> HashBuilder" where
  "And_Hash builder = HashBuilder_Byte builder (word_of_nat (BinaryOpType_iota And))"

definition Or_Compare :: "BinaryOpFunc \<Rightarrow> int" where
  "Or_Compare other = cmp_Compare (BinaryOpType_iota Or) (BinaryOpType_iota other)"

definition Or_Hash :: "HashBuilder \<Rightarrow> HashBuilder" where
  "Or_Hash builder = HashBuilder_Byte builder (word_of_nat (BinaryOpType_iota Or))"

definition Intersection_Compare :: "BinaryOpFunc \<Rightarrow> int" where
  "Intersection_Compare other = cmp_Compare (BinaryOpType_iota Intersection) (BinaryOpType_iota other)"

definition Intersection_Hash :: "HashBuilder \<Rightarrow> HashBuilder" where
  "Intersection_Hash builder = HashBuilder_Byte builder (word_of_nat (BinaryOpType_iota Intersection))"

definition Union_Compare :: "BinaryOpFunc \<Rightarrow> int" where
  "Union_Compare other = cmp_Compare (BinaryOpType_iota Union) (BinaryOpType_iota other)"

definition Union_Hash :: "HashBuilder \<Rightarrow> HashBuilder" where
  "Union_Hash builder = HashBuilder_Byte builder (word_of_nat (BinaryOpType_iota Union))"

fun BinaryOpFunc_Compare :: "BinaryOpFunc \<Rightarrow> BinaryOpFunc \<Rightarrow> int" where
  "BinaryOpFunc_Compare LessThan other = LessThan_Compare other"
| "BinaryOpFunc_Compare LessOrEqual other = LessOrEqual_Compare other"
| "BinaryOpFunc_Compare GreaterThan other = GreaterThan_Compare other"
| "BinaryOpFunc_Compare GreaterOrEqual other = GreaterOrEqual_Compare other"
| "BinaryOpFunc_Compare Equal other = Equal_Compare other"
| "BinaryOpFunc_Compare Contains other = Contains_Compare other"
| "BinaryOpFunc_Compare Prefix other = Prefix_Compare other"
| "BinaryOpFunc_Compare Suffix other = Suffix_Compare other"
| "BinaryOpFunc_Compare Regex other = Regex_Compare other"
| "BinaryOpFunc_Compare Add other = Add_Compare other"
| "BinaryOpFunc_Compare Sub other = Sub_Compare other"
| "BinaryOpFunc_Compare Mul other = Mul_Compare other"
| "BinaryOpFunc_Compare Div other = Div_Compare other"
| "BinaryOpFunc_Compare And other = And_Compare other"
| "BinaryOpFunc_Compare Or other = Or_Compare other"
| "BinaryOpFunc_Compare Intersection other = Intersection_Compare other"
| "BinaryOpFunc_Compare Union other = Union_Compare other"

fun BinaryOpFunc_Hash :: "BinaryOpFunc \<Rightarrow> HashBuilder \<Rightarrow> HashBuilder" where
  "BinaryOpFunc_Hash LessThan builder = LessThan_Hash builder"
| "BinaryOpFunc_Hash LessOrEqual builder = LessOrEqual_Hash builder"
| "BinaryOpFunc_Hash GreaterThan builder = GreaterThan_Hash builder"
| "BinaryOpFunc_Hash GreaterOrEqual builder = GreaterOrEqual_Hash builder"
| "BinaryOpFunc_Hash Equal builder = Equal_Hash builder"
| "BinaryOpFunc_Hash Contains builder = Contains_Hash builder"
| "BinaryOpFunc_Hash Prefix builder = Prefix_Hash builder"
| "BinaryOpFunc_Hash Suffix builder = Suffix_Hash builder"
| "BinaryOpFunc_Hash Regex builder = Regex_Hash builder"
| "BinaryOpFunc_Hash Add builder = Add_Hash builder"
| "BinaryOpFunc_Hash Sub builder = Sub_Hash builder"
| "BinaryOpFunc_Hash Mul builder = Mul_Hash builder"
| "BinaryOpFunc_Hash Div builder = Div_Hash builder"
| "BinaryOpFunc_Hash And builder = And_Hash builder"
| "BinaryOpFunc_Hash Or builder = Or_Hash builder"
| "BinaryOpFunc_Hash Intersection builder = Intersection_Hash builder"
| "BinaryOpFunc_Hash Union builder = Union_Hash builder"

lemma BinaryOpFunc_Compare_iota: "BinaryOpFunc_Compare f g = cmp_Compare (BinaryOpType_iota f) (BinaryOpType_iota g)"
  by (cases f)
     (simp_all add: LessThan_Compare_def LessOrEqual_Compare_def GreaterThan_Compare_def
       GreaterOrEqual_Compare_def Equal_Compare_def Contains_Compare_def Prefix_Compare_def
       Suffix_Compare_def Regex_Compare_def Add_Compare_def Sub_Compare_def Mul_Compare_def
       Div_Compare_def And_Compare_def Or_Compare_def Intersection_Compare_def
       Union_Compare_def)

definition cmp_OpType :: "Op \<Rightarrow> Op \<Rightarrow> int" where
  "cmp_OpType a b = cmp_Compare (OpType_iota (Op_Type a)) (OpType_iota (Op_Type b))"

definition Value_Compare :: "Term \<Rightarrow> Op \<Rightarrow> int" where
  "Value_Compare v op =
     (let x = cmp_OpType (Value v) op in
      if x \<noteq> 0 then x else (case op of Value v2 \<Rightarrow> Term_Compare v (Some v2) | _ \<Rightarrow> 0))"

definition UnaryOp_Compare :: "UnaryOpFunc \<Rightarrow> Op \<Rightarrow> int" where
  "UnaryOp_Compare u op =
     (let x = cmp_OpType (UnaryOp u) op in
      if x \<noteq> 0 then x else (case op of UnaryOp u2 \<Rightarrow> UnaryOpFunc_Compare u u2 | _ \<Rightarrow> 0))"

definition BinaryOp_Compare :: "BinaryOpFunc \<Rightarrow> Op \<Rightarrow> int" where
  "BinaryOp_Compare b op =
     (let x = cmp_OpType (BinaryOp b) op in
      if x \<noteq> 0 then x else (case op of BinaryOp b2 \<Rightarrow> BinaryOpFunc_Compare b b2 | _ \<Rightarrow> 0))"

fun Op_Compare :: "Op \<Rightarrow> Op \<Rightarrow> int" where
  "Op_Compare (Value v) op = Value_Compare v op"
| "Op_Compare (UnaryOp u) op = UnaryOp_Compare u op"
| "Op_Compare (BinaryOp b) op = BinaryOp_Compare b op"

definition Value_Hash :: "Term \<Rightarrow> HashBuilder \<Rightarrow> HashBuilder" where
  "Value_Hash v builder = HashBuilder_Hashable Term_Hash (HashBuilder_Byte builder (word_of_nat (OpType_iota OpTypeValue))) v"

definition UnaryOp_Hash :: "UnaryOpFunc \<Rightarrow> HashBuilder \<Rightarrow> HashBuilder" where
  "UnaryOp_Hash u builder =
     HashBuilder_Hashable UnaryOpFunc_Hash (HashBuilder_Byte builder (word_of_nat (OpType_iota OpTypeUnary))) u"

definition BinaryOp_Hash :: "BinaryOpFunc \<Rightarrow> HashBuilder \<Rightarrow> HashBuilder" where
  "BinaryOp_Hash b builder =
     HashBuilder_Hashable BinaryOpFunc_Hash (HashBuilder_Byte builder (word_of_nat (OpType_iota OpTypeBinary))) b"

fun Op_Hash :: "Op \<Rightarrow> HashBuilder \<Rightarrow> HashBuilder" where
  "Op_Hash (Value v) builder = Value_Hash v builder"
| "Op_Hash (UnaryOp u) builder = UnaryOp_Hash u builder"
| "Op_Hash (BinaryOp b) builder = BinaryOp_Hash b builder"

text \<open>The methods \<^verbatim>\<open>Equal\<close> of the three kinds of operations are alike.\<close>

definition Op_Equal :: "Op \<Rightarrow> Op \<Rightarrow> bool" where
  "Op_Equal op op2 \<longleftrightarrow> Op_Compare op op2 = 0"

definition Expression_Compare :: "Expression \<Rightarrow> Expression \<Rightarrow> int" where
  "Expression_Compare e e2 = ComparedSlices Op_Compare (elems e) e2"

definition Expression_Hash :: "Expression \<Rightarrow> HashBuilder \<Rightarrow> HashBuilder" where
  "Expression_Hash e builder = fold (\<lambda>op builder. Op_Hash op builder) (elems e) builder"

definition Expression_Equal :: "Expression \<Rightarrow> Expression \<Rightarrow> bool" where
  "Expression_Equal e e2 \<longleftrightarrow> Expression_Compare e e2 = 0"

lemma UnaryOpType_iota_inj [simp]: "UnaryOpType_iota f = UnaryOpType_iota g \<longleftrightarrow> f = g"
  by (cases f; cases g) simp_all

lemma BinaryOpType_iota_inj [simp]: "BinaryOpType_iota f = BinaryOpType_iota g \<longleftrightarrow> f = g"
  by (cases f; cases g) simp_all

lemma Op_Compare_cases:
  "Op_Compare a b = (case (a, b) of
     (Value x, Value y) \<Rightarrow> term_cmp x y
   | (UnaryOp f, UnaryOp g) \<Rightarrow> cmp_Compare (UnaryOpType_iota f) (UnaryOpType_iota g)
   | (BinaryOp f, BinaryOp g) \<Rightarrow> cmp_Compare (BinaryOpType_iota f) (BinaryOpType_iota g)
   | _ \<Rightarrow> cmp_Compare (OpType_iota (Op_Type a)) (OpType_iota (Op_Type b)))"
  by (cases a; cases b)
     (simp_all add: Value_Compare_def UnaryOp_Compare_def BinaryOp_Compare_def cmp_OpType_def
       UnaryOpFunc_Compare_iota BinaryOpFunc_Compare_iota cmp_Compare_def Let_def)

declare Op_Compare.simps [simp del]

interpretation op_preorder: comparator_on UNIV Op_Compare
proof (rule comparator_on_Un_guard[where k = "\<lambda>x. OpType_iota (Op_Type x)"])
  show "OpType_iota (Op_Type x) \<noteq> OpType_iota (Op_Type y) \<Longrightarrow>
      Op_Compare x y = cmp_Compare (OpType_iota (Op_Type x)) (OpType_iota (Op_Type y))" for x y
    by (cases x; cases y) (simp_all add: Op_Compare_cases)
  fix i
  have v: "comparator_on {x \<in> UNIV. Op_Type x = OpTypeValue} Op_Compare"
  proof (rule comparator_on_cong)
    let ?f = "\<lambda>x. case x of Value t \<Rightarrow> t"
    show "comparator_on {x \<in> UNIV. Op_Type x = OpTypeValue} (\<lambda>x y. term_cmp (?f x) (?f y))"
      by (rule comparator_on_map[OF term_preorder.comparator_on_axioms]) simp
  qed (auto simp: Op_Compare_cases split: Op.splits)
  have u: "comparator_on {x \<in> UNIV. Op_Type x = OpTypeUnary} Op_Compare"
  proof (rule comparator_on_cong)
    let ?f = "\<lambda>x. case x of UnaryOp t \<Rightarrow> UnaryOpType_iota t"
    show "comparator_on {x \<in> UNIV. Op_Type x = OpTypeUnary} (\<lambda>x y. cmp_Compare (?f x) (?f y))"
      by (rule comparator_on_map[OF cmp_std.comparator_on_axioms]) simp
  qed (auto simp: Op_Compare_cases split: Op.splits)
  have b: "comparator_on {x \<in> UNIV. Op_Type x = OpTypeBinary} Op_Compare"
  proof (rule comparator_on_cong)
    let ?f = "\<lambda>x. case x of BinaryOp t \<Rightarrow> BinaryOpType_iota t"
    show "comparator_on {x \<in> UNIV. Op_Type x = OpTypeBinary} (\<lambda>x y. cmp_Compare (?f x) (?f y))"
      by (rule comparator_on_map[OF cmp_std.comparator_on_axioms]) simp
  qed (auto simp: Op_Compare_cases split: Op.splits)
  have iota: "OpType_iota k = 0 \<longleftrightarrow> k = OpTypeValue" "OpType_iota k = Suc 0 \<longleftrightarrow> k = OpTypeUnary"
    "OpType_iota k = 2 \<longleftrightarrow> k = OpTypeBinary" "OpType_iota k \<in> {0, 1, 2}" for k
    by (cases k; simp)+
  show "comparator_on {x \<in> UNIV. OpType_iota (Op_Type x) = i} Op_Compare"
  proof (cases "i \<in> {0, 1, 2}")
    case True
    then show ?thesis using v u b by (auto simp: iota)
  next
    case False
    then have "OpType_iota (Op_Type x) \<noteq> i" for x using iota(4)[of "Op_Type x"] by auto
    then show ?thesis by (simp add: comparator_on_def)
  qed
qed


text \<open>On expressions without sets the order decides equality.\<close>

fun op_atomic :: "Op \<Rightarrow> bool" where
  "op_atomic (Value t) = is_atomic t"
| "op_atomic _ = True"

interpretation op_order: order_on "{x. op_atomic x}" Op_Compare
proof (rule order_on.intro)
  show "comparator_on {x. op_atomic x} Op_Compare"
    by (rule comparator_on_subset[OF op_preorder.comparator_on_axioms]) simp
  show "order_on_axioms {x. op_atomic x} Op_Compare"
  proof
    show "x \<in> {x. op_atomic x} \<Longrightarrow> y \<in> {x. op_atomic x} \<Longrightarrow> Op_Compare x y = 0 \<Longrightarrow> x = y" for x y
      using atom_order.antisym by (cases x; cases y) (auto simp: Op_Compare_cases)
  qed
qed

end
