(* ===== verification/Rules.thy ===== *)
theory Rules
  imports Expressions Origins
begin

text \<open>
  Predicates, facts, rules, checks and rules tagged with their block
  (\<^verbatim>\<open>datalog/datalog.go\<close>). Slices keep the difference between \<^verbatim>\<open>nil\<close> and empty, because
  \<^verbatim>\<open>set.ComparedSlices\<close> answers 1 when its second argument is nil: a rule whose scopes are
  nil, as the converters build it, is not equal to itself.
\<close>

section \<open>Predicates and facts\<close>

record Predicate =
  pred_Name :: u64
  pred_Terms :: "Term slice"

type_synonym Fact = Predicate

definition Predicate_Compare :: "Predicate \<Rightarrow> Predicate \<Rightarrow> int" where
  "Predicate_Compare p p2 =
     (let x = cmp_Compare (pred_Name p) (pred_Name p2) in
      if x \<noteq> 0 then x
      else let x = ComparedSlices term_cmp (elems (pred_Terms p)) (pred_Terms p2) in
        if x \<noteq> 0 then x else 0)"

definition Predicate_Equal :: "Predicate \<Rightarrow> Predicate \<Rightarrow> bool" where
  "Predicate_Equal p p2 \<longleftrightarrow> Predicate_Compare p p2 = 0"

definition Predicate_Hash :: "Predicate \<Rightarrow> HashBuilder \<Rightarrow> HashBuilder" where
  "Predicate_Hash p builder =
     fold (\<lambda>term builder. HashBuilder_Hashable Term_Hash builder term) (elems (pred_Terms p))
       (HashBuilder_String builder (String_String (pred_Name p)))"

definition is_Variable :: "Term \<Rightarrow> bool" where
  "is_Variable t \<longleftrightarrow> Term_Type t = TermTypeVariable"

definition Predicate_Match :: "Predicate \<Rightarrow> Predicate \<Rightarrow> bool" where
  "Predicate_Match p p2 =
     (if pred_Name p \<noteq> pred_Name p2 \<or> length (elems (pred_Terms p)) \<noteq> length (elems (pred_Terms p2))
      then False
      else list_all (\<lambda>(id', id2).
          if is_Variable id' \<or> is_Variable id2 then True else Term_Equal id' (Some id2))
        (zip (elems (pred_Terms p)) (elems (pred_Terms p2))))"

definition Predicate_Clone :: "Predicate \<Rightarrow> Predicate" where
  "Predicate_Clone p = \<lparr>pred_Name = pred_Name p, pred_Terms = Some (elems (pred_Terms p))\<rparr>"

definition Fact_Compare :: "Fact \<Rightarrow> Fact \<Rightarrow> int" where
  "Fact_Compare f f2 = Predicate_Compare f f2"

definition Fact_Equal :: "Fact \<Rightarrow> Fact \<Rightarrow> bool" where
  "Fact_Equal f f2 \<longleftrightarrow> Fact_Compare f f2 = 0"

abbreviation fact_hash :: "runtime \<Rightarrow> Fact \<Rightarrow> u64" where
  "fact_hash rt \<equiv> built_hash rt Predicate_Hash"

section \<open>Rules and checks\<close>

record Rule =
  rule_Head :: Predicate
  rule_Body :: "Predicate slice"
  rule_Expressions :: "Expression slice"
  rule_Scopes :: "Scope slice"

definition Rule_Compare :: "Rule \<Rightarrow> Rule \<Rightarrow> int" where
  "Rule_Compare r r2 =
     (let x = Predicate_Compare (rule_Head r) (rule_Head r2) in if x \<noteq> 0 then x else
      let x = ComparedSlices Predicate_Compare (elems (rule_Body r)) (rule_Body r2) in if x \<noteq> 0 then x else
      let x = ComparedSlices Expression_Compare (elems (rule_Expressions r)) (rule_Expressions r2) in
        if x \<noteq> 0 then x else
      let x = ComparedSlices Scope_Compare (elems (rule_Scopes r)) (rule_Scopes r2) in if x \<noteq> 0 then x else 0)"

definition Rule_Equal :: "Rule \<Rightarrow> Rule \<Rightarrow> bool" where
  "Rule_Equal r r2 \<longleftrightarrow> Rule_Compare r r2 = 0"

definition Rule_Hash :: "Rule \<Rightarrow> HashBuilder \<Rightarrow> HashBuilder" where
  "Rule_Hash r builder =
     (let builder = HashBuilder_Hashable Predicate_Hash builder (rule_Head r);
          builder = fold (\<lambda>pred b. HashBuilder_Hashable Predicate_Hash b pred) (elems (rule_Body r)) builder;
          builder = fold (\<lambda>expr b. HashBuilder_Hashable Expression_Hash b expr)
            (elems (rule_Expressions r)) builder
      in fold (\<lambda>scope b. HashBuilder_Hashable Scope_Hash b scope) (elems (rule_Scopes r)) builder)"

abbreviation rule_hash :: "runtime \<Rightarrow> Rule \<Rightarrow> u64" where
  "rule_hash rt \<equiv> built_hash rt Rule_Hash"

datatype CheckKind = CheckOne | CheckAll | CheckReject | CheckKindOther u8

record Check =
  check_Queries :: "Rule slice"
  check_Kind :: CheckKind

record RuleInBlock =
  rib_BlockID :: BlockID
  rib_Rule :: Rule

definition RuleInBlock_Compare :: "RuleInBlock \<Rightarrow> RuleInBlock \<Rightarrow> int" where
  "RuleInBlock_Compare r r2 =
     (let x = cmp_Compare (rib_BlockID r) (rib_BlockID r2) in
      if x \<noteq> 0 then x else Rule_Compare (rib_Rule r) (rib_Rule r2))"

definition RuleInBlock_Equal :: "RuleInBlock \<Rightarrow> RuleInBlock \<Rightarrow> bool" where
  "RuleInBlock_Equal r r2 \<longleftrightarrow> RuleInBlock_Compare r r2 = 0"

definition RuleInBlock_Hash :: "RuleInBlock \<Rightarrow> HashBuilder \<Rightarrow> HashBuilder" where
  "RuleInBlock_Hash r builder =
     HashBuilder_Hashable Rule_Hash (HashBuilder_Hashable BlockID_Hash builder (rib_BlockID r)) (rib_Rule r)"

abbreviation rib_hash :: "runtime \<Rightarrow> RuleInBlock \<Rightarrow> u64" where
  "rib_hash rt \<equiv> built_hash rt RuleInBlock_Hash"

section \<open>The laws of comparison\<close>

lemma Predicate_Compare_then:
  "Predicate_Compare p q = then_cmp (cmp_Compare (pred_Name p) (pred_Name q))
     (ComparedSlices term_cmp (elems (pred_Terms p)) (pred_Terms q))"
  by (simp add: Predicate_Compare_def then_cmp_def Let_def)

lemma Rule_Compare_then:
  "Rule_Compare r r2 = then_cmp (Predicate_Compare (rule_Head r) (rule_Head r2))
     (then_cmp (ComparedSlices Predicate_Compare (elems (rule_Body r)) (rule_Body r2))
     (then_cmp (ComparedSlices Expression_Compare (elems (rule_Expressions r)) (rule_Expressions r2))
       (ComparedSlices Scope_Compare (elems (rule_Scopes r)) (rule_Scopes r2))))"
  by (simp add: Rule_Compare_def then_cmp_def Let_def)

lemma slice_map: "x \<noteq> None \<Longrightarrow> Some (elems x) = x"
  by (cases x) simp_all

text \<open>Slices of values compared by a lawful comparator, as long as none is nil.\<close>

lemma comparator_on_slice:
  assumes "comparator_on A c"
  shows "comparator_on {xs. xs \<noteq> None \<and> set (elems xs) \<subseteq> A} (\<lambda>a b. ComparedSlices c (elems a) b)"
proof (rule comparator_on_cong)
  show "comparator_on {xs. xs \<noteq> None \<and> set (elems xs) \<subseteq> A}
      (\<lambda>a b. ComparedSlices c (elems a) (Some (elems b)))"
    by (rule comparator_on_map[OF comparator_on.slices[OF assms]]) auto
qed (auto simp: slice_map)

lemma order_on_slice:
  assumes "order_on A c"
  shows "order_on {xs. xs \<noteq> None \<and> set (elems xs) \<subseteq> A} (\<lambda>a b. ComparedSlices c (elems a) b)"
proof (rule order_on.intro)
  show "comparator_on {xs. xs \<noteq> None \<and> set (elems xs) \<subseteq> A} (\<lambda>a b. ComparedSlices c (elems a) b)"
    by (rule comparator_on_slice[OF order_on.axioms(1)[OF assms]])
  show "order_on_axioms {xs. xs \<noteq> None \<and> set (elems xs) \<subseteq> A} (\<lambda>a b. ComparedSlices c (elems a) b)"
  proof
    fix x y assume *: "x \<in> {xs. xs \<noteq> None \<and> set (elems xs) \<subseteq> A}" "y \<in> {xs. xs \<noteq> None \<and> set (elems xs) \<subseteq> A}"
      and "ComparedSlices c (elems x) y = 0"
    then have "elems x = elems y"
      using order_on.slices_0_iff[OF assms, of "elems x" "elems y"] by (auto simp: slice_map)
    then show "x = y" using * by (metis (mono_tags, lifting) mem_Collect_eq slice_map)
  qed
qed

definition pred_present :: "Predicate \<Rightarrow> bool" where
  "pred_present p \<longleftrightarrow> pred_Terms p \<noteq> None"

definition pred_atomic :: "Predicate \<Rightarrow> bool" where
  "pred_atomic p \<longleftrightarrow> pred_Terms p \<noteq> None \<and> (\<forall>t \<in> set (elems (pred_Terms p)). is_atomic t)"

lemma comparator_on_pred:
  assumes "comparator_on A term_cmp"
  shows "comparator_on {p. pred_Terms p \<noteq> None \<and> set (elems (pred_Terms p)) \<subseteq> A} Predicate_Compare"
proof (rule comparator_on_cong[OF comparator_on_then])
  let ?A = "{p. pred_Terms p \<noteq> None \<and> set (elems (pred_Terms p)) \<subseteq> A}"
  show "comparator_on ?A (\<lambda>x y. cmp_Compare (pred_Name x) (pred_Name y))"
    by (rule comparator_on_map[OF cmp_std.comparator_on_axioms]) simp
  show "comparator_on ?A (\<lambda>x y. ComparedSlices term_cmp (elems (pred_Terms x)) (pred_Terms y))"
    by (rule comparator_on_map[OF comparator_on_slice[OF assms]]) auto
qed (simp add: Predicate_Compare_then)

interpretation pred_preorder: comparator_on "{p. pred_present p}" Predicate_Compare
  using comparator_on_pred[OF term_preorder.comparator_on_axioms] by (simp add: pred_present_def)

lemma atoms_set: "{p. pred_Terms p \<noteq> None \<and> set (elems (pred_Terms p)) \<subseteq> {t. is_atomic t}} = {p. pred_atomic p}"
  by (auto simp: pred_atomic_def)

interpretation pred_order: order_on "{p. pred_atomic p}" Predicate_Compare
proof (rule order_on.intro)
  show "comparator_on {p. pred_atomic p} Predicate_Compare"
    using comparator_on_pred[OF atom_order.comparator_on_axioms] unfolding atoms_set .
  show "order_on_axioms {p. pred_atomic p} Predicate_Compare"
  proof
    fix p q assume "p \<in> {p. pred_atomic p}" "q \<in> {p. pred_atomic p}" and "Predicate_Compare p q = 0"
    moreover from this have "pred_Terms p = pred_Terms q"
      using order_on.antisym[OF order_on_slice[OF atom_order.order_on_axioms], of "pred_Terms p" "pred_Terms q"]
      by (auto simp: Predicate_Compare_then pred_atomic_def)
    ultimately show "p = q" by (simp add: Predicate_Compare_then)
  qed
qed

lemma Predicate_Equal_iff: "pred_atomic p \<Longrightarrow> pred_atomic q \<Longrightarrow> Predicate_Equal p q \<longleftrightarrow> p = q"
  using pred_order.eq_iff[of p q] by (simp add: Predicate_Equal_def)

interpretation fact_set: hash_elements "fact_hash rt" Fact_Equal pred_atomic for rt
  by unfold_locales (use pred_order.eq_iff in \<open>simp add: Fact_Equal_def Fact_Compare_def\<close>)

text \<open>Expressions and rules all of whose slices are present.\<close>

interpretation expr_preorder: comparator_on "{e. e \<noteq> None}" Expression_Compare
  using comparator_on_slice[OF op_preorder.comparator_on_axioms] by (simp add: Expression_Compare_def[abs_def])

definition rule_present :: "Rule \<Rightarrow> bool" where
  "rule_present r \<longleftrightarrow> pred_present (rule_Head r) \<and>
     rule_Body r \<noteq> None \<and> set (elems (rule_Body r)) \<subseteq> {p. pred_present p} \<and>
     rule_Expressions r \<noteq> None \<and> set (elems (rule_Expressions r)) \<subseteq> {e. e \<noteq> None} \<and>
     rule_Scopes r \<noteq> None"

interpretation rule_preorder: comparator_on "{r. rule_present r}" Rule_Compare
proof (rule comparator_on_cong[OF comparator_on_then[OF _ comparator_on_then[OF _ comparator_on_then]]])
  show "comparator_on {r. rule_present r} (\<lambda>x y. Predicate_Compare (rule_Head x) (rule_Head y))"
    by (rule comparator_on_map[OF pred_preorder.comparator_on_axioms]) (simp add: rule_present_def)
  show "comparator_on {r. rule_present r}
      (\<lambda>x y. ComparedSlices Predicate_Compare (elems (rule_Body x)) (rule_Body y))"
    by (rule comparator_on_map[OF comparator_on_slice[OF pred_preorder.comparator_on_axioms]])
       (simp add: rule_present_def)
  show "comparator_on {r. rule_present r}
      (\<lambda>x y. ComparedSlices Expression_Compare (elems (rule_Expressions x)) (rule_Expressions y))"
    by (rule comparator_on_map[OF comparator_on_slice[OF expr_preorder.comparator_on_axioms]])
       (simp add: rule_present_def)
  show "comparator_on {r. rule_present r}
      (\<lambda>x y. ComparedSlices Scope_Compare (elems (rule_Scopes x)) (rule_Scopes y))"
    by (rule comparator_on_map[OF comparator_on_slice[OF scope_order.comparator_on_axioms]])
       (simp add: rule_present_def)
qed (simp add: Rule_Compare_then)

lemma ComparedSlices_self_0:
  "ComparedSlices c (elems xs) xs = 0 \<longleftrightarrow> xs \<noteq> None \<and> (\<forall>x \<in> set (elems xs). c x x = 0)"
proof -
  have "compare_positions c ys ys = 0 \<longleftrightarrow> (\<forall>x \<in> set ys. c x x = 0)" for ys
    by (induction ys) (auto simp: Let_def)
  then show ?thesis by (cases xs) (simp_all add: ComparedSlices_def)
qed

lemma Predicate_self: "Predicate_Compare p p = 0 \<longleftrightarrow> pred_present p"
  by (simp add: Predicate_Compare_then ComparedSlices_self_0 pred_present_def term_preorder.refl)

text \<open>
  C37: a rule is equal to itself exactly when none of its slices is nil. A rule without
  scopes has nil scopes, so the hash sets of rules never recognise it as a duplicate.
\<close>

theorem Rule_Equal_self_iff: "Rule_Equal r r \<longleftrightarrow> rule_present r"
  by (auto simp: Rule_Equal_def Rule_Compare_then Predicate_self ComparedSlices_self_0 rule_present_def
      Expression_Compare_def op_preorder.refl scope_order.refl)

text \<open>
  Two facts that hold no sets are equal for the code exactly when they are the same, so
  a fact set neither loses a fact nor stores one twice.
\<close>

theorem Fact_Equal_iff:
  assumes "pred_atomic f" and "pred_atomic g"
  shows "Fact_Equal f g \<longleftrightarrow> f = g"
  using Predicate_Equal_iff[OF assms] by (simp add: Fact_Equal_def Fact_Compare_def Predicate_Equal_def)

theorem Fact_Equal_iff_witness:
  "\<not> Fact_Equal \<lparr>pred_Name = 4, pred_Terms = Some [TInteger 1]\<rparr> \<lparr>pred_Name = 4, pred_Terms = Some [TDate 1]\<rparr>"
  using Fact_Equal_iff[of "\<lparr>pred_Name = 4, pred_Terms = Some [TInteger 1]\<rparr>"
      "\<lparr>pred_Name = 4, pred_Terms = Some [TDate 1]\<rparr>"]
  by (simp add: pred_atomic_def)

end
