(* ===== verification/Conversions.thy ===== *)
theory Conversions
  imports Surface Rules
begin

text \<open>
  Predicates, expressions, scopes, rules and checks of \<^verbatim>\<open>types.go\<close> and their conversion to
  and from the datalog package. Every conversion is an instance of \<open>interning\<close>; the
  conversion of a rule threads both the symbol table and the key table.
  Operator bytes that are not declared make \<^verbatim>\<open>convert\<close> panic, which is the value \<open>None\<close>.
\<close>

section \<open>Predicates and facts\<close>

record BPredicate =
  bp_Name :: string
  bp_IDs :: "BTerm list"

type_synonym BFact = BPredicate

definition BPredicate_convert :: "runtime \<Rightarrow> BPredicate \<Rightarrow> SymbolTable \<Rightarrow> (Predicate \<times> SymbolTable) option" where
  "BPredicate_convert rt p symbols =
     (case thread (BTerm_convert rt) (bp_IDs p) symbols of
        None \<Rightarrow> None
      | Some (ids, symbols1) \<Rightarrow>
          (let (name, symbols2) = SymbolTable_Insert symbols1 (bp_Name p) in
           Some (\<lparr>pred_Name = name, pred_Terms = Some ids\<rparr>, symbols2)))"

definition BFact_convert :: "runtime \<Rightarrow> BFact \<Rightarrow> SymbolTable \<Rightarrow> (Fact \<times> SymbolTable) option" where
  "BFact_convert rt f symbols = BPredicate_convert rt f symbols"

definition fromDatalogPredicate :: "runtime \<Rightarrow> SymbolTable \<Rightarrow> Predicate \<Rightarrow> conv_error + BPredicate" where
  "fromDatalogPredicate rt symbols p =
     bind_res (traverse (fromDatalogID rt symbols) (elems (pred_Terms p))) (\<lambda>terms.
     bind_res (read_Str symbols (pred_Name p)) (\<lambda>name. Inr \<lparr>bp_Name = name, bp_IDs = terms\<rparr>))"

definition fromDatalogFact :: "runtime \<Rightarrow> SymbolTable \<Rightarrow> Fact \<Rightarrow> conv_error + BFact" where
  "fromDatalogFact rt symbols f = fromDatalogPredicate rt symbols f"

fun compare_terms :: "BTerm list \<Rightarrow> BTerm list \<Rightarrow> int" where
  "compare_terms (a # as) (b # bs) = (let i = BTerm_Compare a (Some b) in if i \<noteq> 0 then i else compare_terms as bs)"
| "compare_terms _ _ = 0"

definition BPredicate_Compare :: "BPredicate \<Rightarrow> BPredicate \<Rightarrow> int" where
  "BPredicate_Compare p other =
     (let i = cmp_Compare (bp_Name p) (bp_Name other) in if i \<noteq> 0 then i
      else let i = cmp_Compare (length (bp_IDs p)) (length (bp_IDs other)) in if i \<noteq> 0 then i
      else compare_terms (bp_IDs p) (bp_IDs other))"

definition BPredicate_Hash :: "BPredicate \<Rightarrow> HashBuilder \<Rightarrow> HashBuilder" where
  "BPredicate_Hash p builder =
     fold (\<lambda>x builder. HashBuilder_Hashable BTerm_Hash builder x) (bp_IDs p) (HashBuilder_String builder (bp_Name p))"

definition BFact_Compare :: "BFact \<Rightarrow> BFact \<Rightarrow> int" where
  "BFact_Compare f f2 = BPredicate_Compare f f2"

definition BFact_Equal :: "BFact \<Rightarrow> BFact \<Rightarrow> bool" where
  "BFact_Equal f f2 \<longleftrightarrow> BFact_Compare f f2 = 0"

abbreviation bfact_hash :: "runtime \<Rightarrow> BFact \<Rightarrow> u64" where
  "bfact_hash rt \<equiv> built_hash rt BPredicate_Hash"

section \<open>Public keys and scopes\<close>

record BPublicKey =
  bpk_Algorithm :: Algorithm
  bpk_Bytes :: "u8 list"

definition BPublicKey_convert :: "BPublicKey \<Rightarrow> PublicKey" where
  "BPublicKey_convert pk = PublicKey (bpk_Bytes pk) (bpk_Algorithm pk)"

definition BPublicKey_Compare :: "BPublicKey \<Rightarrow> BPublicKey \<Rightarrow> int" where
  "BPublicKey_Compare pk pk2 =
     (let x = cmp_Compare (sint (bpk_Algorithm pk)) (sint (bpk_Algorithm pk2)) in
      if x \<noteq> 0 then x else cmp_Compare (bpk_Bytes pk) (bpk_Bytes pk2))"

record BScope =
  bs_Type :: ScopeType   \<comment> \<open>the two enumerations have the same values\<close>
  bs_PublicKey :: "BPublicKey option"

definition BScope_convert :: "BScope \<Rightarrow> PublicKeyTable \<Rightarrow> (Scope \<times> PublicKeyTable) option" where
  "BScope_convert s publicKeyTable =
     (let (index, table) = (case bs_PublicKey s of
          None \<Rightarrow> (0, publicKeyTable)
        | Some pk \<Rightarrow> PublicKeyTable_Insert publicKeyTable (BPublicKey_convert pk))
      in Some (Scope (bs_Type s) index, table))"

text \<open>The key table is a pointer; a block without keys has a nil one.\<close>

definition fromDatalogScope :: "PublicKeyTable option \<Rightarrow> Scope \<Rightarrow> conv_error + BScope" where
  "fromDatalogScope publicKeys dlScope = (case scope_Type dlScope of
     PublicKeyScopeType \<Rightarrow> (case publicKeys of
         None \<Rightarrow> Inl ConvPanic
       | Some keys \<Rightarrow>
           if unat (scope_PublicKeyTableIndex dlScope) \<ge> length keys
           then Inl (InvalidKeyIndex (scope_PublicKeyTableIndex dlScope))
           else (let dlPublicKey = keys ! unat (scope_PublicKeyTableIndex dlScope) in
             Inr \<lparr>bs_Type = PublicKeyScopeType,
               bs_PublicKey = Some \<lparr>bpk_Algorithm = pk_Algorithm dlPublicKey, bpk_Bytes = pk_Key dlPublicKey\<rparr>\<rparr>))
   | t \<Rightarrow> Inr \<lparr>bs_Type = t, bs_PublicKey = None\<rparr>)"

section \<open>Expressions\<close>

datatype BOp =
    BValue BTerm
  | BUnaryOp u8
  | BBinaryOp u8
  | BNilValue   \<comment> \<open>\<^verbatim>\<open>Value{nil}\<close>\<close>
  | BNil        \<comment> \<open>a nil interface\<close>

text \<open>The parser can make the last two; to convert them dereferences nil.\<close>

type_synonym BExpression = "BOp list"

fun fromDatalogUnaryOp :: "UnaryOpFunc \<Rightarrow> u8" where
  "fromDatalogUnaryOp Negate = 1"
| "fromDatalogUnaryOp Parens = 2"
| "fromDatalogUnaryOp Length = 3"

definition BUnaryOp_convert :: "u8 \<Rightarrow> UnaryOpFunc option" where
  "BUnaryOp_convert u = map_of [(1, Negate), (2, Parens), (3, Length)] u"

fun fromDatalogBinaryOp :: "BinaryOpFunc \<Rightarrow> u8" where
  "fromDatalogBinaryOp LessThan = 1"
| "fromDatalogBinaryOp LessOrEqual = 2"
| "fromDatalogBinaryOp GreaterThan = 3"
| "fromDatalogBinaryOp GreaterOrEqual = 4"
| "fromDatalogBinaryOp Equal = 5"
| "fromDatalogBinaryOp Contains = 6"
| "fromDatalogBinaryOp Prefix = 7"
| "fromDatalogBinaryOp Suffix = 8"
| "fromDatalogBinaryOp Regex = 9"
| "fromDatalogBinaryOp Add = 10"
| "fromDatalogBinaryOp Sub = 11"
| "fromDatalogBinaryOp Mul = 12"
| "fromDatalogBinaryOp Div = 13"
| "fromDatalogBinaryOp And = 14"
| "fromDatalogBinaryOp Or = 15"
| "fromDatalogBinaryOp Intersection = 16"
| "fromDatalogBinaryOp Union = 17"

definition BBinaryOp_convert :: "u8 \<Rightarrow> BinaryOpFunc option" where
  "BBinaryOp_convert b = map_of
     [(1, LessThan), (2, LessOrEqual), (3, GreaterThan), (4, GreaterOrEqual), (5, Equal), (6, Contains),
      (7, Prefix), (8, Suffix), (9, Regex), (10, Add), (11, Sub), (12, Mul), (13, Div), (14, And), (15, Or),
      (16, Intersection), (17, Union)] b"

fun BOp_convert :: "runtime \<Rightarrow> BOp \<Rightarrow> SymbolTable \<Rightarrow> (Op \<times> SymbolTable) option" where
  "BOp_convert rt (BValue t) symbols = (case BTerm_convert rt t symbols of
     None \<Rightarrow> None | Some (v, symbols') \<Rightarrow> Some (Value v, symbols'))"
| "BOp_convert rt (BUnaryOp u) symbols = map_option (\<lambda>f. (UnaryOp f, symbols)) (BUnaryOp_convert u)"
| "BOp_convert rt (BBinaryOp b) symbols = map_option (\<lambda>f. (BinaryOp f, symbols)) (BBinaryOp_convert b)"
| "BOp_convert rt BNilValue symbols = None"
| "BOp_convert rt BNil symbols = None"

definition BExpression_convert :: "runtime \<Rightarrow> BExpression \<Rightarrow> SymbolTable \<Rightarrow> (Expression \<times> SymbolTable) option" where
  "BExpression_convert rt e symbols = map_option (\<lambda>(ops, symbols'). (Some ops, symbols')) (thread (BOp_convert rt) e symbols)"

definition fromDatalogValueOp :: "runtime \<Rightarrow> SymbolTable \<Rightarrow> Term \<Rightarrow> conv_error + BOp" where
  "fromDatalogValueOp rt symbols dlValue = bind_res (fromDatalogID rt symbols dlValue) (\<lambda>term. Inr (BValue term))"

fun fromDatalogOp :: "runtime \<Rightarrow> SymbolTable \<Rightarrow> Op \<Rightarrow> conv_error + BOp" where
  "fromDatalogOp rt symbols (Value v) = fromDatalogValueOp rt symbols v"
| "fromDatalogOp rt symbols (UnaryOp u) = Inr (BUnaryOp (fromDatalogUnaryOp u))"
| "fromDatalogOp rt symbols (BinaryOp b) = Inr (BBinaryOp (fromDatalogBinaryOp b))"

definition fromDatalogExpression :: "runtime \<Rightarrow> SymbolTable \<Rightarrow> Expression \<Rightarrow> conv_error + BExpression" where
  "fromDatalogExpression rt symbols dlExpr = traverse (fromDatalogOp rt symbols) (elems dlExpr)"

section \<open>Rules and checks\<close>

record BRule =
  br_Head :: BPredicate
  br_Body :: "BPredicate list"
  br_Expressions :: "BExpression list"
  br_Scopes :: "BScope list"

type_synonym tables = "SymbolTable \<times> PublicKeyTable"

definition BRule_Convert :: "runtime \<Rightarrow> BRule \<Rightarrow> tables \<Rightarrow> (Rule \<times> tables) option" where
  "BRule_Convert rt r st = (let (symbols, publicKeys) = st in
     case thread (BPredicate_convert rt) (br_Body r) symbols of None \<Rightarrow> None
     | Some (dlBody, symbols1) \<Rightarrow>
     (case thread (BExpression_convert rt) (br_Expressions r) symbols1 of None \<Rightarrow> None
     | Some (dlExpressions, symbols2) \<Rightarrow>
     (case thread BScope_convert (br_Scopes r) publicKeys of None \<Rightarrow> None
     | Some (scopes, publicKeys1) \<Rightarrow>
     (case BPredicate_convert rt (br_Head r) symbols2 of None \<Rightarrow> None
     | Some (head, symbols3) \<Rightarrow>
         Some (\<lparr>rule_Head = head, rule_Body = Some dlBody, rule_Expressions = Some dlExpressions,
                rule_Scopes = (if length (br_Scopes r) > 0 then Some scopes else None)\<rparr>,
           (symbols3, publicKeys1))))))"

definition fromDatalogRule :: "runtime \<Rightarrow> SymbolTable \<Rightarrow> PublicKeyTable option \<Rightarrow> Rule \<Rightarrow> conv_error + BRule" where
  "fromDatalogRule rt symbols publicKeys dlRule =
     bind_res (fromDatalogPredicate rt symbols (rule_Head dlRule)) (\<lambda>head.
     bind_res (traverse (fromDatalogPredicate rt symbols) (elems (rule_Body dlRule))) (\<lambda>body.
     bind_res (traverse (fromDatalogExpression rt symbols) (elems (rule_Expressions dlRule))) (\<lambda>expressions.
     bind_res (traverse (fromDatalogScope publicKeys) (elems (rule_Scopes dlRule))) (\<lambda>scopes.
       Inr \<lparr>br_Head = head, br_Body = body, br_Expressions = expressions, br_Scopes = scopes\<rparr>))))"

record BCheck =
  bc_Queries :: "BRule list"
  bc_Kind :: CheckKind   \<comment> \<open>the two enumerations have the same values\<close>

fun known_kind :: "CheckKind \<Rightarrow> CheckKind" where
  "known_kind CheckAll = CheckAll"
| "known_kind CheckReject = CheckReject"
| "known_kind _ = CheckOne"

definition BCheck_Convert :: "runtime \<Rightarrow> BCheck \<Rightarrow> tables \<Rightarrow> (Check \<times> tables) option" where
  "BCheck_Convert rt c st = (case thread (BRule_Convert rt) (bc_Queries c) st of
     None \<Rightarrow> None
   | Some (queries, st') \<Rightarrow> Some (\<lparr>check_Queries = Some queries, check_Kind = known_kind (bc_Kind c)\<rparr>, st'))"

definition fromDatalogCheck :: "runtime \<Rightarrow> SymbolTable \<Rightarrow> PublicKeyTable option \<Rightarrow> Check \<Rightarrow> conv_error + BCheck" where
  "fromDatalogCheck rt symbols publicKeys dlCheck =
     bind_res (traverse (fromDatalogRule rt symbols publicKeys) (elems (check_Queries dlCheck))) (\<lambda>queries.
       Inr \<lparr>bc_Queries = queries, bc_Kind = known_kind (check_Kind dlCheck)\<rparr>)"

text \<open>Policies: a byte, of which 0 allows and 1 denies.\<close>

record Policy =
  pol_Queries :: "BRule list"
  pol_Kind :: u8

definition PolicyKindAllow :: u8 where "PolicyKindAllow = 0"
definition PolicyKindDeny :: u8 where "PolicyKindDeny = 1"

definition named_rule :: "string \<Rightarrow> BRule" where
  "named_rule name = \<lparr>br_Head = \<lparr>bp_Name = name, bp_IDs = []\<rparr>, br_Body = [], br_Expressions = [], br_Scopes = []\<rparr>"

definition DefaultAllowPolicy :: Policy where
  "DefaultAllowPolicy = \<lparr>pol_Queries = [named_rule ''allow''], pol_Kind = PolicyKindAllow\<rparr>"

definition DefaultDenyPolicy :: Policy where
  "DefaultDenyPolicy = \<lparr>pol_Queries = [named_rule ''deny''], pol_Kind = PolicyKindDeny\<rparr>"

section \<open>Conversions are interning\<close>

definition key_le :: "PublicKeyTable \<Rightarrow> PublicKeyTable \<Rightarrow> bool" where
  "key_le s t \<longleftrightarrow> (\<exists>us. t = s @ us)"

definition key_fits :: "PublicKeyTable \<Rightarrow> bool" where
  "key_fits t \<longleftrightarrow> length t < 2 ^ 64"

definition tables_le :: "tables \<Rightarrow> tables \<Rightarrow> bool" where
  "tables_le s t \<longleftrightarrow> sym_le (fst s) (fst t) \<and> key_le (snd s) (snd t)"

definition tables_fit :: "tables \<Rightarrow> bool" where
  "tables_fit t \<longleftrightarrow> sym_fits (fst t) \<and> key_fits (snd t)"

lemma key_le_refl [simp]: "key_le s s"
  by (simp add: key_le_def)

lemma key_le_trans: "key_le s t \<Longrightarrow> key_le t u \<Longrightarrow> key_le s u"
  by (auto simp: key_le_def)

lemma Key_Insert_le: "PublicKeyTable_Insert s x = (i, s') \<Longrightarrow> key_le s s'"
  by (auto simp: key_le_def PublicKeyTable_Insert_def Let_def split: option.splits)

lemma Key_Insert_get:
  assumes "PublicKeyTable_Insert s x = (i, s')" "key_le s' t" "key_fits t"
  shows "unat i < length t \<and> t ! unat i = x"
proof -
  obtain us where us: "t = s' @ us" using assms(2) by (auto simp: key_le_def)
  have len: "length s \<le> length s'" using Key_Insert_le[OF assms(1)] by (auto simp: key_le_def)
  show ?thesis
  proof (cases "x \<in> set s")
    case True
    then obtain k where k: "find_index (\<lambda>v. v = x) s = Some k"
      using find_index_not_in[of x s] by (cases "find_index (\<lambda>v. v = x) s") auto
    have "k < length s" "s ! k = x" using find_index_eq[OF k] by simp_all
    moreover have "i = word_of_nat k" "s' = s" using assms(1) k by (simp_all add: PublicKeyTable_Insert_def)
    moreover have "unat (word_of_nat k :: u64) = k"
      using \<open>k < length s\<close> len us assms(3) by (intro unat_word_of_nat_small) (simp add: key_fits_def)
    ultimately show ?thesis using us by (simp add: nth_append)
  next
    case False
    then have "find_index (\<lambda>v. v = x) s = None" by (simp add: find_index_not_in)
    then have s': "i = word_of_nat (length s)" "s' = s @ [x]" using assms(1) by (simp_all add: PublicKeyTable_Insert_def Let_def)
    have "unat (word_of_nat (length s) :: u64) = length s"
      using us s' assms(3) by (intro unat_word_of_nat_small) (simp add: key_fits_def)
    then show ?thesis using us s' by simp
  qed
qed

definition bpred_plain :: "BPredicate \<Rightarrow> bool" where
  "bpred_plain p \<longleftrightarrow> (\<forall>t \<in> set (bp_IDs p). bterm_plain t)"

interpretation pred_interning: interning "BPredicate_convert rt" "fromDatalogPredicate rt" bpred_plain sym_le sym_fits for rt
proof
  note terms = term_interning.thread_le[of _ rt] term_interning.thread_round[of _ rt] term_interning.thread_returns[of _ rt]
  fix x s y s' t
  assume x: "bpred_plain x" and c: "BPredicate_convert rt x s = Some (y, s')"
  obtain ids s1 n where i: "thread (BTerm_convert rt) (bp_IDs x) s = Some (ids, s1)"
    "SymbolTable_Insert s1 (bp_Name x) = (n, s')" "y = \<lparr>pred_Name = n, pred_Terms = Some ids\<rparr>"
    using c by (auto simp: BPredicate_convert_def split: option.splits prod.splits)
  have le: "sym_le s s1" "sym_le s1 s'"
    using term_interning.thread_le[OF _ i(1)] x Insert_le[OF i(2)] by (auto simp: bpred_plain_def)
  then show "sym_le s s'" by (rule sym_le_trans)
  assume t: "sym_le s' t" "sym_fits t"
  have "traverse (fromDatalogID rt t) ids = Inr (bp_IDs x)"
    using term_interning.thread_round[OF _ i(1) sym_le_trans[OF le(2) t(1)] t(2)] x by (simp add: bpred_plain_def)
  then show "fromDatalogPredicate rt t y = Inr x"
    using Insert_get(1)[OF i(2) t] by (simp add: fromDatalogPredicate_def i(3) read_Str_def)
next
  fix x s
  assume "bpred_plain x"
  then show "BPredicate_convert rt x s \<noteq> None"
    using term_interning.thread_returns[of "bp_IDs x" rt s]
    by (auto simp: BPredicate_convert_def bpred_plain_def split: prod.splits)
qed (auto intro: sym_le_trans)

fun bop_plain :: "BOp \<Rightarrow> bool" where
  "bop_plain (BValue t) = bterm_plain t"
| "bop_plain (BUnaryOp u) = (1 \<le> u \<and> u \<le> 3)"
| "bop_plain (BBinaryOp b) = (1 \<le> b \<and> b \<le> 17)"
| "bop_plain BNilValue = False"
| "bop_plain BNil = False"

lemma byte_cases:
  assumes "1 \<le> (u :: u8)" "u \<le> word_of_nat n" "n < 256"
  shows "\<exists>k. 1 \<le> k \<and> k \<le> n \<and> u = word_of_nat k"
proof (intro exI conjI)
  show "1 \<le> unat u" using assms(1) by (simp add: word_le_nat_alt)
  show "unat u \<le> n" using assms(2,3) by (simp add: word_le_nat_alt unsigned_of_nat take_bit_nat_eq_self)
  show "u = word_of_nat (unat u)" by simp
qed

lemma declared_ops:
  "bop_plain (BUnaryOp u) \<Longrightarrow> \<exists>f. BUnaryOp_convert u = Some f \<and> fromDatalogUnaryOp f = u"
  "bop_plain (BBinaryOp b) \<Longrightarrow> \<exists>f. BBinaryOp_convert b = Some f \<and> fromDatalogBinaryOp f = b"
proof -
  assume "bop_plain (BUnaryOp u)"
  then obtain k where k: "1 \<le> k" "k \<le> 3" "u = word_of_nat k" using byte_cases[of u 3] by auto
  then have "k \<in> {1, 2, 3}" by auto
  then show "\<exists>f. BUnaryOp_convert u = Some f \<and> fromDatalogUnaryOp f = u"
    using k(3) by (auto simp: BUnaryOp_convert_def)
next
  assume "bop_plain (BBinaryOp b)"
  then obtain k where k: "1 \<le> k" "k \<le> 17" "b = word_of_nat k" using byte_cases[of b 17] by auto
  then have "k \<in> {1, 2, 3, 4, 5, 6, 7, 8, 9, 10, 11, 12, 13, 14, 15, 16, 17}" unfolding insert_iff empty_iff by arith
  then show "\<exists>f. BBinaryOp_convert b = Some f \<and> fromDatalogBinaryOp f = b"
    using k(3) by (auto simp: BBinaryOp_convert_def)
qed

interpretation op_interning: interning "BOp_convert rt" "fromDatalogOp rt" bop_plain sym_le sym_fits for rt
proof
  fix x s y s' t
  assume x: "bop_plain x" and c: "BOp_convert rt x s = Some (y, s')"
  show "sym_le s s'"
    using x c by (cases x) (auto split: option.splits intro: term_interning.conv_le)
  assume t: "sym_le s' t" "sym_fits t"
  show "fromDatalogOp rt t y = Inr x"
  proof (cases x)
    case (BValue v)
    then obtain w where w: "BTerm_convert rt v s = Some (w, s')" "y = Value w" using c by (auto split: option.splits)
    then show ?thesis using term_interning.round[OF _ w(1) t] x BValue by (simp add: fromDatalogValueOp_def)
  next
    case (BUnaryOp u)
    then show ?thesis using x c declared_ops(1)[of u] by force
  next
    case (BBinaryOp b)
    then show ?thesis using x c declared_ops(2)[of b] by force
  qed (use x in simp_all)
next
  show "bop_plain x \<Longrightarrow> BOp_convert rt x s \<noteq> None" for x s
    using declared_ops term_interning.conv_returns[of _ rt s] by (cases x) (force split: option.splits)+
qed (auto intro: sym_le_trans)

definition bexpr_plain :: "BExpression \<Rightarrow> bool" where
  "bexpr_plain e \<longleftrightarrow> (\<forall>x \<in> set e. bop_plain x)"

interpretation expr_interning: interning "BExpression_convert rt" "fromDatalogExpression rt" bexpr_plain sym_le sym_fits for rt
proof
  fix x s y s' t
  assume x: "bexpr_plain x" and c: "BExpression_convert rt x s = Some (y, s')"
  obtain ops where i: "thread (BOp_convert rt) x s = Some (ops, s')" "y = Some ops"
    using c by (auto simp: BExpression_convert_def)
  show "sym_le s s'" using op_interning.thread_le[OF _ i(1)] x by (simp add: bexpr_plain_def)
  assume "sym_le s' t" "sym_fits t"
  then show "fromDatalogExpression rt t y = Inr x"
    using op_interning.thread_round[OF _ i(1)] x by (simp add: bexpr_plain_def fromDatalogExpression_def i(2))
next
  show "bexpr_plain x \<Longrightarrow> BExpression_convert rt x s \<noteq> None" for x s
    using op_interning.thread_returns[of x rt s] by (simp add: BExpression_convert_def bexpr_plain_def)
qed (auto intro: sym_le_trans)

definition bscope_plain :: "BScope \<Rightarrow> bool" where
  "bscope_plain s \<longleftrightarrow> (bs_Type s = PublicKeyScopeType \<longleftrightarrow> bs_PublicKey s \<noteq> None)"

interpretation scope_interning: interning BScope_convert "\<lambda>t. fromDatalogScope (Some t)" bscope_plain key_le key_fits
proof
  fix x s y s' t
  assume x: "bscope_plain x" and c: "BScope_convert x s = Some (y, s')"
  show "key_le s s'"
    using c by (auto simp: BScope_convert_def split: option.splits prod.splits intro: Key_Insert_le)
  assume t: "key_le s' t" "key_fits t"
  show "fromDatalogScope (Some t) y = Inr x"
  proof (cases "bs_PublicKey x")
    case None
    then show ?thesis using x c
      by (cases "bs_Type x") (auto simp: BScope_convert_def fromDatalogScope_def bscope_plain_def)
  next
    case (Some pk)
    then obtain i where i: "PublicKeyTable_Insert s (BPublicKey_convert pk) = (i, s')" "y = Scope (bs_Type x) i"
      using c by (auto simp: BScope_convert_def split: prod.splits)
    have "bs_Type x = PublicKeyScopeType" using x Some by (simp add: bscope_plain_def)
    then show ?thesis using Key_Insert_get[OF i(1) t] Some
      by (cases x; cases pk) (simp add: fromDatalogScope_def i(2) BPublicKey_convert_def Let_def)
  qed
qed (auto simp: BScope_convert_def split: prod.splits intro: key_le_trans)

definition brule_plain :: "BRule \<Rightarrow> bool" where
  "brule_plain r \<longleftrightarrow> bpred_plain (br_Head r) \<and> (\<forall>p \<in> set (br_Body r). bpred_plain p) \<and>
     (\<forall>e \<in> set (br_Expressions r). bexpr_plain e) \<and> (\<forall>s \<in> set (br_Scopes r). bscope_plain s)"

lemma BRule_Convert_parts:
  assumes "BRule_Convert rt r (s, k) = Some (y, (s', k'))"
  obtains body s1 es s2 scs h where "thread (BPredicate_convert rt) (br_Body r) s = Some (body, s1)"
    "thread (BExpression_convert rt) (br_Expressions r) s1 = Some (es, s2)"
    "thread BScope_convert (br_Scopes r) k = Some (scs, k')"
    "BPredicate_convert rt (br_Head r) s2 = Some (h, s')"
    "rule_Head y = h" "elems (rule_Body y) = body" "elems (rule_Expressions y) = es" "elems (rule_Scopes y) = scs"
    "rule_Body y = Some body" "rule_Expressions y = Some es" "rule_Scopes y = (if br_Scopes r = [] then None else Some scs)"
  using assms by (auto simp: BRule_Convert_def split: option.splits if_splits)

interpretation rule_interning: interning "BRule_Convert rt" "\<lambda>(s, k). fromDatalogRule rt s (Some k)" brule_plain tables_le tables_fit for rt
proof
  fix x st y st' t
  assume x: "brule_plain x" and c: "BRule_Convert rt x st = Some (y, st')"
  obtain s k s' k' where st: "st = (s, k)" "st' = (s', k')" by fastforce
  obtain body s1 es s2 scs h where p: "thread (BPredicate_convert rt) (br_Body x) s = Some (body, s1)"
    "thread (BExpression_convert rt) (br_Expressions x) s1 = Some (es, s2)"
    "thread BScope_convert (br_Scopes x) k = Some (scs, k')"
    "BPredicate_convert rt (br_Head x) s2 = Some (h, s')"
    "rule_Head y = h" "elems (rule_Body y) = body" "elems (rule_Expressions y) = es" "elems (rule_Scopes y) = scs"
    by (rule BRule_Convert_parts[OF c[unfolded st]])
  have ok: "bpred_plain (br_Head x)" "\<forall>p \<in> set (br_Body x). bpred_plain p"
    "\<forall>e \<in> set (br_Expressions x). bexpr_plain e" "\<forall>s \<in> set (br_Scopes x). bscope_plain s"
    using x by (simp_all add: brule_plain_def)
  have le: "sym_le s s1" "sym_le s1 s2" "sym_le s2 s'" "key_le k k'"
    using pred_interning.thread_le[OF ok(2) p(1)] expr_interning.thread_le[OF ok(3) p(2)]
      pred_interning.conv_le[OF ok(1) p(4)] scope_interning.thread_le[OF ok(4) p(3)] by simp_all
  then show "tables_le st st'" by (auto simp: st tables_le_def intro: sym_le_trans)
  assume t: "tables_le st' t" "tables_fit t"
  obtain ts tk where tt: "t = (ts, tk)" by fastforce
  have t': "sym_le s' ts" "key_le k' tk" "sym_fits ts" "key_fits tk"
    using t by (simp_all add: st tt tables_le_def tables_fit_def)
  have "sym_le s2 ts" "sym_le s1 ts" using le t'(1) sym_le_trans by blast+
  then show "(case t of (s, k) \<Rightarrow> fromDatalogRule rt s (Some k)) y = Inr x"
    using pred_interning.thread_round[OF ok(2) p(1) _ t'(3)] expr_interning.thread_round[OF ok(3) p(2) _ t'(3)]
      pred_interning.round[OF ok(1) p(4) t'(1,3)] scope_interning.thread_round[OF ok(4) p(3) t'(2,4)]
    by (simp add: tt fromDatalogRule_def p)
next
  fix x and st :: tables
  assume x: "brule_plain x"
  obtain s k where st: "st = (s, k)" by fastforce
  obtain body s1 where 1: "thread (BPredicate_convert rt) (br_Body x) s = Some (body, s1)"
    using pred_interning.thread_returns[of "br_Body x" rt s] x by (auto simp: brule_plain_def)
  obtain es s2 where 2: "thread (BExpression_convert rt) (br_Expressions x) s1 = Some (es, s2)"
    using expr_interning.thread_returns[of "br_Expressions x" rt s1] x by (auto simp: brule_plain_def)
  obtain scs k1 where 3: "thread BScope_convert (br_Scopes x) k = Some (scs, k1)"
    using scope_interning.thread_returns[of "br_Scopes x" k] x by (auto simp: brule_plain_def)
  obtain h s3 where 4: "BPredicate_convert rt (br_Head x) s2 = Some (h, s3)"
    using pred_interning.conv_returns[of "br_Head x" rt s2] x by (auto simp: brule_plain_def)
  show "BRule_Convert rt x st \<noteq> None" by (simp add: st BRule_Convert_def 1 2 3 4)
qed (auto simp: tables_le_def intro: sym_le_trans key_le_trans)

definition bcheck_plain :: "BCheck \<Rightarrow> bool" where
  "bcheck_plain c \<longleftrightarrow> (\<forall>q \<in> set (bc_Queries c). brule_plain q) \<and> known_kind (bc_Kind c) = bc_Kind c"

lemma known_kind_twice [simp]: "known_kind (known_kind k) = known_kind k"
  by (cases k) simp_all

interpretation check_interning: interning "BCheck_Convert rt" "\<lambda>(s, k). fromDatalogCheck rt s (Some k)" bcheck_plain tables_le tables_fit for rt
proof
  fix x st y st' t
  assume x: "bcheck_plain x" and c: "BCheck_Convert rt x st = Some (y, st')"
  obtain qs where q: "thread (BRule_Convert rt) (bc_Queries x) st = Some (qs, st')"
    "y = \<lparr>check_Queries = Some qs, check_Kind = bc_Kind x\<rparr>"
    using c x by (auto simp: BCheck_Convert_def bcheck_plain_def split: option.splits)
  show "tables_le st st'" using rule_interning.thread_le[OF _ q(1)] x by (simp add: bcheck_plain_def)
  assume t: "tables_le st' t" "tables_fit t"
  have "traverse (case t of (s, k) \<Rightarrow> fromDatalogRule rt s (Some k)) qs = Inr (bc_Queries x)"
    using rule_interning.thread_round[OF _ q(1) t] x by (simp add: bcheck_plain_def)
  then show "(case t of (s, k) \<Rightarrow> fromDatalogCheck rt s (Some k)) y = Inr x"
    using x by (cases t) (simp add: bcheck_plain_def q(2) fromDatalogCheck_def)
next
  show "bcheck_plain x \<Longrightarrow> BCheck_Convert rt x st \<noteq> None" for x st
    using rule_interning.thread_returns[of "bc_Queries x" rt st]
    by (auto simp: BCheck_Convert_def bcheck_plain_def split: option.splits)
qed (auto simp: tables_le_def intro: sym_le_trans key_le_trans)

text \<open>
  Converting a check to the datalog package and reading it back gives the same check, also
  after the symbol table and the key table have grown: strings, variables, operators and key
  scopes keep their meaning. (Terms without sets and sub-second dates, and at most \<open>2 ^ 32\<close> symbols,
  because a variable keeps only 32 bits of its symbol.)
\<close>

theorem Check_Convert_roundtrip:
  assumes "bcheck_plain c" and "BCheck_Convert rt c (s, k) = Some (c', (s', k'))"
    and "1024 + length (s' @ us) \<le> 2 ^ 32" and "length (k' @ ks) < 2 ^ 64"
  shows "fromDatalogCheck rt (s' @ us) (Some (k' @ ks)) c' = Inr c"
  using check_interning.round[OF assms(1,2), of "(s' @ us, k' @ ks)"] assms(3,4)
  by (auto simp: tables_le_def tables_fit_def sym_le_def key_le_def sym_fits_def key_fits_def)

definition demo_bcheck :: BCheck where
  "demo_bcheck = \<lparr>bc_Queries = [\<lparr>br_Head = \<lparr>bp_Name = ''query'', bp_IDs = []\<rparr>,
      br_Body = [\<lparr>bp_Name = ''user'', bp_IDs = [BVariable ''u'', BString ''bob'']\<rparr>],
      br_Expressions = [[BValue (BVariable ''u''), BUnaryOp 1]], br_Scopes = [\<lparr>bs_Type = AuthorityScopeType, bs_PublicKey = None\<rparr>]\<rparr>],
    bc_Kind = CheckAll\<rparr>"

theorem Check_Convert_roundtrip_witness:
  "\<exists>c' s' k'. BCheck_Convert demo_runtime demo_bcheck ([], []) = Some (c', (s', k')) \<and>
     fromDatalogCheck demo_runtime (s' @ [''later'']) (Some (k' @ [])) c' = Inr demo_bcheck"
proof -
  have plain: "bcheck_plain demo_bcheck"
    by (simp add: bcheck_plain_def brule_plain_def bpred_plain_def bexpr_plain_def bscope_plain_def demo_bcheck_def)
  obtain c' s' k' where c: "BCheck_Convert demo_runtime demo_bcheck ([], []) = Some (c', (s', k'))"
    using check_interning.conv_returns[OF plain] by (metis not_Some_eq prod.collapse)
  have "length s' = 2 \<and> k' = []" using c
    by (auto simp: demo_bcheck_def BCheck_Convert_def BRule_Convert_def BPredicate_convert_def BExpression_convert_def
        BScope_convert_def SymbolTable_Insert_def DEFAULT_SYMBOLS_def Let_def BUnaryOp_convert_def OFFSET_def)
  then have "1024 + length (s' @ [''later'']) \<le> 2 ^ 32" "length (k' @ []) < 2 ^ 64" by simp_all
  from Check_Convert_roundtrip[OF plain c this] c show ?thesis by blast
qed

end
