(* ===== verification/FactSets.thy ===== *)
theory FactSets
  imports Rules
begin

text \<open>
  Fact sets and rule sets (\<^verbatim>\<open>FactSet\<close> and \<^verbatim>\<open>RuleSet\<close> of \<^verbatim>\<open>datalog/datalog.go\<close>): maps
  from the encoding of an origin to a hash set. They are association lists in the order the
  map iteration visits them. A fact set stands for a relation between sets of block
  identifiers and facts (\<open>facts_of\<close>), a rule set for a relation between trusted blocks and
  rules up to nil slices (\<open>rules_of\<close>); every operation is described on these relations.
\<close>

section \<open>Fact sets\<close>

type_synonym FactSet = "(string \<times> Fact hashset) list"

abbreviation new_facts :: "runtime \<Rightarrow> Fact list \<Rightarrow> Fact hashset" where
  "new_facts rt \<equiv> NewHashSet (fact_hash rt) Fact_Equal"

definition NewFactSet :: "runtime \<Rightarrow> Origin \<Rightarrow> Fact list \<Rightarrow> FactSet" where
  "NewFactSet rt origin facts = AList.update (Origin_EncodeToString origin) (new_facts rt facts) []"

definition decode_key :: "runtime \<Rightarrow> string \<Rightarrow> Origin option" where
  "decode_key rt k = (case NewOriginFromString rt k of Inl _ \<Rightarrow> None | Inr o1 \<Rightarrow> Some o1)"

definition FactSet_Origins :: "runtime \<Rightarrow> FactSet \<Rightarrow> Origin list" where
  "FactSet_Origins rt fs = List.map_filter (\<lambda>(k, _). decode_key rt k) fs"

definition FactSet_Facts :: "FactSet \<Rightarrow> Origin \<Rightarrow> Fact list" where
  "FactSet_Facts fs origin = (case map_of fs (Origin_EncodeToString origin) of
     None \<Rightarrow> [] | Some factSet \<Rightarrow> HashSet_Iter factSet)"

definition FactSet_AllFacts :: "runtime \<Rightarrow> FactSet \<Rightarrow> Fact list" where
  "FactSet_AllFacts rt fs = concat (map (FactSet_Facts fs) (FactSet_Origins rt fs))"

definition FactSet_Iter :: "runtime \<Rightarrow> FactSet \<Rightarrow> (Origin \<times> Fact hashset) list" where
  "FactSet_Iter rt fs = List.map_filter (\<lambda>(strKey, factSet).
     (case decode_key rt strKey of None \<Rightarrow> None | Some o1 \<Rightarrow> Some (o1, factSet))) fs"

definition FactSet_IterSorted :: "runtime \<Rightarrow> FactSet \<Rightarrow> (Origin \<times> Fact hashset) list" where
  "FactSet_IterSorted rt fs = SortedFunc (\<lambda>a b. Origin_Compare (fst a) (fst b)) (FactSet_Iter rt fs)"

definition FactSet_FilterByOrigin ::
    "runtime \<Rightarrow> FactSet \<Rightarrow> TrustedOrigin \<Rightarrow> (Origin \<times> Fact hashset) list" where
  "FactSet_FilterByOrigin rt fs trustedOrigin =
     filter (\<lambda>(origin, factSet). Origin_IsSuperSet rt trustedOrigin origin) (FactSet_Iter rt fs)"

definition FactSet_WithOrigin :: "runtime \<Rightarrow> FactSet \<Rightarrow> TrustedOrigin \<Rightarrow> FactSet" where
  "FactSet_WithOrigin rt fs trustedOrigin =
     fold (\<lambda>(origin, factSet) result. AList.update (Origin_EncodeToString origin) factSet result)
       (FactSet_FilterByOrigin rt fs trustedOrigin) []"

definition FactSet_Insert :: "runtime \<Rightarrow> FactSet \<Rightarrow> Origin \<Rightarrow> Fact \<Rightarrow> FactSet" where
  "FactSet_Insert rt fs origin f =
     (let key = Origin_EncodeToString origin in
      case map_of fs key of
        Some factSet \<Rightarrow> AList.update key (snd (HashSet_Insert (fact_hash rt) Fact_Equal factSet f)) fs
      | None \<Rightarrow> AList.update key (new_facts rt [f]) fs)"

definition FactSet_InsertMulti :: "runtime \<Rightarrow> FactSet \<Rightarrow> Origin \<Rightarrow> Fact list \<Rightarrow> FactSet" where
  "FactSet_InsertMulti rt fs origin facts =
     (let key = Origin_EncodeToString origin in
      case map_of fs key of
        Some factSet \<Rightarrow>
          AList.update key (HashSet_Union (fact_hash rt) Fact_Equal factSet (new_facts rt facts)) fs
      | None \<Rightarrow> AList.update key (new_facts rt facts) fs)"

definition FactSet_InsertNew :: "runtime \<Rightarrow> FactSet \<Rightarrow> Origin \<Rightarrow> Fact \<Rightarrow> bool \<times> FactSet" where
  "FactSet_InsertNew rt fs origin f =
     (let key = Origin_EncodeToString origin in
      case map_of fs key of
        Some factSet \<Rightarrow>
          (let (isNew, factSet') = HashSet_Insert (fact_hash rt) Fact_Equal factSet f in
           (isNew, AList.update key factSet' fs))
      | None \<Rightarrow> (True, AList.update key (new_facts rt [f]) fs))"

definition FactSet_Count :: "FactSet \<Rightarrow> nat" where
  "FactSet_Count fs = fold (\<lambda>(_, facts) count. count + HashSet_Size facts) fs 0"

definition FactSet_Clone :: "FactSet \<Rightarrow> FactSet" where
  "FactSet_Clone fs = fold (\<lambda>(strKey, factSet) result. AList.update strKey (HashSet_Clone factSet) result) fs []"

definition FactSet_keys :: "FactSet \<Rightarrow> string list" where
  "FactSet_keys fs = SortedFunc cmp_Compare (map fst fs)"

text \<open>The values under one key of two maps; a key both maps have is never missing here.\<close>

fun compare_at :: "FactSet \<Rightarrow> FactSet \<Rightarrow> string list \<Rightarrow> int" where
  "compare_at fs fs2 [] = 0"
| "compare_at fs fs2 (key # ks) =
     (let x = (case (map_of fs key, map_of fs2 key) of
          (Some a, Some b) \<Rightarrow> Compared Fact_Compare (HashSet_Iter a) (HashSet_Iter b) | _ \<Rightarrow> 0) in
      if x \<noteq> 0 then x else compare_at fs fs2 ks)"

definition FactSet_Compare :: "FactSet \<Rightarrow> FactSet option \<Rightarrow> int" where
  "FactSet_Compare fs fs2 = (case fs2 of None \<Rightarrow> 1 | Some fs2 \<Rightarrow>
     (let x = cmp_Compare (length fs) (length fs2) in
      if x \<noteq> 0 then x
      else if length fs = 0 then 0
      else let c = cmp_Compare (FactSet_keys fs) (FactSet_keys fs2) in
        if c \<noteq> 0 then c else compare_at fs fs2 (FactSet_keys fs)))"

definition FactSet_Equal :: "FactSet \<Rightarrow> FactSet option \<Rightarrow> bool" where
  "FactSet_Equal fs fs2 \<longleftrightarrow> FactSet_Compare fs fs2 = 0"

section \<open>Rule sets\<close>

type_synonym RuleSet = "(string \<times> RuleInBlock hashset) list"

abbreviation new_ribs :: "runtime \<Rightarrow> RuleInBlock list \<Rightarrow> RuleInBlock hashset" where
  "new_ribs rt \<equiv> NewHashSet (rib_hash rt) RuleInBlock_Equal"

definition NewRuleSet :: "runtime \<Rightarrow> TrustedOrigin \<Rightarrow> BlockID \<Rightarrow> Rule list \<Rightarrow> RuleSet" where
  "NewRuleSet rt origin blockID rules =
     (let ribs = fold (\<lambda>rule ribs. snd (HashSet_Insert (rib_hash rt) RuleInBlock_Equal ribs
            \<lparr>rib_BlockID = blockID, rib_Rule = rule\<rparr>)) rules (new_ribs rt [])
      in AList.update (Origin_EncodeToString origin) ribs [])"

definition decode_trusted :: "runtime \<Rightarrow> string \<Rightarrow> TrustedOrigin option" where
  "decode_trusted rt k = (case NewTrustedOriginFromString rt k of Inl _ \<Rightarrow> None | Inr to \<Rightarrow> Some to)"

definition RuleSet_TrustedOrigins :: "runtime \<Rightarrow> RuleSet \<Rightarrow> TrustedOrigin list" where
  "RuleSet_TrustedOrigins rt rs = List.map_filter (\<lambda>(k, _). decode_trusted rt k) rs"

definition RuleSet_Rules :: "RuleSet \<Rightarrow> TrustedOrigin \<Rightarrow> (BlockID \<times> Rule) list" where
  "RuleSet_Rules rs trustedOrigin = (case map_of rs (Origin_EncodeToString trustedOrigin) of
     None \<Rightarrow> []
   | Some ruleInBlockSet \<Rightarrow> map (\<lambda>rib. (rib_BlockID rib, rib_Rule rib)) (HashSet_Iter ruleInBlockSet))"

definition RuleSet_AllRules :: "runtime \<Rightarrow> RuleSet \<Rightarrow> Rule list" where
  "RuleSet_AllRules rt rs =
     concat (map (\<lambda>to. map snd (RuleSet_Rules rs to)) (RuleSet_TrustedOrigins rt rs))"

definition RuleSet_Iter :: "runtime \<Rightarrow> RuleSet \<Rightarrow> (TrustedOrigin \<times> RuleInBlock hashset) list" where
  "RuleSet_Iter rt rs = List.map_filter (\<lambda>(strKey, ruleInBlockSet).
     (case decode_trusted rt strKey of None \<Rightarrow> None | Some to \<Rightarrow> Some (to, ruleInBlockSet))) rs"

text \<open>The map \<^verbatim>\<open>rulesByBlockID\<close> built by the first loop of \<^verbatim>\<open>RulesByBlockID\<close>.\<close>

definition gather_rule ::
    "runtime \<Rightarrow> RuleInBlock \<Rightarrow> (BlockID \<times> Rule hashset) list \<Rightarrow> (BlockID \<times> Rule hashset) list" where
  "gather_rule rt rib byID =
     (let blockID = rib_BlockID rib; rule = rib_Rule rib in
      case map_of byID blockID of
        Some rulesSet \<Rightarrow> AList.update blockID (snd (HashSet_Insert (rule_hash rt) Rule_Equal rulesSet rule)) byID
      | None \<Rightarrow> AList.update blockID (NewHashSet (rule_hash rt) Rule_Equal [rule]) byID)"

definition RuleSet_RulesByBlockID :: "runtime \<Rightarrow> RuleSet \<Rightarrow> (BlockID \<times> Rule list) list" where
  "RuleSet_RulesByBlockID rt rs =
     (let byID = fold (\<lambda>(_, ribs) acc. fold (gather_rule rt) (HashSet_Iter ribs) acc) (RuleSet_Iter rt rs) [];
          ids = SortedFunc cmp_Compare (map fst byID)
      in map (\<lambda>blockID. (blockID, Sorted Rule_Compare
           (case map_of byID blockID of None \<Rightarrow> [] | Some s \<Rightarrow> HashSet_Iter s))) ids)"

definition RuleSet_Insert :: "runtime \<Rightarrow> RuleSet \<Rightarrow> TrustedOrigin \<Rightarrow> BlockID \<Rightarrow> Rule \<Rightarrow> RuleSet" where
  "RuleSet_Insert rt rs trustedOrigin blockID rule =
     (let key = Origin_EncodeToString trustedOrigin;
          newRuleInBlock = \<lparr>rib_BlockID = blockID, rib_Rule = rule\<rparr>
      in case map_of rs key of
           Some s \<Rightarrow> AList.update key (snd (HashSet_Insert (rib_hash rt) RuleInBlock_Equal s newRuleInBlock)) rs
         | None \<Rightarrow> AList.update key (new_ribs rt [newRuleInBlock]) rs)"

definition RuleSet_InsertMulti ::
    "runtime \<Rightarrow> RuleSet \<Rightarrow> TrustedOrigin \<Rightarrow> BlockID \<Rightarrow> Rule list \<Rightarrow> RuleSet" where
  "RuleSet_InsertMulti rt rs trustedOrigin blockID rules =
     (let key = Origin_EncodeToString trustedOrigin;
          newRuleInBlocks = map (\<lambda>rule. \<lparr>rib_BlockID = blockID, rib_Rule = rule\<rparr>) rules
      in case map_of rs key of
           Some s \<Rightarrow> AList.update key
             (HashSet_Union (rib_hash rt) RuleInBlock_Equal s (new_ribs rt newRuleInBlocks)) rs
         | None \<Rightarrow> AList.update key (new_ribs rt newRuleInBlocks) rs)"

definition RuleSet_Count :: "RuleSet \<Rightarrow> nat" where
  "RuleSet_Count rs = fold (\<lambda>(_, ruleSet) count. count + HashSet_Size ruleSet) rs 0"

definition RuleSet_Clone :: "RuleSet \<Rightarrow> RuleSet" where
  "RuleSet_Clone rs = fold (\<lambda>(strKey, ruleSet) result. AList.update strKey (HashSet_Clone ruleSet) result) rs []"

section \<open>The relations these maps stand for\<close>

definition key_ok :: "runtime \<Rightarrow> string \<Rightarrow> bool" where
  "key_ok rt k \<longleftrightarrow> (\<exists>o1. origin_ok rt o1 \<and> hs_set o1 \<noteq> {} \<and> k = Origin_EncodeToString o1)"

definition key_blocks :: "runtime \<Rightarrow> string \<Rightarrow> BlockID set" where
  "key_blocks rt k = (case decode_key rt k of None \<Rightarrow> {} | Some o1 \<Rightarrow> hs_set o1)"

definition keyed_inv :: "runtime \<Rightarrow> ('a hashset \<Rightarrow> bool) \<Rightarrow> (string \<times> 'a hashset) list \<Rightarrow> bool" where
  "keyed_inv rt P ks \<longleftrightarrow> distinct (map fst ks) \<and> (\<forall>(k, s) \<in> set ks. key_ok rt k \<and> P s)"

definition keyed_rel :: "runtime \<Rightarrow> ('a \<Rightarrow> 'b) \<Rightarrow> (string \<times> 'a hashset) list \<Rightarrow> (BlockID set \<times> 'b) set" where
  "keyed_rel rt m ks = {(key_blocks rt k, m x) | k s x. (k, s) \<in> set ks \<and> x \<in> hs_set s}"

lemma keyed_inv_Nil [simp]: "keyed_inv rt P []"
  and keyed_rel_Nil [simp]: "keyed_rel rt m [] = {}"
  by (simp_all add: keyed_inv_def keyed_rel_def)

lemma key_ok_encode: "origin_ok rt o1 \<Longrightarrow> hs_set o1 \<noteq> {} \<Longrightarrow> key_ok rt (Origin_EncodeToString o1)"
  by (auto simp: key_ok_def)

lemma decode_key_encode:
  assumes "origin_ok rt o1" "hs_set o1 \<noteq> {}"
  shows "\<exists>o2. decode_key rt (Origin_EncodeToString o1) = Some o2 \<and> origin_ok rt o2 \<and> hs_set o2 = hs_set o1"
proof -
  let ?o2 = "Origin_InsertIDs rt HashSet_empty (Sorted BlockID_Compare (HashSet_Iter o1))"
  have "decode_key rt (Origin_EncodeToString o1) = Some ?o2"
    using decode_encode[of o1 rt] assms(2) by (simp add: decode_key_def)
  moreover have "hs_set ?o2 = hs_set o1" by (simp add: Sorted_def)
  ultimately show ?thesis by (intro exI[of _ ?o2]) simp
qed

lemma key_blocks_encode [simp]:
  "origin_ok rt o1 \<Longrightarrow> hs_set o1 \<noteq> {} \<Longrightarrow> key_blocks rt (Origin_EncodeToString o1) = hs_set o1"
proof -
  assume "origin_ok rt o1" "hs_set o1 \<noteq> {}"
  then obtain o2 where "decode_key rt (Origin_EncodeToString o1) = Some o2" "hs_set o2 = hs_set o1"
    using decode_key_encode by blast
  then show ?thesis by (simp add: key_blocks_def)
qed

lemma key_ok_decode:
  assumes "key_ok rt k"
  shows "\<exists>o1. decode_key rt k = Some o1 \<and> origin_ok rt o1 \<and> hs_set o1 = key_blocks rt k \<and>
    key_blocks rt k \<noteq> {} \<and> Origin_EncodeToString o1 = k"
proof -
  obtain o1 where o1: "origin_ok rt o1" "hs_set o1 \<noteq> {}" "k = Origin_EncodeToString o1"
    using assms by (auto simp: key_ok_def)
  obtain o2 where o2: "decode_key rt k = Some o2" "origin_ok rt o2" "hs_set o2 = hs_set o1"
    using decode_key_encode[OF o1(1,2)] o1(3) by auto
  then have "Origin_EncodeToString o2 = k" using o1 EncodeToString_inj[of rt o1 o2] by simp
  then show ?thesis using o1 o2 by simp
qed

lemma key_blocks_inj: "key_ok rt k \<Longrightarrow> key_ok rt k' \<Longrightarrow> key_blocks rt k = key_blocks rt k' \<longleftrightarrow> k = k'"
  using EncodeToString_inj[of rt] by (auto simp: key_ok_def)

lemma keyed_inv_lookup: "keyed_inv rt P ks \<Longrightarrow> map_of ks k = Some s \<Longrightarrow> P s \<and> key_ok rt k"
  by (auto simp: keyed_inv_def dest!: map_of_SomeD)

lemma keyed_rel_iff:
  assumes "keyed_inv rt P ks"
  shows "(B, y) \<in> keyed_rel rt m ks \<longleftrightarrow>
    (\<exists>k s. key_ok rt k \<and> B = key_blocks rt k \<and> map_of ks k = Some s \<and> y \<in> m ` hs_set s)"
proof -
  have "(k, s) \<in> set ks \<longleftrightarrow> map_of ks k = Some s \<and> key_ok rt k" for k s
    using assms by (auto simp: keyed_inv_def dest: map_of_SomeD)
  then show ?thesis by (fastforce simp: keyed_rel_def)
qed

lemma keyed_rel_at:
  assumes "keyed_inv rt P ks" "key_ok rt k"
  shows "(key_blocks rt k, y) \<in> keyed_rel rt m ks \<longleftrightarrow> (\<exists>s. map_of ks k = Some s \<and> y \<in> m ` hs_set s)"
  unfolding keyed_rel_iff[OF assms(1)] using key_blocks_inj[OF assms(2)] assms(2) by metis

lemma keyed_inv_update:
  assumes "keyed_inv rt P ks" "key_ok rt k" "P s"
  shows "keyed_inv rt P (AList.update k s ks)"
  using assms in_update_cases[of _ _ k s ks]
  by (fastforce simp: keyed_inv_def distinct_update)

lemma keyed_rel_update:
  assumes "keyed_inv rt P ks" "key_ok rt k" "P s"
  shows "keyed_rel rt m (AList.update k s ks) =
    {(B, y) \<in> keyed_rel rt m ks. B \<noteq> key_blocks rt k} \<union> {key_blocks rt k} \<times> (m ` hs_set s)"
proof -
  note inv = keyed_inv_update[OF assms]
  have "(B, y) \<in> keyed_rel rt m (AList.update k s ks) \<longleftrightarrow>
      (B, y) \<in> keyed_rel rt m ks \<and> B \<noteq> key_blocks rt k \<or> B = key_blocks rt k \<and> y \<in> m ` hs_set s" for B y
  proof (cases "B = key_blocks rt k")
    case True
    then show ?thesis using keyed_rel_at[OF inv assms(2)] by (simp add: update_conv')
  next
    case False
    then have "B = key_blocks rt k' \<Longrightarrow> map_of (AList.update k s ks) k' = map_of ks k'" for k'
      by (auto simp: update_conv')
    then have "(B, y) \<in> keyed_rel rt m (AList.update k s ks) \<longleftrightarrow> (B, y) \<in> keyed_rel rt m ks"
      unfolding keyed_rel_iff[OF inv] keyed_rel_iff[OF assms(1)] by metis
    with False show ?thesis by simp
  qed
  then show ?thesis by auto
qed

text \<open>Replacing the set under a key by a larger one adds to the relation.\<close>

lemma keyed_rel_extend:
  assumes inv: "keyed_inv rt P ks" and k: "key_ok rt k" and s: "P s"
    and new: "m ` hs_set s = (case map_of ks k of None \<Rightarrow> {} | Some s' \<Rightarrow> m ` hs_set s') \<union> Y"
  shows "keyed_rel rt m (AList.update k s ks) = keyed_rel rt m ks \<union> {key_blocks rt k} \<times> Y"
proof -
  show ?thesis
    unfolding keyed_rel_update[OF inv k s] new
    using keyed_rel_at[OF inv k, of _ m] by (cases "map_of ks k") auto
qed

section \<open>Fact sets as relations\<close>

abbreviation facts_inv :: "runtime \<Rightarrow> FactSet \<Rightarrow> bool" where
  "facts_inv rt \<equiv> keyed_inv rt (hs_inv (fact_hash rt) pred_atomic)"

abbreviation facts_of :: "runtime \<Rightarrow> FactSet \<Rightarrow> (BlockID set \<times> Fact) set" where
  "facts_of rt \<equiv> keyed_rel rt (\<lambda>f. f)"

lemma FactSet_InsertMulti_spec:
  assumes "facts_inv rt fs" "origin_ok rt o1" "hs_set o1 \<noteq> {}" "\<forall>f \<in> set xs. pred_atomic f"
  shows "facts_inv rt (FactSet_InsertMulti rt fs o1 xs)"
    and "facts_of rt (FactSet_InsertMulti rt fs o1 xs) = facts_of rt fs \<union> {hs_set o1} \<times> set xs"
proof -
  let ?k = "Origin_EncodeToString o1"
  have k: "key_ok rt ?k" using assms by (simp add: key_ok_encode)
  note new = fact_set.new[OF assms(4), of rt]
  obtain s where s: "FactSet_InsertMulti rt fs o1 xs = AList.update ?k s fs"
    "hs_inv (fact_hash rt) pred_atomic s"
    "hs_set s = (case map_of fs ?k of None \<Rightarrow> {} | Some s' \<Rightarrow> hs_set s') \<union> set xs"
  proof (cases "map_of fs ?k")
    case None
    then show ?thesis using that[of "new_facts rt xs"] new by (simp add: FactSet_InsertMulti_def)
  next
    case (Some s')
    then show ?thesis
      using that[of "HashSet_Union (fact_hash rt) Fact_Equal s' (new_facts rt xs)"]
        fact_set.union[OF _ new(1), of s'] keyed_inv_lookup[OF assms(1) Some] new(2)
      by (simp add: FactSet_InsertMulti_def)
  qed
  show "facts_inv rt (FactSet_InsertMulti rt fs o1 xs)"
    unfolding s(1) by (rule keyed_inv_update[OF assms(1) k s(2)])
  show "facts_of rt (FactSet_InsertMulti rt fs o1 xs) = facts_of rt fs \<union> {hs_set o1} \<times> set xs"
    unfolding s(1)
    using keyed_rel_extend[OF assms(1) k s(2), of "\<lambda>f. f" "set xs"] s(3) assms(2,3)
    by (simp split: option.splits)
qed

lemma FactSet_Insert_spec:
  assumes "facts_inv rt fs" "origin_ok rt o1" "hs_set o1 \<noteq> {}" "pred_atomic f"
  shows "facts_inv rt (FactSet_Insert rt fs o1 f)"
    and "facts_of rt (FactSet_Insert rt fs o1 f) = facts_of rt fs \<union> {(hs_set o1, f)}"
proof -
  let ?k = "Origin_EncodeToString o1"
  have k: "key_ok rt ?k" using assms by (simp add: key_ok_encode)
  have f: "\<forall>x \<in> set [f]. pred_atomic x" using assms by simp
  note new = fact_set.new[OF f, of rt]
  obtain s where s: "FactSet_Insert rt fs o1 f = AList.update ?k s fs"
    "hs_inv (fact_hash rt) pred_atomic s"
    "hs_set s = (case map_of fs ?k of None \<Rightarrow> {} | Some s' \<Rightarrow> hs_set s') \<union> {f}"
  proof (cases "map_of fs ?k")
    case None
    then show ?thesis using that[of "new_facts rt [f]"] new by (simp add: FactSet_Insert_def)
  next
    case (Some s')
    then show ?thesis
      using that[of "snd (HashSet_Insert (fact_hash rt) Fact_Equal s' f)"] assms(4)
        fact_set.inv_insert[of rt s' f] fact_set.set_insert[of rt s' f] keyed_inv_lookup[OF assms(1) Some]
      by (simp add: FactSet_Insert_def)
  qed
  show "facts_inv rt (FactSet_Insert rt fs o1 f)"
    unfolding s(1) by (rule keyed_inv_update[OF assms(1) k s(2)])
  show "facts_of rt (FactSet_Insert rt fs o1 f) = facts_of rt fs \<union> {(hs_set o1, f)}"
    unfolding s(1)
    using keyed_rel_extend[OF assms(1) k s(2), of "\<lambda>f. f" "{f}"] s(3) assms(2,3)
    by (simp split: option.splits)
qed

text \<open>Both iterators decode the keys and skip those that do not decode.\<close>

definition keyed_iter :: "runtime \<Rightarrow> (string \<times> 'a hashset) list \<Rightarrow> (Origin \<times> 'a hashset) list" where
  "keyed_iter rt ks = List.map_filter (\<lambda>(k, s).
     (case decode_key rt k of None \<Rightarrow> None | Some o1 \<Rightarrow> Some (o1, s))) ks"

lemma FactSet_Iter_keyed: "FactSet_Iter rt fs = keyed_iter rt fs"
  by (simp add: FactSet_Iter_def keyed_iter_def)

lemma keyed_iter_eq:
  assumes "keyed_inv rt P fs"
  shows "keyed_iter rt fs = map (\<lambda>(k, s). (the (decode_key rt k), s)) fs"
proof -
  have "\<exists>o1. decode_key rt k = Some o1" if "(k, s) \<in> set fs" for k s
    using assms that key_ok_decode[of rt k] by (auto simp: keyed_inv_def)
  then show ?thesis
  proof (induction fs)
    case (Cons kv fs)
    have IH: "keyed_iter rt fs = map (\<lambda>(k, s). (the (decode_key rt k), s)) fs"
      by (rule Cons.IH) (use Cons.prems in auto)
    obtain k s where kv: "kv = (k, s)" by fastforce
    then obtain o1 where "decode_key rt k = Some o1" using Cons.prems by fastforce
    then show ?case using IH by (simp add: keyed_iter_def map_filter_simps kv)
  qed (simp add: keyed_iter_def map_filter_simps)
qed

lemma in_keyed_iter:
  assumes "keyed_inv rt P fs" "(o1, s) \<in> set (keyed_iter rt fs)"
  shows "origin_ok rt o1 \<and> hs_set o1 \<noteq> {} \<and> P s \<and> (Origin_EncodeToString o1, s) \<in> set fs"
proof -
  obtain k where k: "(k, s) \<in> set fs" "o1 = the (decode_key rt k)"
    using assms(2) unfolding keyed_iter_eq[OF assms(1)] by auto
  then have "key_ok rt k" "P s" using assms(1) by (auto simp: keyed_inv_def)
  moreover obtain o2 where o2: "decode_key rt k = Some o2" "origin_ok rt o2"
    "hs_set o2 = key_blocks rt k" "key_blocks rt k \<noteq> {}" "Origin_EncodeToString o2 = k"
    using key_ok_decode[OF \<open>key_ok rt k\<close>] by blast
  moreover have "o1 = o2" using k(2) o2(1) by simp
  ultimately show ?thesis using k(1) by simp
qed

lemma keyed_rel_iter:
  assumes "keyed_inv rt P fs"
  shows "keyed_rel rt m fs = {(hs_set o1, m f) | o1 s f. (o1, s) \<in> set (keyed_iter rt fs) \<and> f \<in> hs_set s}"
proof -
  have "(\<exists>k. (k, s) \<in> set fs \<and> B = key_blocks rt k) \<longleftrightarrow> (\<exists>o1. (o1, s) \<in> set (keyed_iter rt fs) \<and> B = hs_set o1)"
    for s B
  proof
    assume "\<exists>k. (k, s) \<in> set fs \<and> B = key_blocks rt k"
    then obtain k where k: "(k, s) \<in> set fs" "B = key_blocks rt k" by blast
    then have "key_ok rt k" using assms by (auto simp: keyed_inv_def)
    then obtain o1 where "decode_key rt k = Some o1" "hs_set o1 = B" using key_ok_decode k(2) by blast
    then show "\<exists>o1. (o1, s) \<in> set (keyed_iter rt fs) \<and> B = hs_set o1"
      unfolding keyed_iter_eq[OF assms] using k(1) by force
  next
    assume "\<exists>o1. (o1, s) \<in> set (keyed_iter rt fs) \<and> B = hs_set o1"
    then obtain o1 where o1: "(o1, s) \<in> set (keyed_iter rt fs)" "B = hs_set o1" by blast
    then show "\<exists>k. (k, s) \<in> set fs \<and> B = key_blocks rt k"
      using in_keyed_iter[OF assms o1(1)] by (metis key_blocks_encode)
  qed
  note eq = this
  show ?thesis
  proof (intro set_eqI iffI)
    fix p assume "p \<in> keyed_rel rt m fs"
    then obtain k s x where p: "(k, s) \<in> set fs" "x \<in> hs_set s" "p = (key_blocks rt k, m x)"
      unfolding keyed_rel_def by blast
    then obtain o1 where "(o1, s) \<in> set (keyed_iter rt fs)" "key_blocks rt k = hs_set o1"
      using eq[of s "key_blocks rt k"] by blast
    with p show "p \<in> {(hs_set o1, m f) | o1 s f. (o1, s) \<in> set (keyed_iter rt fs) \<and> f \<in> hs_set s}"
      by blast
  next
    fix p assume "p \<in> {(hs_set o1, m f) | o1 s f. (o1, s) \<in> set (keyed_iter rt fs) \<and> f \<in> hs_set s}"
    then obtain o1 s x where p: "(o1, s) \<in> set (keyed_iter rt fs)" "x \<in> hs_set s" "p = (hs_set o1, m x)"
      by blast
    then obtain k where "(k, s) \<in> set fs" "hs_set o1 = key_blocks rt k"
      using eq[of s "hs_set o1"] by blast
    with p show "p \<in> keyed_rel rt m fs" unfolding keyed_rel_def by blast
  qed
qed

lemmas FactSet_Iter_eq = keyed_iter_eq[where 'a = Predicate, folded FactSet_Iter_keyed]
lemmas in_FactSet_Iter = in_keyed_iter[where 'a = Predicate, folded FactSet_Iter_keyed]
lemmas facts_of_Iter = keyed_rel_iter[where 'a = Predicate, folded FactSet_Iter_keyed]

lemma FactSet_Count_sum: "FactSet_Count fs = sum_list (map (\<lambda>(_, s). HashSet_Size s) fs)"
proof -
  have "fold (\<lambda>(_, facts) count. count + HashSet_Size facts) fs n = n + sum_list (map (\<lambda>(_, s). HashSet_Size s) fs)"
    for n by (induction fs arbitrary: n) auto
  then show ?thesis by (simp add: FactSet_Count_def)
qed

lemma keyed_rel_Cons:
  "keyed_rel rt m ((k, s) # fs) = {key_blocks rt k} \<times> (m ` hs_set s) \<union> keyed_rel rt m fs"
  by (auto simp: keyed_rel_def)

lemma FactSet_Count_card:
  assumes "facts_inv rt fs"
  shows "finite (facts_of rt fs) \<and> FactSet_Count fs = card (facts_of rt fs)"
  using assms
proof (induction fs)
  case (Cons kv fs)
  obtain k s where kv: "kv = (k, s)" by fastforce
  have inv: "facts_inv rt fs" and k: "key_ok rt k" "hs_inv (fact_hash rt) pred_atomic s" "k \<notin> fst ` set fs"
    using Cons.prems by (auto simp: keyed_inv_def kv)
  note IH = Cons.IH[OF inv]
  have "map_of fs k = None" using k(3) by (simp add: map_of_eq_None_iff)
  then have "(key_blocks rt k, f) \<notin> facts_of rt fs" for f
    using keyed_rel_at[OF inv k(1), of f "\<lambda>f. f"] by simp
  then have "({key_blocks rt k} \<times> hs_set s) \<inter> facts_of rt fs = {}" by auto
  moreover have "HashSet_Size s = card (hs_set s)" using k(2) by (rule hs_inv_size)
  ultimately show ?case
    using IH by (simp add: kv keyed_rel_Cons FactSet_Count_sum card_Un_disjoint card_cartesian_product)
qed (simp add: FactSet_Count_def)

text \<open>Rebuilding a map by inserting its entries in order gives the map.\<close>

lemma fold_update_append:
  "distinct (map fst (al @ xs)) \<Longrightarrow> fold (\<lambda>(k, v) result. AList.update k v result) xs al = al @ xs"
proof (induction xs arbitrary: al)
  case (Cons x xs)
  obtain k v where x: "x = (k, v)" by fastforce
  then have "k \<notin> fst ` set al" using Cons.prems by auto
  then have "AList.update k v al = al @ [(k, v)]"
    by (induction al) auto
  then show ?case using Cons.IH[of "al @ [(k, v)]"] Cons.prems x by simp
qed simp

lemma FactSet_Clone_id: "distinct (map fst fs) \<Longrightarrow> FactSet_Clone fs = fs"
  using fold_update_append[of "[]" fs] by (simp add: FactSet_Clone_def)

lemma RuleSet_Clone_id: "distinct (map fst rs) \<Longrightarrow> RuleSet_Clone rs = rs"
  using fold_update_append[of "[]" rs] by (simp add: RuleSet_Clone_def)

lemma FilterByOrigin_encoded:
  assumes inv: "facts_inv rt fs"
  shows "map (\<lambda>(o1, s). (Origin_EncodeToString o1, s)) (FactSet_FilterByOrigin rt fs to) =
    filter (\<lambda>(k, s). Origin_IsSuperSet rt to (the (decode_key rt k))) fs"
proof -
  have enc: "Origin_EncodeToString (the (decode_key rt k)) = k" if "(k, s) \<in> set fs" for k s
  proof -
    have "key_ok rt k" using that inv by (auto simp: keyed_inv_def)
    then obtain o1 where "decode_key rt k = Some o1" "Origin_EncodeToString o1 = k"
      using key_ok_decode by blast
    then show ?thesis by simp
  qed
  have f: "FactSet_FilterByOrigin rt fs to = map (\<lambda>(k, s). (the (decode_key rt k), s))
      (filter (\<lambda>(k, s). Origin_IsSuperSet rt to (the (decode_key rt k))) fs)"
    by (simp add: FactSet_FilterByOrigin_def FactSet_Iter_eq[OF inv] filter_map comp_def case_prod_unfold)
  show ?thesis unfolding f map_map
    by (rule map_idI) (use enc in auto)
qed

lemma WithOrigin_filter:
  assumes inv: "facts_inv rt fs"
  shows "FactSet_WithOrigin rt fs to = filter (\<lambda>(k, s). Origin_IsSuperSet rt to (the (decode_key rt k))) fs"
proof -
  let ?xs = "FactSet_FilterByOrigin rt fs to"
  have "FactSet_WithOrigin rt fs to = fold (\<lambda>(k, v) result. AList.update k v result)
      (map (\<lambda>(o1, s). (Origin_EncodeToString o1, s)) ?xs) []"
    by (simp add: FactSet_WithOrigin_def fold_map comp_def case_prod_unfold)
  also have "\<dots> = filter (\<lambda>(k, s). Origin_IsSuperSet rt to (the (decode_key rt k))) fs"
    unfolding FilterByOrigin_encoded[OF inv]
    by (subst fold_update_append) (use inv in \<open>auto simp: keyed_inv_def distinct_map_filter\<close>)
  finally show ?thesis .
qed

lemma WithOrigin_spec:
  assumes inv: "facts_inv rt fs" and to: "origin_ok rt to"
  shows "facts_inv rt (FactSet_WithOrigin rt fs to)"
    and "facts_of rt (FactSet_WithOrigin rt fs to) = {(B, f) \<in> facts_of rt fs. B \<subseteq> hs_set to}"
proof -
  have sup: "Origin_IsSuperSet rt to (the (decode_key rt k)) \<longleftrightarrow> key_blocks rt k \<subseteq> hs_set to"
    if "(k, s) \<in> set fs" for k s
  proof -
    have "key_ok rt k" using that inv by (auto simp: keyed_inv_def)
    then obtain o1 where "decode_key rt k = Some o1" "origin_ok rt o1" "hs_set o1 = key_blocks rt k"
      using key_ok_decode by blast
    then show ?thesis using to by simp
  qed
  show "facts_inv rt (FactSet_WithOrigin rt fs to)"
    unfolding WithOrigin_filter[OF inv] using inv by (auto simp: keyed_inv_def distinct_map_filter)
  show "facts_of rt (FactSet_WithOrigin rt fs to) = {(B, f) \<in> facts_of rt fs. B \<subseteq> hs_set to}"
    unfolding WithOrigin_filter[OF inv] keyed_rel_def using sup by auto blast+
qed

text \<open>
  \<^verbatim>\<open>WithOrigin\<close> keeps exactly the facts all of whose blocks are trusted: a fact
  that depends on a single untrusted block is invisible to the rule or check.
\<close>

theorem FactSet_WithOrigin_isolates:
  assumes "facts_inv rt fs" and "origin_ok rt to"
  shows "facts_of rt (FactSet_WithOrigin rt fs to) = {(B, f) \<in> facts_of rt fs. B \<subseteq> hs_set to} \<and>
    facts_inv rt (FactSet_WithOrigin rt fs to)"
  using WithOrigin_spec[OF assms] by simp

lemma single_facts_inv:
  assumes "pred_atomic f"
  shows "facts_inv rt (FactSet_Insert rt [] (NewOrigin rt b bs) f)"
    and "facts_of rt (FactSet_Insert rt [] (NewOrigin rt b bs) f) = {(insert b (set bs), f)}"
  using FactSet_Insert_spec[of rt "[]" "NewOrigin rt b bs" f] assms by simp_all

theorem FactSet_WithOrigin_isolates_witness:
  "facts_of demo_runtime (FactSet_WithOrigin demo_runtime
     (FactSet_Insert demo_runtime [] (NewOrigin demo_runtime 2 []) \<lparr>pred_Name = 1024, pred_Terms = Some []\<rparr>)
     (NewTrustedOrigin demo_runtime)) = {}"
proof -
  let ?f = "\<lparr>pred_Name = 1024, pred_Terms = Some []\<rparr>" and ?rt = demo_runtime
  have f: "pred_atomic ?f" by (simp add: pred_atomic_def)
  have to: "origin_ok ?rt (NewTrustedOrigin ?rt)" by (simp add: NewTrustedOrigin_def)
  show ?thesis
    using FactSet_WithOrigin_isolates[OF single_facts_inv(1)[OF f, of ?rt 2 "[]"] to]
      single_facts_inv(2)[OF f, of ?rt 2 "[]"]
    by (auto simp: NewTrustedOrigin_def AuthorizerBlockID_def)
qed

text \<open>
  The writers of a fact set add exactly the facts given, under exactly the origin
  given; nothing is lost or moved to another origin, and \<^verbatim>\<open>Count\<close> is the number of
  different pairs of origin and fact.
\<close>

theorem FactSet_InsertMulti_correct:
  assumes "facts_inv rt fs" and "origin_ok rt o1" and "hs_set o1 \<noteq> {}" and "\<forall>f \<in> set xs. pred_atomic f"
  shows "facts_of rt (FactSet_InsertMulti rt fs o1 xs) = facts_of rt fs \<union> {hs_set o1} \<times> set xs \<and>
    facts_inv rt (FactSet_InsertMulti rt fs o1 xs) \<and>
    FactSet_Count (FactSet_InsertMulti rt fs o1 xs) = card (facts_of rt fs \<union> {hs_set o1} \<times> set xs)"
  using FactSet_InsertMulti_spec[OF assms] FactSet_Count_card by metis

theorem FactSet_InsertMulti_correct_witness:
  "FactSet_Count (FactSet_InsertMulti demo_runtime [] (NewOrigin demo_runtime 0 [])
     [\<lparr>pred_Name = 3, pred_Terms = Some []\<rparr>, \<lparr>pred_Name = 3, pred_Terms = Some []\<rparr>]) = 1"
  using FactSet_InsertMulti_correct[of demo_runtime "[]" "NewOrigin demo_runtime 0 []"
      "[\<lparr>pred_Name = 3, pred_Terms = Some []\<rparr>, \<lparr>pred_Name = 3, pred_Terms = Some []\<rparr>]"]
  by (simp add: pred_atomic_def card_cartesian_product)

text \<open>\<^verbatim>\<open>InsertNew\<close> also tells whether the fact was new.\<close>

lemma FactSet_InsertNew_Insert: "snd (FactSet_InsertNew rt fs o1 f) = FactSet_Insert rt fs o1 f"
  by (auto simp: FactSet_InsertNew_def FactSet_Insert_def Let_def case_prod_unfold split: option.splits)

lemma FactSet_InsertNew_new:
  assumes "facts_inv rt fs" "origin_ok rt o1" "hs_set o1 \<noteq> {}" "pred_atomic f"
  shows "fst (FactSet_InsertNew rt fs o1 f) \<longleftrightarrow> (hs_set o1, f) \<notin> facts_of rt fs"
proof -
  let ?k = "Origin_EncodeToString o1"
  have k: "key_ok rt ?k" "key_blocks rt ?k = hs_set o1" using assms by (simp_all add: key_ok_encode)
  show ?thesis
  proof (cases "map_of fs ?k")
    case None
    then show ?thesis using keyed_rel_at[OF assms(1) k(1), of f "\<lambda>f. f"] k(2)
      by (simp add: FactSet_InsertNew_def)
  next
    case (Some s)
    have "hs_inv (fact_hash rt) pred_atomic s" using keyed_inv_lookup[OF assms(1) Some] by simp
    then show ?thesis
      using keyed_rel_at[OF assms(1) k(1), of f "\<lambda>f. f"] k(2) Some fact_set.fst_insert[of rt s f] assms(4)
      by (simp add: FactSet_InsertNew_def case_prod_unfold Let_def)
  qed
qed

lemma FactSet_Facts_at:
  assumes "facts_inv rt fs" "origin_ok rt o1" "hs_set o1 \<noteq> {}"
  shows "set (FactSet_Facts fs o1) = {f. (hs_set o1, f) \<in> facts_of rt fs}"
proof -
  let ?k = "Origin_EncodeToString o1"
  have k: "key_ok rt ?k" "key_blocks rt ?k = hs_set o1" using assms by (simp_all add: key_ok_encode)
  show ?thesis
    using keyed_rel_at[OF assms(1) k(1), of _ "\<lambda>f. f"] k(2)
    by (cases "map_of fs ?k") (auto simp: FactSet_Facts_def)
qed

section \<open>Equality of fact sets\<close>

lemma Fact_Compare_eq: "Fact_Compare = Predicate_Compare"
  by (simp add: Fact_Compare_def fun_eq_iff)

lemma compare_at_0_iff:
  assumes "facts_inv rt fs" "facts_inv rt fs2" "set ks \<subseteq> fst ` set fs" "set ks \<subseteq> fst ` set fs2"
  shows "compare_at fs fs2 ks = 0 \<longleftrightarrow>
    (\<forall>k \<in> set ks. hs_set (the (map_of fs k)) = hs_set (the (map_of fs2 k)))"
  using assms(3,4)
proof (induction ks)
  case (Cons k ks)
  obtain a b where ab: "map_of fs k = Some a" "map_of fs2 k = Some b"
    using Cons.prems by (metis image_iff list.set_intros(1) map_of_eq_None_iff not_Some_eq subset_iff)
  have inv: "hs_inv (fact_hash rt) pred_atomic a" "hs_inv (fact_hash rt) pred_atomic b"
    using keyed_inv_lookup[OF assms(1) ab(1)] keyed_inv_lookup[OF assms(2) ab(2)] by simp_all
  have "Compared Fact_Compare (HashSet_Iter a) (HashSet_Iter b) = 0 \<longleftrightarrow> hs_set a = hs_set b"
    using pred_order.compared_0_mset[of "HashSet_Iter a" "HashSet_Iter b"] hs_inv_ok[OF inv(1)] hs_inv_ok[OF inv(2)]
      hs_inv_distinct[OF inv(1)] hs_inv_distinct[OF inv(2)]
    by (auto simp: Fact_Compare_eq set_eq_iff_mset_eq_distinct)
  then show ?case using Cons ab by (auto simp: Let_def)
qed simp

lemma keys_eq:
  assumes "distinct (map fst fs)" "distinct (map fst fs2)"
  shows "FactSet_keys fs = FactSet_keys fs2 \<longleftrightarrow> fst ` set fs = fst ` set fs2"
proof
  assume "FactSet_keys fs = FactSet_keys fs2"
  then have "set (FactSet_keys fs) = set (FactSet_keys fs2)" by simp
  then show "fst ` set fs = fst ` set fs2" by (simp add: FactSet_keys_def)
next
  assume "fst ` set fs = fst ` set fs2"
  then have "mset (map fst fs) = mset (map fst fs2)"
    using assms set_eq_iff_mset_eq_distinct[of "map fst fs" "map fst fs2"] by (metis list.set_map)
  then show "FactSet_keys fs = FactSet_keys fs2"
    unfolding FactSet_keys_def by (intro cmp_order.sorted_unique) simp_all
qed

lemma Equal_maps:
  assumes "facts_inv rt fs" "facts_inv rt fs2"
  shows "FactSet_Equal fs (Some fs2) \<longleftrightarrow> fst ` set fs = fst ` set fs2 \<and>
    (\<forall>k \<in> fst ` set fs. hs_set (the (map_of fs k)) = hs_set (the (map_of fs2 k)))"
proof -
  have d: "distinct (map fst fs)" "distinct (map fst fs2)" using assms by (simp_all add: keyed_inv_def)
  have len: "fst ` set fs = fst ` set fs2 \<Longrightarrow> length fs = length fs2"
    using distinct_card[OF d(1)] distinct_card[OF d(2)] by simp
  have keys: "set (FactSet_keys fs) = fst ` set fs" by (simp add: FactSet_keys_def)
  show ?thesis
  proof (cases "fst ` set fs = fst ` set fs2")
    case True
    then show ?thesis
      using len keys_eq[OF d] compare_at_0_iff[OF assms, of "FactSet_keys fs"] keys
      by (auto simp: FactSet_Equal_def FactSet_Compare_def Let_def)
  next
    case False
    then show ?thesis using keys_eq[OF d]
      by (auto simp: FactSet_Equal_def FactSet_Compare_def Let_def)
  qed
qed


text \<open>
  Two fact sets without empty entries are equal for \<^verbatim>\<open>Equal\<close> exactly when they hold the
  same facts under the same origins, whatever the layout of the maps and buckets.
\<close>

theorem FactSet_Equal_iff:
  assumes "facts_inv rt fs" and "facts_inv rt fs2"
    and "\<forall>(k, s) \<in> set fs. hs_set s \<noteq> {}" and "\<forall>(k, s) \<in> set fs2. hs_set s \<noteq> {}"
  shows "FactSet_Equal fs (Some fs2) \<longleftrightarrow> facts_of rt fs = facts_of rt fs2"
proof -
  have at: "hs_set (the (map_of gs k)) = {f. (key_blocks rt k, f) \<in> facts_of rt gs}" and ok: "key_ok rt k"
    if "facts_inv rt gs" "k \<in> fst ` set gs" for gs k
  proof -
    note gs = that
    obtain s where s: "map_of gs k = Some s" using gs(2) by (metis map_of_eq_None_iff not_Some_eq)
    show "key_ok rt k" using keyed_inv_lookup[OF gs(1) s] by simp
    then show "hs_set (the (map_of gs k)) = {f. (key_blocks rt k, f) \<in> facts_of rt gs}"
      using keyed_rel_at[OF gs(1), of k _ "\<lambda>f. f"] s by auto
  qed
  have mem: "k \<in> fst ` set gs \<longleftrightarrow> (\<exists>f. (key_blocks rt k, f) \<in> facts_of rt gs)"
    if "facts_inv rt gs" "\<forall>(k, s) \<in> set gs. hs_set s \<noteq> {}" "key_ok rt k" for gs k
  proof -
    have "k \<in> fst ` set gs \<longleftrightarrow> (\<exists>s. map_of gs k = Some s)"
      by (metis map_of_eq_None_iff not_Some_eq)
    also have "\<dots> \<longleftrightarrow> (\<exists>s. map_of gs k = Some s \<and> (\<exists>f. f \<in> hs_set s))"
    proof -
      have "map_of gs k = Some s \<Longrightarrow> \<exists>f. f \<in> hs_set s" for s
        using that(2) map_of_SomeD[of gs k s] by (cases "HashSet_Iter s") auto
      then show ?thesis by blast
    qed
    finally show ?thesis using keyed_rel_at[OF that(1,3), of _ "\<lambda>f. f"] by auto
  qed
  show ?thesis
  proof
    assume "FactSet_Equal fs (Some fs2)"
    then have keys: "fst ` set fs = fst ` set fs2"
      and sets: "\<forall>k \<in> fst ` set fs. hs_set (the (map_of fs k)) = hs_set (the (map_of fs2 k))"
      using iffD1[OF Equal_maps[OF assms(1,2)]] by blast+
    have none: "map_of fs k = None \<longleftrightarrow> map_of fs2 k = None" for k
      using keys by (simp add: map_of_eq_None_iff)
    have same: "map_of fs k = Some a \<Longrightarrow> map_of fs2 k = Some b \<Longrightarrow> hs_set a = hs_set b" for k a b
      using sets map_of_SomeD[of fs k a] by force
    have "(\<exists>s. map_of fs k = Some s \<and> f \<in> hs_set s) \<longleftrightarrow> (\<exists>s. map_of fs2 k = Some s \<and> f \<in> hs_set s)"
      for k f using none[of k] same[of k] by (metis not_Some_eq)
    then have "(B, f) \<in> facts_of rt fs \<longleftrightarrow> (B, f) \<in> facts_of rt fs2" for B f
      unfolding keyed_rel_iff[OF assms(1)] keyed_rel_iff[OF assms(2)] by simp
    then show "facts_of rt fs = facts_of rt fs2" by (intro set_eqI) (metis surj_pair)
  next
    assume eq: "facts_of rt fs = facts_of rt fs2"
    have keys: "fst ` set fs = fst ` set fs2"
      using mem[OF assms(1,3)] mem[OF assms(2,4)] ok[OF assms(1)] ok[OF assms(2)] eq
      by (intro set_eqI) metis
    then show "FactSet_Equal fs (Some fs2)"
      unfolding Equal_maps[OF assms(1,2)] using at[OF assms(1)] at[OF assms(2)] eq by simp
  qed
qed

theorem FactSet_Equal_iff_witness:
  "FactSet_Equal
     (FactSet_Insert demo_runtime [] (NewOrigin demo_runtime 2 [0, 2]) \<lparr>pred_Name = 5, pred_Terms = Some []\<rparr>)
     (Some (FactSet_Insert demo_runtime [] (NewOrigin demo_runtime 0 [2]) \<lparr>pred_Name = 5, pred_Terms = Some []\<rparr>))"
proof -
  let ?f = "\<lparr>pred_Name = 5, pred_Terms = Some []\<rparr>" and ?rt = demo_runtime
  have f: "pred_atomic ?f" by (simp add: pred_atomic_def)
  have ne: "\<forall>(k, s) \<in> set (FactSet_Insert ?rt [] o1 ?f). hs_set s \<noteq> {}" for o1
    using fact_set.new(2)[of "[?f]" ?rt] f by (simp add: FactSet_Insert_def del: set_empty)
  show ?thesis
    using FactSet_Equal_iff[OF single_facts_inv(1)[OF f, of ?rt 2 "[0, 2]"] single_facts_inv(1)[OF f, of ?rt 0 "[2]"] ne ne]
      single_facts_inv(2)[OF f, of ?rt 2 "[0, 2]"] single_facts_inv(2)[OF f, of ?rt 0 "[2]"]
    by (simp add: insert_commute)
qed

section \<open>Rule sets as relations\<close>

text \<open>A rule up to the difference between nil and empty slices, which evaluation never sees.\<close>

definition rule_norm :: "Rule \<Rightarrow> Rule" where
  "rule_norm r = \<lparr>rule_Head = rule_Head r, rule_Body = Some (elems (rule_Body r)),
     rule_Expressions = Some (elems (rule_Expressions r)), rule_Scopes = Some (elems (rule_Scopes r))\<rparr>"

definition rib_norm :: "RuleInBlock \<Rightarrow> BlockID \<times> Rule" where
  "rib_norm r = (rib_BlockID r, rule_norm (rib_Rule r))"

definition rule_ok :: "Rule \<Rightarrow> bool" where
  "rule_ok r \<longleftrightarrow> pred_atomic (rule_Head r) \<and> (\<forall>p \<in> set (elems (rule_Body r)). pred_atomic p) \<and>
     (\<forall>e \<in> set (elems (rule_Expressions r)). e \<noteq> None \<and> (\<forall>x \<in> set (elems e). op_atomic x))"

abbreviation rib_ok :: "RuleInBlock \<Rightarrow> bool" where
  "rib_ok r \<equiv> rule_ok (rib_Rule r)"

lemma ComparedSlices_0_elems:
  assumes "order_on A c" "set (elems a) \<subseteq> A" "set (elems b) \<subseteq> A" "ComparedSlices c (elems a) b = 0"
  shows "elems a = elems b"
  using order_on.slices_0_iff[OF assms(1-3)] assms(4) by (cases b) (simp_all add: ComparedSlices_def)

interpretation expr_order: order_on "{e. e \<noteq> None \<and> set (elems e) \<subseteq> {x. op_atomic x}}" Expression_Compare
  using order_on_slice[OF op_order.order_on_axioms] by (simp add: Expression_Compare_def[abs_def])

lemma Rule_Equal_norm:
  assumes "rule_ok r" "rule_ok r2" "Rule_Equal r r2"
  shows "rule_norm r = rule_norm r2"
proof -
  have z: "Predicate_Compare (rule_Head r) (rule_Head r2) = 0"
    "ComparedSlices Predicate_Compare (elems (rule_Body r)) (rule_Body r2) = 0"
    "ComparedSlices Expression_Compare (elems (rule_Expressions r)) (rule_Expressions r2) = 0"
    "ComparedSlices Scope_Compare (elems (rule_Scopes r)) (rule_Scopes r2) = 0"
    using assms(3) by (simp_all add: Rule_Equal_def Rule_Compare_then)
  have "rule_Head r = rule_Head r2"
    using z(1) pred_order.antisym assms(1,2) by (simp add: rule_ok_def)
  moreover have "elems (rule_Body r) = elems (rule_Body r2)"
    using assms(1,2) by (intro ComparedSlices_0_elems[OF pred_order.order_on_axioms _ _ z(2)])
      (auto simp: rule_ok_def)
  moreover have "elems (rule_Expressions r) = elems (rule_Expressions r2)"
    using assms(1,2) by (intro ComparedSlices_0_elems[OF expr_order.order_on_axioms _ _ z(3)])
      (auto simp: rule_ok_def)
  moreover have "elems (rule_Scopes r) = elems (rule_Scopes r2)"
    by (rule ComparedSlices_0_elems[OF scope_order.order_on_axioms _ _ z(4)]) simp_all
  ultimately show ?thesis by (simp add: rule_norm_def)
qed

interpretation rib_set: hash_elements_upto "rib_hash rt" RuleInBlock_Equal rib_ok rib_norm for rt
  by unfold_locales
     (auto simp: RuleInBlock_Equal_def RuleInBlock_Compare_def Let_def rib_norm_def Rule_Equal_def
       intro: Rule_Equal_norm split: if_splits)

interpretation rule_set: hash_elements_upto "rule_hash rt" Rule_Equal rule_ok rule_norm for rt
  by unfold_locales (rule Rule_Equal_norm)

abbreviation rules_inv :: "runtime \<Rightarrow> RuleSet \<Rightarrow> bool" where
  "rules_inv rt \<equiv> keyed_inv rt (hs_shape (rib_hash rt) rib_ok)"

abbreviation rules_of :: "runtime \<Rightarrow> RuleSet \<Rightarrow> (BlockID set \<times> BlockID \<times> Rule) set" where
  "rules_of rt \<equiv> keyed_rel rt rib_norm"

lemma RuleSet_Insert_spec:
  assumes "rules_inv rt rs" "origin_ok rt to" "hs_set to \<noteq> {}" "rule_ok r"
  shows "rules_inv rt (RuleSet_Insert rt rs to b r)"
    and "rules_of rt (RuleSet_Insert rt rs to b r) = rules_of rt rs \<union> {(hs_set to, b, rule_norm r)}"
proof -
  let ?k = "Origin_EncodeToString to" and ?x = "\<lparr>rib_BlockID = b, rib_Rule = r\<rparr>"
  have k: "key_ok rt ?k" using assms by (simp add: key_ok_encode)
  have x: "\<forall>x \<in> set [?x]. rib_ok x" using assms by simp
  note new = rib_set.new_shaped[OF x, of rt]
  have nx: "rib_norm ?x = (b, rule_norm r)" by (simp add: rib_norm_def)
  obtain s where s: "RuleSet_Insert rt rs to b r = AList.update ?k s rs"
    "hs_shape (rib_hash rt) rib_ok s"
    "rib_norm ` hs_set s = (case map_of rs ?k of None \<Rightarrow> {} | Some s' \<Rightarrow> rib_norm ` hs_set s') \<union> {(b, rule_norm r)}"
  proof (cases "map_of rs ?k")
    case None
    then show ?thesis using that[of "new_ribs rt [?x]"] new nx by (simp add: RuleSet_Insert_def)
  next
    case (Some s')
    then show ?thesis
      using that[of "snd (HashSet_Insert (rib_hash rt) RuleInBlock_Equal s' ?x)"] assms(4) nx
        rib_set.insert_shaped(1,2)[of rt s' ?x] keyed_inv_lookup[OF assms(1) Some]
      by (simp add: RuleSet_Insert_def)
  qed
  show "rules_inv rt (RuleSet_Insert rt rs to b r)"
    unfolding s(1) by (rule keyed_inv_update[OF assms(1) k s(2)])
  show "rules_of rt (RuleSet_Insert rt rs to b r) = rules_of rt rs \<union> {(hs_set to, b, rule_norm r)}"
    unfolding s(1)
    using keyed_rel_extend[OF assms(1) k s(2), of rib_norm "{(b, rule_norm r)}"] s(3) assms(2,3)
    by (simp split: option.splits)
qed

lemma RuleSet_InsertMulti_spec:
  assumes "rules_inv rt rs" "origin_ok rt to" "hs_set to \<noteq> {}" "\<forall>r \<in> set xs. rule_ok r"
  shows "rules_inv rt (RuleSet_InsertMulti rt rs to b xs)"
    and "rules_of rt (RuleSet_InsertMulti rt rs to b xs) = rules_of rt rs \<union> {hs_set to} \<times> {b} \<times> rule_norm ` set xs"
proof -
  let ?k = "Origin_EncodeToString to" and ?xs = "map (\<lambda>r. \<lparr>rib_BlockID = b, rib_Rule = r\<rparr>) xs"
  have k: "key_ok rt ?k" using assms by (simp add: key_ok_encode)
  have x: "\<forall>x \<in> set ?xs. rib_ok x" using assms by auto
  note new = rib_set.new_shaped[OF x, of rt]
  have nx: "rib_norm ` set ?xs = {b} \<times> rule_norm ` set xs" by (auto simp: rib_norm_def image_image)
  obtain s where s: "RuleSet_InsertMulti rt rs to b xs = AList.update ?k s rs"
    "hs_shape (rib_hash rt) rib_ok s"
    "rib_norm ` hs_set s = (case map_of rs ?k of None \<Rightarrow> {} | Some s' \<Rightarrow> rib_norm ` hs_set s') \<union> ({b} \<times> rule_norm ` set xs)"
  proof (cases "map_of rs ?k")
    case None
    then show ?thesis using that[of "new_ribs rt ?xs"] new nx by (simp add: RuleSet_InsertMulti_def)
  next
    case (Some s')
    then show ?thesis
      using that[of "HashSet_Union (rib_hash rt) RuleInBlock_Equal s' (new_ribs rt ?xs)"] nx new(2)
        rib_set.union_shaped[OF _ new(1), of s'] keyed_inv_lookup[OF assms(1) Some]
      by (simp add: RuleSet_InsertMulti_def)
  qed
  show "rules_inv rt (RuleSet_InsertMulti rt rs to b xs)"
    unfolding s(1) by (rule keyed_inv_update[OF assms(1) k s(2)])
  show "rules_of rt (RuleSet_InsertMulti rt rs to b xs) = rules_of rt rs \<union> {hs_set to} \<times> {b} \<times> rule_norm ` set xs"
    unfolding s(1)
    using keyed_rel_extend[OF assms(1) k s(2), of rib_norm "{b} \<times> rule_norm ` set xs"] s(3) assms(2,3)
    by (simp split: option.splits)
qed

lemma decode_trusted_eq: "decode_trusted rt k = decode_key rt k"
  by (simp add: decode_trusted_def decode_key_def NewTrustedOriginFromString_def bind_res_def split: sum.splits)

lemma RuleSet_Iter_keyed: "RuleSet_Iter rt rs = keyed_iter rt rs"
  by (simp add: RuleSet_Iter_def keyed_iter_def decode_trusted_eq)

text \<open>
  Adding a rule to a rule set adds exactly that rule, for its block, under exactly the
  trusted origin given. Duplicates that \<^verbatim>\<open>Equal\<close> misses change nothing of this meaning.
\<close>

theorem RuleSet_InsertMulti_correct:
  assumes "rules_inv rt rs" and "origin_ok rt to" and "hs_set to \<noteq> {}" and "\<forall>r \<in> set xs. rule_ok r"
  shows "rules_of rt (RuleSet_InsertMulti rt rs to b xs) =
      rules_of rt rs \<union> {(hs_set to, b, rule_norm r) | r. r \<in> set xs} \<and>
    rules_inv rt (RuleSet_InsertMulti rt rs to b xs)"
  using RuleSet_InsertMulti_spec[OF assms, of b] by auto

theorem RuleSet_InsertMulti_correct_witness:
  "rules_of demo_runtime (RuleSet_InsertMulti demo_runtime [] (NewTrustedOrigin demo_runtime) 1
     [\<lparr>rule_Head = \<lparr>pred_Name = 4, pred_Terms = Some []\<rparr>, rule_Body = Some [], rule_Expressions = Some [],
       rule_Scopes = None\<rparr>]) \<noteq> {}"
proof -
  let ?r = "\<lparr>rule_Head = \<lparr>pred_Name = 4, pred_Terms = Some []\<rparr>, rule_Body = Some [], rule_Expressions = Some [],
       rule_Scopes = None\<rparr>"
  have "\<forall>r \<in> set [?r]. rule_ok r" by (simp add: rule_ok_def pred_atomic_def)
  from RuleSet_InsertMulti_correct[OF _ _ _ this, of demo_runtime "[]" "NewTrustedOrigin demo_runtime" 1]
  show ?thesis by (simp add: NewTrustedOrigin_def del: set_empty)
qed

end
