(* ===== verification/Blocks.thy ===== *)
theory Blocks
  imports Conversions FactSets
begin

text \<open>
  Blocks of a token (\<^verbatim>\<open>Block\<close> in \<^verbatim>\<open>types.go\<close>) and the builder that makes them
  (\<^verbatim>\<open>blockBuilder\<close> in \<^verbatim>\<open>builder.go\<close>). A block only carries the symbols and keys that the
  token's tables do not have yet; its facts, rules, checks and scopes index the token's tables
  extended by its own.
\<close>

section \<open>Blocks\<close>

record ExternalSignature =
  es_publicKey :: PublicKey
  es_signature :: "u8 list"

record Block =
  blk_symbols :: SymbolTable
  blk_publicKeys :: "PublicKeyTable option"
  blk_facts :: "Fact list"
  blk_scopes :: "Scope list"
  blk_rules :: "Rule list"
  blk_checks :: "Check list"
  blk_context :: string
  blk_version :: u32
  blk_externalSignature :: "ExternalSignature option"

definition Block_IsThirdParty :: "Block \<Rightarrow> bool" where
  "Block_IsThirdParty b \<longleftrightarrow> blk_externalSignature b \<noteq> None"

definition Block_UpdatePublicKeys ::
    "runtime \<Rightarrow> Block \<Rightarrow> u64 \<Rightarrow> PublicKeyTable \<Rightarrow> SignatureRegistry \<Rightarrow> PublicKeyTable \<times> SignatureRegistry" where
  "Block_UpdatePublicKeys rt b blockID publicKeys signatureRegistry = (case blk_externalSignature b of
     Some es \<Rightarrow>
       (let (index, publicKeys') = PublicKeyTable_Insert publicKeys (es_publicKey es)
        in (publicKeys', SignatureRegistry_Insert rt signatureRegistry index [blockID]))
   | None \<Rightarrow> (case blk_publicKeys b of
         Some keys \<Rightarrow> (PublicKeyTable_Extend publicKeys keys, signatureRegistry)
       | None \<Rightarrow> (publicKeys, signatureRegistry)))"

section \<open>Parsed blocks\<close>

type_synonym BFactSet = "BFact hashset"

definition NewBFactSet :: "runtime \<Rightarrow> BFact list \<Rightarrow> BFactSet" where
  "NewBFactSet rt facts = NewHashSet (bfact_hash rt) BFact_Equal facts"

record ParsedBlock =
  pb_Facts :: BFactSet
  pb_Rules :: "BRule list"
  pb_Checks :: "BCheck list"
  pb_Scope :: "BScope list"

record ParsedAuthorizer =
  pa_Policies :: "Policy list"
  pa_Block :: ParsedBlock

section \<open>The block builder\<close>

record blockBuilderConfig =
  cfg_symbols :: SymbolTable
  cfg_symbolsStart :: nat
  cfg_publicKeys :: PublicKeyTable
  cfg_publicKeysStart :: nat
  cfg_signatureRegistry :: SignatureRegistry

type_synonym BlockBuilderOption = "blockBuilderConfig \<Rightarrow> blockBuilderConfig"

definition WithSymbolStart :: "nat \<Rightarrow> BlockBuilderOption" where
  "WithSymbolStart start b = b\<lparr>cfg_symbolsStart := start\<rparr>"

record blockBuilder =
  bb_facts :: BFactSet
  bb_rules :: "BRule list"
  bb_checks :: "BCheck list"
  bb_scopes :: "BScope list"
  bb_context :: string
  bb_blockID :: u64
  bb_buildOptions :: "BlockBuilderOption list"

datatype build_error = ErrDuplicateFact

definition NewBlockBuilder :: "runtime \<Rightarrow> BlockBuilderOption list \<Rightarrow> blockBuilder" where
  "NewBlockBuilder rt opts = \<lparr>bb_facts = NewBFactSet rt [], bb_rules = [], bb_checks = [], bb_scopes = [],
     bb_context = [], bb_blockID = 0, bb_buildOptions = opts\<rparr>"

definition blockBuilder_AddFact :: "runtime \<Rightarrow> blockBuilder \<Rightarrow> BFact \<Rightarrow> build_error option \<times> blockBuilder" where
  "blockBuilder_AddFact rt b f =
     (let (wasInserted, facts) = HashSet_Insert (bfact_hash rt) BFact_Equal (bb_facts b) f
      in (if \<not> wasInserted then Some ErrDuplicateFact else None, b\<lparr>bb_facts := facts\<rparr>))"

definition blockBuilder_AddRule :: "blockBuilder \<Rightarrow> BRule \<Rightarrow> blockBuilder" where
  "blockBuilder_AddRule b rule = b\<lparr>bb_rules := bb_rules b @ [rule]\<rparr>"

definition blockBuilder_AddScope :: "blockBuilder \<Rightarrow> BScope \<Rightarrow> blockBuilder" where
  "blockBuilder_AddScope b scope = b\<lparr>bb_scopes := bb_scopes b @ [scope]\<rparr>"

definition blockBuilder_AddCheck :: "blockBuilder \<Rightarrow> BCheck \<Rightarrow> blockBuilder" where
  "blockBuilder_AddCheck b check = b\<lparr>bb_checks := bb_checks b @ [check]\<rparr>"

definition blockBuilder_SetContext :: "blockBuilder \<Rightarrow> string \<Rightarrow> blockBuilder" where
  "blockBuilder_SetContext b ctx = b\<lparr>bb_context := ctx\<rparr>"

definition blockBuilder_SetBlockID :: "blockBuilder \<Rightarrow> u64 \<Rightarrow> blockBuilder" where
  "blockBuilder_SetBlockID b blockID = b\<lparr>bb_blockID := blockID\<rparr>"

fun add_facts :: "runtime \<Rightarrow> BFact list \<Rightarrow> blockBuilder \<Rightarrow> build_error option \<times> blockBuilder" where
  "add_facts rt [] b = (None, b)"
| "add_facts rt (f # fs) b = (case blockBuilder_AddFact rt b f of
     (Some err, b') \<Rightarrow> (Some err, b') | (None, b') \<Rightarrow> add_facts rt fs b')"

text \<open>Only facts can be refused; what was added before the refusal stays.\<close>

definition blockBuilder_AddBlock :: "runtime \<Rightarrow> blockBuilder \<Rightarrow> ParsedBlock \<Rightarrow> build_error option \<times> blockBuilder" where
  "blockBuilder_AddBlock rt b block = (case add_facts rt (HashSet_Iter (pb_Facts block)) b of
     (Some err, b') \<Rightarrow> (Some err, b')
   | (None, b') \<Rightarrow> (None,
       fold (\<lambda>s b. blockBuilder_AddScope b s) (pb_Scope block)
         (fold (\<lambda>c b. blockBuilder_AddCheck b c) (pb_Checks block)
           (fold (\<lambda>r b. blockBuilder_AddRule b r) (pb_Rules block) b'))))"

definition DatalogVersion3_0 :: u32 where "DatalogVersion3_0 = 3"
definition DatalogVersion3_1 :: u32 where "DatalogVersion3_1 = 4"
definition DatalogVersion3_2 :: u32 where "DatalogVersion3_2 = 5"
definition DatalogVersion3_3 :: u32 where "DatalogVersion3_3 = 6"

definition minimumDatalogVersionForThirdPartyBlocks :: u32 where
  "minimumDatalogVersionForThirdPartyBlocks = DatalogVersion3_2"

text \<open>\<open>None\<close> is a panic: an undeclared operator, or a start beyond the end of a table.\<close>

definition blockBuilder_Build ::
    "runtime \<Rightarrow> blockBuilder \<Rightarrow> SymbolTable \<Rightarrow> PublicKeyTable \<Rightarrow> SignatureRegistry \<Rightarrow> Block option" where
  "blockBuilder_Build rt b symbols publicKeys signatureRegistry =
     (let config = fold (\<lambda>opt config. opt config) (bb_buildOptions b)
        \<lparr>cfg_symbols = symbols, cfg_symbolsStart = length symbols, cfg_publicKeys = publicKeys,
         cfg_publicKeysStart = length publicKeys, cfg_signatureRegistry = signatureRegistry\<rparr>
      in case thread (BFact_convert rt) (HashSet_Iter (bb_facts b)) (cfg_symbols config) of None \<Rightarrow> None
      | Some (facts, symbols1) \<Rightarrow>
      (case thread (BRule_Convert rt) (bb_rules b) (symbols1, cfg_publicKeys config) of None \<Rightarrow> None
      | Some (rules, st1) \<Rightarrow>
      (case thread (BCheck_Convert rt) (bb_checks b) st1 of None \<Rightarrow> None
      | Some (dlChecks, (symbols2, publicKeys1)) \<Rightarrow>
      (case thread BScope_convert (bb_scopes b) publicKeys1 of None \<Rightarrow> None
      | Some (scopes, publicKeys2) \<Rightarrow>
      (case SymbolTable_SplitOff symbols2 (cfg_symbolsStart config) of None \<Rightarrow> None
      | Some (newSymbols, _) \<Rightarrow>
      (case PublicKeyTable_SplitOff publicKeys2 (cfg_publicKeysStart config) of None \<Rightarrow> None
      | Some (newKeys, _) \<Rightarrow>
          Some \<lparr>blk_symbols = newSymbols, blk_publicKeys = Some newKeys, blk_facts = facts, blk_scopes = scopes,
            blk_rules = rules, blk_checks = dlChecks, blk_context = bb_context b,
            blk_version = minimumDatalogVersionForThirdPartyBlocks, blk_externalSignature = None\<rparr>))))))"

section \<open>What a built block denotes\<close>

definition builder_plain :: "blockBuilder \<Rightarrow> bool" where
  "builder_plain b \<longleftrightarrow> (\<forall>f \<in> hs_set (bb_facts b). bpred_plain f) \<and> (\<forall>r \<in> set (bb_rules b). brule_plain r) \<and>
     (\<forall>c \<in> set (bb_checks b). bcheck_plain c) \<and> (\<forall>s \<in> set (bb_scopes b). bscope_plain s)"

text \<open>The keys of a block; a nil table has none.\<close>

definition block_keys :: "Block \<Rightarrow> PublicKey list" where
  "block_keys b = (case blk_publicKeys b of None \<Rightarrow> [] | Some keys \<Rightarrow> keys)"

definition block_denotes :: "runtime \<Rightarrow> SymbolTable \<Rightarrow> PublicKeyTable \<Rightarrow> Block \<Rightarrow> blockBuilder \<Rightarrow> bool" where
  "block_denotes rt symbols publicKeys block b \<longleftrightarrow>
     traverse (fromDatalogFact rt symbols) (blk_facts block) = Inr (HashSet_Iter (bb_facts b)) \<and>
     traverse (fromDatalogRule rt symbols (Some publicKeys)) (blk_rules block) = Inr (bb_rules b) \<and>
     traverse (fromDatalogCheck rt symbols (Some publicKeys)) (blk_checks block) = Inr (bb_checks b) \<and>
     traverse (fromDatalogScope (Some publicKeys)) (blk_scopes block) = Inr (bb_scopes b)"

lemma BFact_convert_pred: "BFact_convert rt = BPredicate_convert rt"
  by (rule ext)+ (simp add: BFact_convert_def)

lemma fromDatalogFact_pred: "fromDatalogFact rt symbols = fromDatalogPredicate rt symbols"
  by (rule ext) (simp add: fromDatalogFact_def)

lemma Build_parts:
  assumes "bb_buildOptions b = []" and "builder_plain b"
  obtains fs s1 rs s2 k2 cs s3 k3 scs k4 where
    "thread (BPredicate_convert rt) (HashSet_Iter (bb_facts b)) symbols = Some (fs, s1)"
    "thread (BRule_Convert rt) (bb_rules b) (s1, keys) = Some (rs, (s2, k2))"
    "thread (BCheck_Convert rt) (bb_checks b) (s2, k2) = Some (cs, (s3, k3))"
    "thread BScope_convert (bb_scopes b) k3 = Some (scs, k4)"
    "sym_le symbols s1" "sym_le s1 s2" "sym_le s2 s3" "key_le keys k2" "key_le k2 k3" "key_le k3 k4"
    "blockBuilder_Build rt b symbols keys reg = Some \<lparr>blk_symbols = drop (length symbols) s3,
      blk_publicKeys = Some (drop (length keys) k4), blk_facts = fs, blk_scopes = scs, blk_rules = rs, blk_checks = cs,
      blk_context = bb_context b, blk_version = minimumDatalogVersionForThirdPartyBlocks, blk_externalSignature = None\<rparr>"
proof -
  have plain: "\<forall>f \<in> set (HashSet_Iter (bb_facts b)). bpred_plain f" "\<forall>r \<in> set (bb_rules b). brule_plain r"
    "\<forall>c \<in> set (bb_checks b). bcheck_plain c" "\<forall>s \<in> set (bb_scopes b). bscope_plain s"
    using assms(2) by (simp_all add: builder_plain_def)
  obtain fs s1 where f: "thread (BPredicate_convert rt) (HashSet_Iter (bb_facts b)) symbols = Some (fs, s1)"
    using pred_interning.thread_returns[OF plain(1)] by fastforce
  obtain rs s2 k2 where r: "thread (BRule_Convert rt) (bb_rules b) (s1, keys) = Some (rs, (s2, k2))"
    using rule_interning.thread_returns[OF plain(2), of rt "(s1, keys)"] by fastforce
  obtain cs s3 k3 where c: "thread (BCheck_Convert rt) (bb_checks b) (s2, k2) = Some (cs, (s3, k3))"
    using check_interning.thread_returns[OF plain(3), of rt "(s2, k2)"] by fastforce
  obtain scs k4 where s: "thread BScope_convert (bb_scopes b) k3 = Some (scs, k4)"
    using scope_interning.thread_returns[OF plain(4)] by fastforce
  have le: "sym_le symbols s1" "tables_le (s1, keys) (s2, k2)" "tables_le (s2, k2) (s3, k3)" "key_le k3 k4"
    using pred_interning.thread_le[OF plain(1) f] rule_interning.thread_le[OF plain(2) r]
      check_interning.thread_le[OF plain(3) c] scope_interning.thread_le[OF plain(4) s] by simp_all
  then have les: "sym_le symbols s1" "sym_le s1 s2" "sym_le s2 s3" "key_le keys k2" "key_le k2 k3" "key_le k3 k4"
    by (simp_all add: tables_le_def)
  then have "length symbols \<le> length s3" "length keys \<le> length k4"
    by (auto simp: sym_le_def key_le_def)
  then have "blockBuilder_Build rt b symbols keys reg = Some \<lparr>blk_symbols = drop (length symbols) s3,
      blk_publicKeys = Some (drop (length keys) k4), blk_facts = fs, blk_scopes = scs, blk_rules = rs, blk_checks = cs,
      blk_context = bb_context b, blk_version = minimumDatalogVersionForThirdPartyBlocks, blk_externalSignature = None\<rparr>"
    using f r c s assms(1)
    by (simp add: blockBuilder_Build_def BFact_convert_pred SymbolTable_SplitOff_def PublicKeyTable_SplitOff_def)
  then show thesis by (rule that[OF f r c s les])
qed

lemma Build_denotes:
  assumes "bb_buildOptions b = []" and "builder_plain b"
  shows "\<exists>block. blockBuilder_Build rt b symbols keys reg = Some block \<and>
    (\<forall>us ks. 1024 + length (symbols @ blk_symbols block @ us) \<le> 2 ^ 32 \<longrightarrow> length (keys @ block_keys block @ ks) < 2 ^ 64 \<longrightarrow>
      block_denotes rt (symbols @ blk_symbols block @ us) (keys @ block_keys block @ ks) block b)"
proof (rule Build_parts[OF assms, of rt symbols keys reg])
  fix fs s1 rs s2 k2 cs s3 k3 scs k4
  assume c: "thread (BPredicate_convert rt) (HashSet_Iter (bb_facts b)) symbols = Some (fs, s1)"
    "thread (BRule_Convert rt) (bb_rules b) (s1, keys) = Some (rs, (s2, k2))"
    "thread (BCheck_Convert rt) (bb_checks b) (s2, k2) = Some (cs, (s3, k3))"
    "thread BScope_convert (bb_scopes b) k3 = Some (scs, k4)"
    and le: "sym_le symbols s1" "sym_le s1 s2" "sym_le s2 s3" "key_le keys k2" "key_le k2 k3" "key_le k3 k4"
    and build: "blockBuilder_Build rt b symbols keys reg = Some \<lparr>blk_symbols = drop (length symbols) s3,
      blk_publicKeys = Some (drop (length keys) k4), blk_facts = fs, blk_scopes = scs, blk_rules = rs, blk_checks = cs,
      blk_context = bb_context b, blk_version = minimumDatalogVersionForThirdPartyBlocks, blk_externalSignature = None\<rparr>"
      (is "_ = Some ?block")
  have plain: "\<forall>f \<in> set (HashSet_Iter (bb_facts b)). bpred_plain f" "\<forall>r \<in> set (bb_rules b). brule_plain r"
    "\<forall>c \<in> set (bb_checks b). bcheck_plain c" "\<forall>s \<in> set (bb_scopes b). bscope_plain s"
    using assms(2) by (simp_all add: builder_plain_def)
  have "block_denotes rt (symbols @ blk_symbols ?block @ us) (keys @ block_keys ?block @ ks) ?block b"
    if "1024 + length (symbols @ blk_symbols ?block @ us) \<le> 2 ^ 32" "length (keys @ block_keys ?block @ ks) < 2 ^ 64" for us ks
  proof -
    let ?s = "symbols @ blk_symbols ?block @ us" and ?k = "keys @ block_keys ?block @ ks"
    have "?s = s3 @ us" "?k = k4 @ ks" using le by (auto simp: sym_le_def key_le_def block_keys_def)
    then have s: "sym_le s3 ?s" and k: "key_le k4 ?k" unfolding sym_le_def key_le_def by blast+
    have fit: "sym_fits ?s" "tables_fit (?s, ?k)" "key_fits ?k"
      using that unfolding tables_fit_def sym_fits_def key_fits_def by simp_all
    have ls: "sym_le s1 ?s" "tables_le (s2, k2) (?s, ?k)" "tables_le (s3, k3) (?s, ?k)"
      unfolding tables_le_def fst_conv snd_conv using s k le by (meson sym_le_trans key_le_trans)+
    show ?thesis
      using pred_interning.thread_round[OF plain(1) c(1) ls(1) fit(1)]
        rule_interning.thread_round[OF plain(2) c(2) ls(2) fit(2)]
        check_interning.thread_round[OF plain(3) c(3) ls(3) fit(2)]
        scope_interning.thread_round[OF plain(4) c(4) k fit(3)]
      unfolding block_denotes_def fromDatalogFact_pred by simp
  qed
  then show ?thesis using build by blast
qed

text \<open>
  C15: building a block returns, and the block denotes what was put into the builder: its facts,
  rules, checks and scopes, read with the token's tables extended by the symbols and keys of the
  block (and by whatever later blocks add), are the ones of the builder.
\<close>

theorem Build_reads_back:
  assumes "bb_buildOptions b = []" and "builder_plain b"
  shows "\<exists>block. blockBuilder_Build rt b symbols keys reg = Some block \<and>
    (1024 + length (symbols @ blk_symbols block @ us) \<le> 2 ^ 32 \<longrightarrow> length (keys @ block_keys block @ ks) < 2 ^ 64 \<longrightarrow>
      block_denotes rt (symbols @ blk_symbols block @ us) (keys @ block_keys block @ ks) block b)"
  using Build_denotes[OF assms, of rt symbols keys reg] by blast

definition demo_builder :: blockBuilder where
  "demo_builder = snd (blockBuilder_AddFact demo_runtime
     (blockBuilder_AddScope (blockBuilder_AddCheck (NewBlockBuilder demo_runtime []) demo_bcheck)
       \<lparr>bs_Type = PublicKeyScopeType, bs_PublicKey = Some \<lparr>bpk_Algorithm = Ed25519, bpk_Bytes = [1, 2]\<rparr>\<rparr>)
     \<lparr>bp_Name = ''user'', bp_IDs = [BString ''bob'', BInteger 3]\<rparr>)"

theorem Build_reads_back_witness:
  "\<exists>block. blockBuilder_Build demo_runtime demo_builder [] [] [] = Some block \<and>
    (1024 + length (blk_symbols block) \<le> 2 ^ 32 \<longrightarrow> length (block_keys block) < 2 ^ 64 \<longrightarrow>
      block_denotes demo_runtime (blk_symbols block) (block_keys block) block demo_builder)"
proof -
  have facts: "hs_set (bb_facts demo_builder) = {\<lparr>bp_Name = ''user'', bp_IDs = [BString ''bob'', BInteger 3]\<rparr>}"
    by (simp add: demo_builder_def blockBuilder_AddFact_def blockBuilder_AddScope_def blockBuilder_AddCheck_def
      NewBlockBuilder_def NewBFactSet_def NewHashSet_def HashSet_Insert_def HashSet_empty_def HashSet_Iter_def)
  have rest: "bb_buildOptions demo_builder = []" "bb_rules demo_builder = []" "bb_checks demo_builder = [demo_bcheck]"
    "bb_scopes demo_builder =
      [\<lparr>bs_Type = PublicKeyScopeType, bs_PublicKey = Some \<lparr>bpk_Algorithm = Ed25519, bpk_Bytes = [1, 2]\<rparr>\<rparr>]"
    by (simp_all add: demo_builder_def blockBuilder_AddFact_def blockBuilder_AddScope_def blockBuilder_AddCheck_def
      NewBlockBuilder_def split: prod.split)
  have "builder_plain demo_builder"
    unfolding builder_plain_def facts rest
    by (simp add: bpred_plain_def bscope_plain_def demo_bcheck_def bcheck_plain_def brule_plain_def bexpr_plain_def)
  from Build_reads_back[OF rest(1) this, of demo_runtime "[]" "[]" "[]" "[]" "[]"] show ?thesis by simp
qed



section \<open>Adding facts\<close>

definition bfact_atomic :: "BFact \<Rightarrow> bool" where
  "bfact_atomic f \<longleftrightarrow> (\<forall>t \<in> set (bp_IDs f). bterm_atomic t)"

lemma compare_terms_0:
  "length as = length bs \<Longrightarrow> \<forall>t \<in> set as \<union> set bs. bterm_atomic t \<Longrightarrow> compare_terms as bs = 0 \<longleftrightarrow> as = bs"
proof (induction as bs rule: compare_terms.induct)
  case (1 a as b bs)
  then have "BTerm_Compare a (Some b) = 0 \<longleftrightarrow> a = b" using bterm_eq_iff[of a b] by (simp add: BTerm_Equal_def)
  then show ?case using 1 by (simp add: Let_def)
qed auto

interpretation bfact_set: hash_elements "bfact_hash rt" BFact_Equal bfact_atomic for rt
proof
  fix f g assume *: "bfact_atomic f" "bfact_atomic g"
  have t: "\<forall>t \<in> set (bp_IDs f) \<union> set (bp_IDs g). bterm_atomic t" using * by (auto simp: bfact_atomic_def)
  show "BFact_Equal f g \<longleftrightarrow> f = g"
    using compare_terms_0[OF _ t]
    by (cases f; cases g) (auto simp: BFact_Equal_def BFact_Compare_def BPredicate_Compare_def Let_def compare_terms_0)
qed

text \<open>The facts of a builder, as the operations leave them.\<close>

definition builder_facts_inv :: "runtime \<Rightarrow> blockBuilder \<Rightarrow> bool" where
  "builder_facts_inv rt b \<longleftrightarrow> hs_inv (bfact_hash rt) bfact_atomic (bb_facts b)"

text \<open>
  Adding a fact to a builder fails with \<^verbatim>\<open>ErrDuplicateFact\<close> exactly when the fact was added
  before, and then changes nothing; otherwise the fact, and nothing else, is added.
\<close>

theorem AddFact_duplicate:
  assumes "builder_facts_inv rt b" and "bfact_atomic f" and "blockBuilder_AddFact rt b f = (err, b')"
  shows "(err = Some ErrDuplicateFact \<longleftrightarrow> f \<in> hs_set (bb_facts b)) \<and> builder_facts_inv rt b' \<and>
    hs_set (bb_facts b') = insert f (hs_set (bb_facts b)) \<and> (err \<noteq> None \<longrightarrow> b' = b)"
proof -
  have inv: "hs_inv (bfact_hash rt) bfact_atomic (bb_facts b)" using assms(1) by (simp add: builder_facts_inv_def)
  let ?i = "HashSet_Insert (bfact_hash rt) BFact_Equal (bb_facts b) f"
  have b': "err = (if \<not> fst ?i then Some ErrDuplicateFact else None)" "b' = b\<lparr>bb_facts := snd ?i\<rparr>"
    using assms(3) by (auto simp: blockBuilder_AddFact_def case_prod_unfold Let_def)
  show ?thesis
    using bfact_set.fst_insert[OF inv assms(2)] bfact_set.set_insert[OF inv assms(2)] bfact_set.inv_insert[OF inv assms(2)]
      bfact_set.insert_eq[OF inv assms(2)]
    by (auto simp: b' builder_facts_inv_def)
qed

theorem AddFact_duplicate_witness:
  "\<exists>b'. blockBuilder_AddFact demo_runtime (NewBlockBuilder demo_runtime []) \<lparr>bp_Name = ''user'', bp_IDs = [BInteger 3]\<rparr> = (None, b') \<and>
     fst (blockBuilder_AddFact demo_runtime b' \<lparr>bp_Name = ''user'', bp_IDs = [BInteger 3]\<rparr>) = Some ErrDuplicateFact"
proof -
  let ?b = "NewBlockBuilder demo_runtime []" and ?f = "\<lparr>bp_Name = ''user'', bp_IDs = [BInteger 3]\<rparr>"
  obtain err b' where r: "blockBuilder_AddFact demo_runtime ?b ?f = (err, b')" by fastforce
  obtain err2 b2 where r2: "blockBuilder_AddFact demo_runtime b' ?f = (err2, b2)" by fastforce
  have inv: "builder_facts_inv demo_runtime ?b" "bb_facts ?b = HashSet_empty" "bfact_atomic ?f"
    by (simp_all add: builder_facts_inv_def NewBlockBuilder_def NewBFactSet_def NewHashSet_def bfact_atomic_def)
  note a = AddFact_duplicate[OF inv(1) inv(3) r]
  then have b: "builder_facts_inv demo_runtime b'" "?f \<in> hs_set (bb_facts b')" by simp_all
  have "err \<noteq> Some ErrDuplicateFact" using a inv(2) by simp
  then have "err = None" by (cases err) (simp, use build_error.exhaust in auto)
  then show ?thesis using r r2 AddFact_duplicate[OF b(1) inv(3) r2] b(2) by simp
qed

end
