(* ===== verification/Protobuf.thy ===== *)
theory Protobuf
  imports Blocks
begin

text \<open>
  The converters between datalog values and protobuf messages (\<^verbatim>\<open>converters.go\<close>,
  \<^verbatim>\<open>converters_v2.go\<close>) over the messages of \<^verbatim>\<open>pb/schema.pb.go\<close>. Required fields are plain
  fields, because \<^verbatim>\<open>proto.Unmarshal\<close> refuses a message without them; optional fields are options;
  a \<^verbatim>\<open>oneof\<close> is a datatype with a constructor for the absent content; enumerations are the
  32-bit numbers of the schema.
  The contract of every pair of converters is the locale \<open>codec\<close>: what is encoded is decoded to
  the same value. Sets are written sorted, so they come back with the same elements in other
  buckets; \<open>same_term\<close> says what \<open>same\<close> means for them.
\<close>

section \<open>Messages\<close>

datatype pb_MapKey = MapKey_Integer u64 | MapKey_String u64 | MapKey_absent

datatype TermV2 =
    TermV2_Variable u32
  | TermV2_Integer u64
  | TermV2_String u64
  | TermV2_Date u64
  | TermV2_Bytes "u8 list"
  | TermV2_Bool bool
  | TermV2_Set "TermV2 list"
  | TermV2_Null
  | TermV2_Array "TermV2 list"
  | TermV2_Map "(pb_MapKey \<times> TermV2) list"
  | TermV2_absent

record PredicateV2 =
  pbp_Name :: u64
  pbp_Terms :: "TermV2 list"

record FactV2 =
  pbf_Predicate :: PredicateV2

record OpUnary =
  opu_Kind :: u32
  opu_FfiName :: "u64 option"

record OpBinary =
  opb_Kind :: u32
  opb_FfiName :: "u64 option"

datatype pb_Op =
    Op_Value TermV2
  | Op_Unary OpUnary
  | Op_Binary OpBinary
  | Op_Closure "u32 list" "pb_Op list"
  | Op_absent

type_synonym ExpressionV2 = "pb_Op list"

datatype pb_Scope = Scope_ScopeType u32 | Scope_PublicKey u64 | Scope_absent

record RuleV2 =
  pbr_Head :: PredicateV2
  pbr_Body :: "PredicateV2 list"
  pbr_Expressions :: "ExpressionV2 list"
  pbr_Scope :: "pb_Scope list"

record CheckV2 =
  pbc_Queries :: "RuleV2 list"
  pbc_Kind :: "u32 option"

record pb_PublicKey =
  pbk_Algorithm :: Algorithm
  pbk_Key :: "u8 list"

record pb_ExternalSignature =
  pbe_Signature :: "u8 list"
  pbe_PublicKey :: "pb_PublicKey option"

record pb_Block =
  pbb_Symbols :: "string list"
  pbb_Context :: "string option"
  pbb_Version :: "u32 option"
  pbb_FactsV2 :: "FactV2 list"
  pbb_RulesV2 :: "RuleV2 list"
  pbb_ChecksV2 :: "CheckV2 list"
  pbb_Scope :: "pb_Scope list"
  pbb_PublicKeys :: "pb_PublicKey list"

datatype pb_error =
    SetContainsVariables
  | SetContainsSets
  | SetMixedTypes
  | UnsupportedTerm
  | UnsupportedOp
  | UnsupportedUnary u32
  | UnsupportedBinary u32
  | UnsupportedCheckKind u32
  | UnknownScopeContent
  | ErrNilPublicKey
  | ErrNilExternalSignature
  | UnsupportedDatalogVersion u32

section \<open>Terms\<close>

function tokenIDToProtoIDV2 :: "Term \<Rightarrow> pb_error + TermV2" where
  "tokenIDToProtoIDV2 (TString s) = Inr (TermV2_String s)"
| "tokenIDToProtoIDV2 (TDate d) = Inr (TermV2_Date d)"
| "tokenIDToProtoIDV2 (TInteger i) = Inr (TermV2_Integer i)"
| "tokenIDToProtoIDV2 (TVariable v) = Inr (TermV2_Variable v)"
| "tokenIDToProtoIDV2 (TBytes b) = Inr (TermV2_Bytes b)"
| "tokenIDToProtoIDV2 (TBool b) = Inr (TermV2_Bool b)"
| "tokenIDToProtoIDV2 (TSet datalogSet) =
     (if HashSet_Size datalogSet = 0 then Inr (TermV2_Set [])
      else
        let terms = Sorted term_cmp (HashSet_Iter datalogSet);
            expectedEltType = Term_Type (hd terms)
        in if expectedEltType = TermTypeVariable then Inl SetContainsVariables
           else if expectedEltType = TermTypeSet then Inl SetContainsSets
           else bind_res (traverse (\<lambda>datalogElt.
               if Term_Type datalogElt \<noteq> expectedEltType then Inl SetMixedTypes
               else tokenIDToProtoIDV2 datalogElt) terms)
             (\<lambda>protoSet. Inr (TermV2_Set protoSet)))"
  by pat_completeness auto
termination
  by (relation "measure size") (auto simp: Sorted_def dest: size_element)

text \<open>The dynamic type of the content.\<close>

fun content_type :: "TermV2 \<Rightarrow> nat" where
  "content_type (TermV2_Variable _) = 1"
| "content_type (TermV2_Integer _) = 2"
| "content_type (TermV2_String _) = 3"
| "content_type (TermV2_Date _) = 4"
| "content_type (TermV2_Bytes _) = 5"
| "content_type (TermV2_Bool _) = 6"
| "content_type (TermV2_Set _) = 7"
| "content_type TermV2_Null = 8"
| "content_type (TermV2_Array _) = 9"
| "content_type (TermV2_Map _) = 10"
| "content_type TermV2_absent = 0"

fun protoIDToTokenIDV2 :: "runtime \<Rightarrow> TermV2 \<Rightarrow> pb_error + Term" where
  "protoIDToTokenIDV2 rt (TermV2_String s) = Inr (TString s)"
| "protoIDToTokenIDV2 rt (TermV2_Date d) = Inr (TDate d)"
| "protoIDToTokenIDV2 rt (TermV2_Integer i) = Inr (TInteger i)"
| "protoIDToTokenIDV2 rt (TermV2_Variable v) = Inr (TVariable v)"
| "protoIDToTokenIDV2 rt (TermV2_Bytes b) = Inr (TBytes b)"
| "protoIDToTokenIDV2 rt (TermV2_Bool b) = Inr (TBool b)"
| "protoIDToTokenIDV2 rt (TermV2_Set elts) = (case elts of
     [] \<Rightarrow> Inr (TSet (NewSet rt []))
   | elt # _ \<Rightarrow>
       (let expectedEltType = content_type elt in
        if expectedEltType = content_type (TermV2_Variable 0) then Inl SetContainsVariables
        else if expectedEltType = content_type (TermV2_Set []) then Inl SetContainsSets
        else bind_res (traverse (\<lambda>protoElt.
              if content_type protoElt \<noteq> expectedEltType then Inl SetMixedTypes
              else protoIDToTokenIDV2 rt protoElt) elts)
            (\<lambda>datalogElts. Inr (TSet (fold (\<lambda>datalogElt datalogSet. Set_Union rt datalogSet (NewSet rt [datalogElt]))
              datalogElts (NewSet rt []))))))"
| "protoIDToTokenIDV2 rt TermV2_Null = Inl UnsupportedTerm"
| "protoIDToTokenIDV2 rt (TermV2_Array _) = Inl UnsupportedTerm"
| "protoIDToTokenIDV2 rt (TermV2_Map _) = Inl UnsupportedTerm"
| "protoIDToTokenIDV2 rt TermV2_absent = Inl UnsupportedTerm"

section \<open>Predicates and facts\<close>

definition tokenPredicateToProtoPredicateV2 :: "Predicate \<Rightarrow> pb_error + PredicateV2" where
  "tokenPredicateToProtoPredicateV2 input =
     bind_res (traverse tokenIDToProtoIDV2 (elems (pred_Terms input))) (\<lambda>pbTerms.
       Inr \<lparr>pbp_Name = pred_Name input, pbp_Terms = pbTerms\<rparr>)"

definition protoPredicateToTokenPredicateV2 :: "runtime \<Rightarrow> PredicateV2 \<Rightarrow> pb_error + Predicate" where
  "protoPredicateToTokenPredicateV2 rt input =
     bind_res (traverse (protoIDToTokenIDV2 rt) (pbp_Terms input)) (\<lambda>terms.
       Inr \<lparr>pred_Name = pbp_Name input, pred_Terms = Some terms\<rparr>)"

definition tokenFactToProtoFactV2 :: "Fact \<Rightarrow> pb_error + FactV2" where
  "tokenFactToProtoFactV2 input =
     bind_res (tokenPredicateToProtoPredicateV2 input) (\<lambda>pred. Inr \<lparr>pbf_Predicate = pred\<rparr>)"

definition protoFactToTokenFactV2 :: "runtime \<Rightarrow> FactV2 \<Rightarrow> pb_error + Fact" where
  "protoFactToTokenFactV2 rt input =
     bind_res (protoPredicateToTokenPredicateV2 rt (pbf_Predicate input)) (\<lambda>pred. Inr pred)"

section \<open>Expressions\<close>

fun tokenExprUnaryToProtoExprUnary :: "UnaryOpFunc \<Rightarrow> OpUnary" where
  "tokenExprUnaryToProtoExprUnary Negate = \<lparr>opu_Kind = 0, opu_FfiName = None\<rparr>"
| "tokenExprUnaryToProtoExprUnary Parens = \<lparr>opu_Kind = 1, opu_FfiName = None\<rparr>"
| "tokenExprUnaryToProtoExprUnary Length = \<lparr>opu_Kind = 2, opu_FfiName = None\<rparr>"

definition protoExprUnaryToTokenExprUnary :: "OpUnary \<Rightarrow> pb_error + UnaryOpFunc" where
  "protoExprUnaryToTokenExprUnary u =
     (case map_of [(0, Negate), (1, Parens), (2, Length)] (opu_Kind u) of
        None \<Rightarrow> Inl (UnsupportedUnary (opu_Kind u)) | Some unaryOp \<Rightarrow> Inr unaryOp)"

fun tokenExprBinaryToProtoExprBinary :: "BinaryOpFunc \<Rightarrow> OpBinary" where
  "tokenExprBinaryToProtoExprBinary LessThan = \<lparr>opb_Kind = 0, opb_FfiName = None\<rparr>"
| "tokenExprBinaryToProtoExprBinary LessOrEqual = \<lparr>opb_Kind = 2, opb_FfiName = None\<rparr>"
| "tokenExprBinaryToProtoExprBinary GreaterThan = \<lparr>opb_Kind = 1, opb_FfiName = None\<rparr>"
| "tokenExprBinaryToProtoExprBinary GreaterOrEqual = \<lparr>opb_Kind = 3, opb_FfiName = None\<rparr>"
| "tokenExprBinaryToProtoExprBinary Equal = \<lparr>opb_Kind = 4, opb_FfiName = None\<rparr>"
| "tokenExprBinaryToProtoExprBinary Contains = \<lparr>opb_Kind = 5, opb_FfiName = None\<rparr>"
| "tokenExprBinaryToProtoExprBinary Prefix = \<lparr>opb_Kind = 6, opb_FfiName = None\<rparr>"
| "tokenExprBinaryToProtoExprBinary Suffix = \<lparr>opb_Kind = 7, opb_FfiName = None\<rparr>"
| "tokenExprBinaryToProtoExprBinary Regex = \<lparr>opb_Kind = 8, opb_FfiName = None\<rparr>"
| "tokenExprBinaryToProtoExprBinary Add = \<lparr>opb_Kind = 9, opb_FfiName = None\<rparr>"
| "tokenExprBinaryToProtoExprBinary Sub = \<lparr>opb_Kind = 10, opb_FfiName = None\<rparr>"
| "tokenExprBinaryToProtoExprBinary Mul = \<lparr>opb_Kind = 11, opb_FfiName = None\<rparr>"
| "tokenExprBinaryToProtoExprBinary Div = \<lparr>opb_Kind = 12, opb_FfiName = None\<rparr>"
| "tokenExprBinaryToProtoExprBinary And = \<lparr>opb_Kind = 13, opb_FfiName = None\<rparr>"
| "tokenExprBinaryToProtoExprBinary Or = \<lparr>opb_Kind = 14, opb_FfiName = None\<rparr>"
| "tokenExprBinaryToProtoExprBinary Intersection = \<lparr>opb_Kind = 15, opb_FfiName = None\<rparr>"
| "tokenExprBinaryToProtoExprBinary Union = \<lparr>opb_Kind = 16, opb_FfiName = None\<rparr>"

definition protoExprBinaryToTokenExprBinary :: "OpBinary \<Rightarrow> pb_error + BinaryOpFunc" where
  "protoExprBinaryToTokenExprBinary b =
     (case map_of
        [(0, LessThan), (1, GreaterThan), (2, LessOrEqual), (3, GreaterOrEqual), (4, Equal), (5, Contains),
         (6, Prefix), (7, Suffix), (8, Regex), (9, Add), (10, Sub), (11, Mul), (12, Div), (13, And), (14, Or),
         (15, Intersection), (16, Union)] (opb_Kind b) of
        None \<Rightarrow> Inl (UnsupportedBinary (opb_Kind b)) | Some binaryOp \<Rightarrow> Inr binaryOp)"

fun op_to_proto :: "Op \<Rightarrow> pb_error + pb_Op" where
  "op_to_proto (Value v) = bind_res (tokenIDToProtoIDV2 v) (\<lambda>pbID. Inr (Op_Value pbID))"
| "op_to_proto (UnaryOp u) = Inr (Op_Unary (tokenExprUnaryToProtoExprUnary u))"
| "op_to_proto (BinaryOp b) = Inr (Op_Binary (tokenExprBinaryToProtoExprBinary b))"

definition tokenExpressionToProtoExpressionV2 :: "Expression \<Rightarrow> pb_error + ExpressionV2" where
  "tokenExpressionToProtoExpressionV2 input = traverse op_to_proto (elems input)"

fun proto_to_op :: "runtime \<Rightarrow> pb_Op \<Rightarrow> pb_error + Op" where
  "proto_to_op rt (Op_Value v) = bind_res (protoIDToTokenIDV2 rt v) (\<lambda>i. Inr (Value i))"
| "proto_to_op rt (Op_Unary u) = bind_res (protoExprUnaryToTokenExprUnary u) (\<lambda>f. Inr (UnaryOp f))"
| "proto_to_op rt (Op_Binary b) = bind_res (protoExprBinaryToTokenExprBinary b) (\<lambda>f. Inr (BinaryOp f))"
| "proto_to_op rt (Op_Closure _ _) = Inl UnsupportedOp"
| "proto_to_op rt Op_absent = Inl UnsupportedOp"

definition protoExpressionToTokenExpressionV2 :: "runtime \<Rightarrow> ExpressionV2 \<Rightarrow> pb_error + Expression" where
  "protoExpressionToTokenExpressionV2 rt input =
     bind_res (traverse (proto_to_op rt) input) (\<lambda>expr. Inr (Some expr))"

section \<open>Scopes, rules and checks\<close>

fun tokenScopeToProtoScope :: "Scope \<Rightarrow> pb_error + pb_Scope" where
  "tokenScopeToProtoScope (Scope AuthorityScopeType _) = Inr (Scope_ScopeType 0)"
| "tokenScopeToProtoScope (Scope PreviousScopeType _) = Inr (Scope_ScopeType 1)"
| "tokenScopeToProtoScope (Scope PublicKeyScopeType i) = Inr (Scope_PublicKey i)"

text \<open>An unknown scope type leaves the zero value, which is the authority.\<close>

fun protoScopeToTokenScope :: "pb_Scope \<Rightarrow> pb_error + Scope" where
  "protoScopeToTokenScope (Scope_ScopeType k) =
     Inr (Scope (if k = 0 then AuthorityScopeType else if k = 1 then PreviousScopeType else AuthorityScopeType) 0)"
| "protoScopeToTokenScope (Scope_PublicKey i) = Inr (Scope PublicKeyScopeType i)"
| "protoScopeToTokenScope Scope_absent = Inl UnknownScopeContent"

definition tokenRuleToProtoRuleV2 :: "Rule \<Rightarrow> pb_error + RuleV2" where
  "tokenRuleToProtoRuleV2 input =
     bind_res (traverse tokenPredicateToProtoPredicateV2 (elems (rule_Body input))) (\<lambda>pbBody.
     bind_res (traverse tokenExpressionToProtoExpressionV2 (elems (rule_Expressions input))) (\<lambda>pbExpressions.
     bind_res (tokenPredicateToProtoPredicateV2 (rule_Head input)) (\<lambda>pbHead.
     bind_res (traverse tokenScopeToProtoScope (elems (rule_Scopes input))) (\<lambda>pbScopes.
       Inr \<lparr>pbr_Head = pbHead, pbr_Body = pbBody, pbr_Expressions = pbExpressions, pbr_Scope = pbScopes\<rparr>))))"

definition nil_if_empty :: "'a list \<Rightarrow> 'a slice" where
  "nil_if_empty xs = (if length xs > 0 then Some xs else None)"

definition protoRuleToTokenRuleV2 :: "runtime \<Rightarrow> RuleV2 \<Rightarrow> pb_error + Rule" where
  "protoRuleToTokenRuleV2 rt input =
     bind_res (traverse (protoPredicateToTokenPredicateV2 rt) (pbr_Body input)) (\<lambda>body.
     bind_res (traverse (protoExpressionToTokenExpressionV2 rt) (pbr_Expressions input)) (\<lambda>expressions.
     bind_res (traverse protoScopeToTokenScope (pbr_Scope input)) (\<lambda>scopes.
     bind_res (protoPredicateToTokenPredicateV2 rt (pbr_Head input)) (\<lambda>head.
       Inr \<lparr>rule_Head = head, rule_Body = Some body, rule_Expressions = Some expressions,
         rule_Scopes = nil_if_empty scopes\<rparr>))))"

definition tokenCheckToProtoCheckV2 :: "Check \<Rightarrow> pb_error + CheckV2" where
  "tokenCheckToProtoCheckV2 input =
     bind_res (traverse tokenRuleToProtoRuleV2 (elems (check_Queries input))) (\<lambda>pbQueries.
       Inr \<lparr>pbc_Queries = pbQueries,
         pbc_Kind = (case check_Kind input of CheckAll \<Rightarrow> Some 1 | CheckReject \<Rightarrow> Some 2 | _ \<Rightarrow> None)\<rparr>)"

definition protoCheckToTokenCheckV2 :: "runtime \<Rightarrow> CheckV2 \<Rightarrow> pb_error + Check" where
  "protoCheckToTokenCheckV2 rt input =
     bind_res (traverse (protoRuleToTokenRuleV2 rt) (pbc_Queries input)) (\<lambda>queries.
     bind_res (case pbc_Kind input of
         None \<Rightarrow> Inr CheckOne
       | Some k \<Rightarrow> if k = 0 then Inr CheckOne else if k = 1 then Inr CheckAll else if k = 2 then Inr CheckReject
           else Inl (UnsupportedCheckKind k)) (\<lambda>kind.
       Inr \<lparr>check_Queries = Some queries, check_Kind = kind\<rparr>))"

section \<open>Keys, signatures and blocks\<close>

definition protoPublicKeyToTokenPublicKey :: "pb_PublicKey option \<Rightarrow> pb_error + PublicKey" where
  "protoPublicKeyToTokenPublicKey pubKey = (case pubKey of
     None \<Rightarrow> Inl ErrNilPublicKey
   | Some k \<Rightarrow> Inr (PublicKey (pbk_Key k) (pbk_Algorithm k)))"

definition tokenPublicKeyToProtoPublicKey :: "PublicKey option \<Rightarrow> pb_error + pb_PublicKey" where
  "tokenPublicKeyToProtoPublicKey pubKey = (case pubKey of
     None \<Rightarrow> Inl ErrNilPublicKey
   | Some k \<Rightarrow> Inr \<lparr>pbk_Algorithm = pk_Algorithm k, pbk_Key = pk_Key k\<rparr>)"

definition tokenExternalSignatureToProtoExternalSignature ::
    "ExternalSignature option \<Rightarrow> pb_error + pb_ExternalSignature" where
  "tokenExternalSignatureToProtoExternalSignature extSig = (case extSig of
     None \<Rightarrow> Inl ErrNilExternalSignature
   | Some es \<Rightarrow> bind_res (tokenPublicKeyToProtoPublicKey (Some (es_publicKey es))) (\<lambda>protoPubKey.
       Inr \<lparr>pbe_Signature = es_signature es, pbe_PublicKey = Some protoPubKey\<rparr>))"

definition protoExternalSignatureToTokenExternalSignature ::
    "pb_ExternalSignature option \<Rightarrow> pb_error + ExternalSignature" where
  "protoExternalSignatureToTokenExternalSignature protoExtSig = (case protoExtSig of
     None \<Rightarrow> Inl ErrNilExternalSignature
   | Some es \<Rightarrow> bind_res (protoPublicKeyToTokenPublicKey (pbe_PublicKey es)) (\<lambda>tokenPublicKey.
       Inr \<lparr>es_publicKey = tokenPublicKey, es_signature = pbe_Signature es\<rparr>))"

definition tokenBlockToProtoBlock :: "Block \<Rightarrow> pb_error + pb_Block" where
  "tokenBlockToProtoBlock input =
     bind_res (traverse tokenFactToProtoFactV2 (blk_facts input)) (\<lambda>facts.
     bind_res (traverse tokenRuleToProtoRuleV2 (blk_rules input)) (\<lambda>rules.
     bind_res (traverse tokenCheckToProtoCheckV2 (blk_checks input)) (\<lambda>checks.
     bind_res (traverse tokenScopeToProtoScope (blk_scopes input)) (\<lambda>scopes.
       Inr \<lparr>pbb_Symbols = blk_symbols input, pbb_Context = Some (blk_context input),
         pbb_Version = Some (blk_version input), pbb_FactsV2 = facts, pbb_RulesV2 = rules,
         pbb_ChecksV2 = checks, pbb_Scope = scopes,
         pbb_PublicKeys = (case blk_publicKeys input of None \<Rightarrow> []
           | Some keys \<Rightarrow> map (\<lambda>k. \<lparr>pbk_Algorithm = pk_Algorithm k, pbk_Key = pk_Key k\<rparr>) keys)\<rparr>))))"

definition MinSchemaVersion :: u32 where "MinSchemaVersion = DatalogVersion3_0"
definition MaxSchemaVersion :: u32 where "MaxSchemaVersion = DatalogVersion3_3"

definition getDatalogVersion :: "pb_Block \<Rightarrow> pb_error + u32" where
  "getDatalogVersion block =
     (let version = (case pbb_Version block of None \<Rightarrow> 0 | Some v \<Rightarrow> v) in
      if version < MinSchemaVersion then Inl (UnsupportedDatalogVersion version)
      else if version > MaxSchemaVersion then Inl (UnsupportedDatalogVersion version)
      else Inr version)"

text \<open>
  The keys are inserted one by one: a key that is listed twice is kept once, and a block without
  keys has no table at all.
\<close>

definition protoBlockToTokenBlock :: "runtime \<Rightarrow> pb_Block \<Rightarrow> pb_ExternalSignature option \<Rightarrow> pb_error + Block" where
  "protoBlockToTokenBlock rt input pbExternalSignature =
     bind_res (getDatalogVersion input) (\<lambda>datalogVersion.
     if datalogVersion \<notin> {DatalogVersion3_0, DatalogVersion3_1, DatalogVersion3_2, DatalogVersion3_3}
     then Inl (UnsupportedDatalogVersion datalogVersion) else
     bind_res (traverse (\<lambda>k. protoPublicKeyToTokenPublicKey (Some k)) (pbb_PublicKeys input)) (\<lambda>keys.
     bind_res (traverse (protoFactToTokenFactV2 rt) (pbb_FactsV2 input)) (\<lambda>facts.
     bind_res (traverse (protoRuleToTokenRuleV2 rt) (pbb_RulesV2 input)) (\<lambda>rules.
     bind_res (traverse (protoCheckToTokenCheckV2 rt) (pbb_ChecksV2 input)) (\<lambda>checks.
     bind_res (traverse protoScopeToTokenScope (pbb_Scope input)) (\<lambda>scopes.
     bind_res (case pbExternalSignature of None \<Rightarrow> Inr None
       | Some es \<Rightarrow> bind_res (protoExternalSignatureToTokenExternalSignature (Some es)) (\<lambda>e. Inr (Some e)))
       (\<lambda>externalSignature.
       Inr \<lparr>blk_symbols = pbb_Symbols input,
         blk_publicKeys = (if length (pbb_PublicKeys input) > 0
           then Some (fold (\<lambda>pk pkTable. snd (PublicKeyTable_Insert pkTable pk)) keys []) else None),
         blk_facts = facts, blk_scopes = scopes, blk_rules = rules, blk_checks = checks,
         blk_context = (case pbb_Context input of None \<Rightarrow> [] | Some c \<Rightarrow> c),
         blk_version = datalogVersion, blk_externalSignature = externalSignature\<rparr>)))))))"

section \<open>The contract of a codec\<close>

locale codec =
  fixes enc :: "'a \<Rightarrow> 'e + 'b" and dec :: "'b \<Rightarrow> 'e + 'a" and ok :: "'a \<Rightarrow> bool" and same :: "'a \<Rightarrow> 'a \<Rightarrow> bool"
  assumes decodes: "ok x \<Longrightarrow> \<exists>y x'. enc x = Inr y \<and> dec y = Inr x' \<and> same x x'"
begin

lemma traverse_decodes:
  "\<forall>x \<in> set xs. ok x \<Longrightarrow>
    \<exists>ys xs'. traverse enc xs = Inr ys \<and> traverse dec ys = Inr xs' \<and> list_all2 same xs xs'"
proof (induction xs)
  case (Cons x xs)
  obtain y x' where "enc x = Inr y" "dec y = Inr x'" "same x x'" using decodes[of x] Cons.prems by auto
  moreover obtain ys xs' where "traverse enc xs = Inr ys" "traverse dec ys = Inr xs'" "list_all2 same xs xs'"
    using Cons by auto
  ultimately show ?case by auto
qed simp

end

text \<open>What was decoded is encoded as before.\<close>

locale stable_codec = codec +
  assumes stable: "ok x \<Longrightarrow> same x x' \<Longrightarrow> enc x' = enc x"
begin

lemma traverse_stable: "\<forall>x \<in> set xs. ok x \<Longrightarrow> list_all2 same xs xs' \<Longrightarrow> traverse enc xs' = traverse enc xs"
proof (induction xs arbitrary: xs')
  case (Cons x xs)
  then obtain y ys where "xs' = y # ys" "same x y" "list_all2 same xs ys" by (auto simp: list_all2_Cons1)
  then show ?case using Cons.IH[of ys] Cons.prems(1) stable[of x y] by simp
qed simp

end

lemma stable_codec_list:
  assumes "stable_codec enc dec ok same"
  shows "stable_codec (traverse enc) (traverse dec) (\<lambda>xs. \<forall>x \<in> set xs. ok x) (list_all2 same)"
proof (rule stable_codec.intro)
  note c = stable_codec.axioms(1)[OF assms]
  show "codec (traverse enc) (traverse dec) (\<lambda>xs. \<forall>x \<in> set xs. ok x) (list_all2 same)"
    by (rule codec.intro) (rule codec.traverse_decodes[OF c])
  show "stable_codec_axioms (traverse enc) (\<lambda>xs. \<forall>x \<in> set xs. ok x) (list_all2 same)"
    by (rule stable_codec_axioms.intro) (rule stable_codec.traverse_stable[OF assms])
qed

text \<open>Terms that can be written: atoms, and sets of atoms of one type that are no variables.\<close>

fun term_writable :: "runtime \<Rightarrow> Term \<Rightarrow> bool" where
  "term_writable rt (TSet s) = (hs_inv (term_hash rt) is_atomic s \<and>
     (\<forall>x \<in> hs_set s. \<forall>y \<in> hs_set s. Term_Type x = Term_Type y \<and> Term_Type x \<noteq> TermTypeVariable))"
| "term_writable rt _ = True"

fun same_term :: "runtime \<Rightarrow> Term \<Rightarrow> Term \<Rightarrow> bool" where
  "same_term rt (TSet s) (TSet t) = (hs_set s = hs_set t \<and> hs_inv (term_hash rt) is_atomic t)"
| "same_term rt a b = (a = b)"

lemma atom_codec:
  "is_atomic x \<Longrightarrow> \<exists>y. tokenIDToProtoIDV2 x = Inr y \<and> protoIDToTokenIDV2 rt y = Inr x \<and>
     content_type y = Suc (TermType_iota (Term_Type x))"
  by (cases x) simp_all

lemma atoms_codec:
  assumes "\<forall>x \<in> set xs. is_atomic x"
  shows "\<exists>ys. traverse tokenIDToProtoIDV2 xs = Inr ys \<and> traverse (protoIDToTokenIDV2 rt) ys = Inr xs \<and>
    map content_type ys = map (\<lambda>x. Suc (TermType_iota (Term_Type x))) xs"
  using assms
proof (induction xs)
  case (Cons x xs)
  then show ?case using atom_codec[of x rt] by auto
qed simp

lemma fold_singletons:
  assumes "\<forall>x \<in> set xs. is_atomic x" "hs_inv (term_hash rt) is_atomic s"
  shows "hs_inv (term_hash rt) is_atomic (fold (\<lambda>x s. Set_Union rt s (NewSet rt [x])) xs s) \<and>
    hs_set (fold (\<lambda>x s. Set_Union rt s (NewSet rt [x])) xs s) = hs_set s \<union> set xs"
  using assms
proof (induction xs arbitrary: s)
  case (Cons x xs)
  have "hs_inv (term_hash rt) is_atomic (NewSet rt [x])" "hs_set (NewSet rt [x]) = {x}"
    using atom_set.new[of "[x]" rt] Cons.prems(1) by (simp_all add: NewSet_def)
  then have "hs_inv (term_hash rt) is_atomic (Set_Union rt s (NewSet rt [x])) \<and>
      hs_set (Set_Union rt s (NewSet rt [x])) = hs_set s \<union> {x}"
    using atom_set.union[of rt s "NewSet rt [x]"] Cons.prems(2) by (simp add: Set_Union_def)
  then show ?case using Cons.IH[of "Set_Union rt s (NewSet rt [x])"] Cons.prems(1) by auto
qed simp

lemma set_codec:
  assumes "term_writable rt (TSet s)"
  shows "\<exists>y x'. tokenIDToProtoIDV2 (TSet s) = Inr y \<and> protoIDToTokenIDV2 rt y = Inr x' \<and> same_term rt (TSet s) x'"
proof (cases "HashSet_Size s = 0")
  case True
  then have "hs_set s = {}" using assms by (simp add: hs_inv_def HashSet_Size_def)
  moreover have "hs_inv (term_hash rt) is_atomic (NewSet rt [])" "hs_set (NewSet rt []) = {}"
    using atom_set.new[of "[]" rt] by (simp_all add: NewSet_def)
  ultimately show ?thesis using True by simp
next
  case False
  let ?xs = "Sorted term_cmp (HashSet_Iter s)"
  have set: "set ?xs = hs_set s" by (simp add: Sorted_def)
  have inv: "hs_inv (term_hash rt) is_atomic s" using assms by simp
  obtain x xs where xs: "?xs = x # xs"
  proof (cases ?xs)
    case Nil
    then have "HashSet_Iter s = []" using set by simp
    then show ?thesis using False inv by (simp add: hs_inv_def HashSet_Size_def)
  qed
  have x: "x \<in> hs_set s" unfolding set[symmetric] xs by simp
  have uniform: "Term_Type y = Term_Type x \<and> Term_Type y \<noteq> TermTypeVariable" if "y \<in> hs_set s" for y
    using assms x that by (meson term_writable.simps(1))
  have types: "\<forall>y \<in> set ?xs. is_atomic y \<and> Term_Type y = Term_Type x"
    using uniform hs_inv_ok[OF inv] unfolding set by blast
  have tx: "Term_Type x \<noteq> TermTypeVariable" "Term_Type x \<noteq> TermTypeSet"
    using uniform[OF x] hs_inv_ok[OF inv x] by (simp, cases x, simp_all)
  obtain ys where ys: "traverse tokenIDToProtoIDV2 ?xs = Inr ys" "traverse (protoIDToTokenIDV2 rt) ys = Inr ?xs"
    "map content_type ys = map (\<lambda>x. Suc (TermType_iota (Term_Type x))) ?xs"
    using atoms_codec[of ?xs rt] types by auto
  have "traverse (\<lambda>e. if Term_Type e \<noteq> Term_Type x then Inl SetMixedTypes else tokenIDToProtoIDV2 e) ?xs =
      traverse tokenIDToProtoIDV2 ?xs"
    by (rule traverse_cong) (use types in auto)
  then have enc: "tokenIDToProtoIDV2 (TSet s) = Inr (TermV2_Set ys)"
    using False tx ys(1) xs by (simp add: Let_def)
  obtain y ys' where y: "ys = y # ys'" using ys(3) xs by (cases ys) auto
  have ct: "\<forall>z \<in> set ys. content_type z = content_type y"
  proof -
    have "set (map content_type ys) = (\<lambda>x. Suc (TermType_iota (Term_Type x))) ` set ?xs"
      unfolding ys(3) by simp
    also have "\<dots> \<subseteq> {Suc (TermType_iota (Term_Type x))}" using types by auto
    finally show ?thesis using y by auto
  qed
  have "content_type y = Suc (TermType_iota (Term_Type x))" using ys(3) y xs by simp
  then have cy: "content_type y \<noteq> 1" "content_type y \<noteq> 7"
    using tx by (cases x; simp)+
  have "traverse (\<lambda>e. if content_type e \<noteq> content_type y then Inl SetMixedTypes else protoIDToTokenIDV2 rt e) ys =
      traverse (protoIDToTokenIDV2 rt) ys"
    by (rule traverse_cong) (use ct in auto)
  then have dec: "protoIDToTokenIDV2 rt (TermV2_Set ys) =
      Inr (TSet (fold (\<lambda>x s. Set_Union rt s (NewSet rt [x])) ?xs (NewSet rt [])))"
    using ys(2) y cy by (simp add: Let_def)
  have "hs_inv (term_hash rt) is_atomic (NewSet rt [])" "hs_set (NewSet rt []) = {}"
    using atom_set.new[of "[]" rt] by (simp_all add: NewSet_def)
  then show ?thesis using enc dec fold_singletons[of ?xs rt "NewSet rt []"] types set by simp
qed

lemma same_term_sorted:
  assumes "term_writable rt (TSet s)" "same_term rt (TSet s) (TSet t)"
  shows "HashSet_Size t = HashSet_Size s" "Sorted term_cmp (HashSet_Iter t) = Sorted term_cmp (HashSet_Iter s)"
proof -
  have inv: "hs_inv (term_hash rt) is_atomic s" "hs_inv (term_hash rt) is_atomic t"
    using assms unfolding term_writable.simps same_term.simps by blast+
  have eq: "hs_set s = hs_set t" using assms(2) unfolding same_term.simps by blast
  show "HashSet_Size t = HashSet_Size s" by (simp only: hs_inv_size[OF inv(1)] hs_inv_size[OF inv(2)] eq)
  have "mset (HashSet_Iter s) = mset (HashSet_Iter t)"
    by (rule iffD1[OF set_eq_iff_mset_eq_distinct[OF hs_inv_distinct[OF inv(1)] hs_inv_distinct[OF inv(2)]]]) (rule eq)
  moreover have "set (HashSet_Iter t) \<subseteq> {t. is_atomic t}" using hs_inv_ok[OF inv(2)] by blast
  ultimately show "Sorted term_cmp (HashSet_Iter t) = Sorted term_cmp (HashSet_Iter s)"
    unfolding Sorted_def by (intro atom_order.sorted_unique) (simp_all only:)
qed

lemma same_term_stable:
  assumes "term_writable rt x" "same_term rt x x'"
  shows "tokenIDToProtoIDV2 x' = tokenIDToProtoIDV2 x"
proof (cases "is_atomic x")
  case True
  then show ?thesis using assms(2) by (cases x; cases x') simp_all
next
  case False
  then obtain s where s: "x = TSet s" by (cases x) auto
  then obtain t where t: "x' = TSet t" using assms(2) by (cases x') auto
  note eqs = same_term_sorted[OF assms[unfolded s t]]
  show ?thesis unfolding s t tokenIDToProtoIDV2.simps eqs ..
qed

interpretation term_codec: stable_codec tokenIDToProtoIDV2 "protoIDToTokenIDV2 rt" "term_writable rt" "same_term rt" for rt
proof
  fix x assume x: "term_writable rt x"
  show "\<exists>y x'. tokenIDToProtoIDV2 x = Inr y \<and> protoIDToTokenIDV2 rt y = Inr x' \<and> same_term rt x x'"
  proof (cases "is_atomic x")
    case True
    then show ?thesis using atom_codec[of x rt] by (cases x) auto
  next
    case False
    then obtain s where "x = TSet s" by (cases x) auto
    then show ?thesis using set_codec[of rt s] x by blast
  qed
qed (rule same_term_stable)

definition pred_writable :: "runtime \<Rightarrow> Predicate \<Rightarrow> bool" where
  "pred_writable rt p \<longleftrightarrow> (\<forall>t \<in> set (elems (pred_Terms p)). term_writable rt t)"

definition same_pred :: "runtime \<Rightarrow> Predicate \<Rightarrow> Predicate \<Rightarrow> bool" where
  "same_pred rt p q \<longleftrightarrow> pred_Name p = pred_Name q \<and>
     list_all2 (same_term rt) (elems (pred_Terms p)) (elems (pred_Terms q)) \<and> pred_Terms q \<noteq> None"

interpretation pred_codec: stable_codec tokenPredicateToProtoPredicateV2 "protoPredicateToTokenPredicateV2 rt"
  "pred_writable rt" "same_pred rt" for rt
proof
  fix p assume "pred_writable rt p"
  then show "\<exists>y p'. tokenPredicateToProtoPredicateV2 p = Inr y \<and> protoPredicateToTokenPredicateV2 rt y = Inr p' \<and> same_pred rt p p'"
    using term_codec.traverse_decodes[of "elems (pred_Terms p)" rt]
    by (auto simp: pred_writable_def same_pred_def tokenPredicateToProtoPredicateV2_def protoPredicateToTokenPredicateV2_def)
next
  fix p p' assume "pred_writable rt p" "same_pred rt p p'"
  then show "tokenPredicateToProtoPredicateV2 p' = tokenPredicateToProtoPredicateV2 p"
    using term_codec.traverse_stable[of "elems (pred_Terms p)" rt "elems (pred_Terms p')"]
    by (simp add: pred_writable_def same_pred_def tokenPredicateToProtoPredicateV2_def)
qed

interpretation fact_codec: stable_codec tokenFactToProtoFactV2 "protoFactToTokenFactV2 rt" "pred_writable rt" "same_pred rt" for rt
proof
  fix f assume "pred_writable rt f"
  then show "\<exists>y f'. tokenFactToProtoFactV2 f = Inr y \<and> protoFactToTokenFactV2 rt y = Inr f' \<and> same_pred rt f f'"
    using pred_codec.decodes[of rt f] by (auto simp: tokenFactToProtoFactV2_def protoFactToTokenFactV2_def)
qed (simp add: tokenFactToProtoFactV2_def pred_codec.stable)

fun op_writable :: "runtime \<Rightarrow> Op \<Rightarrow> bool" where
  "op_writable rt (Value v) = term_writable rt v"
| "op_writable rt _ = True"

fun same_op :: "runtime \<Rightarrow> Op \<Rightarrow> Op \<Rightarrow> bool" where
  "same_op rt (Value a) (Value b) = same_term rt a b"
| "same_op rt a b = (a = b)"

lemma unary_codec: "protoExprUnaryToTokenExprUnary (tokenExprUnaryToProtoExprUnary f) = Inr f"
  by (cases f) (simp_all add: protoExprUnaryToTokenExprUnary_def)

lemma binary_codec: "protoExprBinaryToTokenExprBinary (tokenExprBinaryToProtoExprBinary f) = Inr f"
  by (cases f) (simp_all add: protoExprBinaryToTokenExprBinary_def)

interpretation op_codec: stable_codec op_to_proto "proto_to_op rt" "op_writable rt" "same_op rt" for rt
proof
  fix x assume x: "op_writable rt x"
  show "\<exists>y x'. op_to_proto x = Inr y \<and> proto_to_op rt y = Inr x' \<and> same_op rt x x'"
  proof (cases x)
    case (Value v)
    then show ?thesis using term_codec.decodes[of rt v] x by auto
  qed (simp_all add: unary_codec binary_codec)
next
  fix x x' assume "op_writable rt x" "same_op rt x x'"
  then show "op_to_proto x' = op_to_proto x" by (cases x; cases x') (auto simp: term_codec.stable)
qed

definition expr_writable :: "runtime \<Rightarrow> Expression \<Rightarrow> bool" where
  "expr_writable rt e \<longleftrightarrow> (\<forall>x \<in> set (elems e). op_writable rt x)"

definition same_expr :: "runtime \<Rightarrow> Expression \<Rightarrow> Expression \<Rightarrow> bool" where
  "same_expr rt e e' \<longleftrightarrow> list_all2 (same_op rt) (elems e) (elems e') \<and> e' \<noteq> None"

interpretation expr_codec: stable_codec tokenExpressionToProtoExpressionV2 "protoExpressionToTokenExpressionV2 rt"
  "expr_writable rt" "same_expr rt" for rt
proof
  fix e assume "expr_writable rt e"
  then show "\<exists>y e'. tokenExpressionToProtoExpressionV2 e = Inr y \<and> protoExpressionToTokenExpressionV2 rt y = Inr e' \<and> same_expr rt e e'"
    using op_codec.traverse_decodes[of "elems e" rt]
    by (auto simp: expr_writable_def same_expr_def tokenExpressionToProtoExpressionV2_def protoExpressionToTokenExpressionV2_def)
next
  fix e e' assume "expr_writable rt e" "same_expr rt e e'"
  then show "tokenExpressionToProtoExpressionV2 e' = tokenExpressionToProtoExpressionV2 e"
    using op_codec.traverse_stable[of "elems e" rt "elems e'"]
    by (simp add: expr_writable_def same_expr_def tokenExpressionToProtoExpressionV2_def)
qed

text \<open>Only a scope of a key carries an index.\<close>

fun same_scope :: "Scope \<Rightarrow> Scope \<Rightarrow> bool" where
  "same_scope (Scope t i) (Scope t' i') = (t = t' \<and> (t = PublicKeyScopeType \<longrightarrow> i = i'))"

interpretation scope_codec: stable_codec tokenScopeToProtoScope protoScopeToTokenScope "\<lambda>_. True" same_scope
proof
  fix s
  show "\<exists>y s'. tokenScopeToProtoScope s = Inr y \<and> protoScopeToTokenScope y = Inr s' \<and> same_scope s s'"
    by (cases s rule: tokenScopeToProtoScope.cases) simp_all
next
  fix s s' assume "same_scope s s'"
  then show "tokenScopeToProtoScope s' = tokenScopeToProtoScope s"
    by (cases s rule: tokenScopeToProtoScope.cases; cases s' rule: tokenScopeToProtoScope.cases) simp_all
qed

definition rule_writable :: "runtime \<Rightarrow> Rule \<Rightarrow> bool" where
  "rule_writable rt r \<longleftrightarrow> pred_writable rt (rule_Head r) \<and>
     (\<forall>p \<in> set (elems (rule_Body r)). pred_writable rt p) \<and>
     (\<forall>e \<in> set (elems (rule_Expressions r)). expr_writable rt e)"

definition same_rule :: "runtime \<Rightarrow> Rule \<Rightarrow> Rule \<Rightarrow> bool" where
  "same_rule rt r r' \<longleftrightarrow> same_pred rt (rule_Head r) (rule_Head r') \<and>
     list_all2 (same_pred rt) (elems (rule_Body r)) (elems (rule_Body r')) \<and>
     list_all2 (same_expr rt) (elems (rule_Expressions r)) (elems (rule_Expressions r')) \<and>
     list_all2 same_scope (elems (rule_Scopes r)) (elems (rule_Scopes r'))"

lemma elems_nil_if_empty [simp]: "elems (nil_if_empty xs) = xs"
  by (simp add: nil_if_empty_def)

interpretation rule_codec: stable_codec tokenRuleToProtoRuleV2 "protoRuleToTokenRuleV2 rt" "rule_writable rt" "same_rule rt" for rt
proof
  fix r assume r: "rule_writable rt r"
  note parts = pred_codec.traverse_decodes[of "elems (rule_Body r)" rt] pred_codec.decodes[of rt "rule_Head r"]
    expr_codec.traverse_decodes[of "elems (rule_Expressions r)" rt] scope_codec.traverse_decodes[of "elems (rule_Scopes r)"]
  show "\<exists>y r'. tokenRuleToProtoRuleV2 r = Inr y \<and> protoRuleToTokenRuleV2 rt y = Inr r' \<and> same_rule rt r r'"
    using parts r
    by (auto simp: rule_writable_def same_rule_def tokenRuleToProtoRuleV2_def protoRuleToTokenRuleV2_def)
next
  fix r r' assume "rule_writable rt r" "same_rule rt r r'"
  then show "tokenRuleToProtoRuleV2 r' = tokenRuleToProtoRuleV2 r"
    using pred_codec.traverse_stable[of "elems (rule_Body r)" rt] pred_codec.stable[of rt "rule_Head r"]
      expr_codec.traverse_stable[of "elems (rule_Expressions r)" rt] scope_codec.traverse_stable[of "elems (rule_Scopes r)"]
    by (simp add: rule_writable_def same_rule_def tokenRuleToProtoRuleV2_def)
qed

definition check_writable :: "runtime \<Rightarrow> Check \<Rightarrow> bool" where
  "check_writable rt c \<longleftrightarrow> (\<forall>q \<in> set (elems (check_Queries c)). rule_writable rt q)"

definition same_check :: "runtime \<Rightarrow> Check \<Rightarrow> Check \<Rightarrow> bool" where
  "same_check rt c c' \<longleftrightarrow> check_Kind c' = known_kind (check_Kind c) \<and>
     list_all2 (same_rule rt) (elems (check_Queries c)) (elems (check_Queries c'))"

interpretation check_codec: stable_codec tokenCheckToProtoCheckV2 "protoCheckToTokenCheckV2 rt" "check_writable rt" "same_check rt" for rt
proof
  fix c assume "check_writable rt c"
  then show "\<exists>y c'. tokenCheckToProtoCheckV2 c = Inr y \<and> protoCheckToTokenCheckV2 rt y = Inr c' \<and> same_check rt c c'"
    using rule_codec.traverse_decodes[of "elems (check_Queries c)" rt]
    by (cases "check_Kind c")
       (auto simp: check_writable_def same_check_def tokenCheckToProtoCheckV2_def protoCheckToTokenCheckV2_def)
next
  fix c c' assume "check_writable rt c" "same_check rt c c'"
  then show "tokenCheckToProtoCheckV2 c' = tokenCheckToProtoCheckV2 c"
    using rule_codec.traverse_stable[of "elems (check_Queries c)" rt]
    by (cases "check_Kind c") (simp_all add: check_writable_def same_check_def tokenCheckToProtoCheckV2_def)
qed

interpretation key_codec: stable_codec "\<lambda>k. tokenPublicKeyToProtoPublicKey (Some k)" "\<lambda>k. protoPublicKeyToTokenPublicKey (Some k)"
  "\<lambda>_. True" "(=)"
  by unfold_locales (simp_all add: tokenPublicKeyToProtoPublicKey_def protoPublicKeyToTokenPublicKey_def)

interpretation signature_codec: stable_codec "\<lambda>s. tokenExternalSignatureToProtoExternalSignature (Some s)"
  "\<lambda>s. protoExternalSignatureToTokenExternalSignature (Some s)" "\<lambda>_. True" "(=)"
proof
  fix s
  show "\<exists>y s'. tokenExternalSignatureToProtoExternalSignature (Some s) = Inr y \<and>
      protoExternalSignatureToTokenExternalSignature (Some y) = Inr s' \<and> s = s'"
    using key_codec.decodes[of "es_publicKey s"]
    by (auto simp: tokenExternalSignatureToProtoExternalSignature_def protoExternalSignatureToTokenExternalSignature_def)
qed simp

section \<open>Blocks\<close>

definition block_writable :: "runtime \<Rightarrow> Block \<Rightarrow> bool" where
  "block_writable rt b \<longleftrightarrow> (\<forall>f \<in> set (blk_facts b). pred_writable rt f) \<and>
     (\<forall>r \<in> set (blk_rules b). rule_writable rt r) \<and> (\<forall>c \<in> set (blk_checks b). check_writable rt c)"

definition same_block :: "runtime \<Rightarrow> Block \<Rightarrow> Block \<Rightarrow> bool" where
  "same_block rt b b' \<longleftrightarrow> blk_symbols b' = blk_symbols b \<and>
     blk_publicKeys b' = (if block_keys b = [] then None else Some (block_keys b)) \<and>
     list_all2 (same_pred rt) (blk_facts b) (blk_facts b') \<and>
     list_all2 same_scope (blk_scopes b) (blk_scopes b') \<and>
     list_all2 (same_rule rt) (blk_rules b) (blk_rules b') \<and>
     list_all2 (same_check rt) (blk_checks b) (blk_checks b') \<and>
     blk_context b' = blk_context b \<and> blk_version b' = blk_version b"

lemma insert_keys: "distinct (acc @ ks) \<Longrightarrow> fold (\<lambda>pk pkTable. snd (PublicKeyTable_Insert pkTable pk)) ks acc = acc @ ks"
proof (induction ks arbitrary: acc)
  case (Cons k ks)
  then have "find_index (\<lambda>v. v = k) acc = None" by (auto simp: find_index_None)
  then show ?case using Cons.IH[of "acc @ [k]"] Cons.prems by (simp add: PublicKeyTable_Insert_def Let_def)
qed simp

lemma keys_decode: "traverse (\<lambda>k. protoPublicKeyToTokenPublicKey (Some k))
    (map (\<lambda>k. \<lparr>pbk_Algorithm = pk_Algorithm k, pbk_Key = pk_Key k\<rparr>) ks) = Inr ks"
  by (induction ks) (simp_all add: protoPublicKeyToTokenPublicKey_def)

lemma version_known:
  assumes "MinSchemaVersion \<le> v" "v \<le> MaxSchemaVersion"
  shows "v \<in> {DatalogVersion3_0, DatalogVersion3_1, DatalogVersion3_2, DatalogVersion3_3}"
proof -
  have "3 \<le> unat v" "unat v \<le> 6"
    using assms by (simp_all add: MinSchemaVersion_def MaxSchemaVersion_def DatalogVersion3_0_def DatalogVersion3_3_def word_le_nat_alt)
  then have "unat v = 3 \<or> unat v = 4 \<or> unat v = 5 \<or> unat v = 6" by arith
  then show ?thesis
    by (auto simp: DatalogVersion3_0_def DatalogVersion3_1_def DatalogVersion3_2_def DatalogVersion3_3_def word_unat_eq_iff)
qed

definition decoded_signature :: "pb_ExternalSignature option \<Rightarrow> ExternalSignature option" where
  "decoded_signature es = map_option (\<lambda>e. \<lparr>es_publicKey = (case pbe_PublicKey e of
      None \<Rightarrow> PublicKey [] 0 | Some k \<Rightarrow> PublicKey (pbk_Key k) (pbk_Algorithm k)), es_signature = pbe_Signature e\<rparr>) es"

lemma same_block_stable:
  assumes "block_writable rt b" "same_block rt b b'"
  shows "tokenBlockToProtoBlock b' = tokenBlockToProtoBlock b"
proof -
  have keys: "(case blk_publicKeys c of None \<Rightarrow> [] | Some keys \<Rightarrow> map g keys) = map g (block_keys c)" for c and g :: "PublicKey \<Rightarrow> pb_PublicKey"
    by (simp add: block_keys_def split: option.split)
  have "block_keys b' = block_keys b" using assms(2) by (simp add: same_block_def block_keys_def split: if_splits)
  then show ?thesis
    using assms fact_codec.traverse_stable[of "blk_facts b" rt] rule_codec.traverse_stable[of "blk_rules b" rt]
      check_codec.traverse_stable[of "blk_checks b" rt] scope_codec.traverse_stable[of "blk_scopes b"]
    by (simp add: tokenBlockToProtoBlock_def keys block_writable_def same_block_def)
qed

lemma block_codec:
  assumes "block_writable rt b" and "distinct (block_keys b)"
    and "MinSchemaVersion \<le> blk_version b" and "blk_version b \<le> MaxSchemaVersion"
    and "\<forall>e. ext = Some e \<longrightarrow> pbe_PublicKey e \<noteq> None"
  shows "\<exists>pb b'. tokenBlockToProtoBlock b = Inr pb \<and> protoBlockToTokenBlock rt pb ext = Inr b' \<and>
    same_block rt b b' \<and> blk_externalSignature b' = decoded_signature ext"
proof -
  obtain pf fs where f: "traverse tokenFactToProtoFactV2 (blk_facts b) = Inr pf"
    "traverse (protoFactToTokenFactV2 rt) pf = Inr fs" "list_all2 (same_pred rt) (blk_facts b) fs"
    using fact_codec.traverse_decodes[of "blk_facts b" rt] assms(1) by (auto simp: block_writable_def)
  obtain pr rs where r: "traverse tokenRuleToProtoRuleV2 (blk_rules b) = Inr pr"
    "traverse (protoRuleToTokenRuleV2 rt) pr = Inr rs" "list_all2 (same_rule rt) (blk_rules b) rs"
    using rule_codec.traverse_decodes[of "blk_rules b" rt] assms(1) by (auto simp: block_writable_def)
  obtain pc cs where c: "traverse tokenCheckToProtoCheckV2 (blk_checks b) = Inr pc"
    "traverse (protoCheckToTokenCheckV2 rt) pc = Inr cs" "list_all2 (same_check rt) (blk_checks b) cs"
    using check_codec.traverse_decodes[of "blk_checks b" rt] assms(1) by (auto simp: block_writable_def)
  obtain ps ss where s: "traverse tokenScopeToProtoScope (blk_scopes b) = Inr ps"
    "traverse protoScopeToTokenScope ps = Inr ss" "list_all2 same_scope (blk_scopes b) ss"
    using scope_codec.traverse_decodes[of "blk_scopes b"] by auto
  have keys: "(case blk_publicKeys b of None \<Rightarrow> [] | Some keys \<Rightarrow> map g keys) = map g (block_keys b)" for g :: "PublicKey \<Rightarrow> pb_PublicKey"
    by (simp add: block_keys_def split: option.split)
  have ext: "(case ext of None \<Rightarrow> Inr None
      | Some es \<Rightarrow> bind_res (protoExternalSignatureToTokenExternalSignature (Some es)) (\<lambda>e. Inr (Some e))) =
      Inr (decoded_signature ext)"
    using assms(5) by (cases ext) (auto simp: decoded_signature_def protoExternalSignatureToTokenExternalSignature_def
      protoPublicKeyToTokenPublicKey_def)
  have v: "\<not> blk_version b < MinSchemaVersion" "\<not> blk_version b > MaxSchemaVersion" using assms(3,4) by simp_all
  note known = version_known[OF assms(3,4)]
  show ?thesis
    using f r c s ext v known insert_keys[of "[]" "block_keys b"] assms(2)
    by (auto simp: tokenBlockToProtoBlock_def protoBlockToTokenBlock_def getDatalogVersion_def keys keys_decode same_block_def)
qed

text \<open>
  C10: a block that is written and read again is the same block: same symbols, keys, context and
  version, and facts, rules, checks and scopes equal up to the buckets of their sets; a table
  without keys comes back as nil. The block needs a supported version, keys listed once, and sets
  of one type.
\<close>

theorem block_roundtrip:
  assumes "block_writable rt b" and "distinct (block_keys b)"
    and "MinSchemaVersion \<le> blk_version b" and "blk_version b \<le> MaxSchemaVersion"
    and "\<forall>e. ext = Some e \<longrightarrow> pbe_PublicKey e \<noteq> None"
  shows "\<exists>pb b'. tokenBlockToProtoBlock b = Inr pb \<and> protoBlockToTokenBlock rt pb ext = Inr b' \<and>
    same_block rt b b' \<and> blk_externalSignature b' = decoded_signature ext"
  by (rule block_codec[OF assms])

definition demo_block :: Block where
  "demo_block = \<lparr>blk_symbols = [''a''], blk_publicKeys = Some [], blk_facts = [\<lparr>pred_Name = 1024, pred_Terms = Some [TInteger 7]\<rparr>],
     blk_scopes = [Scope PublicKeyScopeType 0], blk_rules = [], blk_checks = [], blk_context = ''c'', blk_version = 5,
     blk_externalSignature = None\<rparr>"

theorem block_roundtrip_witness:
  "\<exists>pb b'. tokenBlockToProtoBlock demo_block = Inr pb \<and> protoBlockToTokenBlock demo_runtime pb None = Inr b' \<and>
     same_block demo_runtime demo_block b' \<and> blk_publicKeys b' = None"
proof -
  have "\<exists>pb b'. tokenBlockToProtoBlock demo_block = Inr pb \<and> protoBlockToTokenBlock demo_runtime pb None = Inr b' \<and>
     same_block demo_runtime demo_block b' \<and> blk_externalSignature b' = decoded_signature None"
    by (rule block_roundtrip) (simp_all add: demo_block_def block_writable_def pred_writable_def block_keys_def
      MinSchemaVersion_def MaxSchemaVersion_def DatalogVersion3_0_def DatalogVersion3_3_def)
  then show ?thesis by (auto simp: same_block_def demo_block_def block_keys_def)
qed

end
