(* ===== verification/Crypto.thy ===== *)
theory Crypto
  imports Protobuf
begin

text \<open>
  Signers, verifiers and key generators (\<^verbatim>\<open>internal/crypto\<close>). The standard library's Ed25519,
  ECDSA and SHA-256 are the record \<open>crypto_lib\<close>, an argument of every definition, over arbitrary
  types of ECDSA private and public keys; \<open>crypto_laws\<close> states what the code relies on: what a
  private key signs, its public key verifies, and keys survive being written and read. A stream of
  random bytes is an argument as well. The panics that the library documents for keys of a wrong
  length are the value \<open>CryptoPanic\<close>.
\<close>

section \<open>The library\<close>

record ('sk, 'pk) crypto_lib =
  ed25519_Sign :: "u8 list \<Rightarrow> u8 list \<Rightarrow> u8 list"
  ed25519_Verify :: "u8 list \<Rightarrow> u8 list \<Rightarrow> u8 list \<Rightarrow> bool"
  ed25519_Public :: "u8 list \<Rightarrow> u8 list"
  ed25519_NewKeyFromSeed :: "u8 list \<Rightarrow> u8 list"
  ed25519_Seed :: "u8 list \<Rightarrow> u8 list"
  ed25519_GenerateKey :: "u8 list \<Rightarrow> (u8 list \<times> u8 list) option"
  sha256_Sum256 :: "u8 list \<Rightarrow> u8 list"
  ecdsa_SignASN1 :: "u8 list \<Rightarrow> 'sk \<Rightarrow> u8 list \<Rightarrow> u8 list option"
  ecdsa_VerifyASN1 :: "'pk \<Rightarrow> u8 list \<Rightarrow> u8 list \<Rightarrow> bool"
  ecdsa_PublicKey :: "'sk \<Rightarrow> 'pk"
  ecdsa_ParseRawPrivateKey :: "u8 list \<Rightarrow> 'sk option"
  ecdsa_FillBytes32 :: "'sk \<Rightarrow> u8 list"
  ecdsa_GenerateKey :: "u8 list \<Rightarrow> 'sk option"
  elliptic_MarshalCompressed :: "'pk \<Rightarrow> u8 list"
  elliptic_UnmarshalCompressed :: "u8 list \<Rightarrow> 'pk option"

definition ed25519_PublicKeySize :: nat where "ed25519_PublicKeySize = 32"
definition ed25519_PrivateKeySize :: nat where "ed25519_PrivateKeySize = 64"
definition ed25519_SeedSize :: nat where "ed25519_SeedSize = 32"
definition ed25519_SignatureSize :: nat where "ed25519_SignatureSize = 64"

datatype crypto_error =
    InvalidKeySize
  | InvalidSignature
  | InvalidPrivateKey
  | InvalidPublicKey
  | UnsupportedAlgorithm Algorithm
  | UnsupportedSigningAlgorithm
  | UnsupportedPublicKeyType
  | NilRootKey
  | SignerKindMismatch
  | SignerKeyMismatch
  | RandomSourceFailed
  | SignFailed
  | CryptoPanic

section \<open>Signers\<close>

datatype 'sk Signer = ED25519Signer "u8 list" | SECP256R1Signer 'sk

text \<open>The keys a caller hands in: dynamic types of \<^verbatim>\<open>crypto.Signer\<close> and \<^verbatim>\<open>crypto.PublicKey\<close>.\<close>

datatype 'sk crypto_Signer = Ed25519PrivateKey "u8 list" | EcdsaPrivateKey 'sk | OtherSigner

datatype 'pk crypto_PublicKey = Ed25519PublicKey "u8 list" | EcdsaPublicKey "'pk option" | OtherPublicKey

definition ED25519Signer_UnmarshalBinary :: "('sk, 'pk) crypto_lib \<Rightarrow> u8 list \<Rightarrow> crypto_error + 'sk Signer" where
  "ED25519Signer_UnmarshalBinary cl d =
     (if length d \<noteq> ed25519_SeedSize then Inl InvalidKeySize else Inr (ED25519Signer (ed25519_NewKeyFromSeed cl d)))"

definition SECP256R1Signer_UnmarshalBinary :: "('sk, 'pk) crypto_lib \<Rightarrow> u8 list \<Rightarrow> crypto_error + 'sk Signer" where
  "SECP256R1Signer_UnmarshalBinary cl d = (case ecdsa_ParseRawPrivateKey cl d of
     None \<Rightarrow> Inl InvalidPrivateKey | Some priv \<Rightarrow> Inr (SECP256R1Signer priv))"

definition NewSignerFromPB :: "('sk, 'pk) crypto_lib \<Rightarrow> Algorithm \<Rightarrow> u8 list \<Rightarrow> crypto_error + 'sk Signer" where
  "NewSignerFromPB cl alg rawPrivateKey =
     (if alg = Ed25519 then ED25519Signer_UnmarshalBinary cl rawPrivateKey
      else if alg = SECP256R1 then SECP256R1Signer_UnmarshalBinary cl rawPrivateKey
      else Inl (UnsupportedAlgorithm alg))"

fun NewSigner :: "'sk crypto_Signer \<Rightarrow> crypto_error + 'sk Signer" where
  "NewSigner (Ed25519PrivateKey cs) = Inr (ED25519Signer cs)"
| "NewSigner (EcdsaPrivateKey cs) = Inr (SECP256R1Signer cs)"
| "NewSigner OtherSigner = Inl UnsupportedSigningAlgorithm"

definition ED25519Signer_Sign :: "('sk, 'pk) crypto_lib \<Rightarrow> u8 list \<Rightarrow> u8 list \<Rightarrow> crypto_error + u8 list" where
  [simp]: "ED25519Signer_Sign cl priv payload =
     (if length priv \<noteq> ed25519_PrivateKeySize then Inl CryptoPanic else Inr (ed25519_Sign cl priv payload))"

definition SECP256R1Signer_Sign :: "('sk, 'pk) crypto_lib \<Rightarrow> u8 list \<Rightarrow> 'sk \<Rightarrow> u8 list \<Rightarrow> crypto_error + u8 list" where
  [simp]: "SECP256R1Signer_Sign cl rand priv payload =
     (let digest = sha256_Sum256 cl payload in
      case ecdsa_SignASN1 cl rand priv digest of None \<Rightarrow> Inl SignFailed | Some s \<Rightarrow> Inr s)"

definition ED25519Signer_PublicKeyProto :: "('sk, 'pk) crypto_lib \<Rightarrow> u8 list \<Rightarrow> pb_PublicKey" where
  [simp]: "ED25519Signer_PublicKeyProto cl priv = \<lparr>pbk_Algorithm = Ed25519, pbk_Key = ed25519_Public cl priv\<rparr>"

definition SECP256R1Signer_PublicKeyProto :: "('sk, 'pk) crypto_lib \<Rightarrow> 'sk \<Rightarrow> pb_PublicKey" where
  [simp]: "SECP256R1Signer_PublicKeyProto cl priv =
     \<lparr>pbk_Algorithm = SECP256R1, pbk_Key = elliptic_MarshalCompressed cl (ecdsa_PublicKey cl priv)\<rparr>"

text \<open>The methods of the interface \<^verbatim>\<open>Signer\<close>.\<close>

fun Signer_Sign :: "('sk, 'pk) crypto_lib \<Rightarrow> u8 list \<Rightarrow> 'sk Signer \<Rightarrow> u8 list \<Rightarrow> crypto_error + u8 list" where
  "Signer_Sign cl rand (ED25519Signer priv) payload = ED25519Signer_Sign cl priv payload"
| "Signer_Sign cl rand (SECP256R1Signer priv) payload = SECP256R1Signer_Sign cl rand priv payload"

fun Signer_Algorithm :: "'sk Signer \<Rightarrow> Algorithm" where
  "Signer_Algorithm (ED25519Signer _) = Ed25519"
| "Signer_Algorithm (SECP256R1Signer _) = SECP256R1"

fun Signer_PublicKeyProto :: "('sk, 'pk) crypto_lib \<Rightarrow> 'sk Signer \<Rightarrow> pb_PublicKey" where
  "Signer_PublicKeyProto cl (ED25519Signer priv) = ED25519Signer_PublicKeyProto cl priv"
| "Signer_PublicKeyProto cl (SECP256R1Signer priv) = SECP256R1Signer_PublicKeyProto cl priv"

section \<open>Key generators\<close>

datatype KeyGenerator = ED25519Generator | SECP256R1Generator

definition NewKeyGenerator :: "Algorithm \<Rightarrow> crypto_error + KeyGenerator" where
  "NewKeyGenerator alg = (if alg = Ed25519 then Inr ED25519Generator
     else if alg = SECP256R1 then Inr SECP256R1Generator else Inl (UnsupportedAlgorithm alg))"

definition ED25519Generator_GenerateNext :: "('sk, 'pk) crypto_lib \<Rightarrow> u8 list \<Rightarrow> crypto_error + (u8 list \<times> u8 list)" where
  [simp]: "ED25519Generator_GenerateNext cl rng = (case ed25519_GenerateKey cl rng of
     None \<Rightarrow> Inl RandomSourceFailed | Some (pub, priv) \<Rightarrow> Inr (pub, ed25519_Seed cl priv))"

definition SECP256R1Generator_GenerateNext :: "('sk, 'pk) crypto_lib \<Rightarrow> u8 list \<Rightarrow> crypto_error + (u8 list \<times> u8 list)" where
  [simp]: "SECP256R1Generator_GenerateNext cl rng = (case ecdsa_GenerateKey cl rng of
     None \<Rightarrow> Inl RandomSourceFailed
   | Some priv \<Rightarrow> Inr (elliptic_MarshalCompressed cl (ecdsa_PublicKey cl priv), ecdsa_FillBytes32 cl priv))"

fun GenerateNext :: "('sk, 'pk) crypto_lib \<Rightarrow> KeyGenerator \<Rightarrow> u8 list \<Rightarrow> crypto_error + (u8 list \<times> u8 list)" where
  "GenerateNext cl ED25519Generator rng = ED25519Generator_GenerateNext cl rng"
| "GenerateNext cl SECP256R1Generator rng = SECP256R1Generator_GenerateNext cl rng"

section \<open>Verifiers\<close>

datatype 'pk Verifier = ED25519Verifier "u8 list" | SECP256R1Verifier 'pk

definition ED25519Verifier_UnmarshalBinary :: "u8 list \<Rightarrow> crypto_error + 'pk Verifier" where
  "ED25519Verifier_UnmarshalBinary d =
     (if length d \<noteq> ed25519_PublicKeySize then Inl InvalidKeySize else Inr (ED25519Verifier d))"

definition SECP256R1Verifier_UnmarshalBinary :: "('sk, 'pk) crypto_lib \<Rightarrow> u8 list \<Rightarrow> crypto_error + 'pk Verifier" where
  "SECP256R1Verifier_UnmarshalBinary cl d = (case elliptic_UnmarshalCompressed cl d of
     None \<Rightarrow> Inl InvalidPublicKey | Some pub \<Rightarrow> Inr (SECP256R1Verifier pub))"

definition NewVerifierFromPB :: "('sk, 'pk) crypto_lib \<Rightarrow> Algorithm \<Rightarrow> u8 list \<Rightarrow> crypto_error + 'pk Verifier" where
  "NewVerifierFromPB cl alg rawPublicKey =
     (if alg = Ed25519 then ED25519Verifier_UnmarshalBinary rawPublicKey
      else if alg = SECP256R1 then SECP256R1Verifier_UnmarshalBinary cl rawPublicKey
      else Inl (UnsupportedAlgorithm alg))"

fun NewSigVerifier :: "'pk crypto_PublicKey \<Rightarrow> crypto_error + 'pk Verifier" where
  "NewSigVerifier (Ed25519PublicKey pub) = Inr (ED25519Verifier pub)"
| "NewSigVerifier (EcdsaPublicKey None) = Inl NilRootKey"
| "NewSigVerifier (EcdsaPublicKey (Some pub)) = Inr (SECP256R1Verifier pub)"
| "NewSigVerifier OtherPublicKey = Inl UnsupportedPublicKeyType"

definition ED25519Verifier_Verify :: "('sk, 'pk) crypto_lib \<Rightarrow> u8 list \<Rightarrow> u8 list \<Rightarrow> u8 list \<Rightarrow> crypto_error option" where
  [simp]: "ED25519Verifier_Verify cl pub payload signature =
     (if length pub \<noteq> ed25519_PublicKeySize then Some CryptoPanic
      else if \<not> ed25519_Verify cl pub payload signature then Some InvalidSignature else None)"

definition SECP256R1Verifier_Verify :: "('sk, 'pk) crypto_lib \<Rightarrow> 'pk \<Rightarrow> u8 list \<Rightarrow> u8 list \<Rightarrow> crypto_error option" where
  [simp]: "SECP256R1Verifier_Verify cl pub payload signature =
     (let digest = sha256_Sum256 cl payload in
      if \<not> ecdsa_VerifyASN1 cl pub digest signature then Some InvalidSignature else None)"

fun ED25519Verifier_Matches :: "('sk, 'pk) crypto_lib \<Rightarrow> u8 list \<Rightarrow> 'sk Signer \<Rightarrow> crypto_error option" where
  "ED25519Verifier_Matches cl pub (ED25519Signer priv) =
     (if pub \<noteq> ed25519_Public cl priv then Some SignerKeyMismatch else None)"
| "ED25519Verifier_Matches cl pub _ = Some SignerKindMismatch"

fun SECP256R1Verifier_Matches :: "('sk, 'pk) crypto_lib \<Rightarrow> 'pk \<Rightarrow> 'sk Signer \<Rightarrow> crypto_error option" where
  "SECP256R1Verifier_Matches cl pub (SECP256R1Signer priv) =
     (if ecdsa_PublicKey cl priv \<noteq> pub then Some SignerKeyMismatch else None)"
| "SECP256R1Verifier_Matches cl pub _ = Some SignerKindMismatch"

text \<open>The methods of the interface \<^verbatim>\<open>Verifier\<close>.\<close>

fun Verifier_Verify :: "('sk, 'pk) crypto_lib \<Rightarrow> 'pk Verifier \<Rightarrow> u8 list \<Rightarrow> u8 list \<Rightarrow> crypto_error option" where
  "Verifier_Verify cl (ED25519Verifier pub) payload signature = ED25519Verifier_Verify cl pub payload signature"
| "Verifier_Verify cl (SECP256R1Verifier pub) payload signature = SECP256R1Verifier_Verify cl pub payload signature"

fun Verifier_Matches :: "('sk, 'pk) crypto_lib \<Rightarrow> 'pk Verifier \<Rightarrow> 'sk Signer \<Rightarrow> crypto_error option" where
  "Verifier_Matches cl (ED25519Verifier pub) signer = ED25519Verifier_Matches cl pub signer"
| "Verifier_Matches cl (SECP256R1Verifier pub) signer = SECP256R1Verifier_Matches cl pub signer"

section \<open>What the library promises\<close>

definition crypto_laws :: "('sk, 'pk) crypto_lib \<Rightarrow> bool" where
  "crypto_laws cl \<longleftrightarrow>
     (\<forall>priv m. length priv = ed25519_PrivateKeySize \<longrightarrow> ed25519_Verify cl (ed25519_Public cl priv) m (ed25519_Sign cl priv m)) \<and>
     (\<forall>priv. length priv = ed25519_PrivateKeySize \<longrightarrow> length (ed25519_Public cl priv) = ed25519_PublicKeySize) \<and>
     (\<forall>rng pub priv. ed25519_GenerateKey cl rng = Some (pub, priv) \<longrightarrow> pub = ed25519_Public cl priv \<and>
        length priv = ed25519_PrivateKeySize \<and> length (ed25519_Seed cl priv) = ed25519_SeedSize \<and>
        ed25519_NewKeyFromSeed cl (ed25519_Seed cl priv) = priv) \<and>
     (\<forall>rand priv h s. ecdsa_SignASN1 cl rand priv h = Some s \<longrightarrow> ecdsa_VerifyASN1 cl (ecdsa_PublicKey cl priv) h s) \<and>
     (\<forall>rng priv. ecdsa_GenerateKey cl rng = Some priv \<longrightarrow> ecdsa_ParseRawPrivateKey cl (ecdsa_FillBytes32 cl priv) = Some priv) \<and>
     (\<forall>priv. elliptic_UnmarshalCompressed cl (elliptic_MarshalCompressed cl (ecdsa_PublicKey cl priv)) =
        Some (ecdsa_PublicKey cl priv))"

text \<open>The verifier of a signer.\<close>

fun verifier_of :: "('sk, 'pk) crypto_lib \<Rightarrow> 'sk Signer \<Rightarrow> 'pk Verifier" where
  "verifier_of cl (ED25519Signer priv) = ED25519Verifier (ed25519_Public cl priv)"
| "verifier_of cl (SECP256R1Signer priv) = SECP256R1Verifier (ecdsa_PublicKey cl priv)"

lemma signed_verifies:
  assumes "crypto_laws cl" "Signer_Sign cl rand s m = Inr sig"
  shows "Verifier_Verify cl (verifier_of cl s) m sig = None"
  using assms by (cases s) (auto simp: crypto_laws_def Let_def split: if_splits option.splits)

lemma verifier_matches: "Verifier_Matches cl (verifier_of cl s) s = None"
  by (cases s) simp_all

text \<open>A signer that can sign at all writes a public key that reads back as its verifier.\<close>

lemma public_key_reads_back:
  assumes "crypto_laws cl" "Signer_Sign cl rand s m = Inr sig"
  shows "NewVerifierFromPB cl (pbk_Algorithm (Signer_PublicKeyProto cl s)) (pbk_Key (Signer_PublicKeyProto cl s)) =
    Inr (verifier_of cl s)"
  using assms by (cases s) (auto simp: crypto_laws_def NewVerifierFromPB_def ED25519Verifier_UnmarshalBinary_def
    SECP256R1Verifier_UnmarshalBinary_def Ed25519_def SECP256R1_def Let_def split: if_splits option.splits)

text \<open>The next key pair: its private key reads as a signer, its public key as that signer's verifier.\<close>

lemma next_key_pair:
  assumes "crypto_laws cl" "NewKeyGenerator alg = Inr gen" "GenerateNext cl gen rng = Inr (pub, priv)"
  obtains s where "NewSignerFromPB cl alg priv = Inr s" "NewVerifierFromPB cl alg pub = Inr (verifier_of cl s)"
    "Signer_Algorithm s = alg"
proof (cases "alg = Ed25519")
  case True
  then have gen: "gen = ED25519Generator" using assms(2) by (simp add: NewKeyGenerator_def)
  then obtain k where k: "ed25519_GenerateKey cl rng = Some (pub, k)" "priv = ed25519_Seed cl k"
    using assms(3) by (auto split: option.splits)
  then have key: "pub = ed25519_Public cl k" "length k = ed25519_PrivateKeySize"
    "length (ed25519_Seed cl k) = ed25519_SeedSize" "ed25519_NewKeyFromSeed cl (ed25519_Seed cl k) = k"
    using assms(1) unfolding crypto_laws_def by blast+
  then have "length pub = ed25519_PublicKeySize" using assms(1) unfolding crypto_laws_def by blast
  then show ?thesis
    using True that[of "ED25519Signer k"] key k(2)
    by (simp add: NewSignerFromPB_def ED25519Signer_UnmarshalBinary_def NewVerifierFromPB_def
      ED25519Verifier_UnmarshalBinary_def)
next
  case False
  then have alg: "alg = SECP256R1" "gen = SECP256R1Generator"
    using assms(2) by (auto simp: NewKeyGenerator_def split: if_splits)
  then obtain k where k: "ecdsa_GenerateKey cl rng = Some k" "priv = ecdsa_FillBytes32 cl k"
    "pub = elliptic_MarshalCompressed cl (ecdsa_PublicKey cl k)"
    using assms(3) by (auto split: option.splits)
  then show ?thesis
    using assms(1) False alg that[of "SECP256R1Signer k"]
    by (auto simp: crypto_laws_def NewSignerFromPB_def SECP256R1Signer_UnmarshalBinary_def NewVerifierFromPB_def
      SECP256R1Verifier_UnmarshalBinary_def)
qed

text \<open>A library that keeps the promises, for concrete examples: a signature is the public key and
  the first bytes of the message.\<close>

definition pad32 :: "u8 list \<Rightarrow> u8 list" where
  "pad32 m = take 32 (m @ replicate 32 0)"

definition demo_crypto :: "(u8 list, u8 list) crypto_lib" where
  "demo_crypto = \<lparr>ed25519_Sign = (\<lambda>priv m. drop 32 priv @ pad32 m),
     ed25519_Verify = (\<lambda>pub m s. s = pub @ pad32 m),
     ed25519_Public = drop 32, ed25519_NewKeyFromSeed = (\<lambda>d. d @ d), ed25519_Seed = take 32,
     ed25519_GenerateKey = (\<lambda>rng. Some (pad32 rng, pad32 rng @ pad32 rng)),
     sha256_Sum256 = pad32, ecdsa_SignASN1 = (\<lambda>_ k h. Some (k @ h)), ecdsa_VerifyASN1 = (\<lambda>k h s. s = k @ h),
     ecdsa_PublicKey = (\<lambda>k. k), ecdsa_ParseRawPrivateKey = Some, ecdsa_FillBytes32 = (\<lambda>k. k),
     ecdsa_GenerateKey = (\<lambda>rng. Some (pad32 rng)), elliptic_MarshalCompressed = (\<lambda>k. 2 # k),
     elliptic_UnmarshalCompressed = (\<lambda>d. Some (tl d))\<rparr>"

lemma length_pad32 [simp]: "length (pad32 m) = 32"
  by (simp add: pad32_def)

lemma demo_crypto_laws: "crypto_laws demo_crypto"
  by (auto simp: crypto_laws_def demo_crypto_def ed25519_PrivateKeySize_def ed25519_PublicKeySize_def ed25519_SeedSize_def)

end
