(* ===== verification/Signatures.thy ===== *)
theory Signatures
  imports Crypto
begin

text \<open>
  The bytes that are signed (\<^verbatim>\<open>biscuit.go\<close>): payloads of authority blocks, appended blocks,
  external signatures and seals. The parts of a payload have no lengths, only markers between
  them; \<open>blockSignaturePayloadV1_binds\<close> shows that with keys and signatures of fixed length, as
  Ed25519 has them, a payload determines its parts all the same.
\<close>

section \<open>Signed blocks and their versions\<close>

record SignedBlock =
  sb_Block :: "u8 list"
  sb_NextKey :: pb_PublicKey
  sb_Signature :: "u8 list"
  sb_ExternalSignature :: "pb_ExternalSignature option"
  sb_Version :: "u32 option"

definition BlockSignatureVersion0 :: u32 where "BlockSignatureVersion0 = 0"
definition BlockSignatureVersion1 :: u32 where "BlockSignatureVersion1 = 1"

datatype token_error =
    CryptoErr crypto_error
  | ConvertErr pb_error
  | MarshalErr
  | UnmarshalErr
  | ErrSymbolTableOverlap
  | TokenSealed
  | UnsupportedBlockSignatureVersion u32
  | ExternalSignatureNil
  | NoProof
  | ThirdPartyVersionTooOld u32
  | EmptyPayload
  | EmptyExternalSignature
  | EmptySignature
  | EmptyPublicKey
  | LegacyKeys
  | ErrInvalidKeySize
  | ErrInvalidSignatureSize
  | UnknownSignatureAlgorithm
  | ErrNoPublicKeyAvailable
  | NilKeySource
  | TokenPanic

definition MinBlockSignatureVersion :: u32 where "MinBlockSignatureVersion = BlockSignatureVersion0"
definition MaxBlockSignatureVersion :: u32 where "MaxBlockSignatureVersion = BlockSignatureVersion1"

definition getBlockSignatureVersion :: "SignedBlock \<Rightarrow> token_error + u32" where
  "getBlockSignatureVersion block =
     (let version = (case sb_Version block of None \<Rightarrow> 0 | Some v \<Rightarrow> v) in
      if version < MinBlockSignatureVersion then Inl (UnsupportedBlockSignatureVersion version)
      else if version > MaxBlockSignatureVersion then Inl (UnsupportedBlockSignatureVersion version)
      else Inr version)"

section \<open>Payloads\<close>

definition bytes_of :: "string \<Rightarrow> u8 list" where
  "bytes_of s = map (\<lambda>c. word_of_nat (of_char c)) s"

text \<open>A name between two zero bytes.\<close>

definition marker :: "string \<Rightarrow> u8 list" where
  "marker s = 0 # bytes_of s @ [0]"

definition uint32_le :: "u32 \<Rightarrow> u8 list" where
  "uint32_le n = le_bytes 4 (unat n)"

definition blockSignaturePayloadV0 :: "Algorithm \<Rightarrow> u8 list \<Rightarrow> u8 list \<Rightarrow> u8 list" where
  "blockSignaturePayloadV0 nextAlg rawBlock nextPubKey = rawBlock @ uint32_le nextAlg @ nextPubKey"

definition sealedBlockSignaturePayload :: "Algorithm \<Rightarrow> u8 list \<Rightarrow> u8 list \<Rightarrow> u8 list \<Rightarrow> u8 list" where
  "sealedBlockSignaturePayload nextAlg rawBlock nextPubKey signature =
     rawBlock @ uint32_le nextAlg @ nextPubKey @ signature"

definition authorityBlockSignaturePayloadV1 :: "Algorithm \<Rightarrow> u8 list \<Rightarrow> u8 list \<Rightarrow> u32 \<Rightarrow> u8 list" where
  "authorityBlockSignaturePayloadV1 nextAlg rawBlock nextPubKey version =
     marker ''BLOCK'' @ marker ''VERSION'' @ uint32_le version @ marker ''PAYLOAD'' @ rawBlock @
     marker ''ALGORITHM'' @ uint32_le nextAlg @ marker ''NEXTKEY'' @ nextPubKey"

definition blockSignaturePayloadV1 ::
    "Algorithm \<Rightarrow> u8 list \<Rightarrow> u8 list \<Rightarrow> u8 list option \<Rightarrow> u8 list \<Rightarrow> u32 \<Rightarrow> u8 list" where
  "blockSignaturePayloadV1 nextAlg rawBlock nextPubKey externalSignature previousSignature version =
     marker ''BLOCK'' @ marker ''VERSION'' @ uint32_le version @ marker ''PAYLOAD'' @ rawBlock @
     marker ''ALGORITHM'' @ uint32_le nextAlg @ marker ''NEXTKEY'' @ nextPubKey @
     marker ''PREVSIG'' @ previousSignature @
     (case externalSignature of None \<Rightarrow> [] | Some s \<Rightarrow> marker ''EXTERNALSIG'' @ s)"

definition externalSignaturePayloadV1 :: "u8 list \<Rightarrow> u8 list \<Rightarrow> u32 \<Rightarrow> u8 list" where
  "externalSignaturePayloadV1 payload previousSignature version =
     marker ''EXTERNAL'' @ marker ''VERSION'' @ uint32_le version @ marker ''PAYLOAD'' @ payload @
     marker ''PREVSIG'' @ previousSignature"

definition verifyExternalSignature ::
    "('sk, 'pk) crypto_lib \<Rightarrow> u8 list \<Rightarrow> u8 list \<Rightarrow> pb_ExternalSignature option \<Rightarrow> u32 \<Rightarrow> token_error option" where
  "verifyExternalSignature cl payload previousSignature externalSignature version = (case externalSignature of
     None \<Rightarrow> Some ExternalSignatureNil
   | Some es \<Rightarrow>
       if version \<noteq> BlockSignatureVersion1 then Some (UnsupportedBlockSignatureVersion version)
       else
         let toVerify = externalSignaturePayloadV1 payload previousSignature version;
             alg = (case pbe_PublicKey es of None \<Rightarrow> 0 | Some k \<Rightarrow> pbk_Algorithm k);
             key = (case pbe_PublicKey es of None \<Rightarrow> [] | Some k \<Rightarrow> pbk_Key k)
         in (case NewVerifierFromPB cl alg key of
             Inl err \<Rightarrow> Some (CryptoErr err)
           | Inr verifier \<Rightarrow> map_option CryptoErr (Verifier_Verify cl verifier toVerify (pbe_Signature es))))"

section \<open>A payload determines its parts\<close>

lemma length_uint32_le [simp]: "length (uint32_le n) = 4"
  by (simp add: uint32_le_def)

lemma length_marker [simp]: "length (marker s) = length s + 2"
  by (simp add: marker_def bytes_of_def)

lemma le_bytes_Suc: "le_bytes (Suc k) n = word_of_nat n # le_bytes k (n div 256)"
proof -
  have "[0..<Suc k] = 0 # map Suc [0..<k]" by (simp add: upt_conv_Cons map_Suc_upt del: upt_Suc)
  then show ?thesis by (simp add: le_bytes_def div_mult2_eq del: upt_Suc)
qed

lemma le_bytes_inj: "m < 256 ^ k \<Longrightarrow> n < 256 ^ k \<Longrightarrow> le_bytes k m = le_bytes k n \<Longrightarrow> m = n"
proof (induction k arbitrary: m n)
  case (Suc k)
  have "unat (word_of_nat m :: u8) = unat (word_of_nat n :: u8)" and t: "le_bytes k (m div 256) = le_bytes k (n div 256)"
    using Suc.prems(3) by (simp_all add: le_bytes_Suc)
  then have "m mod 256 = n mod 256" by (simp add: unsigned_of_nat take_bit_eq_mod)
  moreover have "m div 256 = n div 256"
    by (rule Suc.IH[OF _ _ t]) (use Suc.prems in \<open>simp_all add: less_mult_imp_div_less mult.commute\<close>)
  ultimately show ?case by (metis div_mult_mod_eq)
qed simp

lemma uint32_le_inj [simp]: "uint32_le a = uint32_le b \<longleftrightarrow> a = b"
proof
  assume "uint32_le a = uint32_le b"
  then have "unat a = unat b"
    using le_bytes_inj[of "unat a" 4 "unat b"] unsigned_less[of a] unsigned_less[of b] by (simp add: uint32_le_def)
  then show "a = b" by (rule unsigned_word_eqI)
qed simp

lemma markers_differ: "drop 4 (marker ''EXTERNALSIG'') \<noteq> marker ''PREVSIG''"
  by (simp add: marker_def bytes_of_def)

lemma V1_parts:
  "blockSignaturePayloadV1 alg blk key ext prev v =
     marker ''BLOCK'' @ marker ''VERSION'' @ uint32_le v @ marker ''PAYLOAD'' @ blk @
       (marker ''ALGORITHM'' @ uint32_le alg @ marker ''NEXTKEY'' @ key @ marker ''PREVSIG'' @ prev @
       (case ext of None \<Rightarrow> [] | Some s \<Rightarrow> marker ''EXTERNALSIG'' @ s))"
  by (simp add: blockSignaturePayloadV1_def)

text \<open>
  C14: a version 1 payload binds its parts: with next keys of one length and signatures of one
  length, two equal payloads have the same version, algorithm, block, next key, previous
  signature and external signature (and one has an external signature only if the other has).
\<close>

theorem blockSignaturePayloadV1_binds:
  assumes "blockSignaturePayloadV1 alg blk key ext prev v = blockSignaturePayloadV1 alg' blk' key' ext' prev' v'"
    and "length key = length key'" and "length prev = n" and "length prev' = n"
    and "\<forall>s. ext = Some s \<longrightarrow> length s = n" and "\<forall>s. ext' = Some s \<longrightarrow> length s = n"
  shows "alg = alg' \<and> blk = blk' \<and> key = key' \<and> ext = ext' \<and> prev = prev' \<and> v = v'"
proof -
  let ?tail = "\<lambda>ext :: u8 list option. case ext of None \<Rightarrow> [] | Some s \<Rightarrow> marker ''EXTERNALSIG'' @ s"
  let ?pre = "\<lambda>alg blk key v. marker ''BLOCK'' @ marker ''VERSION'' @ uint32_le v @ marker ''PAYLOAD'' @ blk @
       marker ''ALGORITHM'' @ uint32_le alg @ marker ''NEXTKEY'' @ key"
  have no: "p @ marker ''PREVSIG'' @ a \<noteq> q @ marker ''EXTERNALSIG'' @ b" if "length a = n" "length b = n" for p q a b :: "u8 list"
  proof
    assume "p @ marker ''PREVSIG'' @ a = q @ marker ''EXTERNALSIG'' @ b"
    also have "marker ''EXTERNALSIG'' = take 4 (marker ''EXTERNALSIG'') @ drop 4 (marker ''EXTERNALSIG'')" by simp
    finally have "(p @ marker ''PREVSIG'') @ a = (q @ take 4 (marker ''EXTERNALSIG'') @ drop 4 (marker ''EXTERNALSIG'')) @ b"
      by simp
    then have "p @ marker ''PREVSIG'' = (q @ take 4 (marker ''EXTERNALSIG'')) @ drop 4 (marker ''EXTERNALSIG'')"
      using that by (subst (asm) append_eq_append_conv) simp_all
    then have "marker ''PREVSIG'' = drop 4 (marker ''EXTERNALSIG'')"
      by (subst (asm) append_eq_append_conv) simp_all
    then show False using markers_differ by simp
  qed
  have eq: "?pre alg blk key v @ marker ''PREVSIG'' @ prev @ ?tail ext = ?pre alg' blk' key' v' @ marker ''PREVSIG'' @ prev' @ ?tail ext'"
    using assms(1) by (simp add: blockSignaturePayloadV1_def)
  have ext: "length (?tail ext) = length (?tail ext')"
  proof (cases ext; cases ext')
    fix b assume "ext = None" "ext' = Some b"
    then show ?thesis
      using eq no[of prev b "?pre alg blk key v" "?pre alg' blk' key' v' @ marker ''PREVSIG'' @ prev'"] assms(3,6) by simp
  next
    fix b assume "ext = Some b" "ext' = None"
    then show ?thesis
      using eq[symmetric] no[of prev' b "?pre alg' blk' key' v'" "?pre alg blk key v @ marker ''PREVSIG'' @ prev"] assms(4,5) by simp
  qed (use assms(5,6) in simp_all)
  have peel: "a = c \<and> b = d" if "a @ b = c @ d" "length b = length d" for a b c d :: "u8 list"
    using that by simp
  let ?p0 = "\<lambda>blk v. marker ''BLOCK'' @ marker ''VERSION'' @ uint32_le v @ marker ''PAYLOAD'' @ blk @ marker ''ALGORITHM''"
  let ?p1 = "\<lambda>alg blk v. ?p0 blk v @ uint32_le alg @ marker ''NEXTKEY''"
  have t: "?pre alg blk key v @ marker ''PREVSIG'' @ prev = ?pre alg' blk' key' v' @ marker ''PREVSIG'' @ prev' \<and> ?tail ext = ?tail ext'"
    by (rule peel) (use eq ext in simp_all)
  have prev: "?pre alg blk key v @ marker ''PREVSIG'' = ?pre alg' blk' key' v' @ marker ''PREVSIG'' \<and> prev = prev'"
    by (rule peel) (use t assms(3,4) in simp_all)
  have key: "?p1 alg blk v = ?p1 alg' blk' v' \<and> key = key'"
    by (rule peel) (use prev assms(2) in simp_all)
  have alg: "?p0 blk v = ?p0 blk' v' \<and> uint32_le alg = uint32_le alg'"
    by (rule peel) (use key in simp_all)
  then have "uint32_le v @ marker ''PAYLOAD'' @ blk = uint32_le v' @ marker ''PAYLOAD'' @ blk'" by simp
  then have "v = v'" "blk = blk'" by (simp_all add: append_eq_append_conv)
  moreover have "ext = ext'" using t by (cases ext; cases ext') (simp_all add: marker_def)
  ultimately show ?thesis using alg key prev by simp
qed

theorem blockSignaturePayloadV1_binds_witness:
  "blockSignaturePayloadV1 0 [1] [2] (Some [3]) [4] 1 \<noteq> blockSignaturePayloadV1 0 [1] [2] None [4] 1"
  using blockSignaturePayloadV1_binds[of 0 "[1]" "[2]" "Some [3]" "[4]" 1 0 "[1]" "[2]" None "[4]" 1 1] by auto

end
