(* ===== verification/Combinations.thy ===== *)
theory Combinations
  imports Prelude
begin

text \<open>
  Layer 1 of \<^verbatim>\<open>datalog/evaluator.go\<close>: the odometer that enumerates tuples of fact indexes,
  one per predicate. The consumer of a tuple may call \<^verbatim>\<open>failedAtIndex\<close>, which skips every
  tuple with the same failing prefix. \<open>combinations_iter\<close> lists the tuples yielded to a
  consumer that reports failures by \<open>feedback\<close>. If a reported failure depends only on the
  prefix, the tuples that do not fail are exactly those of the full product, in order.
\<close>

section \<open>The odometer\<close>

text \<open>The variables captured by the closures. Positions are counted from one, so that zero
  is the position below the leftmost one.\<close>

record odometer =
  od_indexes :: "nat list"
  od_done :: bool
  od_failed :: bool

definition reset_from :: "nat \<Rightarrow> nat \<Rightarrow> nat list \<Rightarrow> nat list" where
  "reset_from p2 predicateCount indexes = fold (\<lambda>p xs. xs[p := 0]) [p2..<predicateCount] indexes"

fun increment_at_loop :: "nat \<Rightarrow> nat \<Rightarrow> nat list \<Rightarrow> nat \<Rightarrow> nat list \<times> bool" where
  "increment_at_loop factCount predicateCount indexes 0 = (indexes, True)"
| "increment_at_loop factCount predicateCount indexes (Suc position) =
     (if Suc (indexes ! position) < factCount
      then (reset_from (position + 1) predicateCount (indexes[position := indexes ! position + 1]), False)
      else increment_at_loop factCount predicateCount (indexes[position := 0]) position)"

definition newIncrementAt :: "nat \<Rightarrow> nat \<Rightarrow> odometer \<Rightarrow> nat \<Rightarrow> odometer" where
  "newIncrementAt factCount predicateCount st failedAtIndex =
     (if failedAtIndex \<ge> predicateCount then st
      else let (xs, exhausted) =
          increment_at_loop factCount predicateCount (od_indexes st) (Suc failedAtIndex)
        in st\<lparr>od_indexes := xs, od_failed := True, od_done := od_done st \<or> exhausted\<rparr>)"

fun increment_loop :: "nat \<Rightarrow> nat list \<Rightarrow> nat \<Rightarrow> nat list \<times> bool" where
  "increment_loop factCount indexes 0 = (indexes, True)"
| "increment_loop factCount indexes (Suc position) =
     (if Suc (indexes ! position) < factCount
      then (indexes[position := indexes ! position + 1], False)
      else increment_loop factCount (indexes[position := 0]) position)"

definition newIncrement :: "nat \<Rightarrow> nat \<Rightarrow> odometer \<Rightarrow> odometer" where
  "newIncrement factCount predicateCount st =
     (let (xs, exhausted) = increment_loop factCount (od_indexes st) predicateCount
      in st\<lparr>od_indexes := xs, od_done := od_done st \<or> exhausted\<rparr>)"

text \<open>Yielding a tuple: the consumer may report the position at which it failed.\<close>

definition od_yield :: "nat \<Rightarrow> nat \<Rightarrow> (nat list \<Rightarrow> nat option) \<Rightarrow> odometer \<Rightarrow> odometer" where
  "od_yield predicateCount factCount feedback st = (case feedback (od_indexes st) of
     None \<Rightarrow> st | Some i \<Rightarrow> newIncrementAt factCount predicateCount st i)"

text \<open>The loop \<^verbatim>\<open>for !done\<close>, with the number of rounds bounded.\<close>

fun iter_loop :: "nat \<Rightarrow> nat \<Rightarrow> nat \<Rightarrow> (nat list \<Rightarrow> nat option) \<Rightarrow> odometer \<Rightarrow> nat list list option" where
  "iter_loop 0 predicateCount factCount feedback st = None"
| "iter_loop (Suc n) predicateCount factCount feedback st =
     (if od_done st then Some []
      else let st1 = (if od_failed st then st\<lparr>od_failed := False\<rparr>
                      else newIncrement factCount predicateCount st)
        in if od_done st1 then Some []
           else map_option (\<lambda>rest. od_indexes st1 # rest)
             (iter_loop n predicateCount factCount feedback (od_yield predicateCount factCount feedback st1)))"

definition combinations_iter :: "nat \<Rightarrow> nat \<Rightarrow> (nat list \<Rightarrow> nat option) \<Rightarrow> nat list list option" where
  "combinations_iter predicateCount factCount feedback =
     (if predicateCount = 0 then Some [[]]
      else if factCount = 0 then Some []
      else let st = \<lparr>od_indexes = replicate predicateCount 0, od_done = False, od_failed = False\<rparr>
        in map_option (\<lambda>rest. od_indexes st # rest)
             (iter_loop (factCount ^ predicateCount) predicateCount factCount feedback
               (od_yield predicateCount factCount feedback st)))"

section \<open>The full product\<close>

definition tuples :: "nat \<Rightarrow> nat \<Rightarrow> nat list list" where
  "tuples predicateCount factCount = product_lists (replicate predicateCount [0..<factCount])"

lemma in_tuples: "xs \<in> set (tuples n k) \<longleftrightarrow> length xs = n \<and> (\<forall>x \<in> set xs. x < k)"
proof (induction n arbitrary: xs)
  case 0
  then show ?case by (auto simp: tuples_def)
next
  case (Suc n)
  have "xs \<in> set (tuples (Suc n) k) \<longleftrightarrow> (\<exists>x ys. xs = x # ys \<and> x < k \<and> ys \<in> set (tuples n k))"
    by (auto simp: tuples_def)
  also have "\<dots> \<longleftrightarrow> length xs = Suc n \<and> (\<forall>x \<in> set xs. x < k)"
    unfolding Suc.IH by (cases xs) auto
  finally show ?case .
qed

lemma length_tuples: "length (tuples n k) = k ^ n"
proof -
  have s: "sum_list (map (\<lambda>x. c) xs) = length xs * c" for c :: nat and xs :: "nat list"
    by (induction xs) auto
  show ?thesis by (induction n) (auto simp: tuples_def length_concat comp_def s)
qed

lemma lex_append_less:
  "length a = length b \<Longrightarrow> (a @ c < b @ d) = (a < b \<or> a = b \<and> c < (d :: nat list))" for a b :: "nat list"
  by (induction a b rule: list_induct2) auto

lemma lex_append_le:
  "length a = length b \<Longrightarrow> (a @ c \<le> b @ d) = (a < b \<or> a = b \<and> c \<le> (d :: nat list))" for a b :: "nat list"
  by (auto simp: order_le_less lex_append_less)

lemma zeros_least: "length c = n \<Longrightarrow> replicate n 0 \<le> (c :: nat list)"
proof (induction n arbitrary: c)
  case (Suc n)
  then show ?case by (cases c) auto
qed simp

lemma sorted_tuples: "sorted_wrt (<) (tuples n k)"
proof (induction n)
  case (Suc n)
  have "sorted_wrt (<) (concat (map (\<lambda>x. map (Cons x) (tuples n k)) xs))" if "sorted_wrt (<) xs"
    for xs :: "nat list"
    using that
  proof (induction xs)
    case (Cons x xs)
    have "sorted_wrt (<) (map (Cons x) (tuples n k))"
      using Suc.IH by (simp add: sorted_wrt_map)
    then show ?case using Cons by (auto simp: sorted_wrt_append)
  qed simp
  then show ?case by (simp add: tuples_def sorted_wrt_upt)
qed (simp add: tuples_def)

section \<open>The loops\<close>

lemma length_reset_from [simp]: "length (reset_from p n xs) = length xs"
proof -
  have "length (fold (\<lambda>p xs. xs[p := 0]) ps xs) = length xs" for ps
    by (induction ps arbitrary: xs) auto
  then show ?thesis by (simp add: reset_from_def)
qed

lemma nth_reset_from: "q < length xs \<Longrightarrow> reset_from p n xs ! q = (if p \<le> q \<and> q < n then 0 else xs ! q)"
proof -
  assume q: "q < length xs"
  have "q < length xs \<Longrightarrow> fold (\<lambda>p xs. xs[p := 0]) ps xs ! q = (if q \<in> set ps then 0 else xs ! q)"
    for ps and xs :: "nat list"
    by (induction ps arbitrary: xs) (auto simp: nth_list_update)
  from this[OF q] show ?thesis by (auto simp: reset_from_def)
qed

lemma reset_from_eq:
  assumes "p < length xs"
  shows "reset_from (Suc p) (length xs) (xs[p := v]) = take p xs @ v # replicate (length xs - Suc p) 0"
  using assms by (intro nth_equalityI) (auto simp: nth_reset_from nth_append nth_Cons')

lemma take_Suc_less:
  fixes xs ys :: "nat list"
  assumes "p < length xs" "length ys = length xs"
  shows "take (Suc p) xs < take (Suc p) ys \<longleftrightarrow> take p xs < take p ys \<or> take p xs = take p ys \<and> xs ! p < ys ! p"
  using assms by (simp add: take_Suc_conv_app_nth lex_append_less)

lemma zeroed_tuple: "xs \<in> set (tuples n k) \<Longrightarrow> p < n \<Longrightarrow> xs[p := 0] \<in> set (tuples n k)"
proof -
  assume xs: "xs \<in> set (tuples n k)" "p < n"
  then have "xs ! p < k" by (auto simp: in_tuples)
  then have "0 < k" by simp
  with xs show ?thesis by (auto simp: in_tuples dest!: set_update_subset_insert[THEN subsetD])
qed

lemma increment_at_spec:
  assumes "xs \<in> set (tuples n k)" and "p \<le> n" and "increment_at_loop k n xs p = (zs, d)"
  shows "d \<Longrightarrow> ys \<in> set (tuples n k) \<Longrightarrow> \<not> take p xs < take p ys"
    and "\<not> d \<Longrightarrow> zs \<in> set (tuples n k)"
    and "\<not> d \<Longrightarrow> ys \<in> set (tuples n k) \<Longrightarrow> zs \<le> ys \<longleftrightarrow> take p xs < take p ys"
  using assms
proof (induction p arbitrary: xs)
  case (Suc p)
  {
    case 1
    show ?case
    proof (cases "Suc (xs ! p) < k")
      case False
      have xs': "xs[p := 0] \<in> set (tuples n k)"
        using 1 by (auto intro: zeroed_tuple)
      have "ys ! p < k" "xs ! p < k" using 1 by (auto simp: in_tuples)
      with False have "\<not> xs ! p < ys ! p" by simp
      then show ?thesis
        using Suc.IH(1)[of "xs[p := 0]"] xs' 1 False by (auto simp: in_tuples take_Suc_less)
    qed (use 1 in simp)
  next
    case 2
    show ?case
    proof (cases "Suc (xs ! p) < k")
      case True
      then show ?thesis using 2
        using in_set_takeD[of _ p xs] by (auto simp: in_tuples reset_from_eq)
    next
      case False
      have "xs[p := 0] \<in> set (tuples n k)"
        using 2 by (auto intro: zeroed_tuple)
      then show ?thesis using Suc.IH(2)[of "xs[p := 0]"] 2 False by auto
    qed
  next
    case 3
    have len: "length xs = n" "length ys = n" "p < n" using 3 by (simp_all add: in_tuples)
    show ?case
    proof (cases "Suc (xs ! p) < k")
      case True
      have ys: "ys = take p ys @ ys ! p # drop (Suc p) ys" using len by (simp add: id_take_nth_drop)
      have "zs = take p xs @ Suc (xs ! p) # replicate (n - Suc p) 0"
        using 3 True len reset_from_eq[of p xs] by simp
      then have "zs \<le> ys \<longleftrightarrow> take p xs < take p ys \<or> take p xs = take p ys \<and>
          Suc (xs ! p) # replicate (n - Suc p) 0 \<le> ys ! p # drop (Suc p) ys"
        by (subst (1) ys) (simp add: lex_append_le len)
      also have "\<dots> \<longleftrightarrow> take p xs < take p ys \<or> take p xs = take p ys \<and> xs ! p < ys ! p"
        using zeros_least[of "drop (Suc p) ys" "n - Suc p"] len by auto
      finally show ?thesis using take_Suc_less[of p xs ys] len by simp
    next
      case False
      have xs': "xs[p := 0] \<in> set (tuples n k)"
        using 3 by (auto intro: zeroed_tuple)
      have "ys ! p < k" "xs ! p < k" using 3 by (auto simp: in_tuples)
      with False have "\<not> xs ! p < ys ! p" by simp
      then show ?thesis
        using Suc.IH(3)[of "xs[p := 0]"] xs' 3 False len by (auto simp: take_Suc_less)
    qed
  }
qed auto

lemma increment_loop_at:
  "length xs = n \<Longrightarrow> p \<le> n \<Longrightarrow> (\<forall>q. p \<le> q \<longrightarrow> q < n \<longrightarrow> xs ! q = 0) \<Longrightarrow>
   increment_loop k xs p = increment_at_loop k n xs p"
proof (induction p arbitrary: xs)
  case (Suc p)
  have "reset_from (Suc p) n (xs[p := v]) = xs[p := v]" for v
    using Suc.prems by (intro nth_equalityI) (auto simp: nth_reset_from nth_list_update)
  moreover have "increment_loop k (xs[p := 0]) p = increment_at_loop k n (xs[p := 0]) p"
  proof (rule Suc.IH)
    show "\<forall>q. p \<le> q \<longrightarrow> q < n \<longrightarrow> xs[p := 0] ! q = 0"
    proof (intro allI impI)
      fix q assume "p \<le> q" "q < n"
      then show "xs[p := 0] ! q = 0" using Suc.prems by (cases "q = p") auto
    qed
  qed (use Suc.prems in auto)
  ultimately show ?case by simp
qed simp

section \<open>Pruning loses nothing\<close>

text \<open>A failure is reported at a position of the tuple, and every tuple with the same prefix
  up to that position fails too.\<close>

definition prunable :: "nat \<Rightarrow> nat \<Rightarrow> (nat list \<Rightarrow> nat option) \<Rightarrow> bool" where
  "prunable n k feedback \<longleftrightarrow> (\<forall>xs \<in> set (tuples n k). \<forall>i. feedback xs = Some i \<longrightarrow>
     i < n \<and> (\<forall>ys \<in> set (tuples n k). take (Suc i) ys = take (Suc i) xs \<longrightarrow> feedback ys \<noteq> None))"

text \<open>The tuples still to come, in a state between two yields.\<close>

definition remaining :: "nat \<Rightarrow> nat \<Rightarrow> odometer \<Rightarrow> nat list list" where
  "remaining n k st = (if od_done st then []
     else if od_failed st then filter (\<lambda>ys. od_indexes st \<le> ys) (tuples n k)
     else filter (\<lambda>ys. od_indexes st < ys) (tuples n k))"

abbreviation accepted :: "(nat list \<Rightarrow> nat option) \<Rightarrow> nat list list \<Rightarrow> nat list list" where
  "accepted feedback \<equiv> filter (\<lambda>xs. feedback xs = None)"

lemma tuples_above:
  "xs \<in> set (tuples n k) \<Longrightarrow> filter (\<lambda>ys. xs \<le> ys) (tuples n k) = xs # filter (\<lambda>ys. xs < ys) (tuples n k)"
proof -
  have "sorted_wrt (<) ts \<Longrightarrow> xs \<in> set ts \<Longrightarrow> filter (\<lambda>ys. xs \<le> ys) ts = xs # filter (\<lambda>ys. xs < ys) ts"
    for ts :: "nat list list"
  proof (induction ts)
    case (Cons t ts)
    show ?case
    proof (cases "t = xs")
      case True
      have "filter (\<lambda>ys. xs \<le> ys) ts = ts" "filter (\<lambda>ys. xs < ys) ts = ts"
        using Cons.prems True by (auto intro!: filter_True)
      then show ?thesis using True by simp
    next
      case False
      then have "t < xs" using Cons.prems by auto
      then show ?thesis using Cons False by auto
    qed
  qed simp
  then show "xs \<in> set (tuples n k) \<Longrightarrow> ?thesis" using sorted_tuples by blast
qed

lemma take_le: "take p xs < take p ys \<Longrightarrow> length ys = length xs \<Longrightarrow> (xs :: nat list) < ys"
  using lex_append_less[of "take p xs" "take p ys" "drop p xs" "drop p ys"] by simp

lemma le_take: "(xs :: nat list) < ys \<Longrightarrow> length ys = length xs \<Longrightarrow> take p xs < take p ys \<or> take p xs = take p ys"
  using lex_append_less[of "take p xs" "take p ys" "drop p xs" "drop p ys"] by auto

lemma after_yield:
  assumes fb: "prunable n k feedback" and x: "od_indexes st \<in> set (tuples n k)"
    and st: "\<not> od_done st" "\<not> od_failed st"
  shows "accepted feedback (remaining n k (od_yield n k feedback st)) =
      accepted feedback (filter (\<lambda>ys. od_indexes st < ys) (tuples n k))"
    and "length (remaining n k (od_yield n k feedback st)) \<le>
      length (filter (\<lambda>ys. od_indexes st < ys) (tuples n k))"
    and "\<not> od_done (od_yield n k feedback st) \<Longrightarrow> od_indexes (od_yield n k feedback st) \<in> set (tuples n k)"
proof -
  let ?xs = "od_indexes st" and ?st = "od_yield n k feedback st"
  let ?A = "accepted feedback (remaining n k ?st) = accepted feedback (filter (\<lambda>ys. ?xs < ys) (tuples n k))"
  let ?B = "length (remaining n k ?st) \<le> length (filter (\<lambda>ys. ?xs < ys) (tuples n k))"
  let ?C = "\<not> od_done ?st \<longrightarrow> od_indexes ?st \<in> set (tuples n k)"
  have "?A \<and> ?B \<and> ?C"
  proof (cases "feedback ?xs")
    case None
    then show ?thesis using st x by (simp add: od_yield_def remaining_def)
  next
    case (Some i)
    have i: "i < n" "\<forall>ys \<in> set (tuples n k). take (Suc i) ys = take (Suc i) ?xs \<longrightarrow> feedback ys \<noteq> None"
      using fb x Some unfolding prunable_def by blast+
    obtain zs d where zs: "increment_at_loop k n ?xs (Suc i) = (zs, d)" by fastforce
    have inc: "?st = st\<lparr>od_indexes := zs, od_failed := True, od_done := d\<rparr>"
      using Some i(1) zs st by (simp add: od_yield_def newIncrementAt_def)
    have rem: "remaining n k ?st = filter (\<lambda>ys. take (Suc i) ?xs < take (Suc i) ys) (tuples n k)"
    proof (cases d)
      case True
      then show ?thesis
        using increment_at_spec(1)[OF x _ zs] i(1) inc by (auto simp: remaining_def filter_empty_conv)
    next
      case False
      then show ?thesis
        using increment_at_spec(3)[OF x _ zs] i(1) inc by (auto simp: remaining_def intro: filter_cong)
    qed
    have len: "ys \<in> set (tuples n k) \<Longrightarrow> length ys = length ?xs" for ys using x by (simp add: in_tuples)
    have sub: "remaining n k ?st = filter (\<lambda>ys. take (Suc i) ?xs < take (Suc i) ys) (filter (\<lambda>ys. ?xs < ys) (tuples n k))"
      unfolding rem filter_filter
    proof (rule filter_cong[OF refl])
      fix ys assume "ys \<in> set (tuples n k)"
      then show "(take (Suc i) ?xs < take (Suc i) ys) = (?xs < ys \<and> take (Suc i) ?xs < take (Suc i) ys)"
        using take_le[of "Suc i" ?xs ys] len by blast
    qed
    have key: "take (Suc i) ?xs < take (Suc i) ys"
      if "ys \<in> set (tuples n k)" "?xs < ys" "feedback ys = None" for ys
    proof -
      have "take (Suc i) ys \<noteq> take (Suc i) ?xs" using i(2) that(1,3) by blast
      then show ?thesis using le_take[OF that(2) len[OF that(1)], of "Suc i"] by metis
    qed
    have ?A unfolding sub filter_filter
      by (rule filter_cong[OF refl]) (use key in blast)
    moreover have ?B unfolding sub by (rule length_filter_le)
    moreover have ?C using increment_at_spec(2)[OF x _ zs] i(1) inc by auto
    ultimately show ?thesis by blast
  qed
  then show ?A ?B "\<not> od_done ?st \<Longrightarrow> od_indexes ?st \<in> set (tuples n k)" by simp_all
qed

lemma next_tuple:
  assumes "0 < n" "od_indexes st \<in> set (tuples n k)" "\<not> od_done st"
  defines "st1 \<equiv> if od_failed st then st\<lparr>od_failed := False\<rparr> else newIncrement k n st"
  shows "od_done st1 \<Longrightarrow> remaining n k st = []"
    and "\<not> od_done st1 \<Longrightarrow> od_indexes st1 \<in> set (tuples n k) \<and> \<not> od_failed st1 \<and>
      remaining n k st = od_indexes st1 # filter (\<lambda>ys. od_indexes st1 < ys) (tuples n k)"
proof -
  let ?xs = "od_indexes st"
  have "if od_done st1 then remaining n k st = [] else od_indexes st1 \<in> set (tuples n k) \<and> \<not> od_failed st1 \<and>
      remaining n k st = od_indexes st1 # filter (\<lambda>ys. od_indexes st1 < ys) (tuples n k)"
  proof (cases "od_failed st")
    case True
    then show ?thesis using assms tuples_above[OF assms(2)] by (simp add: remaining_def st1_def)
  next
    case False
    obtain zs d where zs: "increment_at_loop k n ?xs n = (zs, d)" by fastforce
    have "increment_loop k ?xs n = (zs, d)"
      using zs increment_loop_at[of ?xs n n k] assms(2) by (simp add: in_tuples)
    then have st1: "st1 = st\<lparr>od_indexes := zs, od_done := d\<rparr>"
      using False assms(3) by (simp add: st1_def newIncrement_def)
    have tk: "ys \<in> set (tuples n k) \<Longrightarrow> take n ys = ys" for ys by (simp add: in_tuples)
    show ?thesis
    proof (cases d)
      case True
      then show ?thesis
        using increment_at_spec(1)[OF assms(2) _ zs] tk assms(2,3) False st1
        by (simp add: remaining_def filter_empty_conv)
    next
      case d: False
      have "remaining n k st = filter (\<lambda>ys. zs \<le> ys) (tuples n k)"
        using increment_at_spec(3)[OF assms(2) _ zs] tk assms(2,3) False d
        by (simp add: remaining_def cong: filter_cong)
      then show ?thesis
        using increment_at_spec(2)[OF assms(2) _ zs] tuples_above[of zs n k] d st1 False by simp
    qed
  qed
  then show "od_done st1 \<Longrightarrow> remaining n k st = []"
    "\<not> od_done st1 \<Longrightarrow> od_indexes st1 \<in> set (tuples n k) \<and> \<not> od_failed st1 \<and>
      remaining n k st = od_indexes st1 # filter (\<lambda>ys. od_indexes st1 < ys) (tuples n k)"
    by simp_all
qed

lemma iter_loop_spec:
  assumes "prunable n k feedback" "0 < n"
  shows "length (remaining n k st) < m \<Longrightarrow> (\<not> od_done st \<Longrightarrow> od_indexes st \<in> set (tuples n k)) \<Longrightarrow>
    \<exists>vs. iter_loop m n k feedback st = Some vs \<and>
      accepted feedback vs = accepted feedback (remaining n k st) \<and> set vs \<subseteq> set (tuples n k)"
proof (induction m arbitrary: st)
  case (Suc m)
  show ?case
  proof (cases "od_done st")
    case True
    then show ?thesis by (simp add: remaining_def)
  next
    case False
    let ?st1 = "if od_failed st then st\<lparr>od_failed := False\<rparr> else newIncrement k n st"
    note nt = next_tuple[OF assms(2) Suc.prems(2)[OF False] False]
    show ?thesis
    proof (cases "od_done ?st1")
      case True
      then show ?thesis using nt(1) False by (simp add: Let_def)
    next
      case nd: False
      note n2 = nt(2)[OF nd]
      note ay = after_yield[OF assms(1) conjunct1[OF n2] nd]
      have "length (remaining n k (od_yield n k feedback ?st1)) < m"
        using ay(2) n2 Suc.prems(1) by simp
      then obtain vs where vs: "iter_loop m n k feedback (od_yield n k feedback ?st1) = Some vs"
        "accepted feedback vs = accepted feedback (remaining n k (od_yield n k feedback ?st1))"
        "set vs \<subseteq> set (tuples n k)"
        using Suc.IH ay(3) n2 by blast
      have "iter_loop (Suc m) n k feedback st = Some (od_indexes ?st1 # vs)"
        using False nd vs(1) by (simp add: Let_def)
      moreover have "accepted feedback (od_indexes ?st1 # vs) = accepted feedback (remaining n k st)"
        using vs(2) ay(1) n2 by simp
      moreover have "set (od_indexes ?st1 # vs) \<subseteq> set (tuples n k)" using vs(3) n2 by simp
      ultimately show ?thesis by blast
    qed
  qed
qed simp

lemma combinations_iter_spec:
  assumes "prunable n k feedback"
  shows "\<exists>vs. combinations_iter n k feedback = Some vs \<and>
    accepted feedback vs = accepted feedback (tuples n k) \<and> set vs \<subseteq> set (tuples n k)"
proof -
  consider "n = 0" | "0 < n" "k = 0" | "0 < n" "0 < k" by auto
  then show ?thesis
  proof cases
    case 1
    then show ?thesis by (simp add: combinations_iter_def tuples_def)
  next
    case 2
    have "length (tuples n 0) = 0" using 2 by (simp add: length_tuples)
    then show ?thesis using 2 by (simp add: combinations_iter_def)
  next
    case 3
    let ?st = "\<lparr>od_indexes = replicate n 0, od_done = False, od_failed = False\<rparr>"
    let ?st1 = "od_yield n k feedback ?st"
    have t: "od_indexes ?st \<in> set (tuples n k)" using 3 by (auto simp: in_tuples)
    have "filter (\<lambda>ys. replicate n 0 \<le> ys) (tuples n k) = tuples n k"
      by (intro filter_True) (auto simp: in_tuples zeros_least)
    then have all: "tuples n k = replicate n 0 # filter (\<lambda>ys. replicate n 0 < ys) (tuples n k)"
      using tuples_above[of "replicate n 0" n k] t by simp
    have ay: "accepted feedback (remaining n k ?st1) = accepted feedback (filter (\<lambda>ys. replicate n 0 < ys) (tuples n k))"
      "length (remaining n k ?st1) \<le> length (filter (\<lambda>ys. replicate n 0 < ys) (tuples n k))"
      "\<not> od_done ?st1 \<Longrightarrow> od_indexes ?st1 \<in> set (tuples n k)"
      using after_yield[OF assms t] by simp_all
    have "length (tuples n k) = Suc (length (filter (\<lambda>ys. replicate n 0 < ys) (tuples n k)))"
      by (subst (1) all) simp
    then have "length (remaining n k ?st1) < k ^ n" using ay(2) by (simp add: length_tuples)
    then obtain vs where vs: "iter_loop (k ^ n) n k feedback ?st1 = Some vs"
      "accepted feedback vs = accepted feedback (remaining n k ?st1)" "set vs \<subseteq> set (tuples n k)"
      using iter_loop_spec[OF assms 3(1)] ay(3) by fastforce
    have "accepted feedback (replicate n 0 # vs) = accepted feedback (tuples n k)"
      unfolding all[THEN arg_cong, of "accepted feedback"] using vs(2) ay(1) by simp
    then show ?thesis using vs 3 t by (simp add: combinations_iter_def)
  qed
qed

text \<open>
  C26: the odometer always finishes, within \<open>factCount ^ predicateCount\<close> rounds, and
  skipping after a reported failure never skips a combination that would have succeeded:
  the accepted tuples are those of the whole product, each once, in the same order.
\<close>

theorem combinations_iter_complete:
  assumes "prunable n k feedback"
  shows "\<exists>vs. combinations_iter n k feedback = Some vs \<and>
    accepted feedback vs = accepted feedback (product_lists (replicate n [0..<k]))"
  using combinations_iter_spec[OF assms] by (auto simp: tuples_def)

theorem combinations_iter_complete_witness:
  "\<exists>vs. combinations_iter 2 3 (\<lambda>xs. if xs ! 0 = 1 then Some 0 else None) = Some vs \<and>
    accepted (\<lambda>xs. if xs ! 0 = 1 then Some 0 else None) vs = [[0,0],[0,1],[0,2],[2,0],[2,1],[2,2]]"
proof -
  let ?f = "\<lambda>xs :: nat list. if xs ! 0 = 1 then Some (0 :: nat) else None"
  have hd: "ys ! 0 = xs ! 0" if "take (Suc 0) ys = take (Suc 0) xs" for xs ys :: "nat list"
    using nth_take[of 0 "Suc 0" xs] nth_take[of 0 "Suc 0" ys] that by simp
  have "prunable 2 3 ?f"
    unfolding prunable_def
  proof (intro ballI allI impI)
    fix xs i assume "?f xs = Some i"
    then have i: "i = 0" "xs ! 0 = 1" by (simp_all split: if_splits)
    have "?f ys \<noteq> None" if "take (Suc 0) ys = take (Suc 0) xs" for ys
      using hd[OF that] i(2) by simp
    then show "i < 2 \<and> (\<forall>ys \<in> set (tuples 2 3). take (Suc i) ys = take (Suc i) xs \<longrightarrow> ?f ys \<noteq> None)"
      using i(1) by simp
  qed
  moreover have "accepted ?f (product_lists (replicate 2 [0..<3])) = [[0,0],[0,1],[0,2],[2,0],[2,1],[2,2]]"
    by (simp add: numeral_2_eq_2 upt_rec)
  ultimately show ?thesis using combinations_iter_complete[of 2 3 ?f] by simp
qed

end
