(* ===== verification/Matching.thy ===== *)
theory Matching
  imports FactSets Combinations
begin

text \<open>
  Layer 2 of \<^verbatim>\<open>datalog/evaluator.go\<close>: \<^verbatim>\<open>combineIt\<close> matches the predicates of a rule body
  with facts and unifies their variables. The specification is substitution: the matches
  are exactly the choices of one fact per predicate for which some substitution of the
  variables turns every predicate into its fact.
\<close>

section \<open>Matched variables\<close>

type_synonym matchedVariables = bindings

definition mv_insert :: "matchedVariables \<Rightarrow> u32 \<Rightarrow> Term \<Rightarrow> matchedVariables \<times> bool" where
  "mv_insert m k v = (case map_of m k of
     Some (Some existing) \<Rightarrow> (m, Term_Equal v (Some existing))
   | _ \<Rightarrow> (AList.update k (Some v) m, True))"

definition mv_complete :: "matchedVariables \<Rightarrow> matchedVariables option" where
  "mv_complete m = (if list_ex (\<lambda>(_, v). v = None) m then None else Some m)"

definition mv_clone :: "matchedVariables \<Rightarrow> matchedVariables" where
  "mv_clone m = fold (\<lambda>(k, v) res. AList.update k v res) m []"

definition newMatchedVariables :: "Predicate list \<Rightarrow> matchedVariables" where
  "newMatchedVariables predicates =
     fold (\<lambda>predicate result. fold (\<lambda>term result. case term of
         TVariable variableTerm \<Rightarrow> AList.update variableTerm None result
       | _ \<Rightarrow> result) (elems (pred_Terms predicate)) result) predicates []"

section \<open>Facts with their origins\<close>

record factWithOrigin =
  fwo_Fact :: Fact
  fwo_Origin :: Origin

text \<open>
  The slice is made with \<^verbatim>\<open>Count\<close> zero elements and filled from the start. (A set whose
  stored size is below its number of elements would panic here; \<open>hs_inv\<close> excludes it.)
\<close>

definition zero_fwo :: factWithOrigin where
  "zero_fwo = \<lparr>fwo_Fact = \<lparr>pred_Name = 0, pred_Terms = None\<rparr>, fwo_Origin = HashSet_empty\<rparr>"

definition getFactWithOrigins :: "runtime \<Rightarrow> FactSet \<Rightarrow> factWithOrigin list" where
  "getFactWithOrigins rt factSet =
     (let filled = concat (map (\<lambda>(origin, facts).
            map (\<lambda>f. \<lparr>fwo_Fact = f, fwo_Origin = origin\<rparr>) (HashSet_Iter facts)) (FactSet_Iter rt factSet))
      in filled @ replicate (FactSet_Count factSet - length filled) zero_fwo)"

section \<open>combineIt\<close>

record combineIt =
  ci_variables :: matchedVariables
  ci_predicates :: "Predicate list"
  ci_allFacts :: "factWithOrigin list"

definition newCombineIt :: "runtime \<Rightarrow> Predicate slice \<Rightarrow> FactSet \<Rightarrow> combineIt" where
  "newCombineIt rt predicates factSet =
     \<lparr>ci_variables = newMatchedVariables (elems predicates), ci_predicates = elems predicates,
      ci_allFacts = getFactWithOrigins rt factSet\<rparr>"

text \<open>The loop \<^verbatim>\<open>matches\<close>: the position of the first predicate its fact does not match.\<close>

fun match_loop :: "combineIt \<Rightarrow> nat \<Rightarrow> nat list \<Rightarrow> nat option" where
  "match_loop ci predicateIndex [] = None"
| "match_loop ci predicateIndex (factIndex # indexes) =
     (if Predicate_Match (fwo_Fact (ci_allFacts ci ! factIndex)) (ci_predicates ci ! predicateIndex)
      then (if Suc predicateIndex = length (ci_predicates ci) then None
            else match_loop ci (Suc predicateIndex) indexes)
      else Some predicateIndex)"

fun bind_terms :: "Fact \<Rightarrow> nat \<Rightarrow> Term list \<Rightarrow> matchedVariables \<Rightarrow> matchedVariables option" where
  "bind_terms f termIndex [] variables = Some variables"
| "bind_terms f termIndex (TVariable v # terms) variables =
     (let (variables', ok) = mv_insert variables v (elems (pred_Terms f) ! termIndex) in
      if \<not> ok then None else bind_terms f (Suc termIndex) terms variables')"
| "bind_terms f termIndex (_ # terms) variables = bind_terms f (Suc termIndex) terms variables"

fun bind_predicates :: "combineIt \<Rightarrow> nat list \<Rightarrow> nat \<Rightarrow> Predicate list \<Rightarrow> matchedVariables \<Rightarrow>
    nat + matchedVariables" where
  "bind_predicates ci indexes predicateIndex [] variables = Inr variables"
| "bind_predicates ci indexes predicateIndex (predicate # ps) variables =
     (case bind_terms (fwo_Fact (ci_allFacts ci ! (indexes ! predicateIndex))) 0
         (elems (pred_Terms predicate)) variables of
        None \<Rightarrow> Inl predicateIndex
      | Some variables' \<Rightarrow> bind_predicates ci indexes (Suc predicateIndex) ps variables')"

definition match_origin :: "runtime \<Rightarrow> combineIt \<Rightarrow> nat list \<Rightarrow> Origin option" where
  "match_origin rt ci indexes =
     (if length indexes > 0
      then Some (fold (\<lambda>i origin. Origin_InsertOrigin rt origin (fwo_Origin (ci_allFacts ci ! (indexes ! i))))
        [1..<length indexes] (Origin_clone (fwo_Origin (ci_allFacts ci ! (indexes ! 0)))))
      else None)"

text \<open>
  What happens to one tuple: a call of \<^verbatim>\<open>failedAtIndex\<close> (\<open>Inl\<close>), nothing (\<open>Inr None\<close>), or
  a match that is yielded.
\<close>

definition combine_at :: "runtime \<Rightarrow> combineIt \<Rightarrow> nat list \<Rightarrow> nat + (Origin option \<times> matchedVariables) option" where
  "combine_at rt ci indexes = (case match_loop ci 0 indexes of
     Some predicateIndex \<Rightarrow> Inl predicateIndex
   | None \<Rightarrow> (case bind_predicates ci indexes 0 (ci_predicates ci) (mv_clone (ci_variables ci)) of
        Inl predicateIndex \<Rightarrow> Inl predicateIndex
      | Inr variables \<Rightarrow> (case mv_complete variables of
           None \<Rightarrow> Inr None
         | Some completedVars \<Rightarrow> Inr (Some (match_origin rt ci indexes, completedVars)))))"

definition match_feedback :: "runtime \<Rightarrow> combineIt \<Rightarrow> nat list \<Rightarrow> nat option" where
  "match_feedback rt ci indexes = (case combine_at rt ci indexes of Inl i \<Rightarrow> Some i | Inr _ \<Rightarrow> None)"

definition match_yield :: "runtime \<Rightarrow> combineIt \<Rightarrow> nat list \<Rightarrow> (Origin option \<times> matchedVariables) option" where
  "match_yield rt ci indexes = (case combine_at rt ci indexes of Inl _ \<Rightarrow> None | Inr r \<Rightarrow> r)"

definition combineIt_matches :: "runtime \<Rightarrow> combineIt \<Rightarrow> (Origin option \<times> matchedVariables) list option" where
  "combineIt_matches rt ci =
     map_option (List.map_filter (match_yield rt ci))
       (combinations_iter (length (ci_predicates ci)) (length (ci_allFacts ci)) (match_feedback rt ci))"

section \<open>Substitution\<close>

type_synonym subst = "u32 \<Rightarrow> Term option"

fun subst_term :: "subst \<Rightarrow> Term \<Rightarrow> Term" where
  "subst_term \<sigma> (TVariable v) = (case \<sigma> v of None \<Rightarrow> TVariable v | Some t \<Rightarrow> t)"
| "subst_term \<sigma> t = t"

definition subst_pred :: "subst \<Rightarrow> Predicate \<Rightarrow> Predicate" where
  "subst_pred \<sigma> p = \<lparr>pred_Name = pred_Name p, pred_Terms = Some (map (subst_term \<sigma>) (elems (pred_Terms p)))\<rparr>"

definition binding_of :: "matchedVariables \<Rightarrow> subst" where
  "binding_of m v = (case map_of m v of Some (Some t) \<Rightarrow> Some t | _ \<Rightarrow> None)"

text \<open>Facts without variables and without sets.\<close>

definition ground :: "Fact \<Rightarrow> bool" where
  "ground f \<longleftrightarrow> pred_atomic f \<and> (\<forall>t \<in> set (elems (pred_Terms f)). \<not> is_Variable t)"

definition pred_vars :: "Predicate \<Rightarrow> u32 set" where
  "pred_vars p = {v. TVariable v \<in> set (elems (pred_Terms p))}"

lemma ground_terms: "ground f \<Longrightarrow> j < length (elems (pred_Terms f)) \<Longrightarrow>
    is_atomic (elems (pred_Terms f) ! j) \<and> (\<forall>v. elems (pred_Terms f) ! j \<noteq> TVariable v)"
  using nth_mem[of j "elems (pred_Terms f)"] by (fastforce simp: ground_def pred_atomic_def is_Variable_def)

lemma subst_pred_eq:
  assumes "ground f"
  shows "subst_pred \<sigma> p = f \<longleftrightarrow> pred_Name p = pred_Name f \<and>
    length (elems (pred_Terms p)) = length (elems (pred_Terms f)) \<and>
    (\<forall>j < length (elems (pred_Terms p)). subst_term \<sigma> (elems (pred_Terms p) ! j) = elems (pred_Terms f) ! j)"
proof -
  obtain ts where "pred_Terms f = Some ts"
    using assms by (auto simp: ground_def pred_atomic_def)
  then have "subst_pred \<sigma> p = f \<longleftrightarrow> pred_Name p = pred_Name f \<and>
      map (subst_term \<sigma>) (elems (pred_Terms p)) = elems (pred_Terms f)"
    by (cases f) (auto simp: subst_pred_def)
  then show ?thesis by (auto simp: list_eq_iff_nth_eq)
qed

section \<open>Matching one predicate\<close>

lemma Match_iff:
  assumes "ground f"
  shows "Predicate_Match f p \<longleftrightarrow> pred_Name p = pred_Name f \<and>
    length (elems (pred_Terms p)) = length (elems (pred_Terms f)) \<and>
    (\<forall>j < length (elems (pred_Terms p)).
       is_Variable (elems (pred_Terms p) ! j) \<or> elems (pred_Terms p) ! j = elems (pred_Terms f) ! j)"
proof -
  have "term_eq (elems (pred_Terms f) ! j) t \<longleftrightarrow> elems (pred_Terms f) ! j = t"
    "\<not> is_Variable (elems (pred_Terms f) ! j)"
    if "j < length (elems (pred_Terms f))" for j t
    using ground_terms[OF assms that] atom_eq_term
    by (auto simp: is_Variable_def Term_Type_cases)
  then show ?thesis
    by (auto simp: Predicate_Match_def list_all_length)
qed

lemma subst_Match:
  assumes "ground f" "subst_pred \<sigma> p = f"
  shows "Predicate_Match f p"
proof -
  have "is_Variable t \<or> t = subst_term \<sigma> t" for t
    by (cases t) (simp_all add: is_Variable_def)
  then show ?thesis using assms unfolding Match_iff[OF assms(1)] subst_pred_eq[OF assms(1)] by metis
qed

section \<open>Binding the variables of one predicate\<close>

definition agrees :: "subst \<Rightarrow> matchedVariables \<Rightarrow> bool" where
  "agrees \<sigma> m \<longleftrightarrow> (\<forall>v t. binding_of m v = Some t \<longrightarrow> \<sigma> v = Some t)"

definition atomic_binding :: "matchedVariables \<Rightarrow> bool" where
  "atomic_binding m \<longleftrightarrow> (\<forall>v t. binding_of m v = Some t \<longrightarrow> is_atomic t)"

definition mv_keys :: "matchedVariables \<Rightarrow> u32 set" where
  "mv_keys m = fst ` set m"

lemma mv_insert_cases:
  assumes "is_atomic t" "atomic_binding m"
  shows "mv_insert m v t = (case binding_of m v of
     Some t' \<Rightarrow> (m, t = t') | None \<Rightarrow> (AList.update v (Some t) m, True))"
  using assms atom_eq_term[of t]
  by (auto simp: mv_insert_def binding_of_def split: option.splits)

lemma binding_of_update [simp]:
  "binding_of (AList.update v (Some t) m) = (binding_of m)(v \<mapsto> t)"
  by (rule ext) (simp add: binding_of_def update_conv')

lemma mv_keys_update [simp]: "mv_keys (AList.update v x m) = insert v (mv_keys m)"
  by (simp add: mv_keys_def dom_update)

text \<open>The template keeps its keys and what is bound stays bound.\<close>

definition extends :: "matchedVariables \<Rightarrow> matchedVariables \<Rightarrow> bool" where
  "extends m m' \<longleftrightarrow> binding_of m \<subseteq>\<^sub>m binding_of m' \<and> mv_keys m \<subseteq> mv_keys m' \<and>
     (distinct (map fst m) \<longrightarrow> distinct (map fst m')) \<and> atomic_binding m'"

lemma extends_trans: "extends a b \<Longrightarrow> extends b c \<Longrightarrow> extends a c"
  by (auto simp: extends_def intro: map_le_trans)

lemma mv_insert_True:
  assumes "mv_insert m v t = (m', True)" "is_atomic t" "atomic_binding m"
  shows "extends m m'" "binding_of m' v = Some t" "mv_keys m' = insert v (mv_keys m)"
    "agrees \<sigma> m \<Longrightarrow> \<sigma> v = Some t \<Longrightarrow> agrees \<sigma> m'"
proof -
  have "extends m m' \<and> binding_of m' v = Some t \<and> mv_keys m' = insert v (mv_keys m) \<and>
      (agrees \<sigma> m \<longrightarrow> \<sigma> v = Some t \<longrightarrow> agrees \<sigma> m')"
  proof (cases "binding_of m v")
    case None
    then have m': "m' = AList.update v (Some t) m" using assms by (simp add: mv_insert_cases)
    have "atomic_binding m'" using assms(2,3) by (simp add: m' atomic_binding_def)
    then show ?thesis
      using None by (auto simp: m' extends_def map_le_def dom_def agrees_def distinct_update)
  next
    case (Some t')
    then have "m' = m" "t' = t" using assms by (simp_all add: mv_insert_cases)
    moreover have "v \<in> mv_keys m"
      using Some by (auto simp: binding_of_def mv_keys_def dest!: map_of_SomeD split: option.splits intro: rev_image_eqI)
    ultimately show ?thesis using Some assms(3) by (auto simp: extends_def)
  qed
  then show "extends m m'" "binding_of m' v = Some t" "mv_keys m' = insert v (mv_keys m)"
    "agrees \<sigma> m \<Longrightarrow> \<sigma> v = Some t \<Longrightarrow> agrees \<sigma> m'" by simp_all
qed

lemma mv_insert_False:
  assumes "mv_insert m v t = (m', False)" "is_atomic t" "atomic_binding m"
  shows "agrees \<sigma> m \<Longrightarrow> \<sigma> v \<noteq> Some t"
  using assms by (auto simp: mv_insert_cases agrees_def split: option.splits)

definition terms_match :: "subst \<Rightarrow> Fact \<Rightarrow> nat \<Rightarrow> Term list \<Rightarrow> bool" where
  "terms_match \<sigma> f k ts \<longleftrightarrow> (\<forall>j < length ts. \<forall>v. ts ! j = TVariable v \<longrightarrow>
     \<sigma> v = Some (elems (pred_Terms f) ! (k + j)))"

lemma terms_match_Cons:
  "terms_match \<sigma> f k (t # ts) \<longleftrightarrow> (\<forall>v. t = TVariable v \<longrightarrow> \<sigma> v = Some (elems (pred_Terms f) ! k)) \<and>
     terms_match \<sigma> f (Suc k) ts"
  unfolding terms_match_def by (auto simp: nth_Cons' less_Suc_eq_0_disj)

lemma terms_match_mono:
  "terms_match (binding_of m) f k ts \<Longrightarrow> extends m m' \<Longrightarrow> terms_match (binding_of m') f k ts"
  unfolding terms_match_def extends_def map_le_def by (metis domI)

lemma bind_terms_spec:
  assumes "ground f" "k + length ts \<le> length (elems (pred_Terms f))" "atomic_binding m"
  shows "bind_terms f k ts m = Some m' \<Longrightarrow> extends m m' \<and> terms_match (binding_of m') f k ts \<and>
      mv_keys m' = mv_keys m \<union> {v. TVariable v \<in> set ts} \<and>
      (\<forall>\<sigma>. agrees \<sigma> m \<longrightarrow> terms_match \<sigma> f k ts \<longrightarrow> agrees \<sigma> m')"
    and "bind_terms f k ts m = None \<Longrightarrow> agrees \<sigma> m \<Longrightarrow> \<not> terms_match \<sigma> f k ts"
proof -
  have "case bind_terms f k ts m of
      Some m' \<Rightarrow> extends m m' \<and> terms_match (binding_of m') f k ts \<and>
        mv_keys m' = mv_keys m \<union> {v. TVariable v \<in> set ts} \<and>
        (\<forall>\<sigma>. agrees \<sigma> m \<longrightarrow> terms_match \<sigma> f k ts \<longrightarrow> agrees \<sigma> m')
    | None \<Rightarrow> (\<forall>\<sigma>. agrees \<sigma> m \<longrightarrow> \<not> terms_match \<sigma> f k ts)"
    using assms(2,3)
  proof (induction ts arbitrary: k m)
    case Nil
    then show ?case by (simp add: terms_match_def extends_def)
  next
    case (Cons t ts)
    show ?case
    proof (cases "\<exists>v. t = TVariable v")
      case True
      then obtain v where t: "t = TVariable v" by blast
      let ?x = "elems (pred_Terms f) ! k"
      have x: "is_atomic ?x" using ground_terms[OF assms(1), of k] Cons.prems by simp
      obtain m1 ok where ins: "mv_insert m v ?x = (m1, ok)" by fastforce
      show ?thesis
      proof (cases ok)
        case False
        then show ?thesis using mv_insert_False[OF _ x Cons.prems(2)] ins t
          by (auto simp: terms_match_Cons)
      next
        case True
        then have "mv_insert m v ?x = (m1, True)" using ins by simp
        note ins1 = mv_insert_True[OF this x Cons.prems(2)]
        have a1: "atomic_binding m1" using ins1(1) by (simp add: extends_def)
        note IH = Cons.IH[of "Suc k" m1] 
        show ?thesis
        proof (cases "bind_terms f (Suc k) ts m1")
          case None
          then show ?thesis using IH a1 Cons.prems(1) ins True t ins1(4)
            by (auto simp: terms_match_Cons)
        next
          case (Some m')
          then have r: "extends m1 m'" "terms_match (binding_of m') f (Suc k) ts"
            "mv_keys m' = mv_keys m1 \<union> {v. TVariable v \<in> set ts}"
            "\<forall>\<sigma>. agrees \<sigma> m1 \<longrightarrow> terms_match \<sigma> f (Suc k) ts \<longrightarrow> agrees \<sigma> m'"
            using IH a1 Cons.prems(1) by simp_all
          have "binding_of m' v = Some ?x"
            using ins1(2) r(1) unfolding extends_def map_le_def by (metis domI)
          then have tm: "terms_match (binding_of m') f k (t # ts)"
            using r(2) t by (simp add: terms_match_Cons)
          have "agrees \<sigma> m \<longrightarrow> terms_match \<sigma> f k (t # ts) \<longrightarrow> agrees \<sigma> m'" for \<sigma>
            using ins1(4) r(4) t by (simp add: terms_match_Cons)
          then show ?thesis using Some ins True t tm extends_trans[OF ins1(1) r(1)] r(3) ins1(3)
            by auto
        qed
      qed
    next
      case False
      then have "bind_terms f k (t # ts) m = bind_terms f (Suc k) ts m" by (cases t) auto
      moreover have "terms_match \<sigma> f k (t # ts) \<longleftrightarrow> terms_match \<sigma> f (Suc k) ts" for \<sigma>
        using False by (simp add: terms_match_Cons)
      moreover have "{v. TVariable v \<in> set (t # ts)} = {v. TVariable v \<in> set ts}" using False by auto
      ultimately show ?thesis using Cons.IH[of "Suc k" m] Cons.prems
        by (cases "bind_terms f (Suc k) ts m") (simp_all del: list.set)
    qed
  qed
  then show "bind_terms f k ts m = Some m' \<Longrightarrow> extends m m' \<and> terms_match (binding_of m') f k ts \<and>
      mv_keys m' = mv_keys m \<union> {v. TVariable v \<in> set ts} \<and>
      (\<forall>\<sigma>. agrees \<sigma> m \<longrightarrow> terms_match \<sigma> f k ts \<longrightarrow> agrees \<sigma> m')"
    "bind_terms f k ts m = None \<Longrightarrow> agrees \<sigma> m \<Longrightarrow> \<not> terms_match \<sigma> f k ts"
    by simp_all
qed

lemma subst_pred_terms_match:
  assumes "ground f" "Predicate_Match f p"
  shows "subst_pred \<sigma> p = f \<longleftrightarrow> terms_match \<sigma> f 0 (elems (pred_Terms p))"
proof -
  let ?ps = "elems (pred_Terms p)" and ?fs = "elems (pred_Terms f)"
  have M: "pred_Name p = pred_Name f" "length ?ps = length ?fs"
    "\<forall>j < length ?ps. is_Variable (?ps ! j) \<or> ?ps ! j = ?fs ! j"
    using assms(2) unfolding Match_iff[OF assms(1)] by blast+
  have "subst_term \<sigma> (?ps ! j) = ?fs ! j \<longleftrightarrow> (\<forall>v. ?ps ! j = TVariable v \<longrightarrow> \<sigma> v = Some (?fs ! j))"
    if "j < length ?ps" for j
  proof (cases "\<exists>v. ?ps ! j = TVariable v")
    case True
    then obtain v where v: "?ps ! j = TVariable v" by blast
    have "?fs ! j \<noteq> TVariable v" using ground_terms[OF assms(1), of j] that M(2) by simp
    then show ?thesis using v by (auto split: option.splits)
  next
    case False
    then have "?ps ! j = ?fs ! j" using M(3) that by (auto simp: is_Variable_def Term_Type_cases)
    moreover have "subst_term \<sigma> t = t" if "\<forall>v. t \<noteq> TVariable v" for t using that by (cases t) auto
    ultimately show ?thesis using False by simp
  qed
  then show ?thesis unfolding subst_pred_eq[OF assms(1)] terms_match_def using M by simp
qed

section \<open>Matching a tuple\<close>

definition fact_at :: "combineIt \<Rightarrow> nat \<Rightarrow> Fact" where
  "fact_at ci i = fwo_Fact (ci_allFacts ci ! i)"

definition matches_upto :: "subst \<Rightarrow> combineIt \<Rightarrow> nat list \<Rightarrow> nat \<Rightarrow> bool" where
  "matches_upto \<sigma> ci xs n \<longleftrightarrow> (\<forall>j < n. subst_pred \<sigma> (ci_predicates ci ! j) = fact_at ci (xs ! j))"

definition ci_ground :: "combineIt \<Rightarrow> bool" where
  "ci_ground ci \<longleftrightarrow> (\<forall>x \<in> set (ci_allFacts ci). ground (fwo_Fact x))"

lemma match_loop_spec:
  assumes "length xs = length (ci_predicates ci)" and "k \<le> length xs"
  shows "match_loop ci k (drop k xs) = None \<Longrightarrow>
      \<forall>j. k \<le> j \<longrightarrow> j < length xs \<longrightarrow> Predicate_Match (fact_at ci (xs ! j)) (ci_predicates ci ! j)"
    and "match_loop ci k (drop k xs) = Some i \<Longrightarrow>
      i < length xs \<and> \<not> Predicate_Match (fact_at ci (xs ! i)) (ci_predicates ci ! i)"
proof -
  have "case match_loop ci k (drop k xs) of
      None \<Rightarrow> \<forall>j. k \<le> j \<longrightarrow> j < length xs \<longrightarrow> Predicate_Match (fact_at ci (xs ! j)) (ci_predicates ci ! j)
    | Some i \<Rightarrow> i < length xs \<and> \<not> Predicate_Match (fact_at ci (xs ! i)) (ci_predicates ci ! i)"
    using assms(2)
  proof (induction "length xs - k" arbitrary: k)
    case 0
    then show ?case by simp
  next
    case (Suc n)
    then have k: "k < length xs" by simp
    have d: "drop k xs = xs ! k # drop (Suc k) xs" using k by (rule Cons_nth_drop_Suc[symmetric])
    have IH: "case match_loop ci (Suc k) (drop (Suc k) xs) of
      None \<Rightarrow> \<forall>j. Suc k \<le> j \<longrightarrow> j < length xs \<longrightarrow> Predicate_Match (fact_at ci (xs ! j)) (ci_predicates ci ! j)
    | Some i \<Rightarrow> i < length xs \<and> \<not> Predicate_Match (fact_at ci (xs ! i)) (ci_predicates ci ! i)"
      using Suc k by simp
    show ?case
    proof (cases "Predicate_Match (fact_at ci (xs ! k)) (ci_predicates ci ! k)")
      case False
      then show ?thesis using k by (simp add: d fact_at_def)
    next
      case True
      then have step: "Predicate_Match (fact_at ci (xs ! j)) (ci_predicates ci ! j)"
        if "k \<le> j" "Suc k \<le> j \<longrightarrow> Predicate_Match (fact_at ci (xs ! j)) (ci_predicates ci ! j)" for j
        using that by (cases "j = k") auto
      show ?thesis
      proof (cases "Suc k = length xs")
        case last: True
        then have "match_loop ci k (drop k xs) = None" using True assms(1) by (simp add: d fact_at_def)
        moreover have "Predicate_Match (fact_at ci (xs ! j)) (ci_predicates ci ! j)"
          if "k \<le> j" "j < length xs" for j using step[of j] that last by simp
        ultimately show ?thesis by simp
      next
        case False
        then have "match_loop ci k (drop k xs) = match_loop ci (Suc k) (drop (Suc k) xs)"
          using True assms(1) by (simp add: d fact_at_def)
        then show ?thesis using IH step by (auto split: option.splits)
      qed
    qed
  qed
  then show "match_loop ci k (drop k xs) = None \<Longrightarrow>
      \<forall>j. k \<le> j \<longrightarrow> j < length xs \<longrightarrow> Predicate_Match (fact_at ci (xs ! j)) (ci_predicates ci ! j)"
    "match_loop ci k (drop k xs) = Some i \<Longrightarrow>
      i < length xs \<and> \<not> Predicate_Match (fact_at ci (xs ! i)) (ci_predicates ci ! i)"
    by simp_all
qed

lemma bind_predicates_spec:
  assumes "length xs = length (ci_predicates ci)"
    and "\<forall>j < length xs. ground (fact_at ci (xs ! j)) \<and>
      Predicate_Match (fact_at ci (xs ! j)) (ci_predicates ci ! j)"
    and "k \<le> length xs" and "atomic_binding m"
  shows "case bind_predicates ci xs k (drop k (ci_predicates ci)) m of
      Inl i \<Rightarrow> i < length xs \<and> (\<forall>\<sigma>. agrees \<sigma> m \<longrightarrow> \<not> (\<forall>j. k \<le> j \<longrightarrow> j \<le> i \<longrightarrow>
        subst_pred \<sigma> (ci_predicates ci ! j) = fact_at ci (xs ! j)))
    | Inr m' \<Rightarrow> extends m m' \<and> (\<forall>j. k \<le> j \<longrightarrow> j < length xs \<longrightarrow>
        subst_pred (binding_of m') (ci_predicates ci ! j) = fact_at ci (xs ! j)) \<and>
        mv_keys m' = mv_keys m \<union> (\<Union>p \<in> set (drop k (ci_predicates ci)). pred_vars p)"
  using assms(3,4)
proof (induction "length xs - k" arbitrary: k m)
  case 0
  then show ?case using assms(1) by (simp add: extends_def)
next
  case (Suc n)
  let ?P = "ci_predicates ci"
  have k: "k < length xs" using Suc by simp
  then have d: "drop k ?P = ?P ! k # drop (Suc k) ?P" using assms(1) by (metis Cons_nth_drop_Suc)
  let ?f = "fact_at ci (xs ! k)" and ?ts = "elems (pred_Terms (?P ! k))"
  have f: "ground ?f" "Predicate_Match ?f (?P ! k)" using assms(2) k by auto
  have len: "0 + length ?ts \<le> length (elems (pred_Terms ?f))" using f(2) unfolding Match_iff[OF f(1)] by simp
  note bt = bind_terms_spec[OF f(1) len Suc.prems(2)]
  note eq = subst_pred_terms_match[OF f]
  show ?case
  proof (cases "bind_terms ?f 0 ?ts m")
    case None
    then have "bind_predicates ci xs k (drop k ?P) m = Inl k" by (simp add: d fact_at_def)
    moreover have "agrees \<sigma> m \<Longrightarrow> subst_pred \<sigma> (?P ! k) \<noteq> ?f" for \<sigma>
      using bt(2)[OF None] eq by blast
    ultimately show ?thesis using k by auto
  next
    case (Some m1)
    note b1 = bt(1)[OF Some]
    have run: "bind_predicates ci xs k (drop k ?P) m = bind_predicates ci xs (Suc k) (drop (Suc k) ?P) m1"
      using Some by (simp add: d fact_at_def)
    have a1: "atomic_binding m1" using b1 by (simp add: extends_def)
    have "n = length xs - Suc k" "Suc k \<le> length xs" using Suc.hyps(2) k by simp_all
    note IH = Suc.hyps(1)[OF this a1]
    show ?thesis
    proof (cases "bind_predicates ci xs (Suc k) (drop (Suc k) ?P) m1")
      case (Inl i)
      have "\<not> (\<forall>j. k \<le> j \<longrightarrow> j \<le> i \<longrightarrow> subst_pred \<sigma> (?P ! j) = fact_at ci (xs ! j))"
        if ag: "agrees \<sigma> m" for \<sigma>
      proof
        assume all: "\<forall>j. k \<le> j \<longrightarrow> j \<le> i \<longrightarrow> subst_pred \<sigma> (?P ! j) = fact_at ci (xs ! j)"
        show False
        proof (cases "k \<le> i")
          case True
          then have "agrees \<sigma> m1" using all b1 ag eq by blast
          then show False using IH Inl all by auto
        next
          case False
          obtain \<sigma>' where "agrees \<sigma>' m1" using agrees_def by blast
          then show False using IH Inl False by auto
        qed
      qed
      then show ?thesis using run Inl IH by simp
    next
      case (Inr m')
      then have r: "extends m1 m'" "\<forall>j. Suc k \<le> j \<longrightarrow> j < length xs \<longrightarrow>
          subst_pred (binding_of m') (?P ! j) = fact_at ci (xs ! j)"
        "mv_keys m' = mv_keys m1 \<union> (\<Union>p \<in> set (drop (Suc k) ?P). pred_vars p)"
        using IH by simp_all
      have "terms_match (binding_of m') ?f 0 ?ts" using b1 r(1) terms_match_mono by blast
      then have now: "subst_pred (binding_of m') (?P ! k) = ?f" using eq by blast
      have all: "subst_pred (binding_of m') (?P ! j) = fact_at ci (xs ! j)" if "k \<le> j" "j < length xs" for j
        using now r(2) that by (cases "j = k") auto
      have keys: "mv_keys m' = mv_keys m \<union> (\<Union>p \<in> set (drop k ?P). pred_vars p)"
        using r(3) b1 by (auto simp: d pred_vars_def)
      have "extends m m'" using b1 r(1) extends_trans by blast
      then show ?thesis using run Inr all keys by simp
    qed
  qed
qed

section \<open>The template of variables\<close>

lemma newMatchedVariables_spec:
  "distinct (map fst (newMatchedVariables ps))"
  "mv_keys (newMatchedVariables ps) = (\<Union>p \<in> set ps. pred_vars p)"
  "binding_of (newMatchedVariables ps) = Map.empty"
proof -
  let ?step = "\<lambda>t r. case t of TVariable v \<Rightarrow> AList.update v None r | _ \<Rightarrow> (r :: matchedVariables)"
  let ?good = "\<lambda>r :: matchedVariables. distinct (map fst r) \<and> (\<forall>x \<in> set r. snd x = None)"
  have snd: "\<forall>x \<in> set r. snd x = None \<Longrightarrow> \<forall>x \<in> set (AList.update v None r). snd x = None" for v and r :: matchedVariables
    by (metis in_update_cases prod.collapse snd_conv)
  have terms: "?good r \<Longrightarrow> ?good (fold ?step ts r) \<and>
      mv_keys (fold ?step ts r) = mv_keys r \<union> {v. TVariable v \<in> set ts}" for ts r
  proof (induction ts arbitrary: r)
    case (Cons t ts)
    have g: "?good (?step t r)" using Cons.prems snd[of r] by (cases t) (auto simp: distinct_update)
    have "mv_keys (?step t r) = mv_keys r \<union> {v. t = TVariable v}" by (cases t) auto
    then show ?case using Cons.IH[OF g] by auto
  qed simp
  have preds: "?good r \<Longrightarrow> ?good (fold (\<lambda>p. fold ?step (elems (pred_Terms p))) ps r) \<and>
      mv_keys (fold (\<lambda>p. fold ?step (elems (pred_Terms p))) ps r) = mv_keys r \<union> (\<Union>p \<in> set ps. pred_vars p)" for r
  proof (induction ps arbitrary: r)
    case (Cons p ps)
    note t = terms[OF Cons.prems, of "elems (pred_Terms p)"]
    show ?case using Cons.IH[OF conjunct1[OF t]] t by (auto simp: pred_vars_def)
  qed simp
  have n: "?good (newMatchedVariables ps) \<and> mv_keys (newMatchedVariables ps) = (\<Union>p \<in> set ps. pred_vars p)"
    using preds[of "[]"] by (simp add: newMatchedVariables_def mv_keys_def)
  then show "distinct (map fst (newMatchedVariables ps))"
    "mv_keys (newMatchedVariables ps) = (\<Union>p \<in> set ps. pred_vars p)" by simp_all
  show "binding_of (newMatchedVariables ps) = Map.empty"
  proof
    fix v
    have "map_of (newMatchedVariables ps) v = Some x \<Longrightarrow> x = None" for x
      using n by (fastforce dest: map_of_SomeD)
    then show "binding_of (newMatchedVariables ps) v = None"
      by (auto simp: binding_of_def split: option.splits)
  qed
qed

lemma mv_clone_id: "distinct (map fst m) \<Longrightarrow> mv_clone m = m"
  using fold_update_append[of "[]" m] by (simp add: mv_clone_def)

section \<open>The outcome for one tuple\<close>

definition body_vars :: "combineIt \<Rightarrow> u32 set" where
  "body_vars ci = (\<Union>p \<in> set (ci_predicates ci). pred_vars p)"

definition ci_wf :: "combineIt \<Rightarrow> bool" where
  "ci_wf ci \<longleftrightarrow> ci_variables ci = newMatchedVariables (ci_predicates ci) \<and> ci_ground ci"

abbreviation ci_tuples :: "combineIt \<Rightarrow> nat list list" where
  "ci_tuples ci \<equiv> tuples (length (ci_predicates ci)) (length (ci_allFacts ci))"

lemma subst_binds:
  assumes "ground (subst_pred \<sigma> p)" "v \<in> pred_vars p"
  shows "\<exists>t. \<sigma> v = Some t"
proof (rule ccontr)
  assume "\<nexists>t. \<sigma> v = Some t"
  then have "subst_term \<sigma> (TVariable v) = TVariable v" by simp
  moreover have "TVariable v \<in> set (elems (pred_Terms p))" using assms(2) by (simp add: pred_vars_def)
  ultimately have "TVariable v \<in> subst_term \<sigma> ` set (elems (pred_Terms p))" by force
  moreover have "\<forall>t \<in> subst_term \<sigma> ` set (elems (pred_Terms p)). \<not> is_Variable t"
    using assms(1) by (simp add: ground_def subst_pred_def)
  moreover have "is_Variable (TVariable v)" by (simp add: is_Variable_def)
  ultimately show False by blast
qed

lemma combine_at_spec:
  assumes "ci_wf ci" "xs \<in> set (ci_tuples ci)"
  shows "case combine_at rt ci xs of
      Inl i \<Rightarrow> i < length xs \<and> (\<forall>\<sigma>. \<not> matches_upto \<sigma> ci xs (Suc i))
    | Inr None \<Rightarrow> False
    | Inr (Some (o1, m)) \<Rightarrow> o1 = match_origin rt ci xs \<and> matches_upto (binding_of m) ci xs (length xs) \<and>
        mv_keys m = body_vars ci \<and> distinct (map fst m) \<and> (\<forall>v \<in> body_vars ci. \<exists>t. binding_of m v = Some t)"
proof -
  let ?P = "ci_predicates ci" and ?m0 = "newMatchedVariables (ci_predicates ci)"
  have len: "length xs = length ?P" using assms by (simp add: in_tuples)
  have g: "\<forall>j < length xs. ground (fact_at ci (xs ! j))"
    using assms by (auto simp: in_tuples ci_wf_def ci_ground_def fact_at_def)
  show ?thesis
  proof (cases "match_loop ci 0 xs")
    case (Some i)
    then have i: "i < length xs" "\<not> Predicate_Match (fact_at ci (xs ! i)) (?P ! i)"
      using match_loop_spec(2)[OF len, of 0 i] by simp_all
    then have "\<not> matches_upto \<sigma> ci xs (Suc i)" for \<sigma>
      using subst_Match g by (auto simp: matches_upto_def)
    then show ?thesis using Some i by (simp add: combine_at_def)
  next
    case None
    then have M: "\<forall>j < length xs. Predicate_Match (fact_at ci (xs ! j)) (?P ! j)"
      using match_loop_spec(1)[OF len, of 0] by simp
    have c: "mv_clone (ci_variables ci) = ?m0"
      using assms(1) by (simp add: ci_wf_def mv_clone_id newMatchedVariables_spec)
    have a0: "atomic_binding ?m0" by (simp add: atomic_binding_def newMatchedVariables_spec)
    have ag0: "agrees \<sigma> ?m0" for \<sigma> by (simp add: agrees_def newMatchedVariables_spec)
    note bp = bind_predicates_spec[OF len, of 0 ?m0, unfolded drop_0]
    show ?thesis
    proof (cases "bind_predicates ci xs 0 ?P ?m0")
      case (Inl i)
      then show ?thesis using bp g M a0 ag0 None c
        by (auto simp: combine_at_def matches_upto_def less_Suc_eq_le)
    next
      case (Inr m)
      then have r: "extends ?m0 m" "matches_upto (binding_of m) ci xs (length xs)" "mv_keys m = body_vars ci"
        using bp g M a0 by (auto simp: matches_upto_def body_vars_def newMatchedVariables_spec)
      have d: "distinct (map fst m)" using r(1) newMatchedVariables_spec(1) by (simp add: extends_def)
      have bound: "\<exists>t. binding_of m v = Some t" if "v \<in> body_vars ci" for v
      proof -
        note v = that
        obtain j where j: "j < length ?P" "v \<in> pred_vars (?P ! j)"
          using v by (auto simp: body_vars_def in_set_conv_nth)
        then have "ground (subst_pred (binding_of m) (?P ! j))"
          using r(2) g len by (simp add: matches_upto_def)
        then show ?thesis using subst_binds j(2) by blast
      qed
      have "x \<noteq> None" if "(v, x) \<in> set m" for v x
      proof -
        have "v \<in> body_vars ci" using that r(3) by (force simp: mv_keys_def)
        then obtain t where "binding_of m v = Some t" using bound by blast
        moreover have "map_of m v = Some x" using that d by simp
        ultimately show ?thesis by (cases x) (simp_all add: binding_of_def)
      qed
      then have "mv_complete m = Some m" by (auto simp: mv_complete_def list_ex_iff)
      then show ?thesis using None c Inr r d bound by (simp add: combine_at_def)
    qed
  qed
qed

section \<open>All matches\<close>

definition valid_tuples :: "combineIt \<Rightarrow> nat list list" where
  "valid_tuples ci = filter (\<lambda>xs. \<exists>\<sigma>. matches_upto \<sigma> ci xs (length xs)) (ci_tuples ci)"

definition match_ok :: "runtime \<Rightarrow> combineIt \<Rightarrow> nat list \<Rightarrow> Origin option \<times> matchedVariables \<Rightarrow> bool" where
  "match_ok rt ci xs r \<longleftrightarrow> fst r = match_origin rt ci xs \<and>
     matches_upto (binding_of (snd r)) ci xs (length xs) \<and> mv_keys (snd r) = body_vars ci \<and>
     distinct (map fst (snd r)) \<and> (\<forall>v \<in> body_vars ci. \<exists>t. binding_of (snd r) v = Some t)"

lemma feedback_None_iff:
  assumes "ci_wf ci" "xs \<in> set (ci_tuples ci)"
  shows "match_feedback rt ci xs = None \<longleftrightarrow> (\<exists>\<sigma>. matches_upto \<sigma> ci xs (length xs))"
    and "match_feedback rt ci xs = None \<Longrightarrow> \<exists>r. match_yield rt ci xs = Some r \<and> match_ok rt ci xs r"
proof -
  note cs = combine_at_spec[OF assms, of rt]
  show "match_feedback rt ci xs = None \<longleftrightarrow> (\<exists>\<sigma>. matches_upto \<sigma> ci xs (length xs))"
    using cs by (auto simp: match_feedback_def matches_upto_def split: sum.splits option.splits)
      (meson le_trans less_Suc_eq_le Suc_leI order_less_le_trans)+
  show "match_feedback rt ci xs = None \<Longrightarrow> \<exists>r. match_yield rt ci xs = Some r \<and> match_ok rt ci xs r"
    using cs by (auto simp: match_feedback_def match_yield_def match_ok_def split: sum.splits option.splits)
qed

lemma feedback_prunable:
  assumes "ci_wf ci"
  shows "prunable (length (ci_predicates ci)) (length (ci_allFacts ci)) (match_feedback rt ci)"
  unfolding prunable_def
proof (intro ballI allI impI)
  let ?n = "length (ci_predicates ci)" and ?k = "length (ci_allFacts ci)"
  fix xs i assume xs: "xs \<in> set (tuples ?n ?k)" and "match_feedback rt ci xs = Some i"
  then have i: "i < length xs" "\<And>\<sigma>. \<not> matches_upto \<sigma> ci xs (Suc i)"
    using combine_at_spec[OF assms xs, of rt]
    by (auto simp: match_feedback_def split: sum.splits option.splits)
  have "match_feedback rt ci ys \<noteq> None"
    if ys: "ys \<in> set (tuples ?n ?k)" and eq: "take (Suc i) ys = take (Suc i) xs" for ys
  proof
    assume "match_feedback rt ci ys = None"
    then obtain \<sigma> where "matches_upto \<sigma> ci ys (length ys)"
      using feedback_None_iff(1)[OF assms ys] by blast
    moreover have "ys ! j = xs ! j" if "j < Suc i" for j
      using arg_cong[OF eq, of "\<lambda>l. l ! j"] that by simp
    moreover have "Suc i \<le> length ys" using i(1) xs ys by (simp add: in_tuples)
    ultimately have "matches_upto \<sigma> ci xs (Suc i)" by (auto simp: matches_upto_def)
    then show False using i(2) by blast
  qed
  then show "i < ?n \<and> (\<forall>ys \<in> set (tuples ?n ?k). take (Suc i) ys = take (Suc i) xs \<longrightarrow> match_feedback rt ci ys \<noteq> None)"
    using i(1) xs by (simp add: in_tuples)
qed

lemma combineIt_matches_spec:
  assumes "ci_wf ci"
  shows "\<exists>ms. combineIt_matches rt ci = Some ms \<and> list_all2 (match_ok rt ci) (valid_tuples ci) ms"
proof -
  obtain vs where vs: "combinations_iter (length (ci_predicates ci)) (length (ci_allFacts ci)) (match_feedback rt ci) = Some vs"
    "accepted (match_feedback rt ci) vs = accepted (match_feedback rt ci) (ci_tuples ci)"
    "set vs \<subseteq> set (ci_tuples ci)"
    using combinations_iter_spec[OF feedback_prunable[OF assms]] by blast
  have "accepted (match_feedback rt ci) (ci_tuples ci) = valid_tuples ci"
    unfolding valid_tuples_def using feedback_None_iff(1)[OF assms] by (intro filter_cong) auto
  moreover have la: "list_all2 (match_ok rt ci) (accepted (match_feedback rt ci) ws) (List.map_filter (match_yield rt ci) ws)"
    if "set ws \<subseteq> set (ci_tuples ci)" for ws
    using that
  proof (induction ws)
    case (Cons w ws)
    show ?case
    proof (cases "match_feedback rt ci w")
      case None
      moreover have "w \<in> set (ci_tuples ci)" using Cons.prems by simp
      ultimately obtain r where "match_yield rt ci w = Some r" "match_ok rt ci w r"
        using feedback_None_iff(2)[OF assms] by blast
      then show ?thesis using Cons None by (simp add: map_filter_simps)
    next
      case (Some i)
      then have "match_yield rt ci w = None"
        by (auto simp: match_feedback_def match_yield_def split: sum.splits)
      then show ?thesis using Cons Some by (simp add: map_filter_simps)
    qed
  qed (simp add: map_filter_simps)
  ultimately show ?thesis using vs la[OF vs(3)] by (simp add: combineIt_matches_def)
qed

section \<open>Matches against a fact set\<close>

text \<open>
  \<open>body_match R body \<sigma> B\<close>: the substitution turns every predicate of the body into a fact of
  the relation \<open>R\<close>, and \<open>B\<close> collects the blocks these facts come from.
\<close>

definition body_match :: "(BlockID set \<times> Fact) set \<Rightarrow> Predicate list \<Rightarrow> subst \<Rightarrow> BlockID set \<Rightarrow> bool" where
  "body_match R body \<sigma> B \<longleftrightarrow> (\<exists>Bs. list_all2 (\<lambda>b p. (b, subst_pred \<sigma> p) \<in> R) Bs body \<and> B = \<Union> (set Bs))"

definition facts_ground :: "runtime \<Rightarrow> FactSet \<Rightarrow> bool" where
  "facts_ground rt fs \<longleftrightarrow> facts_inv rt fs \<and> (\<forall>(B, f) \<in> facts_of rt fs. ground f)"

lemma getFactWithOrigins_eq:
  assumes "facts_inv rt fs"
  shows "getFactWithOrigins rt fs = concat (map (\<lambda>(origin, facts).
            map (\<lambda>f. \<lparr>fwo_Fact = f, fwo_Origin = origin\<rparr>) (HashSet_Iter facts)) (FactSet_Iter rt fs))"
proof -
  have "\<forall>(k, s) \<in> set fs. HashSet_Size s = length (HashSet_Iter s)"
    using assms by (auto simp: keyed_inv_def hs_inv_def HashSet_Size_def)
  then have "FactSet_Count fs = length (concat (map (\<lambda>(origin, facts).
            map (\<lambda>f. \<lparr>fwo_Fact = f, fwo_Origin = origin\<rparr>) (HashSet_Iter facts)) (FactSet_Iter rt fs)))"
    unfolding FactSet_Count_sum FactSet_Iter_eq[OF assms]
    by (induction fs) (auto simp: length_concat)
  then show ?thesis by (simp add: getFactWithOrigins_def Let_def)
qed

lemma in_getFactWithOrigins:
  assumes "facts_inv rt fs"
  shows "x \<in> set (getFactWithOrigins rt fs) \<longleftrightarrow>
    (\<exists>o1 s f. (o1, s) \<in> set (FactSet_Iter rt fs) \<and> f \<in> hs_set s \<and> x = \<lparr>fwo_Fact = f, fwo_Origin = o1\<rparr>)"
  unfolding getFactWithOrigins_eq[OF assms] by auto

lemma getFactWithOrigins_facts:
  assumes "facts_inv rt fs"
  shows "(B, f) \<in> facts_of rt fs \<longleftrightarrow>
      (\<exists>x \<in> set (getFactWithOrigins rt fs). B = hs_set (fwo_Origin x) \<and> f = fwo_Fact x)"
    and "x \<in> set (getFactWithOrigins rt fs) \<Longrightarrow> origin_ok rt (fwo_Origin x) \<and> hs_set (fwo_Origin x) \<noteq> {}"
proof -
  show "(B, f) \<in> facts_of rt fs \<longleftrightarrow>
      (\<exists>x \<in> set (getFactWithOrigins rt fs). B = hs_set (fwo_Origin x) \<and> f = fwo_Fact x)"
    unfolding Bex_def in_getFactWithOrigins[OF assms] facts_of_Iter[OF assms] by force
  show "x \<in> set (getFactWithOrigins rt fs) \<Longrightarrow> origin_ok rt (fwo_Origin x) \<and> hs_set (fwo_Origin x) \<noteq> {}"
    unfolding in_getFactWithOrigins[OF assms] using in_FactSet_Iter[OF assms] by auto
qed

lemma newCombineIt_simps [simp]:
  "ci_variables (newCombineIt rt body fs) = newMatchedVariables (elems body)"
  "ci_predicates (newCombineIt rt body fs) = elems body"
  "ci_allFacts (newCombineIt rt body fs) = getFactWithOrigins rt fs"
  by (simp_all add: newCombineIt_def)

lemma newCombineIt_wf: "facts_ground rt fs \<Longrightarrow> ci_wf (newCombineIt rt body fs)"
proof -
  assume "facts_ground rt fs"
  then have inv: "facts_inv rt fs" and g: "\<forall>(B, f) \<in> facts_of rt fs. ground f" by (simp_all add: facts_ground_def)
  have "ground (fwo_Fact x)" if "x \<in> set (getFactWithOrigins rt fs)" for x
    using g that getFactWithOrigins_facts(1)[OF inv] by blast
  then show ?thesis by (simp add: ci_wf_def ci_ground_def)
qed

definition origin_set :: "Origin option \<Rightarrow> BlockID set" where
  "origin_set o1 = (case o1 of None \<Rightarrow> {} | Some o2 \<Rightarrow> hs_set o2)"

lemma match_origin_spec:
  assumes "\<And>j. j < length xs \<Longrightarrow> origin_ok rt (fwo_Origin (ci_allFacts ci ! (xs ! j)))"
  shows "origin_set (match_origin rt ci xs) = (\<Union>j < length xs. hs_set (fwo_Origin (ci_allFacts ci ! (xs ! j))))"
    and "match_origin rt ci xs = Some o1 \<Longrightarrow> origin_ok rt o1"
proof -
  let ?o = "\<lambda>j. fwo_Origin (ci_allFacts ci ! (xs ! j))"
  let ?f = "\<lambda>n. fold (\<lambda>i origin. Origin_InsertOrigin rt origin (?o i)) [1..<n] (?o 0)"
  have "origin_set (match_origin rt ci xs) = (\<Union>j < length xs. hs_set (?o j)) \<and>
    (\<forall>o1. match_origin rt ci xs = Some o1 \<longrightarrow> origin_ok rt o1)"
  proof (cases "xs = []")
    case True
    then show ?thesis by (simp add: match_origin_def origin_set_def)
  next
    case False
    have step: "origin_ok rt (?f n) \<and> hs_set (?f n) = (\<Union>j < n. hs_set (?o j))"
      if "1 \<le> n" "n \<le> length xs" for n
      using that
    proof (induction n rule: nat_induct_at_least)
      case base
      then show ?case using assms[of 0] False by (simp add: lessThan_Suc)
    next
      case (Suc n)
      then have "origin_ok rt (?o n)" using assms by simp
      then show ?case using Suc by (auto simp: lessThan_Suc)
    qed
    have "1 \<le> length xs" using False by (cases xs) auto
    then show ?thesis using step[of "length xs"] False by (simp add: match_origin_def origin_set_def)
  qed
  then show "origin_set (match_origin rt ci xs) = (\<Union>j < length xs. hs_set (?o j))"
    "match_origin rt ci xs = Some o1 \<Longrightarrow> origin_ok rt o1" by simp_all
qed

lemma matches_sound:
  assumes "facts_ground rt fs" "combineIt_matches rt (newCombineIt rt body fs) = Some ms" "(o1, m) \<in> set ms"
  shows "body_match (facts_of rt fs) (elems body) (binding_of m) (origin_set o1)"
    and "case o1 of None \<Rightarrow> True | Some o2 \<Rightarrow> origin_ok rt o2"
    and "mv_keys m = (\<Union>p \<in> set (elems body). pred_vars p)"
    and "distinct (map fst m)"
    and "\<forall>v \<in> mv_keys m. \<exists>t. binding_of m v = Some t"
proof -
  let ?ci = "newCombineIt rt body fs"
  have inv: "facts_inv rt fs" using assms(1) by (simp add: facts_ground_def)
  obtain xs where xs: "xs \<in> set (valid_tuples ?ci)" "match_ok rt ?ci xs (o1, m)"
    using combineIt_matches_spec[OF newCombineIt_wf[OF assms(1)], of rt body] assms(2,3)
      list_all2_right[of "match_ok rt ?ci" _ ms "(o1, m)"] by auto
  then have t: "length xs = length (elems body)" "\<forall>j < length xs. xs ! j < length (getFactWithOrigins rt fs)"
    by (auto simp: valid_tuples_def in_tuples)
  let ?x = "\<lambda>j. getFactWithOrigins rt fs ! (xs ! j)"
  have x: "?x j \<in> set (getFactWithOrigins rt fs)" if "j < length xs" for j using t that by simp
  have ok: "origin_ok rt (fwo_Origin (ci_allFacts ?ci ! (xs ! j)))" if "j < length xs" for j
    using getFactWithOrigins_facts(2)[OF inv x[OF that]] by simp
  note o = match_origin_spec[OF ok, simplified newCombineIt_simps]
  have m: "subst_pred (binding_of m) (elems body ! j) = fwo_Fact (?x j)" if "j < length xs" for j
    using xs(2) that by (simp add: match_ok_def matches_upto_def fact_at_def)
  have "list_all2 (\<lambda>b p. (b, subst_pred (binding_of m) p) \<in> facts_of rt fs)
      (map (\<lambda>j. hs_set (fwo_Origin (?x j))) [0..<length xs]) (elems body)"
    using m x getFactWithOrigins_facts(1)[OF inv] t(1) by (auto simp: list_all2_conv_all_nth)
  moreover have "origin_set o1 = \<Union> (set (map (\<lambda>j. hs_set (fwo_Origin (?x j))) [0..<length xs]))"
    using o(1) xs(2) by (auto simp: match_ok_def)
  ultimately show "body_match (facts_of rt fs) (elems body) (binding_of m) (origin_set o1)"
    unfolding body_match_def by blast
  show "case o1 of None \<Rightarrow> True | Some o2 \<Rightarrow> origin_ok rt o2"
    using o(2) xs(2) by (simp add: match_ok_def split: option.split)
  show "mv_keys m = (\<Union>p \<in> set (elems body). pred_vars p)" "distinct (map fst m)"
    "\<forall>v \<in> mv_keys m. \<exists>t. binding_of m v = Some t"
    using xs(2) by (simp_all add: match_ok_def body_vars_def)
qed


lemma matches_complete:
  assumes "facts_ground rt fs" "body_match (facts_of rt fs) (elems body) \<sigma> B"
  shows "\<exists>ms o1 m. combineIt_matches rt (newCombineIt rt body fs) = Some ms \<and> (o1, m) \<in> set ms \<and>
    origin_set o1 = B \<and> (\<forall>v \<in> \<Union>p \<in> set (elems body). pred_vars p. binding_of m v = \<sigma> v)"
proof -
  let ?ci = "newCombineIt rt body fs" and ?F = "getFactWithOrigins rt fs" and ?P = "elems body"
  have inv: "facts_inv rt fs" and gr: "\<forall>(B, f) \<in> facts_of rt fs. ground f"
    using assms(1) by (simp_all add: facts_ground_def)
  obtain Bs where Bs: "length Bs = length ?P" "B = \<Union> (set Bs)"
    "\<forall>j < length ?P. (Bs ! j, subst_pred \<sigma> (?P ! j)) \<in> facts_of rt fs"
    using assms(2) by (auto simp: body_match_def list_all2_conv_all_nth)
  have "\<exists>i < length ?F. Bs ! j = hs_set (fwo_Origin (?F ! i)) \<and> subst_pred \<sigma> (?P ! j) = fwo_Fact (?F ! i)"
    if "j < length ?P" for j
    using Bs(3) that getFactWithOrigins_facts(1)[OF inv] by (metis in_set_conv_nth)
  then obtain ix where ix: "\<And>j. j < length ?P \<Longrightarrow> ix j < length ?F \<and>
      Bs ! j = hs_set (fwo_Origin (?F ! ix j)) \<and> subst_pred \<sigma> (?P ! j) = fwo_Fact (?F ! ix j)"
    by metis
  define xs where "xs = map ix [0..<length ?P]"
  have up: "matches_upto \<sigma> ?ci xs (length xs)"
    using ix by (simp add: matches_upto_def xs_def fact_at_def)
  have t: "xs \<in> set (ci_tuples ?ci)" using ix by (auto simp: in_tuples xs_def)
  then have "xs \<in> set (valid_tuples ?ci)" using up by (auto simp: valid_tuples_def)
  moreover obtain ms where run: "combineIt_matches rt ?ci = Some ms"
    "list_all2 (match_ok rt ?ci) (valid_tuples ?ci) ms"
    using combineIt_matches_spec[OF newCombineIt_wf[OF assms(1)], of rt body] by blast
  ultimately obtain r where r: "r \<in> set ms" "match_ok rt ?ci xs r" using list_all2_left by metis
  obtain o1 m where "r = (o1, m)" by fastforce
  then have ms: "combineIt_matches rt ?ci = Some ms" "(o1, m) \<in> set ms" "match_ok rt ?ci xs (o1, m)"
    using run r by simp_all
  have ok: "origin_ok rt (fwo_Origin (ci_allFacts ?ci ! (xs ! j)))" if "j < length xs" for j
  proof -
    have "ix j < length ?F" "xs ! j = ix j" using ix that by (simp_all add: xs_def)
    then show ?thesis using getFactWithOrigins_facts(2)[OF inv, of "?F ! ix j"] by simp
  qed
  have "origin_set (match_origin rt ?ci xs) = (\<Union>j < length xs. hs_set (fwo_Origin (?F ! (xs ! j))))"
    using match_origin_spec(1)[OF ok] by simp
  moreover have "(\<Union>j < length xs. hs_set (fwo_Origin (?F ! (xs ! j)))) = (\<Union>j < length Bs. Bs ! j)"
    using ix Bs(1) by (intro SUP_cong) (auto simp: xs_def)
  moreover have "(\<Union>j < length Bs. Bs ! j) = B" unfolding Bs(2) set_conv_nth by blast
  ultimately have "origin_set o1 = B"
    using ms(3) by (simp add: match_ok_def)
  moreover have "binding_of m v = \<sigma> v" if "p \<in> set ?P" "v \<in> pred_vars p" for p v
  proof -
    note pv = that
    obtain j where j: "j < length ?P" "p = ?P ! j" using pv(1) by (metis in_set_conv_nth)
    have eq: "subst_pred (binding_of m) p = subst_pred \<sigma> p"
      using up ms(3) j by (simp add: match_ok_def matches_upto_def xs_def)
    have g: "ground (subst_pred \<sigma> p)" using Bs(3) gr j by blast
    obtain a b where ab: "binding_of m v = Some a" "\<sigma> v = Some b"
      using subst_binds[OF g pv(2)] subst_binds[of "binding_of m" p v] g eq pv(2) by auto
    have "map (subst_term (binding_of m)) (elems (pred_Terms p)) = map (subst_term \<sigma>) (elems (pred_Terms p))"
      using eq by (simp add: subst_pred_def)
    then have "subst_term (binding_of m) (TVariable v) = subst_term \<sigma> (TVariable v)"
      using pv(2) unfolding pred_vars_def by (auto simp: map_eq_conv)
    then show ?thesis using ab by simp
  qed
  ultimately show ?thesis using ms(1,2) by auto
qed

text \<open>
  C22: matching is sound and complete. Against ground facts it always returns, and what it
  returns are exactly the substitutions of the body's variables that turn every body
  predicate into a fact, each with the union of the origins of the facts used. Pruning and
  early conflicts lose no match, and no variable is left unbound.
\<close>

theorem combineIt_matches_correct:
  assumes "facts_ground rt fs"
  shows "\<exists>ms. combineIt_matches rt (newCombineIt rt body fs) = Some ms \<and>
    (\<forall>\<sigma> B. body_match (facts_of rt fs) (elems body) \<sigma> B \<longleftrightarrow>
       (\<exists>(o1, m) \<in> set ms. origin_set o1 = B \<and>
          (\<forall>p \<in> set (elems body). subst_pred \<sigma> p = subst_pred (binding_of m) p)))"
proof -
  obtain ms where ms: "combineIt_matches rt (newCombineIt rt body fs) = Some ms"
    using combineIt_matches_spec[OF newCombineIt_wf[OF assms]] by blast
  have "body_match (facts_of rt fs) (elems body) \<sigma> B \<longleftrightarrow>
       (\<exists>(o1, m) \<in> set ms. origin_set o1 = B \<and> (\<forall>p \<in> set (elems body). subst_pred \<sigma> p = subst_pred (binding_of m) p))"
    for \<sigma> B
  proof
    assume "body_match (facts_of rt fs) (elems body) \<sigma> B"
    from matches_complete[OF assms this] ms obtain o1 m where
      m: "(o1, m) \<in> set ms" "origin_set o1 = B"
      "\<forall>v \<in> \<Union>p \<in> set (elems body). pred_vars p. binding_of m v = \<sigma> v" by auto
    have "subst_term \<sigma> t = subst_term (binding_of m) t" if "p \<in> set (elems body)" "t \<in> set (elems (pred_Terms p))" for p t
      using m(3) that by (cases t) (auto simp: pred_vars_def)
    then have "\<forall>p \<in> set (elems body). subst_pred \<sigma> p = subst_pred (binding_of m) p"
      by (simp add: subst_pred_def)
    with m show "\<exists>(o1, m) \<in> set ms. origin_set o1 = B \<and>
        (\<forall>p \<in> set (elems body). subst_pred \<sigma> p = subst_pred (binding_of m) p)" by blast
  next
    assume "\<exists>(o1, m) \<in> set ms. origin_set o1 = B \<and>
        (\<forall>p \<in> set (elems body). subst_pred \<sigma> p = subst_pred (binding_of m) p)"
    then obtain o1 m where m: "(o1, m) \<in> set ms" "origin_set o1 = B"
      "\<forall>p \<in> set (elems body). subst_pred \<sigma> p = subst_pred (binding_of m) p" by blast
    show "body_match (facts_of rt fs) (elems body) \<sigma> B"
      using matches_sound(1)[OF assms ms m(1)] m(2,3)
      unfolding body_match_def list_all2_conv_all_nth by (metis nth_mem)
  qed
  then show ?thesis using ms by blast
qed

text \<open>The facts of one \<^verbatim>\<open>NewFactSet\<close>.\<close>

lemma NewFactSet_spec:
  assumes "\<forall>f \<in> set xs. ground f"
  shows "facts_ground rt (NewFactSet rt (NewOrigin rt b bs) xs)"
    and "facts_of rt (NewFactSet rt (NewOrigin rt b bs) xs) = {insert b (set bs)} \<times> set xs"
proof -
  have at: "\<forall>f \<in> set xs. pred_atomic f" using assms by (simp add: ground_def)
  have eq: "NewFactSet rt (NewOrigin rt b bs) xs = FactSet_InsertMulti rt [] (NewOrigin rt b bs) xs"
    by (simp add: NewFactSet_def FactSet_InsertMulti_def)
  show "facts_of rt (NewFactSet rt (NewOrigin rt b bs) xs) = {insert b (set bs)} \<times> set xs"
    "facts_ground rt (NewFactSet rt (NewOrigin rt b bs) xs)"
    using FactSet_InsertMulti_spec[of rt "[]" "NewOrigin rt b bs" xs] at assms
    by (auto simp: eq facts_ground_def)
qed

theorem combineIt_matches_correct_witness:
  "\<exists>ms. combineIt_matches demo_runtime (newCombineIt demo_runtime
      (Some [\<lparr>pred_Name = 7, pred_Terms = Some [TVariable 0]\<rparr>])
      (NewFactSet demo_runtime (NewOrigin demo_runtime 0 []) [\<lparr>pred_Name = 7, pred_Terms = Some [TInteger 1]\<rparr>])) = Some ms \<and>
    (\<exists>(o1, m) \<in> set ms. origin_set o1 = {0})"
proof -
  define rt fs body where "rt = demo_runtime"
    and "fs = NewFactSet demo_runtime (NewOrigin demo_runtime 0 []) [\<lparr>pred_Name = 7, pred_Terms = Some [TInteger 1]\<rparr>]"
    and "body = Some [\<lparr>pred_Name = 7, pred_Terms = Some [TVariable 0]\<rparr>]"
  have g: "\<forall>f \<in> set [\<lparr>pred_Name = 7, pred_Terms = Some [TInteger 1]\<rparr>]. ground f"
    by (simp add: ground_def pred_atomic_def is_Variable_def)
  have bm: "body_match (facts_of rt fs) (elems body) [0 \<mapsto> TInteger 1] {0}"
    unfolding body_match_def rt_def fs_def body_def NewFactSet_spec(2)[OF g]
    by (intro exI[of _ "[{0}]"]) (simp add: subst_pred_def)
  have fg: "facts_ground rt fs" unfolding rt_def fs_def by (rule NewFactSet_spec(1)[OF g])
  obtain ms where run: "combineIt_matches rt (newCombineIt rt body fs) = Some ms"
    and iff: "\<forall>\<sigma> B. body_match (facts_of rt fs) (elems body) \<sigma> B \<longleftrightarrow>
       (\<exists>(o1, m) \<in> set ms. origin_set o1 = B \<and>
          (\<forall>p \<in> set (elems body). subst_pred \<sigma> p = subst_pred (binding_of m) p))"
    using combineIt_matches_correct[OF fg, of body] by (elim exE conjE)
  have "\<exists>(o1, m) \<in> set ms. origin_set o1 = {0}"
    using iffD1[OF spec[OF spec[OF iff]] bm] by fast
  then show ?thesis using run unfolding rt_def fs_def body_def by (intro exI conjI)
qed

end
