(* ===== verification/ExprSemantics.thy ===== *)
theory ExprSemantics
  imports Expressions
begin

text \<open>
  What the evaluation of expressions computes. \<open>tree_eval\<close> gives the value of an
  expression tree; the stack machine of \<^verbatim>\<open>Expression.Evaluate\<close> returns a value exactly for
  the postfix form of a tree, and then it is the value of the tree. Typed trees never fail
  with a type error. Integer arithmetic is exact or reports the overflow, except for
  division. Evaluation only appends to the symbol table.
\<close>

section \<open>Trees and their postfix form\<close>

datatype tree = Leaf Term | Unary UnaryOpFunc tree | Binary BinaryOpFunc tree tree

fun compile :: "tree \<Rightarrow> Op list" where
  "compile (Leaf t) = [Value t]"
| "compile (Unary f a) = compile a @ [UnaryOp f]"
| "compile (Binary f a b) = compile a @ compile b @ [BinaryOp f]"

fun depth :: "tree \<Rightarrow> nat" where
  "depth (Leaf t) = 1"
| "depth (Unary f a) = depth a"
| "depth (Binary f a b) = max (depth a) (Suc (depth b))"

fun leaf_value :: "bindings \<Rightarrow> Term \<Rightarrow> expr_error + Term" where
  "leaf_value values (TVariable v) = (case map_of values v of
     None \<Rightarrow> Inl (UnknownVariable v) | Some None \<Rightarrow> Inl ExprPanic | Some (Some t) \<Rightarrow> Inr t)"
| "leaf_value values t = Inr t"

fun tree_eval :: "runtime \<Rightarrow> bindings \<Rightarrow> tree \<Rightarrow> SymbolTable \<Rightarrow> (expr_error + Term) \<times> SymbolTable" where
  "tree_eval rt values (Leaf t) symbols = (leaf_value values t, symbols)"
| "tree_eval rt values (Unary f a) symbols = (case tree_eval rt values a symbols of
     (Inl e, symbols1) \<Rightarrow> (Inl e, symbols1)
   | (Inr v, symbols1) \<Rightarrow> (case UnaryOpFunc_Eval symbols1 f v of
        Inl e \<Rightarrow> (Inl (wrap_error UnaryEvalFailed e), symbols1)
      | Inr r \<Rightarrow> (Inr r, symbols1)))"
| "tree_eval rt values (Binary f a b) symbols = (case tree_eval rt values a symbols of
     (Inl e, symbols1) \<Rightarrow> (Inl e, symbols1)
   | (Inr l, symbols1) \<Rightarrow> (case tree_eval rt values b symbols1 of
        (Inl e, symbols2) \<Rightarrow> (Inl e, symbols2)
      | (Inr r, symbols2) \<Rightarrow> (case BinaryOpFunc_Eval rt f l r symbols2 of
           (Inl e, symbols3) \<Rightarrow> (Inl (wrap_error BinaryEvalFailed e), symbols3)
         | (Inr v, symbols3) \<Rightarrow> (Inr v, symbols3))))"

section \<open>The stack machine\<close>

lemma stack_Push_simps [simp]:
  "length s < maxStackSize \<Longrightarrow> stack_Push s v = Some (s @ [v])"
  "\<not> length s < maxStackSize \<Longrightarrow> stack_Push s v = None"
  by (simp_all add: stack_Push_def)

lemma stack_Pop_simps [simp]:
  "stack_Pop [] = None"
  "stack_Pop (s @ [v]) = Some (v, s)"
  by (simp_all add: stack_Pop_def)

lemma eval_Value_leaf:
  "eval_Value values t s = (case leaf_value values t of
     Inl e \<Rightarrow> Inl e | Inr v \<Rightarrow> push_or_overflow s v)"
  by (cases t) (simp_all add: eval_Value_def split: option.splits)

lemma push_or_overflow_simps [simp]:
  "length s < maxStackSize \<Longrightarrow> push_or_overflow s v = Inr (s @ [v])"
  "\<not> length s < maxStackSize \<Longrightarrow> push_or_overflow s v = Inl StackOverflow"
  by (simp_all add: push_or_overflow_def)

lemma depth_pos [simp]: "0 < depth t"
  by (induction t) auto

lemma run_compile:
  assumes "length s + depth t \<le> maxStackSize"
  shows "eval_ops rt values (compile t @ ops) s symbols = (case tree_eval rt values t symbols of
     (Inl e, symbols') \<Rightarrow> (Inl e, symbols')
   | (Inr v, symbols') \<Rightarrow> eval_ops rt values ops (s @ [v]) symbols')"
  using assms
proof (induction t arbitrary: ops s symbols)
  case (Leaf t)
  then show ?case by (simp add: eval_Value_leaf split: sum.splits)
next
  case (Unary f a)
  have "length s < maxStackSize" using Unary.prems depth_pos[of a] by (simp del: depth_pos)
  with Unary show ?case
    by (auto simp: eval_UnaryOp_def split: sum.splits prod.splits)
next
  case (Binary f a b)
  have l: "length s + depth a \<le> maxStackSize" "length s < maxStackSize"
    "Suc (length s) + depth b \<le> maxStackSize" using Binary.prems by auto
  obtain ra sa where a: "tree_eval rt values a symbols = (ra, sa)" by fastforce
  show ?case
  proof (cases ra)
    case (Inl e)
    then show ?thesis using Binary.IH(1)[OF l(1)] a by simp
  next
    case (Inr x)
    obtain rb sb where b: "tree_eval rt values b sa = (rb, sb)" by fastforce
    have "eval_ops rt values (compile (Binary f a b) @ ops) s symbols =
        eval_ops rt values (compile b @ [BinaryOp f] @ ops) (s @ [x]) sa"
      using Binary.IH(1)[OF l(1), of "compile b @ [BinaryOp f] @ ops"] a Inr by simp
    also have "\<dots> = (case (rb, sb) of (Inl e, symbols') \<Rightarrow> (Inl e, symbols')
       | (Inr v, symbols') \<Rightarrow> eval_ops rt values ([BinaryOp f] @ ops) (s @ [x, v]) symbols')"
      using Binary.IH(2)[of "s @ [x]" "[BinaryOp f] @ ops" sa] l(3) b by (cases rb) simp_all
    also have "\<dots> = (case tree_eval rt values (Binary f a b) symbols of
        (Inl e, symbols') \<Rightarrow> (Inl e, symbols')
      | (Inr v, symbols') \<Rightarrow> eval_ops rt values ops (s @ [v]) symbols')"
    proof (cases rb)
      case (Inr y)
      have "stack_Pop (s @ [x, y]) = Some (y, s @ [x])"
        using stack_Pop_simps(2)[of "s @ [x]" y] by simp
      then show ?thesis using a b Inr \<open>ra = Inr x\<close> l(2)
        by (simp add: eval_BinaryOp_def split: sum.splits prod.splits)
    qed (simp add: a b \<open>ra = Inr x\<close>)
    finally show ?thesis .
  qed
qed

lemma run_too_deep:
  assumes "length s \<le> maxStackSize" "length s + depth t > maxStackSize"
  shows "\<exists>e symbols'. eval_ops rt values (compile t @ ops) s symbols = (Inl e, symbols')"
  using assms
proof (induction t arbitrary: ops s symbols)
  case (Leaf t)
  then show ?case by (simp add: eval_Value_leaf split: sum.splits)
next
  case (Unary f a)
  then show ?case by simp
next
  case (Binary f a b)
  show ?case
  proof (cases "length s + depth a \<le> maxStackSize")
    case False
    then show ?thesis using Binary.IH(1)[of s] Binary.prems by simp
  next
    case True
    then have d: "length (s @ [v]) \<le> maxStackSize" "length (s @ [v]) + depth b > maxStackSize" for v
      using Binary.prems depth_pos[of a] by (simp_all del: depth_pos split: if_splits)
    show ?thesis
      using run_compile[OF True, of rt "values" "compile b @ [BinaryOp f] @ ops" symbols] Binary.IH(2)[OF d]
      by (auto split: prod.splits sum.splits)
  qed
qed

text \<open>Reading a postfix program back as trees.\<close>

fun parse_ops :: "Op list \<Rightarrow> tree list \<Rightarrow> tree list option" where
  "parse_ops [] ts = Some ts"
| "parse_ops (Value t # ops) ts = parse_ops ops (Leaf t # ts)"
| "parse_ops (UnaryOp f # ops) (a # ts) = parse_ops ops (Unary f a # ts)"
| "parse_ops (BinaryOp f # ops) (b # a # ts) = parse_ops ops (Binary f a b # ts)"
| "parse_ops _ _ = None"

lemma parse_ops_compile:
  "parse_ops ops ts = Some ts' \<Longrightarrow>
   concat (map compile (rev ts)) @ ops = concat (map compile (rev ts'))"
  by (induction ops ts rule: parse_ops.induct) auto

lemma eval_op_length:
  assumes "eval_op rt values op s symbols = (Inr s', symbols')"
  shows "case op of Value _ \<Rightarrow> length s' = Suc (length s)
    | UnaryOp _ \<Rightarrow> s \<noteq> [] \<and> length s' = length s
    | BinaryOp _ \<Rightarrow> 2 \<le> length s \<and> Suc (length s') = length s"
  using assms
proof (cases op)
  case (Value t)
  then show ?thesis using assms
    by (auto simp: eval_Value_leaf push_or_overflow_def stack_Push_def split: sum.splits option.splits if_splits)
next
  case (UnaryOp f)
  then show ?thesis using assms
    by (auto simp: eval_UnaryOp_def push_or_overflow_def stack_Push_def stack_Pop_def
        split: sum.splits option.splits if_splits)
next
  case (BinaryOp f)
  then show ?thesis using assms
    by (auto simp: eval_BinaryOp_def push_or_overflow_def stack_Push_def stack_Pop_def
        split: sum.splits option.splits if_splits prod.splits)
qed

lemma eval_ops_parses:
  assumes "eval_ops rt values ops s symbols = (Inr s', symbols')" and "length ts = length s"
  shows "\<exists>ts'. parse_ops ops ts = Some ts' \<and> length ts' = length s'"
  using assms
proof (induction ops arbitrary: s symbols ts)
  case (Cons op ops)
  then obtain s1 symbols1 where step: "eval_op rt values op s symbols = (Inr s1, symbols1)"
    and run: "eval_ops rt values ops s1 symbols1 = (Inr s', symbols')"
    by (auto split: prod.splits sum.splits)
  note len = eval_op_length[OF step]
  show ?case
  proof (cases op)
    case (Value t)
    then show ?thesis using Cons.IH[OF run, of "Leaf t # ts"] len Cons.prems(2) by simp
  next
    case (UnaryOp f)
    then obtain a ts1 where "ts = a # ts1" using len Cons.prems(2) by (cases ts) auto
    then show ?thesis using Cons.IH[OF run, of "Unary f a # ts1"] len Cons.prems(2) UnaryOp by simp
  next
    case (BinaryOp f)
    then obtain b a ts1 where "ts = b # a # ts1"
      using len Cons.prems(2) by (cases ts; cases "tl ts") auto
    then show ?thesis using Cons.IH[OF run, of "Binary f a b # ts1"] len Cons.prems(2) BinaryOp by simp
  qed
qed simp

lemma Evaluate_tree:
  assumes "depth t \<le> maxStackSize"
  shows "Expression_Evaluate rt (Some (compile t)) values symbols = tree_eval rt values t symbols"
  using run_compile[of "[]" t rt "values" "[]" symbols] assms
  by (auto simp: Expression_Evaluate_def stack_Pop_def split: prod.splits sum.splits)

lemma Evaluate_value_tree:
  assumes "Expression_Evaluate rt e values symbols = (Inr v, symbols')"
  shows "\<exists>t. elems e = compile t \<and> depth t \<le> maxStackSize"
proof -
  obtain s where run: "eval_ops rt values (elems e) [] symbols = (Inr s, symbols')" and "length s = 1"
    using assms by (auto simp: Expression_Evaluate_def split: prod.splits sum.splits if_splits option.splits)
  then obtain t where "parse_ops (elems e) [] = Some [t]"
    using eval_ops_parses[OF run, of "[]"] by (auto simp: length_Suc_conv)
  then have t: "elems e = compile t" using parse_ops_compile by fastforce
  moreover have "depth t \<le> maxStackSize"
    using run_too_deep[of "[]" t rt "values" "[]" symbols] run t by (cases "depth t \<le> maxStackSize") auto
  ultimately show ?thesis by blast
qed

text \<open>
  C25: an expression evaluates to a value exactly when it is the postfix form of an
  expression tree that needs at most \<^verbatim>\<open>maxStackSize\<close> stack cells and the tree has that value;
  strings interned on the way are the same. Any other program is an error, never a value.
\<close>

theorem Evaluate_value_iff:
  "Expression_Evaluate rt e values symbols = (Inr v, symbols') \<longleftrightarrow>
   (\<exists>t. elems e = compile t \<and> depth t \<le> maxStackSize \<and>
        tree_eval rt values t symbols = (Inr v, symbols'))"
proof -
  have "Expression_Evaluate rt e values symbols = Expression_Evaluate rt (Some (elems e)) values symbols"
    by (simp add: Expression_Evaluate_def)
  then show ?thesis
    using Evaluate_tree[of _ rt "values" symbols] Evaluate_value_tree[of rt e "values" symbols v symbols']
    by metis
qed

text \<open>
  On the postfix form of a tree the stack machine also reports the first error of the
  tree in evaluation order (left operand, right operand, operation).
\<close>

theorem Evaluate_compile:
  assumes "depth t \<le> maxStackSize"
  shows "Expression_Evaluate rt (Some (compile t)) values symbols = tree_eval rt values t symbols"
  using assms by (rule Evaluate_tree)

theorem Evaluate_compile_witness:
  "fst (Expression_Evaluate demo_runtime (Some [Value (TInteger 1), Value (TInteger 0), BinaryOp Div]) [] [])
     = Inl (BinaryEvalFailed ErrExprDivByZero)"
proof -
  let ?t = "Binary Div (Leaf (TInteger 1)) (Leaf (TInteger 0))"
  have "depth ?t \<le> maxStackSize" by (simp add: maxStackSize_def)
  from Evaluate_compile[OF this, of demo_runtime "[]" "[]"] show ?thesis
    by (simp add: BinaryOpFunc_Eval_def Div_Eval_def wrap_error_def)
qed

section \<open>Arithmetic\<close>

lemma sint_word_of_int: "- (2 ^ 63) \<le> i \<Longrightarrow> i < 2 ^ 63 \<Longrightarrow> sint (word_of_int i :: u64) = i"
  by (simp add: sint_sbintrunc' signed_take_bit_int_eq_self)

lemma int64_or_overflow_Inr:
  "int64_or_overflow i = Inr t \<longleftrightarrow> IsInt64 i \<and> t = TInteger (word_of_int i)"
  by (auto simp: int64_or_overflow_def)

lemma sint_range: "- (2 ^ 63) \<le> sint (w :: u64)" "sint (w :: u64) < 2 ^ 63"
  using sint_greater_eq[of w] sint_less[of w] by simp_all

definition arith :: "BinaryOpFunc \<Rightarrow> int \<Rightarrow> int \<Rightarrow> int" where
  "arith f l r = (case f of Add \<Rightarrow> l + r | Sub \<Rightarrow> l - r | Mul \<Rightarrow> l * r | _ \<Rightarrow> 0)"

text \<open>
  C28: addition, subtraction and multiplication of integers give the exact result of the
  mathematical operation when it fits 64 bits and \<^verbatim>\<open>ErrInt64Overflow\<close> when it does not:
  no expression ever wraps around in them.
\<close>

theorem arith_exact_or_overflow:
  assumes "f \<in> {Add, Sub, Mul}"
  shows "BinaryOpFunc_Eval rt f (TInteger l) (TInteger r) symbols =
     ((if IsInt64 (arith f (sint l) (sint r))
       then Inr (TInteger (word_of_int (arith f (sint l) (sint r)))) else Inl ErrInt64Overflow), symbols) \<and>
   (IsInt64 (arith f (sint l) (sint r)) \<longrightarrow>
      sint (word_of_int (arith f (sint l) (sint r)) :: u64) = arith f (sint l) (sint r))"
  using assms
  by (auto simp: BinaryOpFunc_Eval_def Add_Eval_def Sub_Eval_def Mul_Eval_def int64_or_overflow_def
      arith_def IsInt64_def sint_word_of_int)

theorem arith_exact_or_overflow_witness:
  "fst (BinaryOpFunc_Eval demo_runtime Add (TInteger 9223372036854775807) (TInteger 1) []) = Inl ErrInt64Overflow"
  using arith_exact_or_overflow[of Add demo_runtime 9223372036854775807 1 "[]"]
  by (simp add: IsInt64_def arith_def)

lemma sdiv_abs_sgn:
  assumes "(b::int) \<noteq> 0"
  shows "\<bar>a sdiv b\<bar> = \<bar>a\<bar> div \<bar>b\<bar>" and "a sdiv b \<noteq> 0 \<Longrightarrow> sgn (a sdiv b) = sgn a * sgn b"
proof -
  have q: "0 \<le> \<bar>a\<bar> div \<bar>b\<bar>" using assms by (simp add: pos_imp_zdiv_nonneg_iff)
  show "\<bar>a sdiv b\<bar> = \<bar>a\<bar> div \<bar>b\<bar>"
    using q assms by (cases "a = 0") (simp_all add: signed_divide_int_def abs_mult)
  show "sgn (a sdiv b) = sgn a * sgn b" if "a sdiv b \<noteq> 0"
    using q that by (simp add: signed_divide_int_def sgn_mult)
qed

lemma sdiv_bounds:
  assumes "- m \<le> (a::int)" "a < m" "b \<noteq> 0" "\<not> (a = - m \<and> b = - 1)"
  shows "- m \<le> a sdiv b \<and> a sdiv b < m"
proof -
  have "\<bar>a\<bar> div \<bar>b\<bar> \<le> \<bar>a\<bar>"
    using zdiv_mono2[of "\<bar>a\<bar>" 1 "\<bar>b\<bar>"] assms(3) by simp
  moreover have "\<bar>a\<bar> div \<bar>b\<bar> < \<bar>a\<bar>" if "\<bar>b\<bar> \<noteq> 1" "a \<noteq> 0"
    using that assms(3) int_div_less_self[of "\<bar>a\<bar>" "\<bar>b\<bar>"] by simp
  moreover have "a sdiv 1 = a" "a sdiv - 1 = - a"
    by (auto simp: signed_divide_int_def sgn_if)
  ultimately show ?thesis
    using assms sdiv_abs_sgn(1)[OF assms(3), of a]
    by (cases "\<bar>b\<bar> = 1"; cases "a = 0") (auto simp: abs_if split: if_splits)
qed

text \<open>
  C31: division truncates towards zero and reports a zero divisor, but unlike the other
  operations it does not report its one overflow: the least integer divided by -1 is
  again the least integer.
\<close>

theorem Div_truncates:
  assumes "r \<noteq> 0"
  shows "Div_Eval (TInteger l) (TInteger 0) = Inl ErrExprDivByZero \<and>
    (\<exists>q. Div_Eval (TInteger l) (TInteger r) = Inr (TInteger q) \<and>
       (sint l = - (2 ^ 63) \<and> sint r = - 1 \<longrightarrow> sint q = - (2 ^ 63)) \<and>
       (\<not> (sint l = - (2 ^ 63) \<and> sint r = - 1) \<longrightarrow>
          \<bar>sint q\<bar> = \<bar>sint l\<bar> div \<bar>sint r\<bar> \<and> (sint q \<noteq> 0 \<longrightarrow> sgn (sint q) = sgn (sint l) * sgn (sint r))))"
proof -
  let ?q = "word_of_int (sint l sdiv sint r) :: u64"
  have r: "sint r \<noteq> 0" using assms signed_word_eqI[of r 0] by auto
  have d: "Div_Eval (TInteger l) (TInteger r) = Inr (TInteger ?q)"
    using assms by (simp add: Div_Eval_def)
  have "sint ?q = - (2 ^ 63)" if "sint l = - (2 ^ 63)" "sint r = - 1"
  proof -
    have "sint l sdiv sint r = 2 ^ 63" using that by (simp add: signed_divide_int_def)
    then have "?q = word_of_int (- (2 ^ 63))" by simp
    then show ?thesis by simp
  qed
  moreover have "\<bar>sint ?q\<bar> = \<bar>sint l\<bar> div \<bar>sint r\<bar> \<and> (sint ?q \<noteq> 0 \<longrightarrow> sgn (sint ?q) = sgn (sint l) * sgn (sint r))"
    if "\<not> (sint l = - (2 ^ 63) \<and> sint r = - 1)"
  proof -
    have "sint ?q = sint l sdiv sint r"
      using sdiv_bounds[OF sint_range r that] by (simp add: sint_word_of_int)
    then show ?thesis using sdiv_abs_sgn[OF r, of "sint l"] by simp
  qed
  ultimately show ?thesis using d by (simp add: Div_Eval_def)
qed

theorem Div_truncates_witness:
  "\<exists>q. Div_Eval (TInteger 9223372036854775808) (TInteger (- 1)) = Inr (TInteger q) \<and> sint q = - (2 ^ 63)"
  using Div_truncates[of "- 1" "9223372036854775808"] by auto

section \<open>Evaluation only appends to the symbol table\<close>

definition appends :: "nat \<Rightarrow> SymbolTable \<Rightarrow> SymbolTable \<Rightarrow> bool" where
  "appends n t t' \<longleftrightarrow> (\<exists>us. t' = t @ us \<and> length us \<le> n) \<and> (symtab_wf t \<longrightarrow> symtab_wf t')"

lemma appends_refl [simp]: "appends n t t"
  by (simp add: appends_def)

lemma appends_trans: "appends m t u \<Longrightarrow> appends n u v \<Longrightarrow> appends (m + n) t v"
  by (fastforce simp: appends_def)

lemma appends_mono: "appends m t u \<Longrightarrow> m \<le> n \<Longrightarrow> appends n t u"
  by (fastforce simp: appends_def)

lemma appends_Insert: "appends 1 t (snd (SymbolTable_Insert t s))"
proof -
  have "\<exists>us. snd (SymbolTable_Insert t s) = t @ us \<and> length us \<le> 1"
    by (auto simp: SymbolTable_Insert_def Let_def split: option.splits)
  then show ?thesis using SymbolTable_Insert_wf by (simp add: appends_def)
qed

lemma appends_Add: "appends 1 symbols (snd (Add_Eval left right symbols))"
  using appends_Insert[of symbols]
  by (auto simp: Add_Eval_def Let_def case_prod_unfold split: Term.splits sum.splits)

lemma appends_BinaryOpFunc:
  "appends (if f = Add then 1 else 0) symbols (snd (BinaryOpFunc_Eval rt f left right symbols))"
  using appends_Add by (cases f) (simp_all add: BinaryOpFunc_Eval_def)

definition adds :: "Op list \<Rightarrow> nat" where
  "adds ops = length (filter (\<lambda>x. x = BinaryOp Add) ops)"

lemma appends_eval_op: "appends (adds [x]) symbols (snd (eval_op rt vals x s symbols))"
proof (cases x)
  case (BinaryOp f)
  then show ?thesis
    using appends_BinaryOpFunc[of f symbols rt]
    by (auto simp: eval_BinaryOp_def adds_def split: option.splits prod.splits sum.splits if_splits)
       (metis snd_conv)+
qed simp_all

lemma appends_eval_ops: "appends (adds ops) symbols (snd (eval_ops rt vals ops s symbols))"
proof (induction ops arbitrary: s symbols)
  case (Cons x ops)
  obtain r t where e: "eval_op rt vals x s symbols = (r, t)" by fastforce
  have a: "appends (adds [x]) symbols t" using appends_eval_op[of x symbols rt vals s] e by simp
  have n: "adds (x # ops) = adds [x] + adds ops" by (simp add: adds_def)
  show ?case
  proof (cases r)
    case (Inl err)
    then show ?thesis using a e n by (auto intro: appends_mono)
  next
    case (Inr s')
    then show ?thesis using appends_trans[OF a Cons.IH] e n by simp
  qed
qed simp

text \<open>
  C32: whatever an expression does, the symbol table afterwards is the table before with at
  most one new string per string addition, still without duplicates; every symbol keeps its
  text.
\<close>

theorem Evaluate_extends_symbols:
  "(\<exists>us. snd (Expression_Evaluate rt e vals symbols) = symbols @ us \<and> length us \<le> adds (elems e)) \<and>
   (symtab_wf symbols \<longrightarrow> symtab_wf (snd (Expression_Evaluate rt e vals symbols)))"
proof -
  have "snd (Expression_Evaluate rt e vals symbols) = snd (eval_ops rt vals (elems e) [] symbols)"
    by (auto simp: Expression_Evaluate_def split: prod.splits sum.splits option.splits)
  then show ?thesis using appends_eval_ops[of "elems e" symbols rt vals "[]"] by (simp add: appends_def)
qed

theorem Evaluate_extends_symbols_witness:
  "symtab_wf [''ab''] \<and>
   snd (Expression_Evaluate demo_runtime (Some [Value (TString 1024), Value (TString 1024), BinaryOp Add]) [] [''ab''])
     = [''ab'', ''abab''] \<and>
   symtab_wf [''ab'', ''abab'']"
proof -
  let ?e = "Some [Value (TString 1024), Value (TString 1024), BinaryOp Add]"
  have w: "symtab_wf [''ab'']" by (simp add: symtab_wf_def DEFAULT_SYMBOLS_def)
  have "snd (Expression_Evaluate demo_runtime ?e [] [''ab'']) = [''ab'', ''abab'']"
    by code_simp
  then show ?thesis using Evaluate_extends_symbols[of demo_runtime ?e "[]" "[''ab'']"] w by simp
qed

section \<open>Types\<close>

fun unary_type :: "UnaryOpFunc \<Rightarrow> TermType \<Rightarrow> TermType option" where
  "unary_type Negate TermTypeBool = Some TermTypeBool"
| "unary_type Parens k = Some k"
| "unary_type Length TermTypeString = Some TermTypeInteger"
| "unary_type Length TermTypeBytes = Some TermTypeInteger"
| "unary_type Length TermTypeSet = Some TermTypeInteger"
| "unary_type _ _ = None"

definition binary_type :: "BinaryOpFunc \<Rightarrow> TermType \<Rightarrow> TermType \<Rightarrow> TermType option" where
  "binary_type f k k' = (case f of
     Equal \<Rightarrow> (if k = k' \<and> k \<noteq> TermTypeVariable then Some TermTypeBool else None)
   | Contains \<Rightarrow> (if k = TermTypeString \<and> k' = TermTypeString \<or> k = TermTypeSet \<and> k' \<noteq> TermTypeVariable
       then Some TermTypeBool else None)
   | Add \<Rightarrow> (if k = k' \<and> k \<in> {TermTypeInteger, TermTypeString} then Some k else None)
   | _ \<Rightarrow>
      (if k \<noteq> k' then None
       else if f \<in> {LessThan, LessOrEqual, GreaterThan, GreaterOrEqual}
       then (if k \<in> {TermTypeInteger, TermTypeDate} then Some TermTypeBool else None)
       else if f \<in> {Prefix, Suffix, Regex} then (if k = TermTypeString then Some TermTypeBool else None)
       else if f \<in> {And, Or} then (if k = TermTypeBool then Some TermTypeBool else None)
       else if f \<in> {Intersection, Union} then (if k = TermTypeSet then Some TermTypeSet else None)
       else (if k = TermTypeInteger then Some TermTypeInteger else None)))"

fun tree_type :: "bindings \<Rightarrow> tree \<Rightarrow> TermType option" where
  "tree_type vals (Leaf t) = (case leaf_value vals t of Inl _ \<Rightarrow> None | Inr v \<Rightarrow> Some (Term_Type v))"
| "tree_type vals (Unary f a) = (case tree_type vals a of None \<Rightarrow> None | Some k \<Rightarrow> unary_type f k)"
| "tree_type vals (Binary f a b) = (case (tree_type vals a, tree_type vals b) of
     (Some k, Some k') \<Rightarrow> binary_type f k k' | _ \<Rightarrow> None)"

definition value_errors :: "eval_error set" where
  "value_errors = {ErrExprDivByZero, ErrInt64Overflow, InvalidRegex, GoPanic}"

lemma with_Str_cases:
  "with_Str symbols s f = Inl GoPanic \<or> (\<exists>str. with_Str symbols s f = f str)"
  by (cases "SymbolTable_Str symbols s") (auto simp: with_Str_def)

definition typed_result :: "TermType \<Rightarrow> eval_result \<Rightarrow> bool" where
  "typed_result k r = (case r of Inl e \<Rightarrow> e \<in> value_errors | Inr v \<Rightarrow> Term_Type v = k)"

lemma typed_result_simps [simp]:
  "typed_result k (Inr v) \<longleftrightarrow> Term_Type v = k"
  "typed_result k (Inl e) \<longleftrightarrow> e \<in> value_errors"
  by (simp_all add: typed_result_def)

lemma typed_with_Str: "(\<And>str. typed_result k (f str)) \<Longrightarrow> typed_result k (with_Str symbols s f)"
  using with_Str_cases[of symbols s f] by (auto simp: value_errors_def)

lemma typed_overflow: "typed_result TermTypeInteger (int64_or_overflow i)"
  by (simp add: int64_or_overflow_def value_errors_def)

lemma unary_typed:
  assumes "unary_type f (Term_Type v) = Some k"
  shows "typed_result k (UnaryOpFunc_Eval symbols f v)"
  using assms
  by (cases f; cases v)
     (auto simp: UnaryOpFunc_Eval_def Negate_Eval_def Parens_Eval_def Length_Eval_def intro: typed_with_Str)

lemma Add_typed:
  "typed_result TermTypeString (fst (Add_Eval (TString l) (TString r) symbols))"
  "typed_result TermTypeInteger (fst (Add_Eval (TInteger i) (TInteger j) symbols))"
proof -
  let ?w = "with_Str symbols l (\<lambda>l. with_Str symbols r (\<lambda>r. Inr (l @ r)))"
  have "?w = Inl GoPanic \<or> (\<exists>str. ?w = Inr str)"
    by (auto simp: with_Str_def split: option.splits)
  then show "typed_result TermTypeString (fst (Add_Eval (TString l) (TString r) symbols))"
    by (auto simp: Add_Eval_def Let_def case_prod_unfold value_errors_def)
qed (simp add: Add_Eval_def typed_overflow)

lemmas Eval_defs =
  LessThan_Eval_def LessOrEqual_Eval_def GreaterThan_Eval_def GreaterOrEqual_Eval_def
  Equal_Eval_def Contains_Eval_def Prefix_Eval_def Suffix_Eval_def Regex_Eval_def
  Sub_Eval_def Mul_Eval_def Div_Eval_def And_Eval_def Or_Eval_def Intersection_Eval_def Union_Eval_def

lemma Regex_typed: "typed_result TermTypeBool (Regex_Eval rt symbols (TString l) (TString r))"
proof -
  have "typed_result TermTypeBool (case regexp rt s of None \<Rightarrow> Inl InvalidRegex
      | Some re \<Rightarrow> with_Str symbols l (\<lambda>l. Inr (TBool (re l))))" for s
    by (cases "regexp rt s") (auto simp: value_errors_def intro: typed_with_Str)
  then show ?thesis by (auto simp: Regex_Eval_def intro: typed_with_Str)
qed

lemma binary_typed:
  assumes "binary_type f (Term_Type l) (Term_Type r) = Some k"
  shows "typed_result k (fst (BinaryOpFunc_Eval rt f l r symbols))"
proof (cases "f = Add \<or> f = Regex")
  case True
  then show ?thesis using assms
    by (cases l; cases r) (auto simp: binary_type_def BinaryOpFunc_Eval_def Add_typed Regex_typed split: if_splits)
next
  case False
  then show ?thesis using assms
    by (cases f; cases l; cases r)
       (auto simp: binary_type_def BinaryOpFunc_Eval_def Eval_defs typed_overflow value_errors_def
         intro!: typed_with_Str split: if_splits)
qed


lemma tree_typed:
  "tree_type vals t = Some k \<Longrightarrow>
   (case fst (tree_eval rt vals t symbols) of
      Inr v \<Rightarrow> Term_Type v = k
    | Inl e \<Rightarrow> e \<in> wrap_error UnaryEvalFailed ` value_errors \<union> wrap_error BinaryEvalFailed ` value_errors)"
proof (induction t arbitrary: k symbols)
  case (Leaf t)
  then show ?case by (auto split: sum.splits)
next
  case (Unary f a)
  then obtain ka where ka: "tree_type vals a = Some ka" "unary_type f ka = Some k"
    by (auto split: option.splits)
  obtain ra sa where a: "tree_eval rt vals a symbols = (ra, sa)" by fastforce
  show ?case
  proof (cases ra)
    case (Inr x)
    then have "Term_Type x = ka" using Unary.IH[OF ka(1), of symbols] a by simp
    then have "typed_result k (UnaryOpFunc_Eval sa f x)" using unary_typed ka(2) by simp
    then show ?thesis using a Inr by (auto simp: typed_result_def split: sum.splits)
  qed (use Unary.IH[OF ka(1), of symbols] a in simp)
next
  case (Binary f a b)
  then obtain ka kb where k: "tree_type vals a = Some ka" "tree_type vals b = Some kb"
    "binary_type f ka kb = Some k"
    by (auto split: option.splits)
  obtain ra sa where a: "tree_eval rt vals a symbols = (ra, sa)" by fastforce
  obtain rb sb where b: "tree_eval rt vals b sa = (rb, sb)" by fastforce
  show ?case
  proof (cases ra)
    case (Inl e)
    then show ?thesis using Binary.IH(1)[OF k(1), of symbols] a by simp
  next
    case (Inr x)
    then have x: "Term_Type x = ka" using Binary.IH(1)[OF k(1), of symbols] a by simp
    show ?thesis
    proof (cases rb)
      case (Inl e)
      then show ?thesis using Binary.IH(2)[OF k(2), of sa] a b \<open>ra = Inr x\<close> by simp
    next
      case (Inr y)
      then have "Term_Type y = kb" using Binary.IH(2)[OF k(2), of sa] b by simp
      then have "typed_result k (fst (BinaryOpFunc_Eval rt f x y sb))"
        using binary_typed[of f x y k rt sb] x k(3) by simp
      then show ?thesis using a b \<open>ra = Inr x\<close> Inr
        by (auto simp: typed_result_def split: sum.splits prod.splits)
    qed
  qed
qed

text \<open>
  C33: type soundness. A well-typed tree never fails with a type error: it evaluates to a
  value of its type, or stops for a zero divisor, an overflow, an invalid regular
  expression or the panic on an oversized symbol.
\<close>

theorem typed_expressions_do_not_mismatch:
  assumes "tree_type vals t = Some k" and "depth t \<le> maxStackSize"
  shows "(\<exists>v. fst (Expression_Evaluate rt (Some (compile t)) vals symbols) = Inr v \<and> Term_Type v = k) \<or>
    fst (Expression_Evaluate rt (Some (compile t)) vals symbols) \<in> Inl `
      {UnaryEvalFailed ErrExprDivByZero, UnaryEvalFailed ErrInt64Overflow, UnaryEvalFailed InvalidRegex,
       BinaryEvalFailed ErrExprDivByZero, BinaryEvalFailed ErrInt64Overflow, BinaryEvalFailed InvalidRegex,
       ExprPanic}"
  using tree_typed[OF assms(1), of rt symbols] Evaluate_tree[OF assms(2), of rt vals symbols]
  by (auto simp: value_errors_def wrap_error_def split: sum.splits)

theorem typed_expressions_do_not_mismatch_witness:
  "fst (Expression_Evaluate demo_runtime (Some [Value (TVariable 0), Value (TInteger 5), BinaryOp LessThan])
     [(0, Some (TInteger 3))] []) \<in> insert (Inr (TBool True)) (insert (Inr (TBool False)) (range Inl))"
proof -
  let ?t = "Binary LessThan (Leaf (TVariable 0)) (Leaf (TInteger 5))"
  have t: "tree_type [(0, Some (TInteger 3))] ?t = Some TermTypeBool" by (simp add: binary_type_def)
  have d: "depth ?t \<le> maxStackSize" by (simp add: maxStackSize_def)
  show ?thesis
    using typed_expressions_do_not_mismatch[OF t d, of demo_runtime "[]"]
    by (auto simp: Term_Type_cases)
qed

end
