(* ===== verification/Evaluator.thy ===== *)
theory Evaluator
  imports Matching ExprSemantics
begin

text \<open>
  Layer 3 of \<^verbatim>\<open>datalog/evaluator.go\<close>, with \<^verbatim>\<open>Rule.Apply\<close> and \<^verbatim>\<open>Check.Verify\<close> of
  \<^verbatim>\<open>datalog/datalog.go\<close>: expressions are evaluated on the matches of layer 2, to derive
  facts or to decide a check. The symbol table is threaded through, because expressions may
  intern strings. The push iterator \<^verbatim>\<open>getValidMatches\<close> takes the body of the loop that
  consumes it as an argument.
\<close>

section \<open>Evaluation of rules and checks\<close>

datatype apply_error =
    ExpressionError expr_error
  | InvalidRuleError Rule u32
  | NilVariable            \<comment> \<open>a nil pointer is dereferenced\<close>
  | MatchesNeverReturn     \<comment> \<open>the enumeration of matches does not end; see \<open>combineIt_matches_correct\<close>\<close>

record evaluator =
  ev_combineIt :: combineIt
  ev_expressions :: "Expression list"

definition newEvaluator :: "runtime \<Rightarrow> Predicate slice \<Rightarrow> Expression slice \<Rightarrow> FactSet \<Rightarrow> evaluator" where
  "newEvaluator rt predicates expressions factSet =
     \<lparr>ev_combineIt = newCombineIt rt predicates factSet, ev_expressions = elems expressions\<rparr>"

type_synonym matchResult = "Origin option \<times> matchedVariables"

text \<open>The inner loop: stops at the first error and at the first expression that is not true.\<close>

fun expressions_hold :: "runtime \<Rightarrow> Expression list \<Rightarrow> matchedVariables \<Rightarrow> SymbolTable \<Rightarrow>
    (expr_error + bool) \<times> SymbolTable" where
  "expressions_hold rt [] variables symbols = (Inr True, symbols)"
| "expressions_hold rt (expression # es) variables symbols =
     (case Expression_Evaluate rt expression variables symbols of
        (Inl err, symbols') \<Rightarrow> (Inl err, symbols')
      | (Inr res, symbols') \<Rightarrow>
          if \<not> Term_Equal res (Some (TBool True)) then (Inr False, symbols')
          else expressions_hold rt es variables symbols')"

fun valid_matches_loop :: "runtime \<Rightarrow> Expression list \<Rightarrow> (matchResult \<Rightarrow> 'a \<Rightarrow> apply_error + 'a) \<Rightarrow>
    matchResult list \<Rightarrow> 'a \<Rightarrow> SymbolTable \<Rightarrow> (apply_error + 'a) \<times> SymbolTable" where
  "valid_matches_loop rt es consumer [] acc symbols = (Inr acc, symbols)"
| "valid_matches_loop rt es consumer (match # ms) acc symbols =
     (case expressions_hold rt es (snd match) symbols of
        (Inl err, symbols') \<Rightarrow> (Inl (ExpressionError err), symbols')
      | (Inr valid, symbols') \<Rightarrow>
          if valid then (case consumer match acc of
              Inl err \<Rightarrow> (Inl err, symbols')
            | Inr acc' \<Rightarrow> valid_matches_loop rt es consumer ms acc' symbols')
          else valid_matches_loop rt es consumer ms acc symbols')"

definition getValidMatches :: "runtime \<Rightarrow> evaluator \<Rightarrow> (matchResult \<Rightarrow> 'a \<Rightarrow> apply_error + 'a) \<Rightarrow>
    'a \<Rightarrow> SymbolTable \<Rightarrow> (apply_error + 'a) \<times> SymbolTable" where
  "getValidMatches rt e consumer acc symbols = (case combineIt_matches rt (ev_combineIt e) of
     None \<Rightarrow> (Inl MatchesNeverReturn, symbols)
   | Some ms \<Rightarrow> valid_matches_loop rt (ev_expressions e) consumer ms acc symbols)"

fun head_terms :: "Rule \<Rightarrow> matchedVariables \<Rightarrow> Term list \<Rightarrow> apply_error + Term list" where
  "head_terms rule variables [] = Inr []"
| "head_terms rule variables (t # ts) = (case t of
     TVariable variable \<Rightarrow> (case map_of variables variable of
         None \<Rightarrow> Inl (InvalidRuleError rule variable)
       | Some None \<Rightarrow> Inl NilVariable
       | Some (Some matchedTerm) \<Rightarrow> bind_res (head_terms rule variables ts) (\<lambda>us. Inr (matchedTerm # us)))
   | _ \<Rightarrow> bind_res (head_terms rule variables ts) (\<lambda>us. Inr (t # us)))"

definition derive_fact :: "runtime \<Rightarrow> Rule \<Rightarrow> Origin \<Rightarrow> matchResult \<Rightarrow> FactSet \<Rightarrow> apply_error + FactSet" where
  "derive_fact rt rule baseOrigin match resultFacts =
     (let origin = Origin_clone baseOrigin;
          origin = (case fst match of None \<Rightarrow> origin | Some o1 \<Rightarrow> Origin_InsertOrigin rt origin o1);
          predicate = Predicate_Clone (rule_Head rule)
      in bind_res (head_terms rule (snd match) (elems (pred_Terms predicate))) (\<lambda>terms.
           Inr (FactSet_Insert rt resultFacts origin (predicate\<lparr>pred_Terms := Some terms\<rparr>))))"

definition getNewFacts :: "runtime \<Rightarrow> evaluator \<Rightarrow> Rule \<Rightarrow> BlockID \<Rightarrow> SymbolTable \<Rightarrow>
    (apply_error + FactSet) \<times> SymbolTable" where
  "getNewFacts rt e rule blockID symbols =
     getValidMatches rt e (derive_fact rt rule (NewOrigin rt blockID [])) [] symbols"

fun any_loop :: "runtime \<Rightarrow> Expression list \<Rightarrow> matchResult list \<Rightarrow> SymbolTable \<Rightarrow>
    (apply_error + bool) \<times> SymbolTable" where
  "any_loop rt es [] symbols = (Inr False, symbols)"
| "any_loop rt es (match # ms) symbols = (case expressions_hold rt es (snd match) symbols of
     (Inl err, symbols') \<Rightarrow> (Inl (ExpressionError err), symbols')
   | (Inr success, symbols') \<Rightarrow> if success then (Inr True, symbols') else any_loop rt es ms symbols')"

definition verifyAnyMatches :: "runtime \<Rightarrow> evaluator \<Rightarrow> SymbolTable \<Rightarrow> (apply_error + bool) \<times> SymbolTable" where
  "verifyAnyMatches rt e symbols = (case combineIt_matches rt (ev_combineIt e) of
     None \<Rightarrow> (Inl MatchesNeverReturn, symbols)
   | Some ms \<Rightarrow> any_loop rt (ev_expressions e) ms symbols)"

fun all_loop :: "runtime \<Rightarrow> Expression list \<Rightarrow> bool \<Rightarrow> matchResult list \<Rightarrow> SymbolTable \<Rightarrow>
    (apply_error + bool) \<times> SymbolTable" where
  "all_loop rt es found [] symbols = (Inr found, symbols)"
| "all_loop rt es found (match # ms) symbols = (case expressions_hold rt es (snd match) symbols of
     (Inl err, symbols') \<Rightarrow> (Inl (ExpressionError err), symbols')
   | (Inr holds, symbols') \<Rightarrow> if \<not> holds then (Inr False, symbols') else all_loop rt es True ms symbols')"

definition verifyAllMatches :: "runtime \<Rightarrow> evaluator \<Rightarrow> SymbolTable \<Rightarrow> (apply_error + bool) \<times> SymbolTable" where
  "verifyAllMatches rt e symbols = (case combineIt_matches rt (ev_combineIt e) of
     None \<Rightarrow> (Inl MatchesNeverReturn, symbols)
   | Some ms \<Rightarrow> all_loop rt (ev_expressions e) False ms symbols)"

text \<open>Stops at the first expression that is true.\<close>

fun some_expression_true :: "runtime \<Rightarrow> Expression list \<Rightarrow> matchedVariables \<Rightarrow> SymbolTable \<Rightarrow>
    (expr_error + bool) \<times> SymbolTable" where
  "some_expression_true rt [] variables symbols = (Inr False, symbols)"
| "some_expression_true rt (expression # es) variables symbols =
     (case Expression_Evaluate rt expression variables symbols of
        (Inl err, symbols') \<Rightarrow> (Inl err, symbols')
      | (Inr res, symbols') \<Rightarrow>
          if Term_Equal res (Some (TBool True)) then (Inr True, symbols')
          else some_expression_true rt es variables symbols')"

fun none_loop :: "runtime \<Rightarrow> Expression list \<Rightarrow> matchResult list \<Rightarrow> SymbolTable \<Rightarrow>
    (apply_error + bool) \<times> SymbolTable" where
  "none_loop rt es [] symbols = (Inr True, symbols)"
| "none_loop rt es (match # ms) symbols = (case some_expression_true rt es (snd match) symbols of
     (Inl err, symbols') \<Rightarrow> (Inl (ExpressionError err), symbols')
   | (Inr some, symbols') \<Rightarrow> if some then (Inr False, symbols') else none_loop rt es ms symbols')"

definition verifyNoMatches :: "runtime \<Rightarrow> evaluator \<Rightarrow> SymbolTable \<Rightarrow> (apply_error + bool) \<times> SymbolTable" where
  "verifyNoMatches rt e symbols = (case combineIt_matches rt (ev_combineIt e) of
     None \<Rightarrow> (Inl MatchesNeverReturn, symbols)
   | Some ms \<Rightarrow> none_loop rt (ev_expressions e) ms symbols)"

definition Rule_Apply :: "runtime \<Rightarrow> Rule \<Rightarrow> BlockID \<Rightarrow> FactSet \<Rightarrow> SymbolTable \<Rightarrow>
    (apply_error + FactSet) \<times> SymbolTable" where
  "Rule_Apply rt r blockID inputFacts symbols =
     getNewFacts rt (newEvaluator rt (rule_Body r) (rule_Expressions r) inputFacts) r blockID symbols"

definition RuleInBlock_Apply :: "runtime \<Rightarrow> RuleInBlock \<Rightarrow> FactSet \<Rightarrow> SymbolTable \<Rightarrow>
    (apply_error + FactSet) \<times> SymbolTable" where
  "RuleInBlock_Apply rt r inputFacts symbols = Rule_Apply rt (rib_Rule r) (rib_BlockID r) inputFacts symbols"

text \<open>
  The loop of \<^verbatim>\<open>Check.Verify\<close>. The \<^verbatim>\<open>break\<close> statements leave the \<^verbatim>\<open>switch\<close>, not the loop:
  after a query fails the remaining ones are still evaluated, and may still report an error.
\<close>

fun verify_queries :: "runtime \<Rightarrow> CheckKind \<Rightarrow> FactSet \<Rightarrow> Scope list \<Rightarrow> u64 \<Rightarrow> SignatureRegistry \<Rightarrow>
    bool \<Rightarrow> Rule list \<Rightarrow> SymbolTable \<Rightarrow> (apply_error + bool) \<times> SymbolTable" where
  "verify_queries rt kind factSet blockScopes blockID signatureRegistry passing [] symbols = (Inr passing, symbols)"
| "verify_queries rt kind factSet blockScopes blockID signatureRegistry passing (query # queries) symbols =
     (let trustedOrigin = NewTrustedOriginFromScopes rt blockScopes (elems (rule_Scopes query)) blockID signatureRegistry;
          filteredFacts = FactSet_WithOrigin rt factSet trustedOrigin;
          e = newEvaluator rt (rule_Body query) (rule_Expressions query) filteredFacts
      in case kind of
           CheckAll \<Rightarrow> (case verifyAllMatches rt e symbols of
               (Inl err, symbols') \<Rightarrow> (Inl err, symbols')
             | (Inr success, symbols') \<Rightarrow> verify_queries rt kind factSet blockScopes blockID signatureRegistry
                 (if \<not> success then False else passing) queries symbols')
         | CheckReject \<Rightarrow> (case verifyNoMatches rt e symbols of
               (Inl err, symbols') \<Rightarrow> (Inl err, symbols')
             | (Inr success, symbols') \<Rightarrow> verify_queries rt kind factSet blockScopes blockID signatureRegistry
                 (if \<not> success then False else passing) queries symbols')
         | _ \<Rightarrow> (case verifyAnyMatches rt e symbols of
               (Inl err, symbols') \<Rightarrow> (Inl err, symbols')
             | (Inr success, symbols') \<Rightarrow>
                 if success then (Inr True, symbols')
                 else verify_queries rt kind factSet blockScopes blockID signatureRegistry passing queries symbols'))"

definition Check_Verify :: "runtime \<Rightarrow> Check \<Rightarrow> FactSet \<Rightarrow> Scope list \<Rightarrow> u64 \<Rightarrow> SignatureRegistry \<Rightarrow>
    SymbolTable \<Rightarrow> (apply_error + bool) \<times> SymbolTable" where
  "Check_Verify rt c factSet blockScopes blockID signatureRegistry symbols =
     verify_queries rt (check_Kind c) factSet blockScopes blockID signatureRegistry
       (check_Kind c \<noteq> CheckOne) (elems (check_Queries c)) symbols"

section \<open>Expressions on a match\<close>

text \<open>The environment of a substitution: exactly the variables of the body, with their values.\<close>

definition env :: "Predicate list \<Rightarrow> subst \<Rightarrow> bindings" where
  "env body \<sigma> = map (\<lambda>(v, _). (v, \<sigma> v)) (newMatchedVariables body)"

abbreviation vars_of :: "Predicate list \<Rightarrow> u32 set" where
  "vars_of body \<equiv> \<Union>p \<in> set body. pred_vars p"

lemma map_of_env: "map_of (env body \<sigma>) v = (if v \<in> vars_of body then Some (\<sigma> v) else None)"
proof -
  have "map_of (map (\<lambda>(v, _). (v, \<sigma> v)) m) v = (if v \<in> fst ` set m then Some (\<sigma> v) else None)" for m :: bindings
    by (induction m) auto
  then show ?thesis using newMatchedVariables_spec(2)[of body] by (simp add: env_def mv_keys_def)
qed

lemma eval_ops_cong:
  assumes "map_of m = map_of m'"
  shows "eval_ops rt m ops s symbols = eval_ops rt m' ops s symbols"
proof -
  have "eval_Value m t s = eval_Value m' t s" for t s
    unfolding eval_Value_def assms ..
  then have "eval_op rt m x s symbols = eval_op rt m' x s symbols" for x s symbols
    by (cases x) simp_all
  then show ?thesis by (induction ops arbitrary: s symbols) (auto split: prod.splits sum.splits)
qed

lemma Evaluate_cong:
  "map_of m = map_of m' \<Longrightarrow> Expression_Evaluate rt e m symbols = Expression_Evaluate rt e m' symbols"
  unfolding Expression_Evaluate_def using eval_ops_cong[of m m'] by simp

lemma expressions_hold_cong:
  "map_of m = map_of m' \<Longrightarrow> expressions_hold rt es m symbols = expressions_hold rt es m' symbols"
  by (induction es arbitrary: symbols) (auto simp: Evaluate_cong[of m m'] split: prod.splits sum.splits)

text \<open>What layer 2 promises of a match it yields.\<close>

definition good_match :: "runtime \<Rightarrow> (BlockID set \<times> Fact) set \<Rightarrow> Predicate list \<Rightarrow> matchResult \<Rightarrow> bool" where
  "good_match rt R body r \<longleftrightarrow> body_match R body (binding_of (snd r)) (origin_set (fst r)) \<and>
     map_of (snd r) = map_of (env body (binding_of (snd r))) \<and>
     (\<forall>v t. binding_of (snd r) v = Some t \<longrightarrow> is_atomic t \<and> \<not> is_Variable t) \<and>
     (\<forall>v \<in> vars_of body. binding_of (snd r) v \<noteq> None) \<and>
     (\<forall>o1. fst r = Some o1 \<longrightarrow> origin_ok rt o1)"

lemma body_match_ground:
  assumes "body_match R body \<sigma> B" "\<forall>(B, f) \<in> R. ground f" "v \<in> vars_of body"
  shows "\<exists>t. \<sigma> v = Some t \<and> is_atomic t \<and> \<not> is_Variable t"
proof -
  obtain p where p: "p \<in> set body" "v \<in> pred_vars p" using assms(3) by blast
  obtain Bs where "list_all2 (\<lambda>b p. (b, subst_pred \<sigma> p) \<in> R) Bs body" using assms(1) by (auto simp: body_match_def)
  then obtain b where "(b, subst_pred \<sigma> p) \<in> R" using p(1) by (auto dest: list_all2_right)
  then have g: "ground (subst_pred \<sigma> p)" using assms(2) by blast
  obtain t where t: "\<sigma> v = Some t" using subst_binds[OF g p(2)] by blast
  have "TVariable v \<in> set (elems (pred_Terms p))" using p(2) by (simp add: pred_vars_def)
  then have "subst_term \<sigma> (TVariable v) \<in> set (elems (pred_Terms (subst_pred \<sigma> p)))"
    by (simp add: subst_pred_def del: subst_term.simps)
  then show ?thesis using g t by (simp add: ground_def pred_atomic_def)
qed

lemma matches_good:
  assumes "facts_ground rt fs" "combineIt_matches rt (newCombineIt rt body fs) = Some ms" "r \<in> set ms"
  shows "good_match rt (facts_of rt fs) (elems body) r"
proof -
  obtain o1 m where r: "r = (o1, m)" by fastforce
  note s = matches_sound[OF assms(1,2), of o1 m, folded r, OF assms(3)]
  have keys: "v \<in> vars_of (elems body) \<longleftrightarrow> v \<in> fst ` set m" for v using s(3) by (simp add: mv_keys_def)
  have mo: "map_of m v = map_of (env (elems body) (binding_of m)) v" for v
  proof (cases "v \<in> vars_of (elems body)")
    case True
    then obtain t where "binding_of m v = Some t" using s(5) unfolding s(3) by blast
    then show ?thesis using True
      by (auto simp: map_of_env binding_of_def split: option.splits)
  next
    case False
    then have "map_of m v = None" unfolding map_of_eq_None_iff using keys by blast
    then show ?thesis using False by (simp add: map_of_env)
  qed
  have "v \<in> vars_of (elems body)" if "binding_of m v = Some t" for v t
    using that keys[of v] by (cases "map_of m v") (auto simp: binding_of_def dest!: map_of_SomeD intro: rev_image_eqI)
  moreover have "\<forall>(B, f) \<in> facts_of rt fs. ground f" using assms(1) by (simp add: facts_ground_def)
  ultimately have "is_atomic t \<and> \<not> is_Variable t" if "binding_of m v = Some t" for v t
    using body_match_ground[OF s(1)] that by fastforce
  then show ?thesis
    using s mo by (auto simp: good_match_def r fun_eq_iff split: option.splits)
qed

section \<open>Deriving facts\<close>

fun held :: "runtime \<Rightarrow> Expression list \<Rightarrow> matchResult list \<Rightarrow> SymbolTable \<Rightarrow> matchResult list" where
  "held rt es [] symbols = []"
| "held rt es (r # ms) symbols = (case expressions_hold rt es (snd r) symbols of
     (Inr True, symbols') \<Rightarrow> r # held rt es ms symbols'
   | (_, symbols') \<Rightarrow> held rt es ms symbols')"

definition derived :: "BlockID \<Rightarrow> Predicate \<Rightarrow> matchResult \<Rightarrow> BlockID set \<times> Fact" where
  "derived b p r = (insert b (origin_set (fst r)), subst_pred (binding_of (snd r)) p)"

lemma head_terms_Inr:
  "head_terms rule m ts = Inr us \<Longrightarrow> us = map (subst_term (binding_of m)) ts \<and>
     (\<forall>v. TVariable v \<in> set ts \<longrightarrow> binding_of m v \<noteq> None)"
proof (induction ts arbitrary: us)
  case (Cons t ts)
  show ?case
  proof (cases t)
    case (TVariable v)
    then obtain u us' where "map_of m v = Some (Some u)" "head_terms rule m ts = Inr us'" "us = u # us'"
      using Cons.prems by (auto simp: bind_res_eq_Inr split: option.splits)
    then show ?thesis using Cons.IH TVariable by (auto simp: binding_of_def)
  qed (use Cons in \<open>auto simp: bind_res_eq_Inr\<close>)
qed simp

lemma head_terms_Inl:
  assumes "head_terms rule m ts = Inl err" "\<forall>v. map_of m v \<noteq> Some None"
  shows "\<exists>v. err = InvalidRuleError rule v \<and> TVariable v \<in> set ts \<and> map_of m v = None"
  using assms
proof (induction ts)
  case (Cons t ts)
  then show ?case by (cases t) (auto simp: bind_res_eq_Inl split: option.splits)
qed simp

definition head_atomic :: "Rule \<Rightarrow> bool" where
  "head_atomic r \<longleftrightarrow> (\<forall>t \<in> set (elems (pred_Terms (rule_Head r))). is_atomic t)"

lemma subst_atomic:
  assumes "good_match rt R body r" "is_atomic t" "\<forall>v. t = TVariable v \<longrightarrow> binding_of (snd r) v \<noteq> None"
  shows "is_atomic (subst_term (binding_of (snd r)) t) \<and> \<not> is_Variable (subst_term (binding_of (snd r)) t)"
  using assms by (cases t) (auto simp: good_match_def is_Variable_def split: option.splits)

lemma derive_fact_spec:
  assumes "good_match rt R body r" "head_atomic rule" "facts_inv rt acc"
    and "derive_fact rt rule (NewOrigin rt b []) r acc = Inr acc'"
  shows "facts_inv rt acc' \<and> facts_of rt acc' = facts_of rt acc \<union> {derived b (rule_Head rule) r} \<and>
    ground (snd (derived b (rule_Head rule) r))"
proof -
  let ?o = "case fst r of None \<Rightarrow> NewOrigin rt b [] | Some o1 \<Rightarrow> Origin_InsertOrigin rt (NewOrigin rt b []) o1"
  let ?f = "subst_pred (binding_of (snd r)) (rule_Head rule)"
  obtain us where us: "head_terms rule (snd r) (elems (pred_Terms (rule_Head rule))) = Inr us"
    using assms(4) by (auto simp: derive_fact_def Predicate_Clone_def Let_def bind_res_eq_Inr)
  note h = head_terms_Inr[OF us]
  have acc': "acc' = FactSet_Insert rt acc ?o ?f"
    using assms(4) us h by (simp add: derive_fact_def Predicate_Clone_def Let_def subst_pred_def cong: option.case_cong)
  have oo: "origin_ok rt ?o" "hs_set ?o = insert b (origin_set (fst r))"
    using assms(1) by (auto simp: good_match_def origin_set_def split: option.splits)
  have g: "ground ?f"
    using h assms(2) subst_atomic[OF assms(1)]
    by (auto simp: ground_def pred_atomic_def subst_pred_def head_atomic_def)
  then show ?thesis
    using FactSet_Insert_spec[OF assms(3) oo(1), of ?f] oo(2)
    by (simp add: acc' derived_def ground_def del: set_empty)
qed

lemma valid_matches_loop_spec:
  assumes "\<forall>r \<in> set ms. good_match rt R body r" "head_atomic rule" "facts_inv rt acc"
    and "valid_matches_loop rt es (derive_fact rt rule (NewOrigin rt b [])) ms acc symbols = (Inr out, symbols')"
  shows "facts_inv rt out \<and>
    facts_of rt out = facts_of rt acc \<union> derived b (rule_Head rule) ` set (held rt es ms symbols) \<and>
    (\<forall>r \<in> set (held rt es ms symbols). ground (snd (derived b (rule_Head rule) r)))"
  using assms(1,3,4)
proof (induction ms arbitrary: acc symbols)
  case (Cons r ms)
  obtain v s1 where e: "expressions_hold rt es (snd r) symbols = (v, s1)" by fastforce
  show ?case
  proof (cases "v = Inr True")
    case True
    then obtain acc1 where a: "derive_fact rt rule (NewOrigin rt b []) r acc = Inr acc1"
      "valid_matches_loop rt es (derive_fact rt rule (NewOrigin rt b [])) ms acc1 s1 = (Inr out, symbols')"
      using Cons.prems e by (auto split: sum.splits)
    have g: "good_match rt R body r" using Cons.prems by simp
    note d = derive_fact_spec[OF g assms(2) Cons.prems(2) a(1)]
    have "facts_inv rt acc1" using d by blast
    then show ?thesis using Cons.IH[OF _ _ a(2)] Cons.prems(1) d e True by auto
  next
    case False
    then have "v = Inr False" using Cons.prems e by (cases v) auto
    then show ?thesis using Cons e by auto
  qed
qed simp

section \<open>What rules derive\<close>

definition all_true :: "runtime \<Rightarrow> Expression list \<Rightarrow> bindings \<Rightarrow> SymbolTable \<Rightarrow> bool" where
  "all_true rt es m symbols \<longleftrightarrow> (\<forall>e \<in> set es. fst (Expression_Evaluate rt e m symbols) = Inr (TBool True))"

text \<open>No expression concatenates strings, so the symbol table stays as it is.\<close>

definition exprs_pure :: "Expression list \<Rightarrow> bool" where
  "exprs_pure es \<longleftrightarrow> (\<forall>e \<in> set es. adds (elems e) = 0)"

lemma appends_Evaluate: "appends (adds (elems e)) symbols (snd (Expression_Evaluate rt e m symbols))"
proof -
  have "snd (Expression_Evaluate rt e m symbols) = snd (eval_ops rt m (elems e) [] symbols)"
    by (auto simp: Expression_Evaluate_def split: prod.splits sum.splits option.splits)
  then show ?thesis using appends_eval_ops[of "elems e" symbols rt m "[]"] by simp
qed

lemma Evaluate_pure: "adds (elems e) = 0 \<Longrightarrow> snd (Expression_Evaluate rt e m symbols) = symbols"
  using appends_Evaluate[of e symbols rt m] by (auto simp: appends_def)

lemma Evaluate_extends: "\<exists>us. snd (Expression_Evaluate rt e m symbols) = symbols @ us"
  using appends_Evaluate[of e symbols rt m] by (auto simp: appends_def)

lemma is_true_iff: "Term_Equal t (Some (TBool True)) \<longleftrightarrow> t = TBool True"
  using atom_eq_term[of "TBool True" t] term_preorder.eq_sym[of t "TBool True"]
  by (auto simp: Term_Equal_def)

lemma hold_extends: "\<exists>us. snd (expressions_hold rt es m symbols) = symbols @ us"
proof (induction es arbitrary: symbols)
  case (Cons e es)
  obtain r s1 where e: "Expression_Evaluate rt e m symbols = (r, s1)" by fastforce
  obtain us where "s1 = symbols @ us" using Evaluate_extends[of rt e m symbols] e by auto
  moreover obtain vs where "snd (expressions_hold rt es m s1) = s1 @ vs" using Cons.IH by blast
  ultimately show ?case using e by (cases r) auto
qed simp

lemma hold_pure:
  assumes "exprs_pure es"
  shows "snd (expressions_hold rt es m symbols) = symbols"
    and "fst (expressions_hold rt es m symbols) = Inr True \<longleftrightarrow> all_true rt es m symbols"
proof -
  have "snd (expressions_hold rt es m symbols) = symbols \<and>
      (fst (expressions_hold rt es m symbols) = Inr True \<longleftrightarrow> all_true rt es m symbols)"
    using assms
  proof (induction es)
    case (Cons e es)
    obtain r s1 where e: "Expression_Evaluate rt e m symbols = (r, s1)" by fastforce
    then have "s1 = symbols" using Evaluate_pure[of e rt m symbols] Cons.prems by (simp add: exprs_pure_def)
    then show ?case using Cons e
      by (cases r) (auto simp: exprs_pure_def all_true_def is_true_iff)
  qed (simp add: all_true_def)
  then show "snd (expressions_hold rt es m symbols) = symbols"
    "fst (expressions_hold rt es m symbols) = Inr True \<longleftrightarrow> all_true rt es m symbols" by simp_all
qed

lemma held_pure:
  assumes "exprs_pure es"
  shows "held rt es ms symbols = filter (\<lambda>r. all_true rt es (snd r) symbols) ms"
proof (induction ms)
  case (Cons r ms)
  obtain v s1 where e: "expressions_hold rt es (snd r) symbols = (v, s1)" by fastforce
  then have "s1 = symbols" "v = Inr True \<longleftrightarrow> all_true rt es (snd r) symbols"
    using hold_pure[OF assms, of rt "snd r" symbols] by simp_all
  then show ?case using Cons e by (auto split: sum.splits bool.splits)
qed simp

lemma held_sub:
  "r \<in> set (held rt es ms symbols) \<Longrightarrow> r \<in> set ms \<and>
     (\<exists>us s2. expressions_hold rt es (snd r) (symbols @ us) = (Inr True, s2))"
proof (induction ms arbitrary: symbols)
  case (Cons q ms)
  obtain v s1 where e: "expressions_hold rt es (snd q) symbols = (v, s1)" by fastforce
  obtain us where s1: "s1 = symbols @ us" using hold_extends[of rt es "snd q" symbols] e by auto
  have rest: "r \<in> set ms \<and> (\<exists>us s2. expressions_hold rt es (snd r) (symbols @ us) = (Inr True, s2))"
    if h: "r \<in> set (held rt es ms s1)"
  proof -
    have "r \<in> set ms" using Cons.IH[OF h] by blast
    obtain vs s2 where "expressions_hold rt es (snd r) (s1 @ vs) = (Inr True, s2)" using Cons.IH[OF h] by blast
    then have "expressions_hold rt es (snd r) (symbols @ (us @ vs)) = (Inr True, s2)" by (simp add: s1)
    with \<open>r \<in> set ms\<close> show ?thesis by blast
  qed
  show ?case
  proof (cases "v = Inr True")
    case True
    then have "r = q \<or> r \<in> set (held rt es ms s1)" using Cons.prems e by auto
    moreover have "\<exists>us s2. expressions_hold rt es (snd q) (symbols @ us) = (Inr True, s2)"
      by (rule exI[of _ "[]"]) (use True e in simp)
    moreover have "q \<in> set (q # ms)" "set ms \<subseteq> set (q # ms)" by auto
    ultimately show ?thesis using rest by blast
  next
    case False
    then have "r \<in> set (held rt es ms s1)" using Cons.prems e by (auto split: sum.splits bool.splits)
    then show ?thesis using rest by simp
  qed
qed simp

text \<open>The specification: the facts a rule of block \<open>b\<close> derives from a relation.\<close>

definition rule_derives :: "runtime \<Rightarrow> BlockID \<Rightarrow> Rule \<Rightarrow> (BlockID set \<times> Fact) set \<Rightarrow> SymbolTable \<Rightarrow>
    (BlockID set \<times> Fact) set" where
  "rule_derives rt b r R symbols = {(insert b B, subst_pred \<sigma> (rule_Head r)) | \<sigma> B.
     body_match R (elems (rule_Body r)) \<sigma> B \<and>
     all_true rt (elems (rule_Expressions r)) (env (elems (rule_Body r)) \<sigma>) symbols}"

lemma subst_pred_cong: "(\<And>v. v \<in> pred_vars p \<Longrightarrow> \<sigma> v = \<tau> v) \<Longrightarrow> subst_pred \<sigma> p = subst_pred \<tau> p"
proof -
  assume eq: "\<And>v. v \<in> pred_vars p \<Longrightarrow> \<sigma> v = \<tau> v"
  have "subst_term \<sigma> t = subst_term \<tau> t" if "t \<in> set (elems (pred_Terms p))" for t
    using eq that by (cases t) (auto simp: pred_vars_def)
  then show ?thesis by (simp add: subst_pred_def)
qed

lemma env_cong: "(\<And>v. v \<in> vars_of body \<Longrightarrow> \<sigma> v = \<tau> v) \<Longrightarrow> map_of (env body \<sigma>) = map_of (env body \<tau>)"
  by (rule ext) (auto simp: map_of_env)

lemma all_true_cong: "map_of m = map_of m' \<Longrightarrow> all_true rt es m symbols = all_true rt es m' symbols"
  by (simp add: all_true_def Evaluate_cong[of m m'])

lemma Rule_Apply_run:
  assumes "facts_ground rt fs"
  obtains ms where "combineIt_matches rt (newCombineIt rt (rule_Body r) fs) = Some ms"
    "Rule_Apply rt r b fs symbols = valid_matches_loop rt (elems (rule_Expressions r))
       (derive_fact rt r (NewOrigin rt b [])) ms [] symbols"
    "\<forall>x \<in> set ms. good_match rt (facts_of rt fs) (elems (rule_Body r)) x"
proof -
  obtain ms where "combineIt_matches rt (newCombineIt rt (rule_Body r) fs) = Some ms"
    using combineIt_matches_spec[OF newCombineIt_wf[OF assms]] by blast
  then show ?thesis
    using that matches_good[OF assms] by (simp add: Rule_Apply_def getNewFacts_def getValidMatches_def newEvaluator_def)
qed

lemma Rule_Apply_sound_facts:
  assumes "facts_ground rt fs" "head_atomic r" "Rule_Apply rt r b fs symbols = (Inr out, symbols')"
  shows "facts_ground rt out"
    and "x \<in> facts_of rt out \<Longrightarrow> \<exists>\<sigma> B us s2. x = (insert b B, subst_pred \<sigma> (rule_Head r)) \<and>
      body_match (facts_of rt fs) (elems (rule_Body r)) \<sigma> B \<and>
      expressions_hold rt (elems (rule_Expressions r)) (env (elems (rule_Body r)) \<sigma>) (symbols @ us) = (Inr True, s2)"
proof -
  let ?es = "elems (rule_Expressions r)" and ?body = "elems (rule_Body r)"
  obtain ms where ms: "Rule_Apply rt r b fs symbols =
      valid_matches_loop rt ?es (derive_fact rt r (NewOrigin rt b [])) ms [] symbols"
    "\<forall>x \<in> set ms. good_match rt (facts_of rt fs) ?body x"
    by (rule Rule_Apply_run[OF assms(1)])
  note l = valid_matches_loop_spec[OF ms(2) assms(2) keyed_inv_Nil assms(3)[unfolded ms(1)]]
  then show "facts_ground rt out" by (auto simp: facts_ground_def)
  assume "x \<in> facts_of rt out"
  then obtain q where q: "q \<in> set (held rt ?es ms symbols)" "x = derived b (rule_Head r) q" using l by auto
  note h = held_sub[OF q(1)]
  then have g: "good_match rt (facts_of rt fs) ?body q" using ms(2) by blast
  obtain us s2 where "expressions_hold rt ?es (snd q) (symbols @ us) = (Inr True, s2)" using h by blast
  then have "expressions_hold rt ?es (env ?body (binding_of (snd q))) (symbols @ us) = (Inr True, s2)"
    using g expressions_hold_cong[of "snd q" "env ?body (binding_of (snd q))"] by (simp add: good_match_def)
  moreover have "body_match (facts_of rt fs) ?body (binding_of (snd q)) (origin_set (fst q))"
    using g by (simp add: good_match_def)
  moreover have "x = (insert b (origin_set (fst q)), subst_pred (binding_of (snd q)) (rule_Head r))"
    using q(2) by (simp add: derived_def)
  ultimately show "\<exists>\<sigma> B us s2. x = (insert b B, subst_pred \<sigma> (rule_Head r)) \<and>
      body_match (facts_of rt fs) ?body \<sigma> B \<and>
      expressions_hold rt ?es (env ?body \<sigma>) (symbols @ us) = (Inr True, s2)"
    by (intro exI conjI)
qed

lemma Rule_Apply_exact_facts:
  assumes "facts_ground rt fs" "head_atomic r" "exprs_pure (elems (rule_Expressions r))"
    and "Rule_Apply rt r b fs symbols = (Inr out, symbols')"
  shows "facts_of rt out = rule_derives rt b r (facts_of rt fs) symbols"
proof -
  let ?es = "elems (rule_Expressions r)" and ?body = "elems (rule_Body r)" and ?R = "facts_of rt fs"
  obtain ms where ms: "combineIt_matches rt (newCombineIt rt (rule_Body r) fs) = Some ms"
    "Rule_Apply rt r b fs symbols = valid_matches_loop rt ?es (derive_fact rt r (NewOrigin rt b [])) ms [] symbols"
    "\<forall>x \<in> set ms. good_match rt ?R ?body x"
    by (rule Rule_Apply_run[OF assms(1)])
  note l = valid_matches_loop_spec[OF ms(3) assms(2) keyed_inv_Nil assms(4)[unfolded ms(2)]]
  have out: "facts_of rt out = derived b (rule_Head r) ` {q \<in> set ms. all_true rt ?es (snd q) symbols}"
    using l by (simp add: held_pure[OF assms(3)])
  have gr: "ground (snd (derived b (rule_Head r) q))" if "q \<in> set ms" "all_true rt ?es (snd q) symbols" for q
  proof -
    have "q \<in> set (held rt ?es ms symbols)" using that by (simp add: held_pure[OF assms(3)])
    then show ?thesis using l by blast
  qed
  show ?thesis
  proof (intro set_eqI iffI)
    fix x assume "x \<in> facts_of rt out"
    then obtain q where q: "q \<in> set ms" "all_true rt ?es (snd q) symbols" "x = derived b (rule_Head r) q"
      using out by auto
    then have g: "good_match rt ?R ?body q" using ms(3) by blast
    then have "map_of (snd q) = map_of (env ?body (binding_of (snd q)))" by (simp add: good_match_def)
    then have "all_true rt ?es (env ?body (binding_of (snd q))) symbols"
      using all_true_cong q(2) by blast
    moreover have "body_match ?R ?body (binding_of (snd q)) (origin_set (fst q))"
      using g by (simp add: good_match_def)
    ultimately show "x \<in> rule_derives rt b r ?R symbols"
      unfolding rule_derives_def mem_Collect_eq q(3) derived_def by (intro exI conjI) simp_all
  next
    fix x assume "x \<in> rule_derives rt b r ?R symbols"
    then obtain \<sigma> B where x: "x = (insert b B, subst_pred \<sigma> (rule_Head r))" "body_match ?R ?body \<sigma> B"
      "all_true rt ?es (env ?body \<sigma>) symbols" unfolding rule_derives_def by blast
    obtain o1 m where m: "(o1, m) \<in> set ms" "origin_set o1 = B" "\<forall>v \<in> vars_of ?body. binding_of m v = \<sigma> v"
      using matches_complete[OF assms(1) x(2)] ms(1) by auto
    have g: "good_match rt ?R ?body (o1, m)" using ms(3) m(1) by blast
    have me: "map_of m = map_of (env ?body \<sigma>)"
      using g env_cong[of ?body "binding_of m" \<sigma>] m(3) by (simp add: good_match_def)
    have at: "all_true rt ?es m symbols" using all_true_cong[OF me] x(3) by simp
    have "subst_pred (binding_of m) (rule_Head r) = subst_pred \<sigma> (rule_Head r)"
    proof (rule subst_pred_cong)
      fix v assume v: "v \<in> pred_vars (rule_Head r)"
      have "ground (subst_pred (binding_of m) (rule_Head r))"
        using gr[OF m(1)] at by (simp add: derived_def)
      then obtain t where t: "binding_of m v = Some t" using subst_binds v by blast
      then have "map_of m v \<noteq> None" by (cases "map_of m v") (simp_all add: binding_of_def)
      then have "v \<in> vars_of ?body" unfolding me by (simp add: map_of_env split: if_splits)
      then show "binding_of m v = \<sigma> v" using m(3) by blast
    qed
    then have "x = derived b (rule_Head r) (o1, m)" by (simp add: x(1) derived_def m(2))
    then show "x \<in> facts_of rt out" unfolding out using m(1) at by force
  qed
qed

text \<open>
  C8: \<^verbatim>\<open>Rule.Apply\<close> computes exactly one step of the rule: when it returns a fact set,
  that set holds the instances of the head for every substitution that turns the body into
  known facts and makes every expression true, and nothing else, each with an origin made
  of the rule's block and the blocks of the facts used. (Expressions without string
  concatenation.)
\<close>

theorem Rule_Apply_exact:
  assumes "facts_ground rt fs" and "head_atomic r" and "exprs_pure (elems (rule_Expressions r))"
    and "Rule_Apply rt r b fs symbols = (Inr out, symbols')"
  shows "facts_of rt out = rule_derives rt b r (facts_of rt fs) symbols \<and> facts_ground rt out"
  using Rule_Apply_exact_facts[OF assms] Rule_Apply_sound_facts(1)[OF assms(1,2,4)] by simp

text \<open>
  C23: whatever the expressions are, a derived fact carries in its origin the block of the
  rule and every block of the facts it was derived from: a block cannot launder facts.
\<close>

theorem Rule_Apply_origin:
  assumes "facts_ground rt fs" and "head_atomic r" and "Rule_Apply rt r b fs symbols = (Inr out, symbols')"
    and "(B, f) \<in> facts_of rt out"
  shows "b \<in> B \<and> (\<exists>\<sigma> Bs. f = subst_pred \<sigma> (rule_Head r) \<and> B = insert b (\<Union> (set Bs)) \<and>
    list_all2 (\<lambda>b' p. (b', subst_pred \<sigma> p) \<in> facts_of rt fs) Bs (elems (rule_Body r)))"
  using Rule_Apply_sound_facts(2)[OF assms(1-4)] by (auto simp: body_match_def)

section \<open>Errors of rules\<close>

lemma hold_error: "fst (expressions_hold rt es m symbols) = Inl e \<Longrightarrow> es \<noteq> []"
  by (cases es) auto

lemma valid_loop_error:
  "valid_matches_loop rt es consumer ms acc symbols = (Inl err, symbols') \<Longrightarrow>
   (\<exists>e. err = ExpressionError e \<and> es \<noteq> []) \<or> (\<exists>q \<in> set ms. \<exists>acc'. consumer q acc' = Inl err)"
proof (induction ms arbitrary: acc symbols)
  case (Cons q ms)
  obtain v s1 where e: "expressions_hold rt es (snd q) symbols = (v, s1)" by fastforce
  show ?case
  proof (cases v)
    case (Inl e1)
    then show ?thesis using Cons.prems e hold_error[of rt es "snd q" symbols e1] by auto
  next
    case (Inr valid)
    show ?thesis
    proof (cases "valid \<and> (\<exists>e2. consumer q acc = Inl e2)")
      case True
      then show ?thesis using Cons.prems e Inr by auto
    next
      case False
      then have "\<exists>acc2. valid_matches_loop rt es consumer ms acc2 s1 = (Inl err, symbols')"
        using Cons.prems e Inr by (cases "consumer q acc") (auto split: if_splits)
      then show ?thesis using Cons.IH by auto
    qed
  qed
qed simp

lemma derive_fact_error:
  assumes "good_match rt R body q" "derive_fact rt r o1 q acc = Inl err"
  shows "\<exists>v. err = InvalidRuleError r v \<and> v \<in> pred_vars (rule_Head r) \<and> v \<notin> vars_of body"
proof -
  have h: "head_terms r (snd q) (elems (pred_Terms (rule_Head r))) = Inl err"
    using assms(2) by (auto simp: derive_fact_def Predicate_Clone_def Let_def bind_res_eq_Inl)
  have mo: "map_of (snd q) = map_of (env body (binding_of (snd q)))"
    and b: "\<forall>v \<in> vars_of body. binding_of (snd q) v \<noteq> None"
    using assms(1) by (simp_all add: good_match_def)
  have "map_of (snd q) v \<noteq> Some None" for v
    unfolding mo map_of_env using b by simp blast
  then obtain v where v: "err = InvalidRuleError r v" "TVariable v \<in> set (elems (pred_Terms (rule_Head r)))"
    "map_of (snd q) v = None"
    using head_terms_Inl[OF h] by blast
  have "v \<notin> vars_of body" using v(3) unfolding mo map_of_env by (simp split: if_splits)
  then show ?thesis using v by (auto simp: pred_vars_def)
qed

lemma Rule_Apply_error_cases:
  assumes "facts_ground rt fs" "Rule_Apply rt r b fs symbols = (Inl err, symbols')"
  shows "(\<exists>e. err = ExpressionError e \<and> elems (rule_Expressions r) \<noteq> []) \<or>
    (\<exists>v. err = InvalidRuleError r v \<and> v \<in> pred_vars (rule_Head r) \<and> v \<notin> vars_of (elems (rule_Body r)))"
proof -
  obtain ms where ms: "Rule_Apply rt r b fs symbols = valid_matches_loop rt (elems (rule_Expressions r))
       (derive_fact rt r (NewOrigin rt b [])) ms [] symbols"
    "\<forall>x \<in> set ms. good_match rt (facts_of rt fs) (elems (rule_Body r)) x"
    by (rule Rule_Apply_run[OF assms(1)])
  show ?thesis
    using valid_loop_error[OF assms(2)[unfolded ms(1)]] derive_fact_error ms(2) by blast
qed

lemma Rule_Apply_returns:
  assumes "facts_ground rt fs" "elems (rule_Expressions r) = []"
    and "pred_vars (rule_Head r) \<subseteq> vars_of (elems (rule_Body r))"
  shows "\<exists>out symbols'. Rule_Apply rt r b fs symbols = (Inr out, symbols')"
proof -
  obtain res s' where r: "Rule_Apply rt r b fs symbols = (res, s')" by fastforce
  show ?thesis
  proof (cases res)
    case (Inl err)
    then show ?thesis using Rule_Apply_error_cases[OF assms(1), of r b symbols err s'] r assms(2,3) by auto
  qed (use r in auto)
qed

text \<open>
  C27: applying a rule to ground facts always returns. It fails only with the error of an
  expression, or with \<^verbatim>\<open>InvalidRuleError\<close> for a variable of the head that no body predicate
  binds; a rule whose head variables occur in its body never gets the latter.
\<close>

theorem Rule_Apply_errors:
  assumes "facts_ground rt fs" and "Rule_Apply rt r b fs symbols = (Inl err, symbols')"
  shows "(\<exists>e. err = ExpressionError e \<and> elems (rule_Expressions r) \<noteq> []) \<or>
    (\<exists>v. err = InvalidRuleError r v \<and> v \<in> pred_vars (rule_Head r) \<and> v \<notin> vars_of (elems (rule_Body r)))"
  using assms by (rule Rule_Apply_error_cases)

text \<open>A rule and facts for examples: \<open>resource($0) <- right($0)\<close> on \<open>right(1)\<close> of block 0.\<close>

definition demo_rule :: Rule where
  "demo_rule = \<lparr>rule_Head = \<lparr>pred_Name = 2, pred_Terms = Some [TVariable 0]\<rparr>,
     rule_Body = Some [\<lparr>pred_Name = 4, pred_Terms = Some [TVariable 0]\<rparr>],
     rule_Expressions = Some [], rule_Scopes = None\<rparr>"

definition demo_facts :: FactSet where
  "demo_facts = NewFactSet demo_runtime (NewOrigin demo_runtime 0 []) [\<lparr>pred_Name = 4, pred_Terms = Some [TInteger 1]\<rparr>]"

lemma demo_facts_spec:
  "facts_ground demo_runtime demo_facts"
  "facts_of demo_runtime demo_facts = {({0}, \<lparr>pred_Name = 4, pred_Terms = Some [TInteger 1]\<rparr>)}"
proof -
  have g: "\<forall>f \<in> set [\<lparr>pred_Name = 4, pred_Terms = Some [TInteger 1]\<rparr>]. ground f"
    by (simp add: ground_def pred_atomic_def is_Variable_def)
  show "facts_ground demo_runtime demo_facts"
    "facts_of demo_runtime demo_facts = {({0}, \<lparr>pred_Name = 4, pred_Terms = Some [TInteger 1]\<rparr>)}"
    using NewFactSet_spec[OF g, of demo_runtime 0 "[]"] by (simp_all add: demo_facts_def)
qed

lemma demo_rule_simps [simp]:
  "elems (rule_Expressions demo_rule) = []" "head_atomic demo_rule"
  "pred_vars (rule_Head demo_rule) = {0}"
  "elems (rule_Body demo_rule) = [\<lparr>pred_Name = 4, pred_Terms = Some [TVariable 0]\<rparr>]"
  "vars_of (elems (rule_Body demo_rule)) = {0}"
  "rule_Head demo_rule = \<lparr>pred_Name = 2, pred_Terms = Some [TVariable 0]\<rparr>"
  by (auto simp: demo_rule_def head_atomic_def pred_vars_def)

lemma demo_apply: "\<exists>out symbols'. Rule_Apply demo_runtime demo_rule b demo_facts symbols = (Inr out, symbols')"
  by (rule Rule_Apply_returns[OF demo_facts_spec(1)]) (simp_all only: demo_rule_simps(1,3,5) subset_refl)

lemma demo_derives:
  "rule_derives demo_runtime b demo_rule (facts_of demo_runtime demo_facts) symbols =
     {({b, 0}, \<lparr>pred_Name = 2, pred_Terms = Some [TInteger 1]\<rparr>)}"
proof -
  have m: "body_match {({0}, \<lparr>pred_Name = 4, pred_Terms = Some [TInteger 1]\<rparr>)}
      [\<lparr>pred_Name = 4, pred_Terms = Some [TVariable 0]\<rparr>] \<sigma> B \<longleftrightarrow> B = {0} \<and> \<sigma> 0 = Some (TInteger 1)"
    for \<sigma> and B :: "BlockID set"
    by (auto simp: body_match_def list_all2_Cons2 subst_pred_def split: option.splits)
  show ?thesis
    unfolding rule_derives_def demo_facts_spec(2) demo_rule_simps m
    by (auto simp: all_true_def subst_pred_def intro!: exI[of _ "[0 \<mapsto> TInteger 1]"])
qed

theorem Rule_Apply_exact_witness:
  "\<exists>out symbols'. Rule_Apply demo_runtime demo_rule 1 demo_facts [] = (Inr out, symbols') \<and>
     facts_of demo_runtime out = {({1, 0}, \<lparr>pred_Name = 2, pred_Terms = Some [TInteger 1]\<rparr>)}"
proof -
  obtain out s where run: "Rule_Apply demo_runtime demo_rule 1 demo_facts [] = (Inr out, s)"
    using demo_apply by blast
  have "exprs_pure (elems (rule_Expressions demo_rule))" by (simp add: exprs_pure_def)
  from Rule_Apply_exact[OF demo_facts_spec(1) _ this run] run show ?thesis
    by (simp add: demo_derives)
qed

theorem Rule_Apply_origin_witness:
  "\<exists>out symbols'. Rule_Apply demo_runtime demo_rule 1 demo_facts [] = (Inr out, symbols') \<and>
     (\<exists>(B, f) \<in> facts_of demo_runtime out. 1 \<in> B)"
proof -
  obtain out s where run: "Rule_Apply demo_runtime demo_rule 1 demo_facts [] = (Inr out, s)"
    using demo_apply by blast
  have "exprs_pure (elems (rule_Expressions demo_rule))" by (simp add: exprs_pure_def)
  then have "facts_of demo_runtime out = {({1, 0}, \<lparr>pred_Name = 2, pred_Terms = Some [TInteger 1]\<rparr>)}"
    using Rule_Apply_exact_facts[OF demo_facts_spec(1) _ _ run] by (simp add: demo_derives)
  then obtain B f where Bf: "(B, f) \<in> facts_of demo_runtime out" by blast
  have "1 \<in> B" using Rule_Apply_origin[OF demo_facts_spec(1) _ run Bf] by simp
  with run Bf show ?thesis by blast
qed

theorem Rule_Apply_errors_witness:
  "\<exists>err symbols'. Rule_Apply demo_runtime (demo_rule\<lparr>rule_Body := Some []\<rparr>) 1 [] [] = (Inl err, symbols') \<and>
     (\<exists>v. err = InvalidRuleError (demo_rule\<lparr>rule_Body := Some []\<rparr>) v)"
proof -
  let ?r = "demo_rule\<lparr>rule_Body := Some []\<rparr>"
  have run: "\<exists>err. Rule_Apply demo_runtime ?r 1 [] [] = (Inl err, [])"
    by (simp add: Rule_Apply_def getNewFacts_def getValidMatches_def newEvaluator_def combineIt_matches_def
        combinations_iter_def map_filter_simps match_yield_def combine_at_def newMatchedVariables_def mv_clone_def
        mv_complete_def demo_rule_def derive_fact_def Predicate_Clone_def Let_def)
  then obtain err where run: "Rule_Apply demo_runtime ?r 1 [] [] = (Inl err, [])" by blast
  have "facts_ground demo_runtime []" by (simp add: facts_ground_def)
  from Rule_Apply_errors[OF this run] run show ?thesis by (auto simp: demo_rule_def)
qed

section \<open>What checks decide\<close>

definition some_true :: "runtime \<Rightarrow> Expression list \<Rightarrow> bindings \<Rightarrow> SymbolTable \<Rightarrow> bool" where
  "some_true rt es m symbols \<longleftrightarrow> (\<exists>e \<in> set es. fst (Expression_Evaluate rt e m symbols) = Inr (TBool True))"

lemma some_true_cong: "map_of m = map_of m' \<Longrightarrow> some_true rt es m symbols = some_true rt es m' symbols"
  by (simp add: some_true_def Evaluate_cong[of m m'])

lemma some_pure:
  assumes "exprs_pure es"
  shows "snd (some_expression_true rt es m symbols) = symbols"
    and "fst (some_expression_true rt es m symbols) = Inr b \<Longrightarrow> b \<longleftrightarrow> some_true rt es m symbols"
proof -
  have "snd (some_expression_true rt es m symbols) = symbols \<and>
      (\<forall>b. fst (some_expression_true rt es m symbols) = Inr b \<longrightarrow> (b \<longleftrightarrow> some_true rt es m symbols))"
    using assms
  proof (induction es)
    case (Cons e es)
    obtain r s1 where e: "Expression_Evaluate rt e m symbols = (r, s1)" by fastforce
    then have "s1 = symbols" using Evaluate_pure[of e rt m symbols] Cons.prems by (simp add: exprs_pure_def)
    then show ?case using Cons e
      by (cases r) (auto simp: exprs_pure_def some_true_def is_true_iff)
  qed (simp add: some_true_def)
  then show "snd (some_expression_true rt es m symbols) = symbols"
    "fst (some_expression_true rt es m symbols) = Inr b \<Longrightarrow> b \<longleftrightarrow> some_true rt es m symbols" by simp_all
qed

text \<open>The loops on expressions that leave the symbol table alone.\<close>

lemma hold_pure_cases:
  assumes "exprs_pure es"
  obtains (true) "expressions_hold rt es m symbols = (Inr True, symbols)" "all_true rt es m symbols"
    | (false) "expressions_hold rt es m symbols = (Inr False, symbols)" "\<not> all_true rt es m symbols"
    | (err) e where "expressions_hold rt es m symbols = (Inl e, symbols)" "\<not> all_true rt es m symbols"
proof -
  obtain r where r: "expressions_hold rt es m symbols = (r, symbols)"
    using hold_pure(1)[OF assms, of rt m symbols] by (metis prod.collapse)
  note h = hold_pure(2)[OF assms, of rt m symbols]
  show ?thesis
  proof (cases r)
    case (Inl e)
    then show ?thesis using err r h by simp
  next
    case (Inr b)
    then show ?thesis using true false r h by (cases b) simp_all
  qed
qed

lemma any_loop_pure:
  assumes "exprs_pure es" "any_loop rt es ms symbols = (Inr b, symbols')"
  shows "symbols' = symbols \<and> (b \<longleftrightarrow> (\<exists>q \<in> set ms. all_true rt es (snd q) symbols))"
  using assms(2)
proof (induction ms)
  case (Cons q ms)
  show ?case
    using Cons by (cases rule: hold_pure_cases[OF assms(1), of rt "snd q" symbols]) auto
qed simp

lemma all_loop_pure:
  assumes "exprs_pure es" "all_loop rt es found ms symbols = (Inr b, symbols')"
  shows "symbols' = symbols \<and> (b \<longleftrightarrow> (found \<or> ms \<noteq> []) \<and> (\<forall>q \<in> set ms. all_true rt es (snd q) symbols))"
  using assms(2)
proof (induction ms arbitrary: found)
  case (Cons q ms)
  show ?case
    using Cons by (cases rule: hold_pure_cases[OF assms(1), of rt "snd q" symbols]) auto
qed simp

lemma none_loop_pure:
  assumes "exprs_pure es" "none_loop rt es ms symbols = (Inr b, symbols')"
  shows "symbols' = symbols \<and> (b \<longleftrightarrow> \<not> (\<exists>q \<in> set ms. some_true rt es (snd q) symbols))"
  using assms(2)
proof (induction ms)
  case (Cons q ms)
  obtain r where r: "some_expression_true rt es (snd q) symbols = (r, symbols)"
    using some_pure(1)[OF assms(1), of rt "snd q" symbols] by (metis prod.collapse)
  then show ?case using Cons some_pure(2)[OF assms(1), of rt "snd q" symbols]
    by (cases r) (auto split: if_splits)
qed simp

text \<open>The instances of a query's body that can be built from known facts.\<close>

definition query_match :: "(BlockID set \<times> Fact) set \<Rightarrow> Rule \<Rightarrow> subst \<Rightarrow> bool" where
  "query_match R q \<sigma> \<longleftrightarrow> (\<exists>B. body_match R (elems (rule_Body q)) \<sigma> B)"

abbreviation query_all_true :: "runtime \<Rightarrow> Rule \<Rightarrow> subst \<Rightarrow> SymbolTable \<Rightarrow> bool" where
  "query_all_true rt q \<sigma> symbols \<equiv> all_true rt (elems (rule_Expressions q)) (env (elems (rule_Body q)) \<sigma>) symbols"

abbreviation query_some_true :: "runtime \<Rightarrow> Rule \<Rightarrow> subst \<Rightarrow> SymbolTable \<Rightarrow> bool" where
  "query_some_true rt q \<sigma> symbols \<equiv> some_true rt (elems (rule_Expressions q)) (env (elems (rule_Body q)) \<sigma>) symbols"

text \<open>Quantifying over the matches of layer 2 is quantifying over substitutions.\<close>

lemma matches_subst:
  assumes fg: "facts_ground rt fs" and ms: "combineIt_matches rt (newCombineIt rt (rule_Body q) fs) = Some ms"
    and P: "\<And>m m'. map_of m = map_of m' \<Longrightarrow> P m = P m'"
  shows "(\<exists>r \<in> set ms. P (snd r)) \<longleftrightarrow> (\<exists>\<sigma>. query_match (facts_of rt fs) q \<sigma> \<and> P (env (elems (rule_Body q)) \<sigma>))"
proof
  assume "\<exists>r \<in> set ms. P (snd r)"
  then obtain r where r: "r \<in> set ms" "P (snd r)" by blast
  have g: "good_match rt (facts_of rt fs) (elems (rule_Body q)) r" by (rule matches_good[OF fg ms r(1)])
  then have "P (env (elems (rule_Body q)) (binding_of (snd r)))"
    using P[of "snd r"] r(2) by (simp add: good_match_def)
  moreover have "query_match (facts_of rt fs) q (binding_of (snd r))"
    using g unfolding query_match_def good_match_def by blast
  ultimately show "\<exists>\<sigma>. query_match (facts_of rt fs) q \<sigma> \<and> P (env (elems (rule_Body q)) \<sigma>)" by blast
next
  assume "\<exists>\<sigma>. query_match (facts_of rt fs) q \<sigma> \<and> P (env (elems (rule_Body q)) \<sigma>)"
  then obtain \<sigma> B where s: "body_match (facts_of rt fs) (elems (rule_Body q)) \<sigma> B" "P (env (elems (rule_Body q)) \<sigma>)"
    unfolding query_match_def by blast
  obtain o1 m where m: "(o1, m) \<in> set ms" "\<forall>v \<in> vars_of (elems (rule_Body q)). binding_of m v = \<sigma> v"
    using matches_complete[OF fg s(1)] ms by auto
  have "map_of m = map_of (env (elems (rule_Body q)) (binding_of m))"
    using matches_good[OF fg ms m(1)] by (simp add: good_match_def)
  also have "\<dots> = map_of (env (elems (rule_Body q)) \<sigma>)" by (rule env_cong) (use m(2) in blast)
  finally have "P m" using P s(2) by blast
  then show "\<exists>r \<in> set ms. P (snd r)" using m(1) by force
qed

lemma verify_pure:
  assumes fg: "facts_ground rt fs" and pure: "exprs_pure (elems (rule_Expressions q))"
    and e_def: "e = newEvaluator rt (rule_Body q) (rule_Expressions q) fs" and R_def: "R = facts_of rt fs"
  shows "verifyAnyMatches rt e symbols = (Inr b, symbols') \<Longrightarrow>
      symbols' = symbols \<and> (b \<longleftrightarrow> (\<exists>\<sigma>. query_match R q \<sigma> \<and> query_all_true rt q \<sigma> symbols))"
    and "verifyAllMatches rt e symbols = (Inr b, symbols') \<Longrightarrow>
      symbols' = symbols \<and> (b \<longleftrightarrow> (\<exists>\<sigma>. query_match R q \<sigma>) \<and>
        (\<forall>\<sigma>. query_match R q \<sigma> \<longrightarrow> query_all_true rt q \<sigma> symbols))"
    and "verifyNoMatches rt e symbols = (Inr b, symbols') \<Longrightarrow>
      symbols' = symbols \<and> (b \<longleftrightarrow> (\<forall>\<sigma>. query_match R q \<sigma> \<longrightarrow> \<not> query_some_true rt q \<sigma> symbols))"
proof -
  obtain ms where ms: "combineIt_matches rt (newCombineIt rt (rule_Body q) fs) = Some ms"
    using combineIt_matches_spec[OF newCombineIt_wf[OF fg]] by blast
  then have run: "combineIt_matches rt (ev_combineIt e) = Some ms"
    and es: "ev_expressions e = elems (rule_Expressions q)" by (simp_all add: e_def newEvaluator_def)
  let ?es = "elems (rule_Expressions q)"
  have q: "(\<exists>r \<in> set ms. P (snd r)) \<longleftrightarrow> (\<exists>\<sigma>. query_match R q \<sigma> \<and> P (env (elems (rule_Body q)) \<sigma>))"
    if "\<And>m m'. map_of m = map_of m' \<Longrightarrow> P m = P m'" for P
    unfolding R_def using matches_subst[OF fg ms, of P] that by blast
  note qa = q[of "\<lambda>m. all_true rt ?es m symbols", OF all_true_cong]
    and qn = q[of "\<lambda>m. \<not> all_true rt ?es m symbols"]
    and qs = q[of "\<lambda>m. some_true rt ?es m symbols", OF some_true_cong]
    and qe = q[of "\<lambda>m. True"]
  show "symbols' = symbols \<and> (b \<longleftrightarrow> (\<exists>\<sigma>. query_match R q \<sigma> \<and> query_all_true rt q \<sigma> symbols))"
    if "verifyAnyMatches rt e symbols = (Inr b, symbols')"
    using any_loop_pure[OF pure, of rt ms symbols b symbols'] that qa by (simp add: verifyAnyMatches_def run es)
  show "symbols' = symbols \<and> (b \<longleftrightarrow> (\<exists>\<sigma>. query_match R q \<sigma>) \<and>
        (\<forall>\<sigma>. query_match R q \<sigma> \<longrightarrow> query_all_true rt q \<sigma> symbols))"
    if v: "verifyAllMatches rt e symbols = (Inr b, symbols')"
  proof -
    have "(\<exists>r \<in> set ms. \<not> all_true rt ?es (snd r) symbols) \<longleftrightarrow>
        (\<exists>\<sigma>. query_match R q \<sigma> \<and> \<not> query_all_true rt q \<sigma> symbols)"
      by (rule qn) (rule arg_cong[OF all_true_cong])
    then have all: "(\<forall>r \<in> set ms. all_true rt ?es (snd r) symbols) \<longleftrightarrow>
        (\<forall>\<sigma>. query_match R q \<sigma> \<longrightarrow> query_all_true rt q \<sigma> symbols)" by blast
    have ne: "ms \<noteq> [] \<longleftrightarrow> (\<exists>\<sigma>. query_match R q \<sigma>)" using qe by (cases ms) auto
    have "all_loop rt ?es False ms symbols = (Inr b, symbols')" using v by (simp add: verifyAllMatches_def run es)
    from all_loop_pure[OF pure this] show ?thesis unfolding all ne by simp
  qed
  show "symbols' = symbols \<and> (b \<longleftrightarrow> (\<forall>\<sigma>. query_match R q \<sigma> \<longrightarrow> \<not> query_some_true rt q \<sigma> symbols))"
    if "verifyNoMatches rt e symbols = (Inr b, symbols')"
    using none_loop_pure[OF pure, of rt ms symbols b symbols'] that qs by (auto simp: verifyNoMatches_def run es)
qed

text \<open>The facts a query of a check may see: those from blocks its scopes trust.\<close>

definition visible :: "(BlockID set \<times> Fact) set \<Rightarrow> Scope list \<Rightarrow> u64 \<Rightarrow> SignatureRegistry \<Rightarrow> Rule \<Rightarrow>
    (BlockID set \<times> Fact) set" where
  "visible R blockScopes blockID reg q =
     {(B, f) \<in> R. B \<subseteq> trusted_blocks blockScopes (elems (rule_Scopes q)) blockID reg}"

lemma visible_facts:
  assumes "facts_ground rt fs"
    and "gs = FactSet_WithOrigin rt fs (NewTrustedOriginFromScopes rt blockScopes (elems (rule_Scopes q)) blockID reg)"
  shows "facts_ground rt gs \<and> facts_of rt gs = visible (facts_of rt fs) blockScopes blockID reg q"
  using WithOrigin_spec[of rt fs] assms
  by (auto simp: facts_ground_def visible_def set_NewTrustedOriginFromScopes)

definition check_spec :: "runtime \<Rightarrow> CheckKind \<Rightarrow> (BlockID set \<times> Fact) set \<Rightarrow> Scope list \<Rightarrow> u64 \<Rightarrow>
    SignatureRegistry \<Rightarrow> SymbolTable \<Rightarrow> Rule \<Rightarrow> bool" where
  "check_spec rt kind R blockScopes blockID reg symbols q =
     (let V = visible R blockScopes blockID reg q in
      case kind of
        CheckAll \<Rightarrow> (\<exists>\<sigma>. query_match V q \<sigma>) \<and> (\<forall>\<sigma>. query_match V q \<sigma> \<longrightarrow> query_all_true rt q \<sigma> symbols)
      | CheckReject \<Rightarrow> (\<forall>\<sigma>. query_match V q \<sigma> \<longrightarrow> \<not> query_some_true rt q \<sigma> symbols)
      | _ \<Rightarrow> (\<exists>\<sigma>. query_match V q \<sigma> \<and> query_all_true rt q \<sigma> symbols))"

lemma verify_queries_spec:
  assumes fg: "facts_ground rt fs" and "\<forall>q \<in> set qs. exprs_pure (elems (rule_Expressions q))"
    and "verify_queries rt kind fs bs b reg passing qs symbols = (Inr res, symbols')"
  shows "symbols' = symbols \<and> res = (if kind \<in> {CheckAll, CheckReject}
      then passing \<and> (\<forall>q \<in> set qs. check_spec rt kind (facts_of rt fs) bs b reg symbols q)
      else passing \<or> (\<exists>q \<in> set qs. check_spec rt kind (facts_of rt fs) bs b reg symbols q))"
  using assms(2,3)
proof (induction qs arbitrary: passing)
  case (Cons q qs)
  let ?gs = "FactSet_WithOrigin rt fs (NewTrustedOriginFromScopes rt bs (elems (rule_Scopes q)) b reg)"
  let ?e = "newEvaluator rt (rule_Body q) (rule_Expressions q) ?gs"
  have g: "facts_ground rt ?gs" "facts_of rt ?gs = visible (facts_of rt fs) bs b reg q"
    using visible_facts[OF fg refl, of bs q b reg] by simp_all
  have pq: "exprs_pure (elems (rule_Expressions q))" "\<forall>q \<in> set qs. exprs_pure (elems (rule_Expressions q))"
    using Cons.prems(1) by simp_all
  note v = verify_pure[OF g(1) pq(1) refl g(2)[symmetric]]
  note IH = Cons.IH[OF pq(2)]
  consider "kind = CheckAll" | "kind = CheckReject" | "kind \<notin> {CheckAll, CheckReject}" by blast
  then show ?case
  proof cases
    case 1
    obtain ok s1 where s: "verifyAllMatches rt ?e symbols = (Inr ok, s1)"
      "verify_queries rt kind fs bs b reg (if \<not> ok then False else passing) qs s1 = (Inr res, symbols')"
      using Cons.prems(2) 1 by (auto simp: Let_def split: prod.splits sum.splits)
    have "s1 = symbols" "ok \<longleftrightarrow> check_spec rt kind (facts_of rt fs) bs b reg symbols q"
      using v(2)[OF s(1)] 1 by (simp_all add: check_spec_def Let_def)
    then show ?thesis using IH s(2) 1 by (auto split: if_splits)
  next
    case 2
    obtain ok s1 where s: "verifyNoMatches rt ?e symbols = (Inr ok, s1)"
      "verify_queries rt kind fs bs b reg (if \<not> ok then False else passing) qs s1 = (Inr res, symbols')"
      using Cons.prems(2) 2 by (auto simp: Let_def split: prod.splits sum.splits)
    have "s1 = symbols" "ok \<longleftrightarrow> check_spec rt kind (facts_of rt fs) bs b reg symbols q"
      using v(3)[OF s(1)] 2 by (simp_all add: check_spec_def Let_def)
    then show ?thesis using IH s(2) 2 by (auto split: if_splits)
  next
    case 3
    obtain ok s1 where s: "verifyAnyMatches rt ?e symbols = (Inr ok, s1)"
      "(if ok then (Inr True, s1) else verify_queries rt kind fs bs b reg passing qs s1) = (Inr res, symbols')"
      using Cons.prems(2) 3 by (cases kind) (auto simp: Let_def split: prod.splits sum.splits)
    have "s1 = symbols" "ok \<longleftrightarrow> check_spec rt kind (facts_of rt fs) bs b reg symbols q"
      using v(1)[OF s(1)] 3 by (cases kind; simp add: check_spec_def Let_def)+
    then show ?thesis using IH s(2) 3 by (auto split: if_splits)
  qed
qed simp

text \<open>
  C6: \<^verbatim>\<open>Check.Verify\<close> decides a check by its meaning on the facts its scopes make visible:
  one query with one match whose expressions are all true for \<^verbatim>\<open>check if\<close>; for \<^verbatim>\<open>check all\<close>
  every query must match and hold for all its matches; for \<^verbatim>\<open>reject if\<close> no match of any
  query may have a true expression. Facts from untrusted blocks have no influence.
\<close>

theorem Check_Verify_decides:
  assumes "facts_ground rt fs"
    and "\<forall>q \<in> set (elems (check_Queries c)). exprs_pure (elems (rule_Expressions q))"
    and "Check_Verify rt c fs bs b reg symbols = (Inr res, symbols')"
  shows "res \<longleftrightarrow> (case check_Kind c of
      CheckOne \<Rightarrow> (\<exists>q \<in> set (elems (check_Queries c)). check_spec rt CheckOne (facts_of rt fs) bs b reg symbols q)
    | CheckKindOther _ \<Rightarrow> True
    | kind \<Rightarrow> (\<forall>q \<in> set (elems (check_Queries c)). check_spec rt kind (facts_of rt fs) bs b reg symbols q))"
  using verify_queries_spec[OF assms(1,2) assms(3)[unfolded Check_Verify_def]]
  by (cases "check_Kind c") simp_all

lemma empty_check_verify:
  "Check_Verify rt \<lparr>check_Queries = Some [], check_Kind = k\<rparr> fs bs b reg symbols = (Inr (k \<noteq> CheckOne), symbols)"
  by (simp add: Check_Verify_def)

text \<open>A query without expressions: nothing can fail, and only the matches count.\<close>

lemma no_expression_loops:
  "any_loop rt [] ms symbols = (Inr (ms \<noteq> []), symbols)"
  "all_loop rt [] found ms symbols = (Inr (found \<or> ms \<noteq> []), symbols)"
  "none_loop rt [] ms symbols = (Inr True, symbols)"
proof -
  show "any_loop rt [] ms symbols = (Inr (ms \<noteq> []), symbols)" by (cases ms) simp_all
  show "all_loop rt [] found ms symbols = (Inr (found \<or> ms \<noteq> []), symbols)" by (induction ms arbitrary: found) simp_all
  show "none_loop rt [] ms symbols = (Inr True, symbols)" by (induction ms) simp_all
qed

lemma no_expressions_verify:
  assumes "facts_ground rt fs" "\<forall>q \<in> set qs. elems (rule_Expressions q) = []"
  shows "\<exists>res. verify_queries rt kind fs bs b reg passing qs symbols = (Inr res, symbols)"
  using assms(2)
proof (induction qs arbitrary: passing)
  case (Cons q qs)
  let ?gs = "FactSet_WithOrigin rt fs (NewTrustedOriginFromScopes rt bs (elems (rule_Scopes q)) b reg)"
  have "facts_ground rt ?gs" using visible_facts[OF assms(1) refl, of bs q b reg] by simp
  then obtain ms where "combineIt_matches rt (newCombineIt rt (rule_Body q) ?gs) = Some ms"
    using combineIt_matches_spec[OF newCombineIt_wf] by blast
  then show ?case using Cons
    by (cases kind) (auto simp: Let_def verifyAnyMatches_def verifyAllMatches_def verifyNoMatches_def
        newEvaluator_def no_expression_loops)
qed simp

lemma no_expressions_reject:
  assumes "facts_ground rt fs" "\<forall>q \<in> set qs. elems (rule_Expressions q) = []"
  shows "verify_queries rt CheckReject fs bs b reg True qs symbols = (Inr True, symbols)"
proof -
  obtain res where run: "verify_queries rt CheckReject fs bs b reg True qs symbols = (Inr res, symbols)"
    using no_expressions_verify[OF assms] by blast
  have "\<forall>q \<in> set qs. exprs_pure (elems (rule_Expressions q))" using assms(2) by (simp add: exprs_pure_def)
  from verify_queries_spec[OF assms(1) this run] run assms(2) show ?thesis
    by (simp add: check_spec_def some_true_def Let_def)
qed

text \<open>
  C36: a \<^verbatim>\<open>reject if\<close> check whose queries have no expressions accepts every set of facts, also
  one that its queries match: \<^verbatim>\<open>verifyNoMatches\<close> only looks for an expression that is true.
\<close>

theorem reject_without_expressions_accepts:
  assumes "facts_ground rt fs"
    and "\<forall>q \<in> set (elems (check_Queries c)). elems (rule_Expressions q) = []"
    and "check_Kind c = CheckReject"
  shows "Check_Verify rt c fs bs b reg symbols = (Inr True, symbols)"
  using no_expressions_reject[OF assms(1,2)] assms(3) by (simp add: Check_Verify_def)

definition demo_check :: "CheckKind \<Rightarrow> Check" where
  "demo_check kind = \<lparr>check_Queries = Some [demo_rule], check_Kind = kind\<rparr>"

text \<open>The query of the example check matches, and it is \<^verbatim>\<open>check if\<close> and \<^verbatim>\<open>reject if\<close> that pass.\<close>

lemma demo_query_match:
  "query_match (visible (facts_of demo_runtime demo_facts) [] 0 [] demo_rule) demo_rule [0 \<mapsto> TInteger 1]"
proof -
  have "\<exists>B. body_match {({0}, \<lparr>pred_Name = 4, pred_Terms = Some [TInteger 1]\<rparr>)}
      [\<lparr>pred_Name = 4, pred_Terms = Some [TVariable 0]\<rparr>] [0 \<mapsto> TInteger 1] B"
    by (auto simp: body_match_def list_all2_Cons2 subst_pred_def intro!: exI[of _ "{0}"])
  moreover have "visible (facts_of demo_runtime demo_facts) [] 0 [] demo_rule =
      {({0}, \<lparr>pred_Name = 4, pred_Terms = Some [TInteger 1]\<rparr>)}"
    by (auto simp: visible_def demo_facts_spec(2) trusted_blocks_def demo_rule_def)
  ultimately show ?thesis unfolding query_match_def demo_rule_simps by simp
qed

theorem Check_Verify_decides_witness:
  "Check_Verify demo_runtime (demo_check CheckOne) demo_facts [] 0 [] [] = (Inr True, [])"
proof -
  have e: "\<forall>q \<in> set (elems (check_Queries (demo_check CheckOne))). elems (rule_Expressions q) = []"
    by (simp add: demo_check_def)
  then obtain res where run: "Check_Verify demo_runtime (demo_check CheckOne) demo_facts [] 0 [] [] = (Inr res, [])"
    using no_expressions_verify[OF demo_facts_spec(1)] unfolding Check_Verify_def by blast
  have "\<forall>q \<in> set (elems (check_Queries (demo_check CheckOne))). exprs_pure (elems (rule_Expressions q))"
    using e by (simp add: exprs_pure_def)
  from Check_Verify_decides[OF demo_facts_spec(1) this run]
  have "res \<longleftrightarrow> check_spec demo_runtime CheckOne (facts_of demo_runtime demo_facts) [] 0 [] [] demo_rule"
    by (simp add: demo_check_def)
  then have res using demo_query_match by (auto simp: check_spec_def Let_def all_true_def)
  with run show ?thesis by simp
qed

theorem reject_without_expressions_accepts_witness:
  "Check_Verify demo_runtime (demo_check CheckReject) demo_facts [] 0 [] [] = (Inr True, []) \<and>
   query_match (visible (facts_of demo_runtime demo_facts) [] 0 [] demo_rule) demo_rule [0 \<mapsto> TInteger 1]"
  using reject_without_expressions_accepts[of demo_runtime demo_facts "demo_check CheckReject", OF demo_facts_spec(1)]
    demo_query_match by (simp add: demo_check_def)

end
