(* ===== verification/Worlds.thy ===== *)
theory Worlds
  imports Evaluator
begin

text \<open>
  The world of \<^verbatim>\<open>datalog/datalog.go\<close>: facts, rules and the limits under which
  \<^verbatim>\<open>World.Run\<close> applies the rules until nothing new comes out. Go's scheduler and clock are
  explicit: \<open>schedule\<close> says after how many polls the context is done, and what the final
  \<^verbatim>\<open>select\<close> chooses. \<open>model\<close> is the specification, the least set of facts that holds the
  given ones and is closed under the rules, each reading only the facts it trusts.
\<close>

section \<open>Limits and options\<close>

record runLimits =
  maxFacts :: u64        \<comment> \<open>an int, compared as a uint64\<close>
  maxIterations :: u64   \<comment> \<open>an int\<close>
  maxDuration :: u64     \<comment> \<open>an int64 of nanoseconds\<close>

definition defaultRunLimits :: runLimits where
  "defaultRunLimits = \<lparr>maxFacts = 1000, maxIterations = 100, maxDuration = 2 * 1000000\<rparr>"

datatype run_error =
    ErrWorldRunLimitMaxFacts
  | ErrWorldRunLimitMaxIterations
  | ErrWorldRunLimitTimeout
  | RuleError apply_error

record World =
  World_Facts :: FactSet
  World_Rules :: RuleSet
  World_runLimits :: runLimits

type_synonym WorldOption = "World \<Rightarrow> World"

definition WithMaxFacts :: "u64 \<Rightarrow> WorldOption" where
  "WithMaxFacts n w = w\<lparr>World_runLimits := (World_runLimits w)\<lparr>maxFacts := n\<rparr>\<rparr>"

definition WithMaxIterations :: "u64 \<Rightarrow> WorldOption" where
  "WithMaxIterations n w = w\<lparr>World_runLimits := (World_runLimits w)\<lparr>maxIterations := n\<rparr>\<rparr>"

definition WithMaxDuration :: "u64 \<Rightarrow> WorldOption" where
  "WithMaxDuration d w = w\<lparr>World_runLimits := (World_runLimits w)\<lparr>maxDuration := d\<rparr>\<rparr>"

definition NewWorld :: "WorldOption list \<Rightarrow> World" where
  "NewWorld opts = fold (\<lambda>opt w. opt w) opts
     \<lparr>World_Facts = [], World_Rules = [], World_runLimits = defaultRunLimits\<rparr>"

section \<open>Adding facts and rules\<close>

definition World_AddFact :: "runtime \<Rightarrow> World \<Rightarrow> Origin \<Rightarrow> Fact \<Rightarrow> World" where
  "World_AddFact rt w origin f = w\<lparr>World_Facts := FactSet_Insert rt (World_Facts w) origin f\<rparr>"

definition World_InsertFacts :: "runtime \<Rightarrow> World \<Rightarrow> Origin \<Rightarrow> Fact list \<Rightarrow> World" where
  "World_InsertFacts rt w origin facts = w\<lparr>World_Facts := FactSet_InsertMulti rt (World_Facts w) origin facts\<rparr>"

definition World_AddRule :: "runtime \<Rightarrow> World \<Rightarrow> TrustedOrigin \<Rightarrow> BlockID \<Rightarrow> Rule \<Rightarrow> World" where
  "World_AddRule rt w trustedOrigin blockID rule =
     w\<lparr>World_Rules := RuleSet_Insert rt (World_Rules w) trustedOrigin blockID rule\<rparr>"

definition World_ResetRules :: "World \<Rightarrow> World" where
  "World_ResetRules w = w\<lparr>World_Rules := []\<rparr>"

definition World_NumRules :: "World \<Rightarrow> nat" where
  "World_NumRules w = RuleSet_Count (World_Rules w)"

definition World_Clone :: "World \<Rightarrow> World" where
  "World_Clone w = \<lparr>World_Facts = FactSet_Clone (World_Facts w), World_Rules = RuleSet_Clone (World_Rules w),
     World_runLimits = World_runLimits w\<rparr>"

section \<open>Running\<close>

text \<open>
  \<open>sch_polls\<close>: the number of times the goroutine finds the context not done (\<open>None\<close>: always);
  \<open>sch_late\<close>: the final \<^verbatim>\<open>select\<close> takes the deadline although the goroutine has a result.
\<close>

record schedule =
  sch_polls :: "nat option"
  sch_late :: bool

fun poll_done :: "nat option \<Rightarrow> bool \<times> nat option" where
  "poll_done None = (False, None)"
| "poll_done (Some 0) = (True, Some 0)"
| "poll_done (Some (Suc n)) = (False, Some n)"

text \<open>How the goroutine ends: it sends a result, or it sees that the context is done.\<close>

datatype outcome = Sent "run_error option" | Cancelled

definition insert_all :: "runtime \<Rightarrow> FactSet \<Rightarrow> FactSet \<Rightarrow> FactSet" where
  "insert_all rt src dst = fold (\<lambda>(origin, facts) acc. FactSet_InsertMulti rt acc origin (HashSet_Iter facts))
     (FactSet_Iter rt src) dst"

fun apply_rules :: "runtime \<Rightarrow> FactSet \<Rightarrow> RuleInBlock list \<Rightarrow> FactSet \<Rightarrow> SymbolTable \<Rightarrow> nat option \<Rightarrow>
    (outcome + FactSet) \<times> SymbolTable \<times> nat option" where
  "apply_rules rt filteredFacts [] newFacts symbols p = (Inr newFacts, symbols, p)"
| "apply_rules rt filteredFacts (rib # ribs) newFacts symbols p =
     (let (stop, p') = poll_done p in
      if stop then (Inl Cancelled, symbols, p')
      else case RuleInBlock_Apply rt rib filteredFacts symbols of
          (Inl err, symbols') \<Rightarrow> (Inl (Sent (Some (RuleError err))), symbols', p')
        | (Inr resultFacts, symbols') \<Rightarrow>
            apply_rules rt filteredFacts ribs (insert_all rt resultFacts newFacts) symbols' p')"

fun apply_rule_sets :: "runtime \<Rightarrow> FactSet \<Rightarrow> (TrustedOrigin \<times> RuleInBlock hashset) list \<Rightarrow> FactSet \<Rightarrow>
    SymbolTable \<Rightarrow> nat option \<Rightarrow> (outcome + FactSet) \<times> SymbolTable \<times> nat option" where
  "apply_rule_sets rt facts [] newFacts symbols p = (Inr newFacts, symbols, p)"
| "apply_rule_sets rt facts ((trustedOrigin, ruleInBlockSet) # sets) newFacts symbols p =
     (let filteredFacts = FactSet_WithOrigin rt facts trustedOrigin in
      case apply_rules rt filteredFacts (HashSet_Iter ruleInBlockSet) newFacts symbols p of
        (Inl out, symbols', p') \<Rightarrow> (Inl out, symbols', p')
      | (Inr newFacts', symbols', p') \<Rightarrow> apply_rule_sets rt facts sets newFacts' symbols' p')"

text \<open>The body of the goroutine; its first argument is the number of iterations left.\<close>

fun run_loop :: "nat \<Rightarrow> runtime \<Rightarrow> u64 \<Rightarrow> RuleSet \<Rightarrow> FactSet \<Rightarrow> SymbolTable \<Rightarrow> nat option \<Rightarrow>
    outcome \<times> FactSet \<times> SymbolTable" where
  "run_loop 0 rt limit rules facts symbols p = (Sent (Some ErrWorldRunLimitMaxIterations), facts, symbols)"
| "run_loop (Suc i) rt limit rules facts symbols p =
     (let (stop, p1) = poll_done p in
      if stop then (Cancelled, facts, symbols)
      else case apply_rule_sets rt facts (RuleSet_Iter rt rules) [] symbols p1 of
          (Inl out, symbols', p') \<Rightarrow> (out, facts, symbols')
        | (Inr newFacts, symbols', p') \<Rightarrow>
            (let prevCount = FactSet_Count facts;
                 facts' = insert_all rt newFacts facts;
                 newCount = FactSet_Count facts'
             in if newCount \<ge> unat limit then (Sent (Some ErrWorldRunLimitMaxFacts), facts', symbols')
                else if newCount = prevCount then (Sent None, facts', symbols')
                else run_loop i rt limit rules facts' symbols' p'))"

text \<open>A context whose timeout is not positive is done from the start.\<close>

definition context_polls :: "u64 \<Rightarrow> schedule \<Rightarrow> nat option" where
  "context_polls duration sch = (if sint duration \<le> 0 then Some 0 else sch_polls sch)"

definition World_Run :: "runtime \<Rightarrow> World \<Rightarrow> SymbolTable \<Rightarrow> schedule \<Rightarrow>
    run_error option \<times> World \<times> SymbolTable" where
  "World_Run rt w symbols sch =
     (let lim = World_runLimits w;
          (out, facts, symbols') = run_loop (nat (sint (maxIterations lim))) rt (maxFacts lim)
             (World_Rules w) (World_Facts w) symbols (context_polls (maxDuration lim) sch);
          result = (case out of Cancelled \<Rightarrow> Some ErrWorldRunLimitTimeout
             | Sent err \<Rightarrow> if sch_late sch then Some ErrWorldRunLimitTimeout else err)
      in (result, w\<lparr>World_Facts := facts\<rparr>, symbols'))"

section \<open>Queries\<close>

text \<open>
  Comparing two interface values with \<^verbatim>\<open>!=\<close>: byte slices panic (\<open>None\<close>), sets are compared
  as pointers (\<open>same\<close>), the other terms by value.
\<close>

fun interface_eq :: "(Term hashset \<Rightarrow> Term hashset \<Rightarrow> bool) \<Rightarrow> Term \<Rightarrow> Term \<Rightarrow> bool option" where
  "interface_eq same (TBytes _) (TBytes _) = None"
| "interface_eq same (TSet a) (TSet b) = Some (same a b)"
| "interface_eq same a b = Some (a = b)"

fun query_terms :: "(Term hashset \<Rightarrow> Term hashset \<Rightarrow> bool) \<Rightarrow> Term list \<Rightarrow> Term list \<Rightarrow> bool option" where
  "query_terms same (fID # fs) (pID # ps) =
     (if Term_Type pID \<noteq> TermTypeVariable then
        if Term_Type fID \<noteq> Term_Type pID then Some False
        else (case interface_eq same fID pID of
            None \<Rightarrow> None
          | Some b \<Rightarrow> if \<not> b then Some False else query_terms same fs ps)
      else query_terms same fs ps)"
| "query_terms same _ _ = Some True"

definition query_fact :: "(Term hashset \<Rightarrow> Term hashset \<Rightarrow> bool) \<Rightarrow> Predicate \<Rightarrow> Fact \<Rightarrow> bool option" where
  "query_fact same pred f =
     (if pred_Name f \<noteq> pred_Name pred then Some False
      else if length (elems (pred_Terms f)) \<noteq> length (elems (pred_Terms pred)) then Some False
      else query_terms same (elems (pred_Terms f)) (elems (pred_Terms pred)))"

fun query_loop :: "runtime \<Rightarrow> (Term hashset \<Rightarrow> Term hashset \<Rightarrow> bool) \<Rightarrow> Predicate \<Rightarrow> (Origin \<times> Fact) list \<Rightarrow>
    FactSet \<Rightarrow> FactSet option" where
  "query_loop rt same pred [] res = Some res"
| "query_loop rt same pred ((origin, f) # rest) res = (case query_fact same pred f of
     None \<Rightarrow> None
   | Some matches \<Rightarrow> query_loop rt same pred rest (if matches then FactSet_Insert rt res origin f else res))"

definition World_Query :: "runtime \<Rightarrow> (Term hashset \<Rightarrow> Term hashset \<Rightarrow> bool) \<Rightarrow> World \<Rightarrow> Predicate \<Rightarrow> FactSet option" where
  "World_Query rt same w pred = query_loop rt same pred
     (concat (map (\<lambda>(origin, factSet). map (Pair origin) (HashSet_Iter factSet)) (FactSet_Iter rt (World_Facts w)))) []"

definition World_QueryRule :: "runtime \<Rightarrow> World \<Rightarrow> Rule \<Rightarrow> TrustedOrigin \<Rightarrow> SymbolTable \<Rightarrow>
    (apply_error + FactSet) \<times> SymbolTable" where
  "World_QueryRule rt w rule trustedOrigin symbols =
     Rule_Apply rt rule AuthorizerBlockID (FactSet_WithOrigin rt (World_Facts w) trustedOrigin) symbols"

section \<open>The specification: the least model\<close>

text \<open>A rule: the blocks it trusts, its own block, and the rule.\<close>

type_synonym ruleset = "(BlockID set \<times> BlockID \<times> Rule) set"
type_synonym relation = "(BlockID set \<times> Fact) set"

definition trusting :: "BlockID set \<Rightarrow> relation \<Rightarrow> relation" where
  "trusting T R = {(B, f) \<in> R. B \<subseteq> T}"

definition consequences :: "runtime \<Rightarrow> ruleset \<Rightarrow> SymbolTable \<Rightarrow> relation \<Rightarrow> relation" where
  "consequences rt RS symbols R = (\<Union>(T, b, r) \<in> RS. rule_derives rt b r (trusting T R) symbols)"

definition model :: "runtime \<Rightarrow> ruleset \<Rightarrow> SymbolTable \<Rightarrow> relation \<Rightarrow> relation" where
  "model rt RS symbols R0 = lfp (\<lambda>X. R0 \<union> consequences rt RS symbols X)"

lemma body_match_mono: "R \<subseteq> R' \<Longrightarrow> body_match R body \<sigma> B \<Longrightarrow> body_match R' body \<sigma> B"
  unfolding body_match_def by (elim exE conjE, intro exI conjI) (erule list_all2_mono, blast, assumption)

lemma rule_derives_mono: "R \<subseteq> R' \<Longrightarrow> rule_derives rt b r R symbols \<subseteq> rule_derives rt b r R' symbols"
  unfolding rule_derives_def by (intro Collect_mono impI) (elim exE conjE, intro exI conjI, auto intro: body_match_mono)

lemma trusting_mono: "R \<subseteq> R' \<Longrightarrow> trusting T R \<subseteq> trusting T R'"
  by (auto simp: trusting_def)

lemma consequences_mono: "R \<subseteq> R' \<Longrightarrow> consequences rt RS symbols R \<subseteq> consequences rt RS symbols R'"
  unfolding consequences_def by (intro UN_mono subset_refl) (auto dest: subsetD[OF rule_derives_mono[OF trusting_mono]])

lemma model_unfold: "model rt RS symbols R0 = R0 \<union> consequences rt RS symbols (model rt RS symbols R0)"
  unfolding model_def
  by (rule lfp_unfold) (intro monoI Un_mono subset_refl consequences_mono)

lemma model_least: "R0 \<subseteq> X \<Longrightarrow> consequences rt RS symbols X \<subseteq> X \<Longrightarrow> model rt RS symbols R0 \<subseteq> X"
  unfolding model_def by (rule lfp_lowerbound) simp

lemma model_closed:
  shows "R0 \<subseteq> model rt RS symbols R0"
    and "R \<subseteq> model rt RS symbols R0 \<Longrightarrow> consequences rt RS symbols R \<subseteq> model rt RS symbols R0"
  using model_unfold[of rt RS symbols R0] consequences_mono[of R "model rt RS symbols R0" rt RS symbols] by auto

text \<open>What a body match uses lies inside the origin it yields.\<close>

lemma body_match_within: "body_match R body \<sigma> B \<Longrightarrow> B \<subseteq> S \<Longrightarrow> body_match (trusting S R) body \<sigma> B"
proof -
  assume "body_match R body \<sigma> B" "B \<subseteq> S"
  then obtain Bs where Bs: "list_all2 (\<lambda>b p. (b, subst_pred \<sigma> p) \<in> R) Bs body" "B = \<Union> (set Bs)"
    by (auto simp: body_match_def)
  have "list_all2 (\<lambda>b p. (b, subst_pred \<sigma> p) \<in> trusting S R) Bs body"
    using Bs(1)
  proof (rule list.rel_mono_strong)
    fix b p assume "b \<in> set Bs" "p \<in> set body" "(b, subst_pred \<sigma> p) \<in> R"
    then show "(b, subst_pred \<sigma> p) \<in> trusting S R" using Bs(2) \<open>B \<subseteq> S\<close> by (auto simp: trusting_def)
  qed
  then show ?thesis using Bs(2) by (auto simp: body_match_def)
qed

lemma body_match_bound: "body_match (trusting T R) body \<sigma> B \<Longrightarrow> B \<subseteq> T"
  unfolding body_match_def by (auto simp: trusting_def dest!: list_all2_left)

text \<open>Isolation: what lies inside a set of blocks depends on the facts and rules of these blocks only.\<close>

lemma model_trusting:
  "trusting S (model rt RS symbols R0) =
   model rt {(T, b, r) \<in> RS. b \<in> S} symbols (trusting S R0)" (is "?l = ?m")
proof
  let ?M = "model rt RS symbols R0" and ?X = "{x. fst x \<subseteq> S \<longrightarrow> x \<in> ?m}"
  have "consequences rt RS symbols ?X \<subseteq> ?X"
  proof (intro subsetI CollectI impI)
    fix x assume x: "x \<in> consequences rt RS symbols ?X" "fst x \<subseteq> S"
    from x(1) obtain T b r \<sigma> B where r: "(T, b, r) \<in> RS" "x = (insert b B, subst_pred \<sigma> (rule_Head r))"
      "body_match (trusting T ?X) (elems (rule_Body r)) \<sigma> B"
      "all_true rt (elems (rule_Expressions r)) (env (elems (rule_Body r)) \<sigma>) symbols"
      unfolding consequences_def rule_derives_def by blast
    have S: "b \<in> S" "B \<subseteq> S" using r(2) x(2) by simp_all
    have sub: "trusting S (trusting T ?X) \<subseteq> trusting T ?m" by (auto simp: trusting_def)
    have "body_match (trusting T ?m) (elems (rule_Body r)) \<sigma> B"
      by (rule body_match_mono[OF sub body_match_within[OF r(3) S(2)]])
    then have "x \<in> rule_derives rt b r (trusting T ?m) symbols"
      unfolding rule_derives_def using r by blast
    then have "x \<in> consequences rt {(T, b, r) \<in> RS. b \<in> S} symbols ?m"
      unfolding consequences_def using r(1) S(1) by blast
    then show "x \<in> ?m" using model_closed(2)[OF subset_refl] by blast
  qed
  moreover have "R0 \<subseteq> ?X"
  proof (intro subsetI CollectI impI)
    fix x assume "x \<in> R0" "fst x \<subseteq> S"
    then have "x \<in> trusting S R0" by (auto simp: trusting_def)
    then show "x \<in> ?m" by (rule subsetD[OF model_closed(1)])
  qed
  ultimately have M: "?M \<subseteq> ?X" by (rule model_least[rotated])
  show "?l \<subseteq> ?m"
  proof
    fix x assume "x \<in> ?l"
    then have "x \<in> ?M" "fst x \<subseteq> S" by (auto simp: trusting_def)
    then show "x \<in> ?m" using M by blast
  qed
next
  let ?M = "model rt RS symbols R0"
  have "consequences rt {(T, b, r) \<in> RS. b \<in> S} symbols ?l \<subseteq> ?l"
  proof clarify
    fix B' f assume "(B', f) \<in> consequences rt {(T, b, r) \<in> RS. b \<in> S} symbols ?l"
    then obtain T b r where r: "(T, b, r) \<in> RS" "b \<in> S" "(B', f) \<in> rule_derives rt b r (trusting T ?l) symbols"
      unfolding consequences_def by blast
    have "B' \<subseteq> S"
    proof -
      obtain \<sigma> B where "B' = insert b B" "body_match (trusting T ?l) (elems (rule_Body r)) \<sigma> B"
        using r(3) unfolding rule_derives_def by blast
      moreover have "trusting T ?l \<subseteq> trusting S ?M" by (auto simp: trusting_def)
      ultimately show ?thesis using body_match_bound[OF body_match_mono] r(2) by blast
    qed
    moreover have "trusting T ?l \<subseteq> trusting T ?M" by (auto simp: trusting_def)
    then have "(B', f) \<in> consequences rt RS symbols ?M"
      unfolding consequences_def using r(1,3) rule_derives_mono[of "trusting T ?l" "trusting T ?M" rt b r symbols] by blast
    then have "(B', f) \<in> ?M" using model_closed(2)[OF subset_refl] by blast
    ultimately show "(B', f) \<in> ?l" by (simp add: trusting_def)
  qed
  moreover have "trusting S R0 \<subseteq> ?l" by (rule trusting_mono[OF model_closed(1)])
  ultimately show "?m \<subseteq> ?l" by (rule model_least[rotated])
qed

section \<open>The loops of the goroutine\<close>

lemma insert_all_spec:
  assumes "facts_ground rt src" "facts_ground rt dst"
  shows "facts_ground rt (insert_all rt src dst) \<and> facts_of rt (insert_all rt src dst) = facts_of rt dst \<union> facts_of rt src"
proof -
  have inv: "facts_inv rt src" using assms(1) by (simp add: facts_ground_def)
  have rel: "facts_of rt src = (\<Union>(o1, s) \<in> set (FactSet_Iter rt src). {hs_set o1} \<times> hs_set s)"
    unfolding facts_of_Iter[OF inv] by blast
  have "facts_inv rt (fold (\<lambda>(origin, facts) acc. FactSet_InsertMulti rt acc origin (HashSet_Iter facts)) xs acc) \<and>
      facts_of rt (fold (\<lambda>(origin, facts) acc. FactSet_InsertMulti rt acc origin (HashSet_Iter facts)) xs acc) =
      facts_of rt acc \<union> (\<Union>(o1, s) \<in> set xs. {hs_set o1} \<times> hs_set s)"
    if "set xs \<subseteq> set (FactSet_Iter rt src)" "facts_inv rt acc" for xs acc
    using that
  proof (induction xs arbitrary: acc)
    case (Cons x xs)
    obtain o1 s where x: "x = (o1, s)" by fastforce
    then have "(o1, s) \<in> set (FactSet_Iter rt src)" using Cons.prems(1) by simp
    from in_FactSet_Iter[OF inv this]
    have o1: "origin_ok rt o1" "hs_set o1 \<noteq> {}" "\<forall>f \<in> set (HashSet_Iter s). pred_atomic f"
      by (blast intro: hs_inv_ok)+
    note i = FactSet_InsertMulti_spec[OF Cons.prems(2) o1]
    show ?case using Cons.IH[OF _ i(1)] Cons.prems(1) i(2) by (auto simp: x)
  qed simp
  from this[OF subset_refl] show ?thesis
    using assms(2) assms(1) unfolding rel insert_all_def facts_ground_def by auto
qed

lemma valid_loop_pure:
  "exprs_pure es \<Longrightarrow> snd (valid_matches_loop rt es consumer ms acc symbols) = symbols"
proof (induction ms arbitrary: acc)
  case (Cons q ms)
  show ?case
    using Cons by (cases rule: hold_pure_cases[OF Cons.prems, of rt "snd q" symbols]) (auto split: sum.splits)
qed simp

lemma Rule_Apply_pure:
  assumes "exprs_pure (elems (rule_Expressions r))" "Rule_Apply rt r b fs symbols = (res, symbols')"
  shows "symbols' = symbols"
proof -
  have "snd (Rule_Apply rt r b fs symbols) = symbols"
    using valid_loop_pure[OF assms(1)]
    by (auto simp: Rule_Apply_def getNewFacts_def getValidMatches_def newEvaluator_def split: option.splits)
  then show ?thesis by (simp add: assms(2))
qed

text \<open>The step a rule of the rule set makes, and rules for which it is known.\<close>

abbreviation rib_derives :: "runtime \<Rightarrow> relation \<Rightarrow> SymbolTable \<Rightarrow> RuleInBlock \<Rightarrow> relation" where
  "rib_derives rt R symbols rib \<equiv> rule_derives rt (rib_BlockID rib) (rib_Rule rib) R symbols"

definition rule_plain :: "Rule \<Rightarrow> bool" where
  "rule_plain r \<longleftrightarrow> head_atomic r \<and> exprs_pure (elems (rule_Expressions r))"

lemma apply_rules_spec:
  assumes "facts_ground rt fs" "\<forall>rib \<in> set ribs. rule_plain (rib_Rule rib)" "facts_ground rt new"
    and "apply_rules rt fs ribs new symbols p = (Inr new', symbols', p')"
  shows "symbols' = symbols \<and> facts_ground rt new' \<and>
    facts_of rt new' = facts_of rt new \<union> (\<Union>rib \<in> set ribs. rib_derives rt (facts_of rt fs) symbols rib)"
  using assms(2-)
proof (induction ribs arbitrary: new p)
  case (Cons rib ribs)
  let ?r = "rib_Rule rib" and ?b = "rib_BlockID rib"
  obtain p1 where p1: "poll_done p = (False, p1)"
    using Cons.prems(3) by (cases "poll_done p") (auto split: if_splits)
  obtain res s1 where r: "Rule_Apply rt ?r ?b fs symbols = (res, s1)" by fastforce
  have plain: "head_atomic ?r" "exprs_pure (elems (rule_Expressions ?r))"
    using Cons.prems(1) by (simp_all add: rule_plain_def)
  show ?case
  proof (cases res)
    case (Inl e)
    then show ?thesis using Cons.prems(3) r p1 by (simp add: RuleInBlock_Apply_def)
  next
    case (Inr out)
    then have out: "Rule_Apply rt ?r ?b fs symbols = (Inr out, s1)" using r by simp
    note x = Rule_Apply_exact_facts[OF assms(1) plain out]
    have s1: "s1 = symbols" by (rule Rule_Apply_pure[OF plain(2) r])
    note i = insert_all_spec[OF Rule_Apply_sound_facts(1)[OF assms(1) plain(1) out] Cons.prems(2)]
    have "apply_rules rt fs ribs (insert_all rt out new) symbols p1 = (Inr new', symbols', p')"
      using Cons.prems(3) out p1 s1 by (simp add: RuleInBlock_Apply_def)
    from Cons.IH[OF _ _ this] show ?thesis using Cons.prems(1) i x by auto
  qed
qed simp

lemma apply_rule_sets_spec:
  assumes "facts_ground rt fs" "\<forall>(to, s) \<in> set sets. origin_ok rt to \<and> (\<forall>rib \<in> hs_set s. rule_plain (rib_Rule rib))"
    and "facts_ground rt new" and "apply_rule_sets rt fs sets new symbols p = (Inr new', symbols', p')"
  shows "symbols' = symbols \<and> facts_ground rt new' \<and>
    facts_of rt new' = facts_of rt new \<union>
      (\<Union>(to, s) \<in> set sets. \<Union>rib \<in> hs_set s. rib_derives rt (trusting (hs_set to) (facts_of rt fs)) symbols rib)"
  using assms(2-)
proof (induction sets arbitrary: new symbols p)
  case (Cons ts sets)
  obtain to s where ts: "ts = (to, s)" by fastforce
  have ok: "origin_ok rt to" "\<forall>rib \<in> hs_set s. rule_plain (rib_Rule rib)" using Cons.prems(1) ts by auto
  let ?gs = "FactSet_WithOrigin rt fs to"
  have gs: "facts_ground rt ?gs" "facts_of rt ?gs = trusting (hs_set to) (facts_of rt fs)"
    using WithOrigin_spec[OF _ ok(1), of fs] assms(1) by (auto simp: facts_ground_def trusting_def)
  obtain new1 s1 p1 where a: "apply_rules rt ?gs (HashSet_Iter s) new symbols p = (Inr new1, s1, p1)"
    "apply_rule_sets rt fs sets new1 s1 p1 = (Inr new', symbols', p')"
    using Cons.prems(3) ts by (auto split: prod.splits sum.splits)
  note r = apply_rules_spec[OF gs(1) _ Cons.prems(2) a(1)]
  have "symbols' = s1 \<and> facts_ground rt new' \<and> facts_of rt new' = facts_of rt new1 \<union>
      (\<Union>(to, s) \<in> set sets. \<Union>rib \<in> hs_set s. rib_derives rt (trusting (hs_set to) (facts_of rt fs)) s1 rib)"
    by (rule Cons.IH[OF _ _ a(2)]) (use r ok Cons.prems(1) in auto)
  then show ?case using r ok gs(2) by (auto simp: ts)
qed simp

text \<open>The rule sets the loop goes through, as the relation of the specification.\<close>

definition rules_plain :: "runtime \<Rightarrow> RuleSet \<Rightarrow> bool" where
  "rules_plain rt rs \<longleftrightarrow> rules_inv rt rs \<and> (\<forall>(T, b, r) \<in> rules_of rt rs. rule_plain r)"

lemma rule_plain_norm [simp]: "rule_plain (rule_norm r) = rule_plain r"
  by (simp add: rule_plain_def rule_norm_def head_atomic_def)

lemma rule_derives_norm [simp]: "rule_derives rt b (rule_norm r) = rule_derives rt b r"
  by (simp add: rule_derives_def rule_norm_def fun_eq_iff)

lemma Iter_mem:
  assumes "rules_inv rt rs" "(to, s) \<in> set (RuleSet_Iter rt rs)" "rib \<in> hs_set s"
  shows "(hs_set to, rib_BlockID rib, rule_norm (rib_Rule rib)) \<in> rules_of rt rs"
proof -
  have "(hs_set to, rib_norm rib) \<in> rules_of rt rs"
    unfolding keyed_rel_iter[OF assms(1)] using assms(2,3) unfolding RuleSet_Iter_keyed by blast
  then show ?thesis by (simp add: rib_norm_def)
qed

lemma Iter_rules:
  assumes "rules_plain rt rs"
  shows "\<forall>(to, s) \<in> set (RuleSet_Iter rt rs). origin_ok rt to \<and> (\<forall>rib \<in> hs_set s. rule_plain (rib_Rule rib))"
    and "(\<Union>(to, s) \<in> set (RuleSet_Iter rt rs). \<Union>rib \<in> hs_set s. rib_derives rt (trusting (hs_set to) R) symbols rib) =
      consequences rt (rules_of rt rs) symbols R"
proof -
  have inv: "rules_inv rt rs" using assms by (simp add: rules_plain_def)
  note it = in_keyed_iter[OF inv, folded RuleSet_Iter_keyed]
  have rel: "rules_of rt rs = (\<Union>(to, s) \<in> set (RuleSet_Iter rt rs). {hs_set to} \<times> rib_norm ` hs_set s)"
    unfolding keyed_rel_iter[OF inv] RuleSet_Iter_keyed by blast
  have "rule_plain (rib_Rule rib)" if "(to, s) \<in> set (RuleSet_Iter rt rs)" "rib \<in> hs_set s" for to s rib
    using Iter_mem[OF inv that] assms by (auto simp: rules_plain_def)
  then show "\<forall>(to, s) \<in> set (RuleSet_Iter rt rs). origin_ok rt to \<and> (\<forall>rib \<in> hs_set s. rule_plain (rib_Rule rib))"
    using it by blast
  have one: "(\<Union>(T, b, r) \<in> {hs_set to} \<times> rib_norm ` hs_set s. rule_derives rt b r (trusting T R) symbols) =
      (\<Union>rib \<in> hs_set s. rib_derives rt (trusting (hs_set to) R) symbols rib)" for to :: TrustedOrigin and s
  proof -
    have "{hs_set to} \<times> rib_norm ` hs_set s = (\<lambda>rib. (hs_set to, rib_norm rib)) ` hs_set s" by blast
    then show ?thesis by (simp add: rib_norm_def)
  qed
  show "(\<Union>(to, s) \<in> set (RuleSet_Iter rt rs). \<Union>rib \<in> hs_set s. rib_derives rt (trusting (hs_set to) R) symbols rib) =
      consequences rt (rules_of rt rs) symbols R"
    unfolding consequences_def rel UN_UN_flatten one[symmetric] by (rule SUP_cong) auto
qed

lemma Iteration:
  assumes "facts_ground rt fs" "rules_plain rt rs"
    and "apply_rule_sets rt fs (RuleSet_Iter rt rs) [] symbols p = (Inr new, symbols', p')"
  shows "symbols' = symbols" and "facts_ground rt (insert_all rt new fs)"
    and "facts_of rt (insert_all rt new fs) = facts_of rt fs \<union> consequences rt (rules_of rt rs) symbols (facts_of rt fs)"
    and "FactSet_Count (insert_all rt new fs) = FactSet_Count fs \<Longrightarrow>
      consequences rt (rules_of rt rs) symbols (facts_of rt fs) \<subseteq> facts_of rt fs"
proof -
  have nil: "facts_ground rt []" by (simp add: facts_ground_def)
  note s = apply_rule_sets_spec[OF assms(1) Iter_rules(1)[OF assms(2)] nil assms(3), unfolded Iter_rules(2)[OF assms(2)]]
  then show "symbols' = symbols" by simp
  have g: "facts_ground rt new" using s by simp
  note i = insert_all_spec[OF g assms(1)]
  then show "facts_ground rt (insert_all rt new fs)" by simp
  show eq: "facts_of rt (insert_all rt new fs) = facts_of rt fs \<union> consequences rt (rules_of rt rs) symbols (facts_of rt fs)"
    using i s by simp
  assume c: "FactSet_Count (insert_all rt new fs) = FactSet_Count fs"
  have "finite (facts_of rt (insert_all rt new fs))" "card (facts_of rt (insert_all rt new fs)) = card (facts_of rt fs)"
    using c i assms(1) FactSet_Count_card[of rt fs] FactSet_Count_card[of rt "insert_all rt new fs"]
    by (simp_all add: facts_ground_def)
  then have "facts_of rt fs = facts_of rt (insert_all rt new fs)"
    by (intro card_subset_eq) (auto simp: eq)
  then show "consequences rt (rules_of rt rs) symbols (facts_of rt fs) \<subseteq> facts_of rt fs"
    unfolding eq by blast
qed

lemma run_loop_sound:
  assumes "facts_ground rt fs" "rules_plain rt rs" "facts_of rt fs \<subseteq> model rt (rules_of rt rs) symbols R0"
    and "run_loop n rt limit rs fs symbols p = (out, fs', symbols')"
  shows "facts_ground rt fs' \<and> facts_of rt fs \<subseteq> facts_of rt fs' \<and>
    facts_of rt fs' \<subseteq> model rt (rules_of rt rs) symbols R0 \<and>
    (out = Sent None \<longrightarrow> symbols' = symbols \<and> card (facts_of rt fs') < unat limit \<and>
       consequences rt (rules_of rt rs) symbols (facts_of rt fs') \<subseteq> facts_of rt fs')"
  using assms(1,3,4)
proof (induction n arbitrary: fs p)
  case (Suc n)
  let ?M = "model rt (rules_of rt rs) symbols R0"
  obtain p1 where p: "poll_done p = (True, p1) \<or> poll_done p = (False, p1)" by (cases "poll_done p") auto
  show ?case
  proof (cases "\<exists>o1 s1 p2. poll_done p = (True, p1) \<or> apply_rule_sets rt fs (RuleSet_Iter rt rs) [] symbols p1 = (Inl o1, s1, p2)")
    case True
    have "o1 \<noteq> Sent None" if "apply_rules rt gs ribs new s p = (Inl o1, s', p')" for gs ribs new s p s' p' o1
      using that by (induction ribs arbitrary: new s p) (auto split: prod.splits sum.splits if_splits)
    then have "o1 \<noteq> Sent None" if "apply_rule_sets rt fs sets new s p = (Inl o1, s', p')" for sets new s p s' p' o1
      using that
    proof (induction sets arbitrary: new s p)
      case (Cons ts sets)
      then show ?case by (cases ts) (auto split: prod.splits sum.splits)
    qed simp
    then have "fs' = fs \<and> out \<noteq> Sent None" using True p Suc.prems(3) by auto
    then show ?thesis using Suc.prems by simp
  next
    case False
    then obtain new s1 p2 where a: "apply_rule_sets rt fs (RuleSet_Iter rt rs) [] symbols p1 = (Inr new, s1, p2)"
      and p: "poll_done p = (False, p1)"
      using p by (cases "apply_rule_sets rt fs (RuleSet_Iter rt rs) [] symbols p1") (auto, metis sum.exhaust)
    let ?fs1 = "insert_all rt new fs"
    note it = Iteration[OF Suc.prems(1) assms(2) a]
    have M: "facts_of rt ?fs1 \<subseteq> ?M" unfolding it(3) using Suc.prems(2) model_closed(2)[OF Suc.prems(2)] by blast
    have run: "(if FactSet_Count ?fs1 \<ge> unat limit then (Sent (Some ErrWorldRunLimitMaxFacts), ?fs1, symbols)
        else if FactSet_Count ?fs1 = FactSet_Count fs then (Sent None, ?fs1, symbols)
        else run_loop n rt limit rs ?fs1 symbols p2) = (out, fs', symbols')"
      using Suc.prems(3) a p it(1) by (simp add: Let_def)
    show ?thesis
    proof (cases "FactSet_Count ?fs1 \<ge> unat limit")
      case True
      then show ?thesis using run it M by auto
    next
      case small: False
      show ?thesis
      proof (cases "FactSet_Count ?fs1 = FactSet_Count fs")
        case True
        then have "facts_of rt ?fs1 = facts_of rt fs" using it(3,4) by blast
        then show ?thesis using run small True it M FactSet_Count_card[of rt ?fs1]
          by (auto simp: facts_ground_def)
      next
        case False
        then have "run_loop n rt limit rs ?fs1 symbols p2 = (out, fs', symbols')" using run small by simp
        from Suc.IH[OF it(2) M this] show ?thesis using it(3) by blast
      qed
    qed
  qed
qed auto

lemma World_Run_loop:
  assumes "World_Run rt w symbols sch = (res, w', symbols')"
  obtains out where "run_loop (nat (sint (maxIterations (World_runLimits w)))) rt (maxFacts (World_runLimits w))
      (World_Rules w) (World_Facts w) symbols (context_polls (maxDuration (World_runLimits w)) sch) =
      (out, World_Facts w', symbols')" "w' = w\<lparr>World_Facts := World_Facts w'\<rparr>" "res = None \<Longrightarrow> out = Sent None"
proof -
  obtain out fs' s1 where r: "run_loop (nat (sint (maxIterations (World_runLimits w)))) rt (maxFacts (World_runLimits w))
      (World_Rules w) (World_Facts w) symbols (context_polls (maxDuration (World_runLimits w)) sch) = (out, fs', s1)"
    by (metis prod_cases3)
  then have "w' = w\<lparr>World_Facts := fs'\<rparr>" "symbols' = s1" "res = None \<Longrightarrow> out = Sent None"
    using assms by (auto simp: World_Run_def Let_def split: outcome.splits if_splits)
  with r show ?thesis by (intro that[of out]) simp_all
qed

text \<open>A successful run computes the least model.\<close>

lemma World_Run_model:
  assumes "facts_ground rt (World_Facts w)" "rules_plain rt (World_Rules w)"
    and "World_Run rt w symbols sch = (None, w', symbols')"
  shows "facts_of rt (World_Facts w') = model rt (rules_of rt (World_Rules w)) symbols (facts_of rt (World_Facts w)) \<and>
    card (facts_of rt (World_Facts w')) < unat (maxFacts (World_runLimits w)) \<and>
    w' = w\<lparr>World_Facts := World_Facts w'\<rparr> \<and> symbols' = symbols \<and> facts_ground rt (World_Facts w')"
proof -
  obtain out where r: "run_loop (nat (sint (maxIterations (World_runLimits w)))) rt (maxFacts (World_runLimits w))
      (World_Rules w) (World_Facts w) symbols (context_polls (maxDuration (World_runLimits w)) sch) =
      (out, World_Facts w', symbols')" "w' = w\<lparr>World_Facts := World_Facts w'\<rparr>" "out = Sent None"
    using World_Run_loop[OF assms(3)] by blast
  note s = run_loop_sound[OF assms(1,2) model_closed(1) r(1)]
  have "model rt (rules_of rt (World_Rules w)) symbols (facts_of rt (World_Facts w)) \<subseteq> facts_of rt (World_Facts w')"
    by (rule model_least) (use s r(3) in auto)
  then show ?thesis using s r by auto
qed

text \<open>
  C4: a run that ends without an error has computed the meaning of the token: the facts of
  the world are exactly the least set that holds the given facts and is closed under the
  rules, each reading only facts of blocks it trusts; their number is below the limit, and
  rules, limits and symbol table are as before. (Expressions without string concatenation.)
\<close>

theorem World_Run_least_model:
  assumes "facts_ground rt (World_Facts w)" and "rules_plain rt (World_Rules w)"
    and "World_Run rt w symbols sch = (None, w', symbols')"
  shows "facts_of rt (World_Facts w') = model rt (rules_of rt (World_Rules w)) symbols (facts_of rt (World_Facts w)) \<and>
    card (facts_of rt (World_Facts w')) < unat (maxFacts (World_runLimits w)) \<and>
    w' = w\<lparr>World_Facts := World_Facts w'\<rparr> \<and> symbols' = symbols"
  using World_Run_model[OF assms] by blast

text \<open>
  C17: whatever stops a run, a limit, the deadline or a failing rule, no fact is lost and
  none appears that the rules do not derive.
\<close>

theorem World_Run_sound:
  assumes "facts_ground rt (World_Facts w)" and "rules_plain rt (World_Rules w)"
    and "World_Run rt w symbols sch = (res, w', symbols')"
  shows "facts_of rt (World_Facts w) \<subseteq> facts_of rt (World_Facts w') \<and>
    facts_of rt (World_Facts w') \<subseteq> model rt (rules_of rt (World_Rules w)) symbols (facts_of rt (World_Facts w)) \<and>
    facts_ground rt (World_Facts w')"
  by (rule World_Run_loop[OF assms(3)]) (use run_loop_sound[OF assms(1,2) model_closed(1)] in blast)

text \<open>
  C5: isolation. Two worlds that agree on the facts and rules of a set of blocks agree, after
  successful runs, on every fact that comes from these blocks alone: no fact or rule of
  another block can add or remove one of them.
\<close>

theorem World_Run_isolation:
  assumes "facts_ground rt (World_Facts w)" and "rules_plain rt (World_Rules w)"
    and "facts_ground rt (World_Facts v)" and "rules_plain rt (World_Rules v)"
    and "{(B, f) \<in> facts_of rt (World_Facts w). B \<subseteq> S} = {(B, f) \<in> facts_of rt (World_Facts v). B \<subseteq> S}"
    and "{(T, b, r) \<in> rules_of rt (World_Rules w). b \<in> S} = {(T, b, r) \<in> rules_of rt (World_Rules v). b \<in> S}"
    and "World_Run rt w symbols sch = (None, w', symbols')" and "World_Run rt v symbols sch2 = (None, v', symbols2)"
  shows "{(B, f) \<in> facts_of rt (World_Facts w'). B \<subseteq> S} = {(B, f) \<in> facts_of rt (World_Facts v'). B \<subseteq> S}"
proof -
  have run: "{(B, f) \<in> facts_of rt (World_Facts u'). B \<subseteq> S} =
      model rt {(T, b, r) \<in> rules_of rt (World_Rules u). b \<in> S} symbols {(B, f) \<in> facts_of rt (World_Facts u). B \<subseteq> S}"
    if u: "facts_ground rt (World_Facts u)" "rules_plain rt (World_Rules u)" "World_Run rt u symbols s = (None, u', s2)"
    for u u' s s2
    using World_Run_model[OF u] model_trusting[of S rt "rules_of rt (World_Rules u)" symbols "facts_of rt (World_Facts u)"]
    by (simp add: trusting_def)
  show ?thesis unfolding run[OF assms(1,2,7)] run[OF assms(3,4,8)] assms(5,6) ..
qed

section \<open>Termination with a result\<close>

definition rule_safe :: "Rule \<Rightarrow> bool" where
  "rule_safe r \<longleftrightarrow> pred_vars (rule_Head r) \<subseteq> vars_of (elems (rule_Body r))"

text \<open>Safe rules build facts from the terms at hand: the least model is finite.\<close>

lemma model_finite:
  assumes fin: "finite RS" "finite R0" and safe: "\<forall>(T, b, r) \<in> RS. rule_safe r"
  shows "finite (model rt RS symbols R0)"
proof -
  define heads where "heads = (\<lambda>(T, b, r). rule_Head r) ` RS"
  define D where "D = (\<Union>p \<in> snd ` R0 \<union> heads. set (elems (pred_Terms p)))"
  define L where "L = {ts. set ts \<subseteq> D \<and> length ts \<le> Max ((\<lambda>p. length (elems (pred_Terms p))) ` heads)}"
  define P where "P = (\<lambda>(n, ts). \<lparr>pred_Name = n, pred_Terms = Some ts\<rparr>) ` (pred_Name ` heads \<times> L)"
  define Bs where "Bs = \<Union> (fst ` R0) \<union> (fst \<circ> snd) ` RS"
  let ?X = "R0 \<union> Pow Bs \<times> P"
  have h: "finite heads" "finite D" using fin by (simp_all add: heads_def D_def)
  have DX: "set (elems (pred_Terms (snd x))) \<subseteq> D" "fst x \<subseteq> \<Union> (fst ` R0) \<union> Bs" if "x \<in> ?X" for x
    using that by (auto simp: D_def P_def L_def)
  have "consequences rt RS symbols ?X \<subseteq> ?X"
  proof
    fix x assume "x \<in> consequences rt RS symbols ?X"
    then obtain T b r \<sigma> B where r: "(T, b, r) \<in> RS" "x = (insert b B, subst_pred \<sigma> (rule_Head r))"
      "body_match (trusting T ?X) (elems (rule_Body r)) \<sigma> B"
      unfolding consequences_def rule_derives_def by blast
    then obtain Bl where Bl: "list_all2 (\<lambda>b p. (b, subst_pred \<sigma> p) \<in> trusting T ?X) Bl (elems (rule_Body r))" "B = \<Union> (set Bl)"
      unfolding body_match_def by blast
    have mem: "\<exists>b. (b, subst_pred \<sigma> p) \<in> ?X" if "p \<in> set (elems (rule_Body r))" for p
      using list_all2_right[OF Bl(1) that] by (auto simp: trusting_def)
    have "B' \<subseteq> Bs" if "B' \<in> set Bl" for B'
      using list_all2_left[OF Bl(1) that] DX(2) by (auto simp: trusting_def Bs_def)
    moreover have "b \<in> Bs" unfolding Bs_def using r(1) by force
    ultimately have blocks: "insert b B \<subseteq> Bs" using Bl(2) by blast
    have "subst_term \<sigma> t \<in> D" if t: "t \<in> set (elems (pred_Terms (rule_Head r)))" for t
    proof (cases "\<exists>v. t = TVariable v")
      case True
      then obtain v where v: "t = TVariable v" by blast
      then have "v \<in> pred_vars (rule_Head r)" using t by (simp add: pred_vars_def)
      moreover have "rule_safe r" using bspec[OF safe r(1)] by simp
      ultimately have "v \<in> vars_of (elems (rule_Body r))" unfolding rule_safe_def by blast
      then obtain p where p: "p \<in> set (elems (rule_Body r))" "TVariable v \<in> set (elems (pred_Terms p))"
        unfolding pred_vars_def by blast
      obtain b where "(b, subst_pred \<sigma> p) \<in> ?X" using mem[OF p(1)] by blast
      from DX(1)[OF this] p(2) show ?thesis by (auto simp: subst_pred_def v simp del: subst_term.simps)
    next
      case False
      then have "subst_term \<sigma> t = t" by (cases t) auto
      then show ?thesis using t r(1) unfolding D_def heads_def by force
    qed
    moreover have hd: "rule_Head r \<in> heads" unfolding heads_def using r(1) by force
    then have "length (elems (pred_Terms (rule_Head r))) \<le> Max ((\<lambda>p. length (elems (pred_Terms p))) ` heads)"
      using h(1) by simp
    ultimately have "map (subst_term \<sigma>) (elems (pred_Terms (rule_Head r))) \<in> L" by (auto simp: L_def)
    then have "subst_pred \<sigma> (rule_Head r) \<in> P"
      unfolding P_def subst_pred_def using hd by (intro image_eqI[of _ _ "(pred_Name (rule_Head r), _)"]) auto
    then show "x \<in> ?X" using r(2) blocks by blast
  qed
  then have "model rt RS symbols R0 \<subseteq> ?X" by (intro model_least) auto
  moreover have "finite L" unfolding L_def by (rule finite_lists_length_le[OF h(2)])
  then have "finite ?X" using h(1) fin(2) by (simp add: P_def)
  ultimately show ?thesis by (rule finite_subset)
qed

definition rules_safe :: "runtime \<Rightarrow> RuleSet \<Rightarrow> bool" where
  "rules_safe rt rs \<longleftrightarrow> rules_inv rt rs \<and>
     (\<forall>(T, b, r) \<in> rules_of rt rs. head_atomic r \<and> rule_safe r \<and> elems (rule_Expressions r) = [])"

lemma rules_safe_plain: "rules_safe rt rs \<Longrightarrow> rules_plain rt rs"
  by (auto simp: rules_safe_def rules_plain_def rule_plain_def exprs_pure_def)

lemma apply_rules_returns:
  assumes "facts_ground rt fs" "\<forall>rib \<in> set ribs. rule_safe (rib_Rule rib) \<and> elems (rule_Expressions (rib_Rule rib)) = []"
  shows "\<exists>new' symbols'. apply_rules rt fs ribs new symbols None = (Inr new', symbols', None)"
  using assms(2)
proof (induction ribs arbitrary: new symbols)
  case (Cons rib ribs)
  obtain out s1 where "Rule_Apply rt (rib_Rule rib) (rib_BlockID rib) fs symbols = (Inr out, s1)"
    using Rule_Apply_returns[OF assms(1), of "rib_Rule rib" "rib_BlockID rib" symbols] Cons.prems by (auto simp: rule_safe_def)
  then show ?case using Cons by (simp add: RuleInBlock_Apply_def)
qed simp

lemma apply_rule_sets_returns:
  assumes "facts_ground rt fs" "\<forall>(to, s) \<in> set sets. origin_ok rt to \<and>
      (\<forall>rib \<in> hs_set s. rule_safe (rib_Rule rib) \<and> elems (rule_Expressions (rib_Rule rib)) = [])"
  shows "\<exists>new' symbols'. apply_rule_sets rt fs sets new symbols None = (Inr new', symbols', None)"
  using assms(2)
proof (induction sets arbitrary: new symbols)
  case (Cons ts sets)
  obtain to s where ts: "ts = (to, s)" by fastforce
  have to: "origin_ok rt to" using Cons.prems ts by auto
  have "facts_ground rt (FactSet_WithOrigin rt fs to)"
    using WithOrigin_spec[OF _ to, of fs] assms(1) by (auto simp: facts_ground_def)
  then obtain new' s' where "apply_rules rt (FactSet_WithOrigin rt fs to) (HashSet_Iter s) new symbols None = (Inr new', s', None)"
    using apply_rules_returns[of rt "FactSet_WithOrigin rt fs to" "HashSet_Iter s" new symbols] Cons.prems ts by auto
  then show ?case using Cons ts by simp
qed simp

lemma Iter_safe:
  assumes "rules_safe rt rs"
  shows "\<forall>(to, s) \<in> set (RuleSet_Iter rt rs). origin_ok rt to \<and>
      (\<forall>rib \<in> hs_set s. rule_safe (rib_Rule rib) \<and> elems (rule_Expressions (rib_Rule rib)) = [])"
proof -
  have inv: "rules_inv rt rs" using assms by (simp add: rules_safe_def)
  have "rule_safe (rib_Rule rib) \<and> elems (rule_Expressions (rib_Rule rib)) = []"
    if "(to, s) \<in> set (RuleSet_Iter rt rs)" "rib \<in> hs_set s" for to s rib
  proof -
    have "rule_safe (rule_norm (rib_Rule rib)) \<and> elems (rule_Expressions (rule_norm (rib_Rule rib))) = []"
      using assms Iter_mem[OF inv that] unfolding rules_safe_def by fast
    then show ?thesis by (simp add: rule_safe_def rule_norm_def)
  qed
  then show ?thesis using in_keyed_iter[OF inv, folded RuleSet_Iter_keyed] by blast
qed

text \<open>Every iteration but the last adds a fact, so the size of the model bounds their number.\<close>

lemma run_loop_returns:
  assumes "facts_ground rt fs" "rules_safe rt rs" "facts_of rt fs \<subseteq> M" "M = model rt (rules_of rt rs) symbols R0"
    and "finite M" "card M < unat limit" "card M < card (facts_of rt fs) + n"
  shows "fst (run_loop n rt limit rs fs symbols None) = Sent None"
  using assms(1,3,7)
proof (induction n arbitrary: fs)
  case 0
  then show ?case using card_mono[OF assms(5), of "facts_of rt fs"] by simp
next
  case (Suc n)
  note plain = rules_safe_plain[OF assms(2)]
  obtain new s1 where a: "apply_rule_sets rt fs (RuleSet_Iter rt rs) [] symbols None = (Inr new, s1, None)"
    using apply_rule_sets_returns[OF Suc.prems(1) Iter_safe[OF assms(2)]] by blast
  let ?fs1 = "insert_all rt new fs"
  note it = Iteration[OF Suc.prems(1) plain a]
  have M: "facts_of rt ?fs1 \<subseteq> M" unfolding it(3) using Suc.prems(2) model_closed(2)[of "facts_of rt fs"] assms(4) by blast
  have count: "FactSet_Count ?fs1 = card (facts_of rt ?fs1)" "FactSet_Count fs = card (facts_of rt fs)"
    "card (facts_of rt ?fs1) \<le> card M" "card (facts_of rt fs) \<le> card (facts_of rt ?fs1)"
    using FactSet_Count_card[of rt] it(2) Suc.prems(1) card_mono[OF assms(5) M]
      card_mono[OF finite_subset[OF M assms(5)], of "facts_of rt fs"] it(3)
    by (simp_all add: facts_ground_def)
  show ?case
  proof (cases "FactSet_Count ?fs1 = FactSet_Count fs")
    case True
    then show ?thesis using a count assms(6) by simp
  next
    case False
    then have "card M < card (facts_of rt ?fs1) + n" using count Suc.prems(3) by linarith
    from Suc.IH[OF it(2) M this] show ?thesis using a it(1) False count assms(6) by simp
  qed
qed

lemma keyed_rel_finite: "finite (keyed_rel rt m ks)"
proof (induction ks)
  case (Cons ks kss)
  then show ?case by (cases ks) (simp add: keyed_rel_Cons del: set_empty)
qed simp

lemma World_Run_succeeds:
  assumes "facts_ground rt (World_Facts w)" "rules_safe rt (World_Rules w)"
    and "M = model rt (rules_of rt (World_Rules w)) symbols (facts_of rt (World_Facts w))"
    and "card M < unat (maxFacts (World_runLimits w))"
    and "card M < card (facts_of rt (World_Facts w)) + nat (sint (maxIterations (World_runLimits w)))"
    and "0 < sint (maxDuration (World_runLimits w))" "sch_polls sch = None" "\<not> sch_late sch"
  shows "fst (World_Run rt w symbols sch) = None"
proof -
  have "finite (rules_of rt (World_Rules w))" by (rule keyed_rel_finite)
  moreover have "finite (facts_of rt (World_Facts w))"
    using FactSet_Count_card assms(1) by (auto simp: facts_ground_def)
  moreover have "\<forall>(T, b, r) \<in> rules_of rt (World_Rules w). rule_safe r"
    using assms(2) unfolding rules_safe_def by fast
  ultimately have "finite M" unfolding assms(3) by (rule model_finite)
  then have "fst (run_loop (nat (sint (maxIterations (World_runLimits w)))) rt (maxFacts (World_runLimits w))
      (World_Rules w) (World_Facts w) symbols None) = Sent None"
    using run_loop_returns[OF assms(1,2) _ assms(3)] assms(3-5) model_closed(1) by auto
  then show ?thesis using assms(6-8) by (auto simp: World_Run_def context_polls_def Let_def split: prod.splits)
qed

text \<open>
  C19: liveness. When no rule has expressions and every head variable occurs in the body, the
  least model is finite; if it has fewer facts than the limit, the iterations cover the facts
  to add, and the clock does not run out, then a run ends without an error.
\<close>

theorem World_Run_completes:
  assumes "facts_ground rt (World_Facts w)" and "rules_safe rt (World_Rules w)"
    and "M = model rt (rules_of rt (World_Rules w)) symbols (facts_of rt (World_Facts w))"
    and "card M < unat (maxFacts (World_runLimits w))"
    and "card M < card (facts_of rt (World_Facts w)) + nat (sint (maxIterations (World_runLimits w)))"
    and "0 < sint (maxDuration (World_runLimits w))" and "sch_polls sch = None" and "\<not> sch_late sch"
  shows "fst (World_Run rt w symbols sch) = None"
  using assms by (rule World_Run_succeeds)

section \<open>An example\<close>

text \<open>The facts of the example, and its rule in block 1, which trusts the authority block.\<close>

definition demo_world :: World where
  "demo_world = World_AddRule demo_runtime ((NewWorld [])\<lparr>World_Facts := demo_facts\<rparr>)
     (NewTrustedOrigin demo_runtime) 1 demo_rule"

definition demo_schedule :: schedule where
  "demo_schedule = \<lparr>sch_polls = None, sch_late = False\<rparr>"

lemma demo_world_facts: "World_Facts demo_world = demo_facts" "World_runLimits demo_world = defaultRunLimits"
  by (simp_all add: demo_world_def World_AddRule_def NewWorld_def)

lemma demo_world_rules:
  "rules_inv demo_runtime (World_Rules demo_world)"
  "rules_of demo_runtime (World_Rules demo_world) = {({0, AuthorizerBlockID}, 1, rule_norm demo_rule)}"
proof -
  have ok: "rule_ok demo_rule"
    by (simp add: rule_ok_def demo_rule_def pred_atomic_def)
  have to: "origin_ok demo_runtime (NewTrustedOrigin demo_runtime)"
    "hs_set (NewTrustedOrigin demo_runtime) = {0, AuthorizerBlockID}"
    by (auto simp: NewTrustedOrigin_def)
  have ne: "hs_set (NewTrustedOrigin demo_runtime) \<noteq> {}" unfolding to(2) by simp
  note i = RuleSet_Insert_spec[OF keyed_inv_Nil to(1) ne ok, of 1]
  have "World_Rules demo_world = RuleSet_Insert demo_runtime [] (NewTrustedOrigin demo_runtime) 1 demo_rule"
    by (simp add: demo_world_def World_AddRule_def NewWorld_def)
  then show "rules_inv demo_runtime (World_Rules demo_world)"
    "rules_of demo_runtime (World_Rules demo_world) = {({0, AuthorizerBlockID}, 1, rule_norm demo_rule)}"
    using i to(2) by simp_all
qed

lemma demo_world_safe: "rules_safe demo_runtime (World_Rules demo_world)"
  using demo_world_rules by (simp add: rules_safe_def rule_safe_def rule_norm_def head_atomic_def pred_vars_def)

abbreviation demo_fact :: "u64 \<Rightarrow> Fact" where
  "demo_fact n \<equiv> \<lparr>pred_Name = n, pred_Terms = Some [TInteger 1]\<rparr>"

lemma demo_model:
  "model demo_runtime (rules_of demo_runtime (World_Rules demo_world)) symbols (facts_of demo_runtime demo_facts) =
     {({0}, demo_fact 4), ({1, 0}, demo_fact 2)}" (is "?m = ?M")
proof
  let ?T = "{0, AuthorizerBlockID}" and ?RS = "rules_of demo_runtime (World_Rules demo_world)"
  have d: "rule_derives demo_runtime 1 demo_rule {({0}, demo_fact 4)} symbols = {({1, 0}, demo_fact 2)}"
    using demo_derives[of 1 symbols] by (simp add: demo_facts_spec(2))
  have t: "trusting ?T {({0}, demo_fact 4)} = {({0}, demo_fact 4)}"
    "trusting ?T ?M = {({0}, demo_fact 4)}" by (auto simp: trusting_def AuthorizerBlockID_def)
  have c: "consequences demo_runtime ?RS symbols X = rule_derives demo_runtime 1 demo_rule (trusting ?T X) symbols" for X
    by (simp add: consequences_def demo_world_rules(2))
  show "?m \<subseteq> ?M" by (rule model_least) (simp_all add: demo_facts_spec(2) c t d)
  have s: "{({0}, demo_fact 4)} \<subseteq> ?m" using model_closed(1) demo_facts_spec(2) by metis
  have "consequences demo_runtime ?RS symbols {({0}, demo_fact 4)} \<subseteq> ?m" by (rule model_closed(2)[OF s])
  then show "?M \<subseteq> ?m" using s by (simp add: c t d)
qed

lemma demo_run: "\<exists>w' symbols'. World_Run demo_runtime demo_world symbols demo_schedule = (None, w', symbols')"
proof -
  let ?M = "model demo_runtime (rules_of demo_runtime (World_Rules demo_world)) symbols (facts_of demo_runtime demo_facts)"
  have "card ?M \<le> 2" unfolding demo_model by (rule card_insert_le_m1) simp_all
  moreover have "card (facts_of demo_runtime demo_facts) = 1" by (simp add: demo_facts_spec(2))
  ultimately have "fst (World_Run demo_runtime demo_world symbols demo_schedule) = None"
    by (intro World_Run_succeeds[OF _ demo_world_safe refl])
       (simp_all add: demo_world_facts demo_facts_spec(1) defaultRunLimits_def demo_schedule_def)
  then show ?thesis by (metis prod_cases3 fst_conv)
qed

lemmas demo_plain = rules_safe_plain[OF demo_world_safe]
lemmas demo_ground = demo_facts_spec(1)[folded demo_world_facts(1)]

theorem World_Run_least_model_witness:
  "\<exists>w' symbols'. World_Run demo_runtime demo_world [] demo_schedule = (None, w', symbols') \<and>
     facts_of demo_runtime (World_Facts w') = {({0}, demo_fact 4), ({1, 0}, demo_fact 2)}"
proof -
  obtain w' s where run: "World_Run demo_runtime demo_world [] demo_schedule = (None, w', s)" using demo_run by blast
  from World_Run_least_model[OF demo_ground demo_plain run] run show ?thesis
    by (simp add: demo_model demo_world_facts)
qed

lemma run_loop_cancelled: "0 < n \<Longrightarrow> run_loop n rt limit rs fs symbols (Some 0) = (Cancelled, fs, symbols)"
  by (cases n) simp_all

theorem World_Run_sound_witness:
  "\<exists>w' symbols'. World_Run demo_runtime demo_world [] \<lparr>sch_polls = Some 0, sch_late = False\<rparr> =
     (Some ErrWorldRunLimitTimeout, w', symbols') \<and> ({0}, demo_fact 4) \<in> facts_of demo_runtime (World_Facts w')"
proof -
  let ?s = "\<lparr>sch_polls = Some 0, sch_late = False\<rparr>"
  have "\<exists>w' s. World_Run demo_runtime demo_world [] ?s = (Some ErrWorldRunLimitTimeout, w', s)"
    by (simp add: World_Run_def context_polls_def demo_world_facts defaultRunLimits_def run_loop_cancelled)
  then obtain w' s where run: "World_Run demo_runtime demo_world [] ?s = (Some ErrWorldRunLimitTimeout, w', s)" by blast
  from World_Run_sound[OF demo_ground demo_plain run] run show ?thesis
    by (auto simp: demo_world_facts demo_facts_spec(2))
qed

theorem World_Run_isolation_witness:
  "\<exists>w' v' s t. World_Run demo_runtime demo_world [] demo_schedule = (None, w', s) \<and>
     World_Run demo_runtime (World_ResetRules demo_world) [] demo_schedule = (None, v', t) \<and>
     {(B, f) \<in> facts_of demo_runtime (World_Facts w'). B \<subseteq> {0}} =
     {(B, f) \<in> facts_of demo_runtime (World_Facts v'). B \<subseteq> {0}}"
proof -
  let ?v = "World_ResetRules demo_world"
  obtain w' s where run: "World_Run demo_runtime demo_world [] demo_schedule = (None, w', s)" using demo_run by blast
  have v: "World_Facts ?v = demo_facts" "World_Rules ?v = []" "World_runLimits ?v = defaultRunLimits"
    by (simp_all add: World_ResetRules_def demo_world_facts)
  have safe: "rules_safe demo_runtime (World_Rules ?v)" by (simp add: v rules_safe_def)
  have "model demo_runtime {} [] (facts_of demo_runtime demo_facts) \<subseteq> facts_of demo_runtime demo_facts"
    by (rule model_least) (simp_all add: consequences_def)
  then have "card (model demo_runtime {} [] (facts_of demo_runtime demo_facts)) \<le> 1"
    using card_mono[of "facts_of demo_runtime demo_facts"] by (simp add: demo_facts_spec(2))
  then have "fst (World_Run demo_runtime ?v [] demo_schedule) = None"
    by (intro World_Run_succeeds[OF _ safe refl])
       (simp_all add: v demo_facts_spec defaultRunLimits_def demo_schedule_def)
  then obtain v' t where run2: "World_Run demo_runtime ?v [] demo_schedule = (None, v', t)"
    by (metis prod_cases3 fst_conv)
  have g: "facts_ground demo_runtime (World_Facts ?v)" by (simp add: v demo_facts_spec(1))
  have "{(B, f) \<in> facts_of demo_runtime (World_Facts w'). B \<subseteq> {0}} =
     {(B, f) \<in> facts_of demo_runtime (World_Facts v'). B \<subseteq> {0}}"
    by (rule World_Run_isolation[OF demo_ground demo_plain g rules_safe_plain[OF safe] _ _ run run2])
       (auto simp: v demo_world_facts demo_world_rules(2))
  with run run2 show ?thesis by blast
qed

theorem World_Run_completes_witness:
  "fst (World_Run demo_runtime demo_world [] demo_schedule) = None"
proof -
  let ?M = "model demo_runtime (rules_of demo_runtime (World_Rules demo_world)) [] (facts_of demo_runtime demo_facts)"
  have "card ?M \<le> 2" unfolding demo_model by (rule card_insert_le_m1) simp_all
  moreover have "card (facts_of demo_runtime demo_facts) = 1" by (simp add: demo_facts_spec(2))
  ultimately show ?thesis
    by (intro World_Run_completes[OF _ demo_world_safe refl])
       (simp_all add: demo_world_facts demo_facts_spec(1) defaultRunLimits_def demo_schedule_def)
qed

section \<open>What queries return\<close>

text \<open>What a term of a pattern accepts, for patterns without byte and set constants.\<close>

definition pattern_plain :: "Predicate \<Rightarrow> bool" where
  "pattern_plain p \<longleftrightarrow> (\<forall>t \<in> set (elems (pred_Terms p)). Term_Type t \<noteq> TermTypeBytes \<and> Term_Type t \<noteq> TermTypeSet)"

lemma query_terms_plain:
  assumes "length fs = length ps" "\<forall>t \<in> set ps. Term_Type t \<noteq> TermTypeBytes \<and> Term_Type t \<noteq> TermTypeSet"
  shows "query_terms same fs ps = Some (\<forall>i < length ps. is_Variable (ps ! i) \<or> fs ! i = ps ! i)"
  using assms
proof (induction same fs ps rule: query_terms.induct)
  case (1 same fID fs pID ps)
  have IH: "query_terms same fs ps = Some (\<forall>i < length ps. is_Variable (ps ! i) \<or> fs ! i = ps ! i)"
    if "Term_Type pID = TermTypeVariable \<or> fID = pID"
    using 1 that by (cases fID; cases pID) auto
  have step: "(\<forall>i < length (pID # ps). is_Variable ((pID # ps) ! i) \<or> (fID # fs) ! i = (pID # ps) ! i) \<longleftrightarrow>
      (is_Variable pID \<or> fID = pID) \<and> (\<forall>i < length ps. is_Variable (ps ! i) \<or> fs ! i = ps ! i)"
    by (auto simp: less_Suc_eq_0_disj)
  have plain: "Term_Type pID \<noteq> TermTypeBytes" "Term_Type pID \<noteq> TermTypeSet" using 1 by simp_all
  show ?case unfolding step using IH plain by (cases pID; cases fID) (auto simp: is_Variable_def)
qed simp_all

lemma query_loop_spec:
  assumes "facts_inv rt res" "\<forall>(o1, f) \<in> set xs. origin_ok rt o1 \<and> hs_set o1 \<noteq> {} \<and> pred_atomic f"
    and "\<forall>(o1, f) \<in> set xs. query_fact same pred f = Some (P f)"
  shows "\<exists>out. query_loop rt same pred xs res = Some out \<and> facts_inv rt out \<and>
    facts_of rt out = facts_of rt res \<union> {(hs_set o1, f) | o1 f. (o1, f) \<in> set xs \<and> P f}"
  using assms
proof (induction xs arbitrary: res)
  case (Cons x xs)
  obtain o1 f where x: "x = (o1, f)" by fastforce
  have f: "origin_ok rt o1" "hs_set o1 \<noteq> {}" "pred_atomic f" "query_fact same pred f = Some (P f)"
    using Cons.prems x by auto
  note i = FactSet_Insert_spec[OF Cons.prems(1) f(1-3)]
  let ?res = "if P f then FactSet_Insert rt res o1 f else res"
  have inv: "facts_inv rt ?res" using i Cons.prems(1) by simp
  have "\<exists>out. query_loop rt same pred xs ?res = Some out \<and> facts_inv rt out \<and>
    facts_of rt out = facts_of rt ?res \<union> {(hs_set o1, f) | o1 f. (o1, f) \<in> set xs \<and> P f}"
    by (rule Cons.IH[OF inv]) (use Cons.prems in auto)
  then obtain out where out: "query_loop rt same pred xs ?res = Some out" "facts_inv rt out"
    "facts_of rt out = facts_of rt ?res \<union> {(hs_set o1, f) | o1 f. (o1, f) \<in> set xs \<and> P f}" by blast
  have "query_loop rt same pred (x # xs) res = Some out" using out(1) f(4) x by simp
  moreover have "facts_of rt out = facts_of rt res \<union> {(hs_set o1, f) | o1 f. (o1, f) \<in> set (x # xs) \<and> P f}"
    unfolding out(3) x using i(2) by (auto simp del: set_empty)
  ultimately show ?case using out(2) by blast
qed simp

definition pattern_accepts :: "Predicate \<Rightarrow> Fact \<Rightarrow> bool" where
  "pattern_accepts p f \<longleftrightarrow> pred_Name f = pred_Name p \<and> length (elems (pred_Terms f)) = length (elems (pred_Terms p)) \<and>
     (\<forall>i < length (elems (pred_Terms p)). is_Variable (elems (pred_Terms p) ! i) \<or>
        elems (pred_Terms f) ! i = elems (pred_Terms p) ! i)"

lemma query_fact_plain: "pattern_plain p \<Longrightarrow> query_fact same p f = Some (pattern_accepts p f)"
  using query_terms_plain[of "elems (pred_Terms f)" "elems (pred_Terms p)" same]
  by (auto simp: query_fact_def pattern_accepts_def pattern_plain_def)

lemma query_facts_list:
  assumes "facts_inv rt fs"
  shows "(o1, f) \<in> set (concat (map (\<lambda>(origin, factSet). map (Pair origin) (HashSet_Iter factSet)) (FactSet_Iter rt fs))) \<longleftrightarrow>
    (\<exists>s. (o1, s) \<in> set (FactSet_Iter rt fs) \<and> f \<in> hs_set s)"
  by (induction "FactSet_Iter rt fs") auto

text \<open>
  \<^verbatim>\<open>World.Query\<close> with a pattern of variables and constants other than byte arrays and
  sets returns exactly the facts that agree with the pattern, with their origins. A variable
  of the pattern accepts anything, also where it occurs twice.
\<close>

theorem World_Query_selects:
  assumes "facts_inv rt (World_Facts w)" and "pattern_plain p"
  shows "\<exists>out. World_Query rt same w p = Some out \<and> facts_inv rt out \<and>
    facts_of rt out = {(B, f) \<in> facts_of rt (World_Facts w). pattern_accepts p f}"
proof -
  let ?xs = "concat (map (\<lambda>(origin, factSet). map (Pair origin) (HashSet_Iter factSet)) (FactSet_Iter rt (World_Facts w)))"
  note mem = query_facts_list[OF assms(1)] and it = in_FactSet_Iter[OF assms(1)]
  have "\<forall>(o1, f) \<in> set ?xs. origin_ok rt o1 \<and> hs_set o1 \<noteq> {} \<and> pred_atomic f"
    unfolding split_paired_Ball_Sigma Ball_def split_paired_All mem prod.case
    using it by (blast intro: hs_inv_ok)
  from query_loop_spec[OF keyed_inv_Nil this, of same p "pattern_accepts p"] query_fact_plain[OF assms(2)]
  obtain out where out: "World_Query rt same w p = Some out" "facts_inv rt out"
    "facts_of rt out = {(hs_set o1, f) | o1 f. (o1, f) \<in> set ?xs \<and> pattern_accepts p f}"
    by (auto simp: World_Query_def)
  have "facts_of rt out = {(B, f) \<in> facts_of rt (World_Facts w). pattern_accepts p f}"
    unfolding out(3) facts_of_Iter[OF assms(1)] mem by blast
  with out show ?thesis by blast
qed

theorem World_Query_selects_witness:
  "\<exists>out. World_Query demo_runtime (\<lambda>_ _. False) demo_world \<lparr>pred_Name = 4, pred_Terms = Some [TVariable 7]\<rparr> = Some out \<and>
     facts_of demo_runtime out = {({0}, demo_fact 4)}"
proof -
  have inv: "facts_inv demo_runtime (World_Facts demo_world)" using demo_ground by (simp add: facts_ground_def)
  have p: "pattern_plain \<lparr>pred_Name = 4, pred_Terms = Some [TVariable 7]\<rparr>" by (simp add: pattern_plain_def)
  have "{(B, f) \<in> facts_of demo_runtime (World_Facts demo_world).
      pattern_accepts \<lparr>pred_Name = 4, pred_Terms = Some [TVariable 7]\<rparr> f} = {({0}, demo_fact 4)}"
    by (auto simp: demo_world_facts demo_facts_spec(2) pattern_accepts_def is_Variable_def)
  then show ?thesis using World_Query_selects[OF inv p, of "\<lambda>_ _. False"] by auto
qed

lemma query_loop_panics:
  "(o1, f) \<in> set xs \<Longrightarrow> query_fact same p f = None \<Longrightarrow> query_loop rt same p xs res = None"
  by (induction xs arbitrary: res) (auto split: option.splits)

text \<open>
  \<^verbatim>\<open>World.Query\<close> panics as soon as it compares a byte array of the pattern with one of
  a fact: when the two have the same name and arity and the constants before it agree.
\<close>

theorem World_Query_panics:
  assumes "facts_inv rt (World_Facts w)" and "(B, f) \<in> facts_of rt (World_Facts w)"
    and "pred_Name f = pred_Name p" and "length (elems (pred_Terms f)) = length (elems (pred_Terms p))"
    and "elems (pred_Terms p) = ps @ TBytes x # ps'" and "elems (pred_Terms f) = fs @ TBytes y # fs'"
    and "length fs = length ps" and "list_all2 (\<lambda>s t. is_Variable t \<or> (s = t \<and> \<not> (\<exists>z. t = TBytes z) \<and> \<not> (\<exists>z. t = TSet z))) fs ps"
  shows "World_Query rt same w p = None"
proof -
  have "query_terms same (fs @ TBytes y # fs') (ps @ TBytes x # ps') = None"
    using assms(8)
  proof (induction rule: list_all2_induct)
    case (Cons s fs t ps)
    then show ?case by (cases t; cases s) (auto simp: is_Variable_def)
  qed simp
  then have none: "query_fact same p f = None" using assms(3-6) by (simp add: query_fact_def)
  obtain o1 s where "(o1, s) \<in> set (FactSet_Iter rt (World_Facts w))" "f \<in> hs_set s"
    using assms(2) unfolding facts_of_Iter[OF assms(1)] by blast
  then have "(o1, f) \<in> set (concat (map (\<lambda>(origin, factSet). map (Pair origin) (HashSet_Iter factSet)) (FactSet_Iter rt (World_Facts w))))"
    using query_facts_list[OF assms(1)] by blast
  then show ?thesis unfolding World_Query_def using none by (intro query_loop_panics)
qed

theorem World_Query_panics_witness:
  "World_Query demo_runtime (\<lambda>_ _. True)
     (World_AddFact demo_runtime (NewWorld []) (NewOrigin demo_runtime 0 []) \<lparr>pred_Name = 4, pred_Terms = Some [TBytes [1]]\<rparr>)
     \<lparr>pred_Name = 4, pred_Terms = Some [TBytes [1]]\<rparr> = None"
proof -
  let ?f = "\<lparr>pred_Name = 4, pred_Terms = Some [TBytes [1]]\<rparr>"
  let ?w = "World_AddFact demo_runtime (NewWorld []) (NewOrigin demo_runtime 0 []) ?f"
  have f: "pred_atomic ?f" by (simp add: pred_atomic_def)
  have w: "World_Facts ?w = FactSet_Insert demo_runtime [] (NewOrigin demo_runtime 0 []) ?f"
    by (simp add: World_AddFact_def NewWorld_def)
  note s = single_facts_inv[OF f, of demo_runtime 0 "[]", folded w]
  show ?thesis
    by (rule World_Query_panics[OF s(1), of "{0}" ?f _ "[]" "[1]" "[]" "[]" "[1]" "[]"]) (simp_all add: s(2))
qed

end
