(* ===== verification/Tokens.thy ===== *)
theory Tokens
  imports Signatures Worlds
begin

text \<open>
  Tokens (\<^verbatim>\<open>biscuit.go\<close>, \<^verbatim>\<open>builder.go\<close>, \<^verbatim>\<open>third_party.go\<close>): creating them, appending first-party
  and third-party blocks, sealing, and reading them from bytes. The serialisation of protobuf
  messages is the record \<open>proto_lib\<close>; \<open>proto_laws\<close> states that what is marshalled is unmarshalled
  again. \<open>rng\<close> is the stream a key pair is generated from and \<open>rand\<close> the one signatures may use.
  A container is never nil, because every function that makes a token sets it; the value
  \<open>TokenPanic\<close> stands for the remaining panics.
\<close>

section \<open>Containers\<close>

datatype Proof = NextSecret "u8 list" | FinalSignature "u8 list" | Proof_absent

fun GetNextSecret :: "Proof \<Rightarrow> u8 list option" where
  "GetNextSecret (NextSecret s) = Some s"
| "GetNextSecret _ = None"

fun GetFinalSignature :: "Proof \<Rightarrow> u8 list option" where
  "GetFinalSignature (FinalSignature s) = Some s"
| "GetFinalSignature _ = None"

record pb_Biscuit =
  pbs_RootKeyId :: "u32 option"
  pbs_Authority :: SignedBlock
  pbs_Blocks :: "SignedBlock list"
  pbs_Proof :: Proof

record pb_ThirdPartyBlockRequest =
  tpr_LegacyPreviousKey :: "pb_PublicKey option"
  tpr_LegacyPublicKeys :: "pb_PublicKey list"
  tpr_PreviousSignature :: "u8 list"

record ThirdPartyBlockContents =
  tpc_payload :: "u8 list"
  tpc_externalSignature :: "pb_ExternalSignature option"

record proto_lib =
  Marshal_Block :: "pb_Block \<Rightarrow> u8 list option"
  Unmarshal_Block :: "u8 list \<Rightarrow> pb_Block option"
  Marshal_Biscuit :: "pb_Biscuit \<Rightarrow> u8 list option"
  Unmarshal_Biscuit :: "u8 list \<Rightarrow> pb_Biscuit option"
  Marshal_Request :: "pb_ThirdPartyBlockRequest \<Rightarrow> u8 list option"
  Unmarshal_Request :: "u8 list \<Rightarrow> pb_ThirdPartyBlockRequest option"
  Marshal_Contents :: "ThirdPartyBlockContents \<Rightarrow> u8 list option"
  Unmarshal_Contents :: "u8 list \<Rightarrow> ThirdPartyBlockContents option"

definition proto_laws :: "proto_lib \<Rightarrow> bool" where
  "proto_laws pl \<longleftrightarrow>
     (\<forall>m bs. Marshal_Block pl m = Some bs \<longrightarrow> Unmarshal_Block pl bs = Some m) \<and>
     (\<forall>m bs. Marshal_Biscuit pl m = Some bs \<longrightarrow> Unmarshal_Biscuit pl bs = Some m) \<and>
     (\<forall>m bs. Marshal_Request pl m = Some bs \<longrightarrow> Unmarshal_Request pl bs = Some m) \<and>
     (\<forall>m bs. Marshal_Contents pl m = Some bs \<longrightarrow> Unmarshal_Contents pl bs = Some m)"

definition marshal_or :: "u8 list option \<Rightarrow> token_error + u8 list" where
  "marshal_or r = (case r of None \<Rightarrow> Inl MarshalErr | Some bs \<Rightarrow> Inr bs)"

definition unmarshal_or :: "'a option \<Rightarrow> token_error + 'a" where
  "unmarshal_or r = (case r of None \<Rightarrow> Inl UnmarshalErr | Some m \<Rightarrow> Inr m)"

definition map_err :: "('e \<Rightarrow> 'f) \<Rightarrow> 'e + 'a \<Rightarrow> 'f + 'a" where
  "map_err f r = (case r of Inl e \<Rightarrow> Inl (f e) | Inr x \<Rightarrow> Inr x)"

definition ok_or :: "'e \<Rightarrow> 'a option \<Rightarrow> 'e + 'a" where
  "ok_or e r = (case r of None \<Rightarrow> Inl e | Some x \<Rightarrow> Inr x)"

lemma result_simps [simp]:
  "marshal_or r = Inr bs \<longleftrightarrow> r = Some bs" "unmarshal_or r' = Inr m \<longleftrightarrow> r' = Some m"
  "map_err f s = Inr x \<longleftrightarrow> s = Inr x" "ok_or e t = Inr y \<longleftrightarrow> t = Some y"
  "map_err f (Inr x) = Inr x" "map_err f (Inl d) = Inl (f d)"
  by (simp_all add: marshal_or_def unmarshal_or_def map_err_def ok_or_def split: option.split sum.split)

section \<open>Tokens\<close>

record Biscuit =
  bis_authority :: Block
  bis_blocks :: "Block list"
  bis_symbols :: SymbolTable
  bis_publicKeys :: PublicKeyTable
  bis_container :: pb_Biscuit
  bis_signatureRegistry :: SignatureRegistry

record biscuitOptions =
  opt_rng :: "u8 list"
  opt_rootKeyID :: "u32 option"

type_synonym biscuitOption = "biscuitOptions \<Rightarrow> token_error + biscuitOptions"

definition WithRNG :: "u8 list \<Rightarrow> biscuitOption" where
  "WithRNG r b = Inr (b\<lparr>opt_rng := r\<rparr>)"

definition WithRootKeyID :: "u32 \<Rightarrow> biscuitOption" where
  "WithRootKeyID i b = Inr (b\<lparr>opt_rootKeyID := Some i\<rparr>)"

fun apply_options :: "biscuitOption list \<Rightarrow> biscuitOption" where
  "apply_options [] options = Inr options"
| "apply_options (opt # opts) options = bind_res (opt options) (apply_options opts)"

definition newBiscuit :: "('sk, 'pk) crypto_lib \<Rightarrow> proto_lib \<Rightarrow> runtime \<Rightarrow> u8 list \<Rightarrow>
    'sk crypto_Signer \<Rightarrow> SymbolTable \<Rightarrow> PublicKeyTable \<Rightarrow> Block \<Rightarrow> biscuitOption list \<Rightarrow> token_error + Biscuit" where
  "newBiscuit cl pl rt rand root symbols publicKeys authority opts =
     bind_res (apply_options opts \<lparr>opt_rng = rand, opt_rootKeyID = None\<rparr>) (\<lambda>options.
     if \<not> SymbolTable_IsDisjoint symbols (blk_symbols authority) then Inl ErrSymbolTableOverlap else
     let symbols = SymbolTable_Extend symbols (blk_symbols authority) in
     bind_res (map_err CryptoErr (NewSigner root)) (\<lambda>signer.
     let nextAlg = Signer_Algorithm signer in
     bind_res (map_err CryptoErr (NewKeyGenerator nextAlg)) (\<lambda>keyGen.
     bind_res (map_err CryptoErr (GenerateNext cl keyGen (opt_rng options))) (\<lambda>(nextPublicKey, nextPrivateKey).
     bind_res (map_err ConvertErr (tokenBlockToProtoBlock authority)) (\<lambda>protoAuthority.
     bind_res (marshal_or (Marshal_Block pl protoAuthority)) (\<lambda>marshalledAuthority.
     let blockSignatureVersion = BlockSignatureVersion1;
         signaturePayload = authorityBlockSignaturePayloadV1 nextAlg marshalledAuthority nextPublicKey blockSignatureVersion in
     bind_res (map_err CryptoErr (Signer_Sign cl rand signer signaturePayload)) (\<lambda>signature.
     let signedBlock = \<lparr>sb_Block = marshalledAuthority, sb_NextKey = \<lparr>pbk_Algorithm = nextAlg, pbk_Key = nextPublicKey\<rparr>,
           sb_Signature = signature, sb_ExternalSignature = None, sb_Version = Some blockSignatureVersion\<rparr>;
         container = \<lparr>pbs_RootKeyId = opt_rootKeyID options, pbs_Authority = signedBlock, pbs_Blocks = [],
           pbs_Proof = NextSecret nextPrivateKey\<rparr>;
         (publicKeys, signatureRegistry) = Block_UpdatePublicKeys rt authority 0 publicKeys []
     in Inr \<lparr>bis_authority = authority, bis_blocks = [], bis_symbols = symbols, bis_publicKeys = publicKeys,
          bis_container = container, bis_signatureRegistry = signatureRegistry\<rparr>)))))))"

definition New :: "('sk, 'pk) crypto_lib \<Rightarrow> proto_lib \<Rightarrow> runtime \<Rightarrow> u8 list \<Rightarrow>
    u8 list option \<Rightarrow> u8 list \<Rightarrow> SymbolTable \<Rightarrow> Block \<Rightarrow> token_error + Biscuit" where
  "New cl pl rt rand rng root baseSymbols authority =
     (let opts = (case rng of None \<Rightarrow> [] | Some r \<Rightarrow> [WithRNG r])
      in newBiscuit cl pl rt rand (Ed25519PrivateKey root) baseSymbols NewPublicKeyTable authority opts)"

definition Biscuit_lastBlock :: "Biscuit \<Rightarrow> SignedBlock option" where
  "Biscuit_lastBlock b = (if bis_blocks b = [] then Some (pbs_Authority (bis_container b))
     else if length (bis_blocks b) - 1 < length (pbs_Blocks (bis_container b))
     then Some (pbs_Blocks (bis_container b) ! (length (bis_blocks b) - 1)) else None)"

definition Biscuit_append :: "('sk, 'pk) crypto_lib \<Rightarrow> proto_lib \<Rightarrow> runtime \<Rightarrow> u8 list \<Rightarrow>
    Biscuit \<Rightarrow> u8 list \<Rightarrow> Block \<Rightarrow> pb_ExternalSignature option \<Rightarrow> token_error + Biscuit" where
  "Biscuit_append cl pl rt rand b rng block pbExternalSignature =
     bind_res (ok_or TokenSealed (GetNextSecret (pbs_Proof (bis_container b)))) (\<lambda>privateKey.
     bind_res (ok_or TokenPanic (Biscuit_lastBlock b)) (\<lambda>lastBlock.
     let lastAlg = pbk_Algorithm (sb_NextKey lastBlock) in
     bind_res (map_err CryptoErr (NewSignerFromPB cl lastAlg privateKey)) (\<lambda>signer.
     let lastSignature = sb_Signature lastBlock in
     if \<not> SymbolTable_IsDisjoint (bis_symbols b) (blk_symbols block) then Inl ErrSymbolTableOverlap else
     let blockID = length (bis_blocks b) + 1;
         blocks = bis_blocks b @ [block];
         symbols = (if \<not> Block_IsThirdParty block then SymbolTable_Extend (bis_symbols b) (blk_symbols block)
           else bis_symbols b);
         nextAlg = lastAlg in
     bind_res (map_err CryptoErr (NewKeyGenerator nextAlg)) (\<lambda>keyGen.
     bind_res (map_err CryptoErr (GenerateNext cl keyGen rng)) (\<lambda>(rawNextPub, rawNextPriv).
     bind_res (map_err ConvertErr (tokenBlockToProtoBlock block)) (\<lambda>protoBlock.
     bind_res (marshal_or (Marshal_Block pl protoBlock)) (\<lambda>marshalledBlock.
     let externalSignatureBytes = map_option pbe_Signature pbExternalSignature;
         signaturePayload = blockSignaturePayloadV1 nextAlg marshalledBlock rawNextPub externalSignatureBytes
           lastSignature BlockSignatureVersion1 in
     bind_res (map_err CryptoErr (Signer_Sign cl rand signer signaturePayload)) (\<lambda>signature.
     let signedBlock = \<lparr>sb_Block = marshalledBlock, sb_NextKey = \<lparr>pbk_Algorithm = nextAlg, pbk_Key = rawNextPub\<rparr>,
           sb_Signature = signature, sb_ExternalSignature = pbExternalSignature, sb_Version = Some BlockSignatureVersion1\<rparr>;
         container = \<lparr>pbs_RootKeyId = None, pbs_Authority = pbs_Authority (bis_container b),
           pbs_Blocks = pbs_Blocks (bis_container b) @ [signedBlock], pbs_Proof = NextSecret rawNextPriv\<rparr>;
         (publicKeys, signatureRegistry) = Block_UpdatePublicKeys rt block (word_of_nat blockID)
           (bis_publicKeys b) (bis_signatureRegistry b)
     in Inr \<lparr>bis_authority = bis_authority b, bis_blocks = blocks, bis_symbols = symbols, bis_publicKeys = publicKeys,
          bis_container = container, bis_signatureRegistry = signatureRegistry\<rparr>))))))))"

definition Biscuit_CreateBlock :: "runtime \<Rightarrow> Biscuit \<Rightarrow> u64 \<Rightarrow> blockBuilder" where
  "Biscuit_CreateBlock rt b blockID = blockBuilder_SetBlockID (NewBlockBuilder rt []) blockID"

definition Biscuit_AppendBlock :: "('sk, 'pk) crypto_lib \<Rightarrow> proto_lib \<Rightarrow> runtime \<Rightarrow> u8 list \<Rightarrow>
    Biscuit \<Rightarrow> u8 list \<Rightarrow> blockBuilder \<Rightarrow> token_error + Biscuit" where
  "Biscuit_AppendBlock cl pl rt rand b rng bb =
     bind_res (ok_or TokenPanic (blockBuilder_Build rt bb (bis_symbols b) (bis_publicKeys b) (bis_signatureRegistry b)))
       (\<lambda>block. Biscuit_append cl pl rt rand b rng block None)"

definition Biscuit_Seal :: "('sk, 'pk) crypto_lib \<Rightarrow> u8 list \<Rightarrow> Biscuit \<Rightarrow> token_error + Biscuit" where
  "Biscuit_Seal cl rand b =
     bind_res (ok_or TokenSealed (GetNextSecret (pbs_Proof (bis_container b)))) (\<lambda>privateKey.
     bind_res (ok_or TokenPanic (Biscuit_lastBlock b)) (\<lambda>lastBlock.
     bind_res (map_err CryptoErr (NewSignerFromPB cl (pbk_Algorithm (sb_NextKey lastBlock)) privateKey)) (\<lambda>signer.
     bind_res (map_err CryptoErr (Signer_Sign cl rand signer (sealedBlockSignaturePayload
       (pbk_Algorithm (sb_NextKey lastBlock)) (sb_Block lastBlock) (pbk_Key (sb_NextKey lastBlock)) (sb_Signature lastBlock))))
       (\<lambda>signature.
     let container = \<lparr>pbs_RootKeyId = None, pbs_Authority = pbs_Authority (bis_container b),
           pbs_Blocks = pbs_Blocks (bis_container b), pbs_Proof = FinalSignature signature\<rparr>
     in Inr \<lparr>bis_authority = bis_authority b, bis_blocks = bis_blocks b, bis_symbols = bis_symbols b,
          bis_publicKeys = bis_publicKeys b, bis_container = container,
          bis_signatureRegistry = bis_signatureRegistry b\<rparr>))))"

section \<open>Third-party blocks\<close>

type_synonym ThirdPartyBlockRequest = "u8 list"   \<comment> \<open>the previous signature\<close>

definition Biscuit_ThirdPartyBlockRequest :: "Biscuit \<Rightarrow> token_error + ThirdPartyBlockRequest" where
  "Biscuit_ThirdPartyBlockRequest b =
     bind_res (ok_or TokenSealed (GetNextSecret (pbs_Proof (bis_container b)))) (\<lambda>privateKey.
       let numBlocks = length (pbs_Blocks (bis_container b)) in
       Inr (if numBlocks = 0 then sb_Signature (pbs_Authority (bis_container b))
         else sb_Signature (pbs_Blocks (bis_container b) ! (numBlocks - 1))))"

definition ThirdPartyBlockRequest_Serialize :: "proto_lib \<Rightarrow> ThirdPartyBlockRequest \<Rightarrow> token_error + u8 list" where
  "ThirdPartyBlockRequest_Serialize pl req = marshal_or (Marshal_Request pl
     \<lparr>tpr_LegacyPreviousKey = None, tpr_LegacyPublicKeys = [], tpr_PreviousSignature = req\<rparr>)"

definition UnmarshalThirdPartyBlockRequest :: "proto_lib \<Rightarrow> u8 list \<Rightarrow> token_error + ThirdPartyBlockRequest" where
  "UnmarshalThirdPartyBlockRequest pl bs =
     bind_res (unmarshal_or (Unmarshal_Request pl bs)) (\<lambda>pbReq.
       if length (tpr_LegacyPublicKeys pbReq) \<noteq> 0 then Inl LegacyKeys
       else if tpr_LegacyPreviousKey pbReq \<noteq> None then Inl LegacyKeys
       else Inr (tpr_PreviousSignature pbReq))"

definition ThirdPartyBlockRequest_SignRequest :: "('sk, 'pk) crypto_lib \<Rightarrow> proto_lib \<Rightarrow> runtime \<Rightarrow> u8 list \<Rightarrow>
    ThirdPartyBlockRequest \<Rightarrow> 'sk crypto_Signer \<Rightarrow> blockBuilder \<Rightarrow> token_error + ThirdPartyBlockContents" where
  "ThirdPartyBlockRequest_SignRequest cl pl rt rand req signer bb =
     bind_res (map_err CryptoErr (NewSigner signer)) (\<lambda>biscuitSigner.
     bind_res (ok_or TokenPanic (blockBuilder_Build rt bb [] NewPublicKeyTable [])) (\<lambda>block.
     bind_res (map_err ConvertErr (tokenBlockToProtoBlock block)) (\<lambda>protoBlock.
     bind_res (marshal_or (Marshal_Block pl protoBlock)) (\<lambda>toBeSignedPayload.
     bind_res (map_err CryptoErr (Signer_Sign cl rand biscuitSigner
       (externalSignaturePayloadV1 toBeSignedPayload req BlockSignatureVersion1))) (\<lambda>signature.
     Inr \<lparr>tpc_payload = toBeSignedPayload, tpc_externalSignature =
       Some \<lparr>pbe_Signature = signature, pbe_PublicKey = Some (Signer_PublicKeyProto cl biscuitSigner)\<rparr>\<rparr>)))))"

definition ThirdPartyBlockContents_Serialize :: "proto_lib \<Rightarrow> ThirdPartyBlockContents \<Rightarrow> token_error + u8 list" where
  "ThirdPartyBlockContents_Serialize pl c = marshal_or (Marshal_Contents pl c)"

definition UnmarshalThirdPartyBlockContents :: "proto_lib \<Rightarrow> u8 list \<Rightarrow> token_error + ThirdPartyBlockContents" where
  "UnmarshalThirdPartyBlockContents pl bytes =
     bind_res (unmarshal_or (Unmarshal_Contents pl bytes)) (\<lambda>contents.
       if length (tpc_payload contents) = 0 then Inl EmptyPayload
       else (case tpc_externalSignature contents of
           None \<Rightarrow> Inl EmptyExternalSignature
         | Some es \<Rightarrow>
             if length (pbe_Signature es) = 0 then Inl EmptySignature
             else if length (case pbe_PublicKey es of None \<Rightarrow> [] | Some k \<Rightarrow> pbk_Key k) = 0 then Inl EmptyPublicKey
             else Inr contents))"

definition ThirdPartyBlockContents_toBlock ::
    "proto_lib \<Rightarrow> runtime \<Rightarrow> ThirdPartyBlockContents \<Rightarrow> u64 \<Rightarrow> token_error + Block" where
  "ThirdPartyBlockContents_toBlock pl rt c blockID =
     bind_res (unmarshal_or (Unmarshal_Block pl (tpc_payload c))) (\<lambda>protoBlock.
     bind_res (map_err ConvertErr (protoBlockToTokenBlock rt protoBlock (tpc_externalSignature c))) (\<lambda>block.
     if blk_version block < minimumDatalogVersionForThirdPartyBlocks then Inl (ThirdPartyVersionTooOld (blk_version block))
     else bind_res (map_err ConvertErr (protoExternalSignatureToTokenExternalSignature (tpc_externalSignature c)))
       (\<lambda>tokenExternalSignature. Inr (block\<lparr>blk_externalSignature := Some tokenExternalSignature\<rparr>))))"

definition Biscuit_AppendThirdPartyBlock :: "('sk, 'pk) crypto_lib \<Rightarrow> proto_lib \<Rightarrow> runtime \<Rightarrow> u8 list \<Rightarrow>
    Biscuit \<Rightarrow> u8 list \<Rightarrow> ThirdPartyBlockContents \<Rightarrow> token_error + Biscuit" where
  "Biscuit_AppendThirdPartyBlock cl pl rt rand b rng contents =
     bind_res (ok_or TokenPanic (Biscuit_lastBlock b)) (\<lambda>lastBlock.
     case verifyExternalSignature cl (tpc_payload contents) (sb_Signature lastBlock) (tpc_externalSignature contents)
         BlockSignatureVersion1 of
       Some err \<Rightarrow> Inl err
     | None \<Rightarrow>
         bind_res (ThirdPartyBlockContents_toBlock pl rt contents (word_of_nat (length (bis_blocks b)))) (\<lambda>block.
           Biscuit_append cl pl rt rand b rng block (tpc_externalSignature contents)))"

section \<open>The token builder\<close>

record 'sk biscuitBuilder =
  bib_rootKey :: "'sk crypto_Signer"
  bib_authorityBlock :: blockBuilder
  bib_biscuitOptions :: "biscuitOption list"

definition NewBuilder :: "runtime \<Rightarrow> u8 list \<Rightarrow> biscuitOption list \<Rightarrow> 'sk biscuitBuilder" where
  "NewBuilder rt root opts = \<lparr>bib_rootKey = Ed25519PrivateKey root, bib_authorityBlock = NewBlockBuilder rt [],
     bib_biscuitOptions = opts\<rparr>"

definition NewBuilderSigner :: "runtime \<Rightarrow> 'sk crypto_Signer \<Rightarrow> biscuitOption list \<Rightarrow> 'sk biscuitBuilder" where
  "NewBuilderSigner rt root opts = \<lparr>bib_rootKey = root, bib_authorityBlock = NewBlockBuilder rt [],
     bib_biscuitOptions = opts\<rparr>"

definition biscuitBuilder_AddAuthorityFact ::
    "runtime \<Rightarrow> 'sk biscuitBuilder \<Rightarrow> BFact \<Rightarrow> build_error option \<times> 'sk biscuitBuilder" where
  "biscuitBuilder_AddAuthorityFact rt b f = (let (err, bb) = blockBuilder_AddFact rt (bib_authorityBlock b) f
     in (err, b\<lparr>bib_authorityBlock := bb\<rparr>))"

definition biscuitBuilder_AddAuthorityRule :: "'sk biscuitBuilder \<Rightarrow> BRule \<Rightarrow> 'sk biscuitBuilder" where
  "biscuitBuilder_AddAuthorityRule b rule = b\<lparr>bib_authorityBlock := blockBuilder_AddRule (bib_authorityBlock b) rule\<rparr>"

definition biscuitBuilder_AddAuthorityCheck :: "'sk biscuitBuilder \<Rightarrow> BCheck \<Rightarrow> 'sk biscuitBuilder" where
  "biscuitBuilder_AddAuthorityCheck b check = b\<lparr>bib_authorityBlock := blockBuilder_AddCheck (bib_authorityBlock b) check\<rparr>"

definition biscuitBuilder_SetContext :: "'sk biscuitBuilder \<Rightarrow> string \<Rightarrow> 'sk biscuitBuilder" where
  "biscuitBuilder_SetContext b ctx = b\<lparr>bib_authorityBlock := blockBuilder_SetContext (bib_authorityBlock b) ctx\<rparr>"

fun add_authority_facts :: "runtime \<Rightarrow> BFact list \<Rightarrow> 'sk biscuitBuilder \<Rightarrow> build_error option \<times> 'sk biscuitBuilder" where
  "add_authority_facts rt [] b = (None, b)"
| "add_authority_facts rt (f # fs) b = (case biscuitBuilder_AddAuthorityFact rt b f of
     (Some err, b') \<Rightarrow> (Some err, b') | (None, b') \<Rightarrow> add_authority_facts rt fs b')"

text \<open>Unlike \<open>blockBuilder_AddBlock\<close>, this one does not take over the scopes of the block.\<close>

definition biscuitBuilder_AddBlock ::
    "runtime \<Rightarrow> 'sk biscuitBuilder \<Rightarrow> ParsedBlock \<Rightarrow> build_error option \<times> 'sk biscuitBuilder" where
  "biscuitBuilder_AddBlock rt b block = (case add_authority_facts rt (HashSet_Iter (pb_Facts block)) b of
     (Some err, b') \<Rightarrow> (Some err, b')
   | (None, b') \<Rightarrow> (None,
       fold (\<lambda>c b. biscuitBuilder_AddAuthorityCheck b c) (pb_Checks block)
         (fold (\<lambda>r b. biscuitBuilder_AddAuthorityRule b r) (pb_Rules block) b')))"

definition biscuitBuilder_BuildWithSymbols :: "('sk, 'pk) crypto_lib \<Rightarrow> proto_lib \<Rightarrow> runtime \<Rightarrow> u8 list \<Rightarrow>
    'sk biscuitBuilder \<Rightarrow> SymbolTable \<Rightarrow> PublicKeyTable \<Rightarrow> token_error + Biscuit" where
  "biscuitBuilder_BuildWithSymbols cl pl rt rand b symbols publicKeys =
     bind_res (ok_or TokenPanic (blockBuilder_Build rt (bib_authorityBlock b) symbols publicKeys [])) (\<lambda>authorityBlock.
       newBiscuit cl pl rt rand (bib_rootKey b) symbols publicKeys
         (authorityBlock\<lparr>blk_version := DatalogVersion3_3\<rparr>) (bib_biscuitOptions b))"

definition defaultSymbolTable :: SymbolTable where
  "defaultSymbolTable = []"

definition biscuitBuilder_Build :: "('sk, 'pk) crypto_lib \<Rightarrow> proto_lib \<Rightarrow> runtime \<Rightarrow> u8 list \<Rightarrow>
    'sk biscuitBuilder \<Rightarrow> token_error + Biscuit" where
  "biscuitBuilder_Build cl pl rt rand b =
     biscuitBuilder_BuildWithSymbols cl pl rt rand b (SymbolTable_Clone defaultSymbolTable) NewPublicKeyTable"

section \<open>Reading and writing tokens\<close>

definition verifySignedBlockCryptoSizes :: "SignedBlock \<Rightarrow> token_error option" where
  "verifySignedBlockCryptoSizes sb =
     (let alg = pbk_Algorithm (sb_NextKey sb) in
      if alg = Ed25519 then
        (if length (pbk_Key (sb_NextKey sb)) \<noteq> ed25519_PublicKeySize then Some ErrInvalidKeySize
         else if length (sb_Signature sb) \<noteq> ed25519_SignatureSize then Some ErrInvalidSignatureSize else None)
      else if alg = SECP256R1 then
        (if length (pbk_Key (sb_NextKey sb)) \<noteq> 33 then Some ErrInvalidKeySize
         else if length (sb_Signature sb) > 73 then Some ErrInvalidSignatureSize else None)
      else Some UnknownSignatureAlgorithm)"

text \<open>The receiver of these two may be nil.\<close>

definition Biscuit_GetContainer :: "Biscuit option \<Rightarrow> pb_Biscuit option" where
  "Biscuit_GetContainer b = (case b of None \<Rightarrow> None | Some b \<Rightarrow> Some (bis_container b))"

definition Biscuit_GetSymbols :: "Biscuit option \<Rightarrow> SymbolTable option" where
  "Biscuit_GetSymbols b = (case b of None \<Rightarrow> None | Some b \<Rightarrow> Some (bis_symbols b))"

definition Biscuit_Serialize :: "proto_lib \<Rightarrow> Biscuit \<Rightarrow> token_error + u8 list" where
  "Biscuit_Serialize pl b = marshal_or (Marshal_Biscuit pl (bis_container b))"

text \<open>The state of the loop over the blocks: symbols, keys, registry and the blocks so far.\<close>

fun unmarshal_blocks :: "proto_lib \<Rightarrow> runtime \<Rightarrow> SignedBlock list \<Rightarrow> nat \<Rightarrow>
    SymbolTable \<Rightarrow> PublicKeyTable \<Rightarrow> SignatureRegistry \<Rightarrow> Block list \<Rightarrow>
    token_error + (SymbolTable \<times> PublicKeyTable \<times> SignatureRegistry \<times> Block list)" where
  "unmarshal_blocks pl rt [] i symbols publicKeys signatureRegistry blocks =
     Inr (symbols, publicKeys, signatureRegistry, blocks)"
| "unmarshal_blocks pl rt (sb # sbs) i symbols publicKeys signatureRegistry blocks =
     (case verifySignedBlockCryptoSizes sb of Some err \<Rightarrow> Inl err | None \<Rightarrow>
      let blockID = i + 1 in
      bind_res (unmarshal_or (Unmarshal_Block pl (sb_Block sb))) (\<lambda>pbBlock.
      bind_res (map_err ConvertErr (protoBlockToTokenBlock rt pbBlock (sb_ExternalSignature sb))) (\<lambda>tokenBlock.
      let (symbols, tokenBlock) =
            (if \<not> Block_IsThirdParty tokenBlock then (SymbolTable_Extend symbols (blk_symbols tokenBlock), tokenBlock)
             else (symbols, tokenBlock\<lparr>blk_symbols := SymbolTable_Extend (blk_symbols tokenBlock) (blk_symbols tokenBlock)\<rparr>));
          symbols = SymbolTable_Extend symbols (blk_symbols tokenBlock);
          (publicKeys, signatureRegistry) =
            Block_UpdatePublicKeys rt tokenBlock (word_of_nat blockID) publicKeys signatureRegistry
      in unmarshal_blocks pl rt sbs (i + 1) symbols publicKeys signatureRegistry (blocks @ [tokenBlock]))))"

definition Unmarshaler_Unmarshal :: "proto_lib \<Rightarrow> runtime \<Rightarrow> SymbolTable \<Rightarrow> u8 list \<Rightarrow> token_error + Biscuit" where
  "Unmarshaler_Unmarshal pl rt u_Symbols serialized =
     bind_res (unmarshal_or (Unmarshal_Biscuit pl serialized)) (\<lambda>container.
     case verifySignedBlockCryptoSizes (pbs_Authority container) of Some err \<Rightarrow> Inl err | None \<Rightarrow>
     bind_res (unmarshal_or (Unmarshal_Block pl (sb_Block (pbs_Authority container)))) (\<lambda>pbAuthority.
     bind_res (map_err ConvertErr (protoBlockToTokenBlock rt pbAuthority None)) (\<lambda>authority.
     let symbols = SymbolTable_Extend (SymbolTable_Clone u_Symbols) (blk_symbols authority);
         (publicKeys, signatureRegistry) = Block_UpdatePublicKeys rt authority 0 NewPublicKeyTable []
     in bind_res (unmarshal_blocks pl rt (pbs_Blocks container) 0 symbols publicKeys signatureRegistry [])
       (\<lambda>(symbols, publicKeys, signatureRegistry, blocks).
         Inr \<lparr>bis_authority = authority, bis_blocks = blocks, bis_symbols = symbols, bis_publicKeys = publicKeys,
           bis_container = container, bis_signatureRegistry = signatureRegistry\<rparr>))))"

definition Unmarshal :: "proto_lib \<Rightarrow> runtime \<Rightarrow> u8 list \<Rightarrow> token_error + Biscuit" where
  "Unmarshal pl rt serialized = Unmarshaler_Unmarshal pl rt (SymbolTable_Clone defaultSymbolTable) serialized"

section \<open>Reading a token\<close>

definition Biscuit_Blocks :: "Biscuit \<Rightarrow> Block list" where
  "Biscuit_Blocks b = bis_authority b # bis_blocks b"

definition Biscuit_Checks :: "Biscuit \<Rightarrow> Check list list" where
  "Biscuit_Checks b = blk_checks (bis_authority b) # map blk_checks (bis_blocks b)"

definition Biscuit_BlockCount :: "Biscuit \<Rightarrow> nat" where
  "Biscuit_BlockCount b = length (pbs_Blocks (bis_container b))"

definition Biscuit_RootKeyID :: "Biscuit \<Rightarrow> u32 option" where
  "Biscuit_RootKeyID b = pbs_RootKeyId (bis_container b)"

definition Biscuit_GetContext :: "Biscuit \<Rightarrow> string" where
  "Biscuit_GetContext b = blk_context (bis_authority b)"

definition Biscuit_RevocationIds :: "Biscuit \<Rightarrow> u8 list list" where
  "Biscuit_RevocationIds b = sb_Signature (pbs_Authority (bis_container b)) #
     map sb_Signature (pbs_Blocks (bis_container b))"

text \<open>\<open>Inr None\<close> is \<^verbatim>\<open>ErrFactNotFound\<close>.\<close>

definition Biscuit_GetBlockID :: "runtime \<Rightarrow> Biscuit \<Rightarrow> BFact \<Rightarrow> token_error + nat option" where
  "Biscuit_GetBlockID rt b f =
     bind_res (ok_or TokenPanic (BFact_convert rt f (SymbolTable_Clone (bis_symbols b)))) (\<lambda>(datalogFact, _).
       Inr (if list_ex (\<lambda>f. Fact_Equal f datalogFact) (blk_facts (bis_authority b)) then Some 0
         else map_option Suc (find_index (\<lambda>block. list_ex (\<lambda>f. Fact_Equal f datalogFact) (blk_facts block)) (bis_blocks b))))"

text \<open>The world of a token alone; its blocks trust the authorizer, the authority and themselves.\<close>

definition Biscuit_generateWorld :: "runtime \<Rightarrow> Biscuit \<Rightarrow> SymbolTable \<Rightarrow> schedule \<Rightarrow> run_error + World" where
  "Biscuit_generateWorld rt b symbols sch =
     (let world = NewWorld [];
          world = fold (\<lambda>fact w. World_AddFact rt w (NewOrigin rt 0 []) fact) (blk_facts (bis_authority b)) world;
          world = fold (\<lambda>rule w. World_AddRule rt w (NewTrustedOrigin rt) 0 rule) (blk_rules (bis_authority b)) world;
          world = fold (\<lambda>(i, block) w.
              let blockID = word_of_nat (i + 1);
                  w = fold (\<lambda>fact w. World_AddFact rt w (NewOrigin rt blockID []) fact) (blk_facts block) w
              in fold (\<lambda>rule w. World_AddRule rt w (TrustedOrigin_With rt (NewTrustedOrigin rt) [blockID]) blockID rule)
                (blk_rules block) w)
            (enumerate 0 (bis_blocks b)) world
      in case World_Run rt world symbols sch of
          (Some err, _) \<Rightarrow> Inl err
        | (None, world', _) \<Rightarrow> Inr world')"

end
