(* ===== verification/Authorizers.thy ===== *)
theory Authorizers
  imports Tokens
begin

text \<open>
  The authorizer (\<^verbatim>\<open>authorizer.go\<close>): its builder, \<^verbatim>\<open>Build\<close>, which translates the blocks of
  a token into fresh tables and fills a world, and \<^verbatim>\<open>Authorize\<close> and \<^verbatim>\<open>Query\<close>, which run the
  world and evaluate checks and policies. The tables and the world are shared by reference in the
  code; here every step returns them.
\<close>

section \<open>The builder\<close>

record authorizerBuilder =
  ab_biscuit :: "Biscuit option"
  ab_Facts :: "BFact list"
  ab_Rules :: "BRule list"
  ab_Scopes :: "BScope list"
  ab_Checks :: "BCheck list"
  ab_Policies :: "Policy list"

definition NewAuthorizerBuilder :: "Biscuit option \<Rightarrow> authorizerBuilder" where
  "NewAuthorizerBuilder biscuit = \<lparr>ab_biscuit = biscuit, ab_Facts = [], ab_Rules = [], ab_Scopes = [],
     ab_Checks = [], ab_Policies = []\<rparr>"

definition authorizerBuilder_AddFact :: "authorizerBuilder \<Rightarrow> BFact \<Rightarrow> authorizerBuilder" where
  "authorizerBuilder_AddFact ab f = ab\<lparr>ab_Facts := ab_Facts ab @ [f]\<rparr>"

definition authorizerBuilder_AddCheck :: "authorizerBuilder \<Rightarrow> BCheck \<Rightarrow> authorizerBuilder" where
  "authorizerBuilder_AddCheck ab check = ab\<lparr>ab_Checks := ab_Checks ab @ [check]\<rparr>"

definition authorizerBuilder_AddPolicy :: "authorizerBuilder \<Rightarrow> Policy \<Rightarrow> authorizerBuilder" where
  "authorizerBuilder_AddPolicy ab policy = ab\<lparr>ab_Policies := ab_Policies ab @ [policy]\<rparr>"

definition authorizerBuilder_AddScope :: "authorizerBuilder \<Rightarrow> BScope \<Rightarrow> authorizerBuilder" where
  "authorizerBuilder_AddScope ab scope = ab\<lparr>ab_Scopes := ab_Scopes ab @ [scope]\<rparr>"

definition authorizerBuilder_AddRule :: "authorizerBuilder \<Rightarrow> BRule \<Rightarrow> authorizerBuilder" where
  "authorizerBuilder_AddRule ab rule = ab\<lparr>ab_Rules := ab_Rules ab @ [rule]\<rparr>"

definition authorizerBuilder_AddBlock :: "authorizerBuilder \<Rightarrow> ParsedBlock \<Rightarrow> authorizerBuilder" where
  "authorizerBuilder_AddBlock ab block =
     (let ab = fold (\<lambda>f ab. authorizerBuilder_AddFact ab f) (HashSet_Iter (pb_Facts block)) ab;
          ab = fold (\<lambda>rule ab. authorizerBuilder_AddRule ab rule) (pb_Rules block) ab;
          ab = fold (\<lambda>check ab. authorizerBuilder_AddCheck ab check) (pb_Checks block) ab
      in fold (\<lambda>scope ab. authorizerBuilder_AddScope ab scope) (pb_Scope block) ab)"

definition authorizerBuilder_AddAuthorizer :: "authorizerBuilder \<Rightarrow> ParsedAuthorizer \<Rightarrow> authorizerBuilder" where
  "authorizerBuilder_AddAuthorizer ab a =
     fold (\<lambda>p ab. authorizerBuilder_AddPolicy ab p) (pa_Policies a) (authorizerBuilder_AddBlock ab (pa_Block a))"

section \<open>Saving and loading policies\<close>

record pb_Policy =
  ppo_Queries :: "RuleV2 list"
  ppo_Kind :: u32

record AuthorizerPolicies =
  aup_Symbols :: "string list"
  aup_Version :: "u32 option"
  aup_Facts :: "FactV2 list"
  aup_Rules :: "RuleV2 list"
  aup_Checks :: "CheckV2 list"
  aup_Policies :: "pb_Policy list"

datatype auth_error =
    ConvError conv_error
  | ProtoError pb_error
  | UnsupportedPolicyKind u8
  | UnsupportedProtoPolicyKind u32
  | UnsupportedPoliciesVersion u32
  | RunError run_error
  | QueryError apply_error
  | ChecksFailed "(nat option \<times> nat) list"   \<comment> \<open>the block, or none for the authorizer, and the index\<close>
  | ErrPolicyDenied
  | ErrNoMatchingPolicy
  | MarshalFailed
  | UnmarshalFailed

text \<open>Every element is converted and encoded before the next one.\<close>

fun encode_each :: "('a \<Rightarrow> 's \<Rightarrow> ('b \<times> 's) option) \<Rightarrow> ('b \<Rightarrow> pb_error + 'c) \<Rightarrow> 'a list \<Rightarrow> 's \<Rightarrow> auth_error + ('c list \<times> 's)" where
  "encode_each conv enc [] s = Inr ([], s)"
| "encode_each conv enc (x # xs) s = (case conv x s of
     None \<Rightarrow> Inl (ConvError ConvPanic)
   | Some (y, s1) \<Rightarrow> bind_res (map_err ProtoError (enc y)) (\<lambda>z.
       bind_res (encode_each conv enc xs s1) (\<lambda>(zs, s2). Inr (z # zs, s2))))"

definition policy_to_proto :: "runtime \<Rightarrow> Policy \<Rightarrow> tables \<Rightarrow> auth_error + (pb_Policy \<times> tables)" where
  "policy_to_proto rt policy st =
     (if pol_Kind policy \<notin> {PolicyKindAllow, PolicyKindDeny} then Inl (UnsupportedPolicyKind (pol_Kind policy))
      else bind_res (encode_each (BRule_Convert rt) tokenRuleToProtoRuleV2 (pol_Queries policy) st) (\<lambda>(protoQueries, st').
        Inr (\<lparr>ppo_Queries = protoQueries, ppo_Kind = (if pol_Kind policy = PolicyKindAllow then 0 else 1)\<rparr>, st')))"

fun policies_to_proto :: "runtime \<Rightarrow> Policy list \<Rightarrow> tables \<Rightarrow> auth_error + (pb_Policy list \<times> tables)" where
  "policies_to_proto rt [] st = Inr ([], st)"
| "policies_to_proto rt (p # ps) st = bind_res (policy_to_proto rt p st) (\<lambda>(q, st1).
     bind_res (policies_to_proto rt ps st1) (\<lambda>(qs, st2). Inr (q # qs, st2)))"

text \<open>The keys are interned, but the message has no field for them.\<close>

definition authorizerBuilder_policies_message :: "runtime \<Rightarrow> authorizerBuilder \<Rightarrow> auth_error + AuthorizerPolicies" where
  "authorizerBuilder_policies_message rt ab =
     bind_res (encode_each (BFact_convert rt) tokenFactToProtoFactV2 (ab_Facts ab) []) (\<lambda>(protoFacts, symbols).
     bind_res (encode_each (BRule_Convert rt) tokenRuleToProtoRuleV2 (ab_Rules ab) (symbols, NewPublicKeyTable)) (\<lambda>(protoRules, st1).
     bind_res (encode_each (BCheck_Convert rt) tokenCheckToProtoCheckV2 (ab_Checks ab) st1) (\<lambda>(protoChecks, st2).
     bind_res (policies_to_proto rt (ab_Policies ab) st2) (\<lambda>(protoPolicies, (symbols', publicKeys)).
       Inr \<lparr>aup_Symbols = symbols', aup_Version = Some MaxSchemaVersion, aup_Facts = protoFacts,
         aup_Rules = protoRules, aup_Checks = protoChecks, aup_Policies = protoPolicies\<rparr>))))"

definition authorizerBuilder_SerializePolicies ::
    "(AuthorizerPolicies \<Rightarrow> u8 list option) \<Rightarrow> runtime \<Rightarrow> authorizerBuilder \<Rightarrow> auth_error + u8 list" where
  "authorizerBuilder_SerializePolicies marshal rt ab =
     bind_res (authorizerBuilder_policies_message rt ab) (\<lambda>m.
       case marshal m of None \<Rightarrow> Inl MarshalFailed | Some bs \<Rightarrow> Inr bs)"

definition load_policy :: "runtime \<Rightarrow> SymbolTable \<Rightarrow> pb_Policy \<Rightarrow> auth_error + Policy" where
  "load_policy rt policySymbolTable pbPolicy =
     bind_res (if ppo_Kind pbPolicy = 0 then Inr PolicyKindAllow
       else if ppo_Kind pbPolicy = 1 then Inr PolicyKindDeny
       else Inl (UnsupportedProtoPolicyKind (ppo_Kind pbPolicy))) (\<lambda>kind.
     bind_res (traverse (\<lambda>pbRule. bind_res (map_err ProtoError (protoRuleToTokenRuleV2 rt pbRule)) (\<lambda>dlRule.
         map_err ConvError (fromDatalogRule rt policySymbolTable (Some NewPublicKeyTable) dlRule))) (ppo_Queries pbPolicy))
       (\<lambda>queries. Inr \<lparr>pol_Queries = queries, pol_Kind = kind\<rparr>))"

text \<open>Loading stops at the first error and keeps what was added before it.\<close>

fun load_each :: "('p \<Rightarrow> auth_error + 'a) \<Rightarrow> ('a \<Rightarrow> authorizerBuilder \<Rightarrow> authorizerBuilder) \<Rightarrow> 'p list \<Rightarrow> authorizerBuilder \<Rightarrow>
    auth_error option \<times> authorizerBuilder" where
  "load_each decode add [] ab = (None, ab)"
| "load_each decode add (p # ps) ab = (case decode p of
     Inl err \<Rightarrow> (Some err, ab) | Inr x \<Rightarrow> load_each decode add ps (add x ab))"

definition and_then :: "'e option \<times> 's \<Rightarrow> ('s \<Rightarrow> 'e option \<times> 's) \<Rightarrow> 'e option \<times> 's" where
  "and_then r f = (case r of (Some err, s) \<Rightarrow> (Some err, s) | (None, s) \<Rightarrow> f s)"

definition authorizerBuilder_loadPoliciesV2 ::
    "runtime \<Rightarrow> authorizerBuilder \<Rightarrow> AuthorizerPolicies \<Rightarrow> auth_error option \<times> authorizerBuilder" where
  "authorizerBuilder_loadPoliciesV2 rt ab pbPolicies =
     (let policySymbolTable = aup_Symbols pbPolicies; policyPublicKeys = NewPublicKeyTable in
     and_then (load_each (\<lambda>pbFact. bind_res (map_err ProtoError (protoFactToTokenFactV2 rt pbFact)) (\<lambda>dlFact.
         map_err ConvError (fromDatalogFact rt policySymbolTable dlFact)))
       (\<lambda>f ab. ab\<lparr>ab_Facts := ab_Facts ab @ [f]\<rparr>) (aup_Facts pbPolicies) ab) (\<lambda>ab.
     and_then (load_each (\<lambda>pbRule. bind_res (map_err ProtoError (protoRuleToTokenRuleV2 rt pbRule)) (\<lambda>dlRule.
         map_err ConvError (fromDatalogRule rt policySymbolTable (Some policyPublicKeys) dlRule)))
       (\<lambda>r ab. ab\<lparr>ab_Rules := ab_Rules ab @ [r]\<rparr>) (aup_Rules pbPolicies) ab) (\<lambda>ab.
     and_then (load_each (\<lambda>pbCheck. bind_res (map_err ProtoError (protoCheckToTokenCheckV2 rt pbCheck)) (\<lambda>dlCheck.
         map_err ConvError (fromDatalogCheck rt policySymbolTable (Some policyPublicKeys) dlCheck)))
       (\<lambda>c ab. ab\<lparr>ab_Checks := ab_Checks ab @ [c]\<rparr>) (aup_Checks pbPolicies) ab) (\<lambda>ab.
     load_each (load_policy rt policySymbolTable) (\<lambda>p ab. ab\<lparr>ab_Policies := ab_Policies ab @ [p]\<rparr>)
       (aup_Policies pbPolicies) ab))))"

definition authorizerBuilder_LoadPolicies :: "(u8 list \<Rightarrow> AuthorizerPolicies option) \<Rightarrow> runtime \<Rightarrow>
    authorizerBuilder \<Rightarrow> u8 list \<Rightarrow> auth_error option \<times> authorizerBuilder" where
  "authorizerBuilder_LoadPolicies unmarshal rt ab bs = (case unmarshal bs of
     None \<Rightarrow> (Some UnmarshalFailed, ab)
   | Some pbPolicies \<Rightarrow>
       (let version = (case aup_Version pbPolicies of None \<Rightarrow> 0 | Some v \<Rightarrow> v) in
        if version < MinSchemaVersion \<or> version > MaxSchemaVersion then (Some (UnsupportedPoliciesVersion version), ab)
        else authorizerBuilder_loadPoliciesV2 rt ab pbPolicies))"

section \<open>Build\<close>

record authorizerBuilderConfig =
  abc_world :: World
  abc_symbols :: SymbolTable
  abc_publicKeys :: PublicKeyTable
  abc_signatureRegistry :: SignatureRegistry

type_synonym AuthorizerOption = "authorizerBuilderConfig \<Rightarrow> authorizerBuilderConfig"

definition WithWorld :: "World \<Rightarrow> AuthorizerOption" where
  "WithWorld world abc = abc\<lparr>abc_world := world\<rparr>"

definition WithSymbols :: "SymbolTable \<Rightarrow> AuthorizerOption" where
  "WithSymbols symbols abc = abc\<lparr>abc_symbols := symbols\<rparr>"

definition WithPublicKeys :: "PublicKeyTable \<Rightarrow> AuthorizerOption" where
  "WithPublicKeys publicKeys abc = abc\<lparr>abc_publicKeys := publicKeys\<rparr>"

record authorizer =
  au_biscuit :: Biscuit
  au_world :: World
  au_symbols :: SymbolTable
  au_publicKeys :: PublicKeyTable
  au_signatureRegistry :: SignatureRegistry
  au_Scopes :: "Scope list"
  au_Checks :: "Check list"
  au_Policies :: "Policy list"
  au_biscuitChecks :: "Check list list"
  au_biscuitScopes :: "Scope list list"

text \<open>Reading a value with the tables of the block and converting it with the ones of the authorizer.\<close>

fun translate :: "('b \<Rightarrow> conv_error + 'a) \<Rightarrow> ('a \<Rightarrow> 's \<Rightarrow> ('b \<times> 's) option) \<Rightarrow> 'b list \<Rightarrow> 's \<Rightarrow>
    conv_error + ('b list \<times> 's)" where
  "translate read_it convert_it [] s = Inr ([], s)"
| "translate read_it convert_it (x # xs) s = bind_res (read_it x) (\<lambda>a. case convert_it a s of
       None \<Rightarrow> Inl ConvPanic
     | Some (y, s1) \<Rightarrow> bind_res (translate read_it convert_it xs s1) (\<lambda>(ys, s2). Inr (y # ys, s2)))"

record loading =
  ld_world :: World
  ld_symbols :: SymbolTable
  ld_publicKeys :: PublicKeyTable
  ld_signatureRegistry :: SignatureRegistry
  ld_Scopes :: "Scope list list"
  ld_Checks :: "Check list list"

text \<open>The symbols a block is read with; the key of a third-party block is registered for it.\<close>

definition block_tables :: "runtime \<Rightarrow> SymbolTable \<Rightarrow> nat \<Rightarrow> Block \<Rightarrow> loading \<Rightarrow>
    SymbolTable \<times> PublicKeyTable \<times> SignatureRegistry" where
  "block_tables rt biscuitSymbols i block ld = (case blk_externalSignature block of
     Some es \<Rightarrow>
       if i > 0 then
         (let (pkTableIndex, publicKeys) = PublicKeyTable_Insert (ld_publicKeys ld) (es_publicKey es)
          in (blk_symbols block, publicKeys,
            SignatureRegistry_Insert rt (ld_signatureRegistry ld) pkTableIndex [word_of_nat i]))
       else (biscuitSymbols, ld_publicKeys ld, ld_signatureRegistry ld)
   | None \<Rightarrow> (biscuitSymbols, ld_publicKeys ld, ld_signatureRegistry ld))"

definition load_block :: "runtime \<Rightarrow> SymbolTable \<Rightarrow> nat \<Rightarrow> Block \<Rightarrow> loading \<Rightarrow> conv_error + loading" where
  "load_block rt biscuitSymbols i block ld =
     (let blockID = word_of_nat i;
          (blockSymbols, publicKeys, signatureRegistry) = block_tables rt biscuitSymbols i block ld
      in
      bind_res (translate (fromDatalogScope (blk_publicKeys block)) BScope_convert (blk_scopes block) publicKeys)
        (\<lambda>(theseScopes, publicKeys).
      bind_res (translate (fromDatalogFact rt blockSymbols) (BFact_convert rt) (blk_facts block) (ld_symbols ld))
        (\<lambda>(facts, symbols).
      bind_res (translate (fromDatalogRule rt blockSymbols (blk_publicKeys block)) (BRule_Convert rt) (blk_rules block)
          (symbols, publicKeys)) (\<lambda>(rules, st).
      bind_res (translate (fromDatalogCheck rt blockSymbols (blk_publicKeys block)) (BCheck_Convert rt) (blk_checks block) st)
        (\<lambda>(theseChecks, (symbols, publicKeys)).
      let world = fold (\<lambda>f w. World_AddFact rt w (NewOrigin rt blockID []) f) facts (ld_world ld);
          world = fold (\<lambda>r w. World_AddRule rt w
            (NewTrustedOriginFromScopes rt theseScopes (elems (rule_Scopes r)) blockID signatureRegistry) blockID r) rules world
      in Inr \<lparr>ld_world = world, ld_symbols = symbols, ld_publicKeys = publicKeys, ld_signatureRegistry = signatureRegistry,
           ld_Scopes = ld_Scopes ld @ [theseScopes], ld_Checks = ld_Checks ld @ [theseChecks]\<rparr>)))))"

fun load_blocks :: "runtime \<Rightarrow> SymbolTable \<Rightarrow> nat \<Rightarrow> Block list \<Rightarrow> loading \<Rightarrow> conv_error + loading" where
  "load_blocks rt biscuitSymbols i [] ld = Inr ld"
| "load_blocks rt biscuitSymbols i (block # blocks) ld =
     bind_res (load_block rt biscuitSymbols i block ld) (load_blocks rt biscuitSymbols (i + 1) blocks)"

text \<open>A builder without a token panics: its blocks are counted before the token is tested.\<close>

definition authorizerBuilder_Build ::
    "runtime \<Rightarrow> authorizerBuilder \<Rightarrow> AuthorizerOption list \<Rightarrow> conv_error + authorizer" where
  "authorizerBuilder_Build rt ab opts = (case ab_biscuit ab of None \<Rightarrow> Inl ConvPanic | Some biscuit \<Rightarrow>
     let abc = fold (\<lambda>opt abc. opt abc) opts
           \<lparr>abc_world = \<lparr>World_Facts = [], World_Rules = [], World_runLimits = \<lparr>maxFacts = 0, maxIterations = 0, maxDuration = 0\<rparr>\<rparr>,
            abc_symbols = [], abc_publicKeys = [], abc_signatureRegistry = []\<rparr>
     in bind_res (load_blocks rt (bis_symbols biscuit) 0 (Biscuit_Blocks biscuit)
          \<lparr>ld_world = NewWorld [], ld_symbols = abc_symbols abc, ld_publicKeys = abc_publicKeys abc,
           ld_signatureRegistry = abc_signatureRegistry abc, ld_Scopes = [], ld_Checks = []\<rparr>) (\<lambda>ld.
     case thread BScope_convert (ab_Scopes ab) (ld_publicKeys ld) of None \<Rightarrow> Inl ConvPanic
     | Some (authorizerScopes, publicKeys1) \<Rightarrow>
     (case thread (BFact_convert rt) (ab_Facts ab) (ld_symbols ld) of None \<Rightarrow> Inl ConvPanic
     | Some (facts, symbols1) \<Rightarrow>
     (case thread (BRule_Convert rt) (ab_Rules ab) (symbols1, publicKeys1) of None \<Rightarrow> Inl ConvPanic
     | Some (rules, st) \<Rightarrow>
     (case thread (BCheck_Convert rt) (ab_Checks ab) st of None \<Rightarrow> Inl ConvPanic
     | Some (authorizerChecks, (symbols2, publicKeys2)) \<Rightarrow>
       (let world = fold (\<lambda>f w. World_AddFact rt w (NewOrigin rt AuthorizerBlockID []) f) facts (ld_world ld);
            world = fold (\<lambda>r w. World_AddRule rt w (NewTrustedOriginFromScopes rt authorizerScopes (elems (rule_Scopes r))
              AuthorizerBlockID (ld_signatureRegistry ld)) AuthorizerBlockID r) rules world
        in Inr \<lparr>au_biscuit = biscuit, au_world = world, au_symbols = symbols2, au_publicKeys = publicKeys2,
          au_signatureRegistry = ld_signatureRegistry ld, au_Scopes = authorizerScopes, au_Checks = authorizerChecks,
          au_Policies = ab_Policies ab, au_biscuitChecks = ld_Checks ld, au_biscuitScopes = ld_Scopes ld\<rparr>))))))"

section \<open>Authorize\<close>

text \<open>An authorizer check succeeds with its first query that derives a fact, whatever its kind.\<close>

fun check_queries :: "runtime \<Rightarrow> World \<Rightarrow> Scope list \<Rightarrow> SignatureRegistry \<Rightarrow> Rule list \<Rightarrow> SymbolTable \<Rightarrow>
    (apply_error + bool) \<times> SymbolTable" where
  "check_queries rt world scopes reg [] symbols = (Inr False, symbols)"
| "check_queries rt world scopes reg (query # queries) symbols =
     (case World_QueryRule rt world query
         (NewTrustedOriginFromScopes rt scopes (elems (rule_Scopes query)) AuthorizerBlockID reg) symbols of
        (Inl err, symbols') \<Rightarrow> (Inl err, symbols')
      | (Inr facts, symbols') \<Rightarrow>
          if length facts \<noteq> 0 then (Inr True, symbols') else check_queries rt world scopes reg queries symbols')"

fun authorizer_checks :: "runtime \<Rightarrow> World \<Rightarrow> Scope list \<Rightarrow> SignatureRegistry \<Rightarrow> nat \<Rightarrow> Check list \<Rightarrow>
    (nat option \<times> nat) list \<Rightarrow> SymbolTable \<Rightarrow> (apply_error + (nat option \<times> nat) list) \<times> SymbolTable" where
  "authorizer_checks rt world scopes reg i [] errs symbols = (Inr errs, symbols)"
| "authorizer_checks rt world scopes reg i (dlCheck # dlChecks) errs symbols =
     (case check_queries rt world scopes reg (elems (check_Queries dlCheck)) symbols of
        (Inl err, symbols') \<Rightarrow> (Inl err, symbols')
      | (Inr successful, symbols') \<Rightarrow> authorizer_checks rt world scopes reg (i + 1) dlChecks
          (if \<not> successful then errs @ [(None, i)] else errs) symbols')"

fun block_checks :: "runtime \<Rightarrow> World \<Rightarrow> SignatureRegistry \<Rightarrow> nat \<Rightarrow> Scope list \<Rightarrow> nat \<Rightarrow> Check list \<Rightarrow>
    (nat option \<times> nat) list \<Rightarrow> SymbolTable \<Rightarrow> (apply_error + (nat option \<times> nat) list) \<times> SymbolTable" where
  "block_checks rt world reg i scopes j [] errs symbols = (Inr errs, symbols)"
| "block_checks rt world reg i scopes j (dlCheck # dlChecks) errs symbols =
     (case Check_Verify rt dlCheck (World_Facts world) scopes (word_of_nat i) reg symbols of
        (Inl err, symbols') \<Rightarrow> (Inl err, symbols')
      | (Inr successful, symbols') \<Rightarrow> block_checks rt world reg i scopes (j + 1) dlChecks
          (if \<not> successful then errs @ [(Some i, j)] else errs) symbols')"

fun biscuit_checks :: "runtime \<Rightarrow> World \<Rightarrow> SignatureRegistry \<Rightarrow> nat \<Rightarrow> (Check list \<times> Scope list) list \<Rightarrow>
    (nat option \<times> nat) list \<Rightarrow> SymbolTable \<Rightarrow> (apply_error + (nat option \<times> nat) list) \<times> SymbolTable" where
  "biscuit_checks rt world reg i [] errs symbols = (Inr errs, symbols)"
| "biscuit_checks rt world reg i ((checks, scopes) # rest) errs symbols =
     (case block_checks rt world reg i scopes 0 checks errs symbols of
        (Inl err, symbols') \<Rightarrow> (Inl err, symbols')
      | (Inr errs', symbols') \<Rightarrow> biscuit_checks rt world reg (i + 1) rest errs' symbols')"

text \<open>
  The queries of one policy, with no block scopes. The result: no query matched (\<open>None\<close>), or the
  answer of the policy; a policy of an unknown kind matches without an answer.
\<close>

fun policy_queries :: "runtime \<Rightarrow> World \<Rightarrow> SignatureRegistry \<Rightarrow> u8 \<Rightarrow> BRule list \<Rightarrow> tables \<Rightarrow>
    (auth_error + auth_error option option) \<times> tables" where
  "policy_queries rt world reg kind [] st = (Inr None, st)"
| "policy_queries rt world reg kind (query # queries) st =
     (case BRule_Convert rt query st of
        None \<Rightarrow> (Inl (ConvError ConvPanic), st)
      | Some (dlQuery, (symbols, publicKeys)) \<Rightarrow>
        (case World_QueryRule rt world dlQuery
            (NewTrustedOriginFromScopes rt [] (elems (rule_Scopes dlQuery)) AuthorizerBlockID reg) symbols of
           (Inl err, symbols') \<Rightarrow> (Inl (QueryError err), (symbols', publicKeys))
         | (Inr res, symbols') \<Rightarrow>
             if length res \<noteq> 0
             then (Inr (if kind = PolicyKindAllow then Some None
                 else if kind = PolicyKindDeny then Some (Some ErrPolicyDenied) else None), (symbols', publicKeys))
             else policy_queries rt world reg kind queries (symbols', publicKeys)))"

fun policies_loop :: "runtime \<Rightarrow> World \<Rightarrow> SignatureRegistry \<Rightarrow> Policy list \<Rightarrow> tables \<Rightarrow>
    auth_error option \<times> tables" where
  "policies_loop rt world reg [] st = (Some ErrNoMatchingPolicy, st)"
| "policies_loop rt world reg (policy # policies) st =
     (case policy_queries rt world reg (pol_Kind policy) (pol_Queries policy) st of
        (Inl err, st') \<Rightarrow> (Some err, st')
      | (Inr (Some policyResult), st') \<Rightarrow> (policyResult, st')
      | (Inr None, st') \<Rightarrow> policies_loop rt world reg policies st')"

definition authorizer_Authorize :: "runtime \<Rightarrow> authorizer \<Rightarrow> schedule \<Rightarrow> auth_error option \<times> authorizer" where
  "authorizer_Authorize rt v sch =
     (case World_Run rt (au_world v) (au_symbols v) sch of
        (Some err, world, symbols) \<Rightarrow> (Some (RunError err), v\<lparr>au_world := world, au_symbols := symbols\<rparr>)
      | (None, world, symbols) \<Rightarrow>
        (let v = v\<lparr>au_world := world\<rparr> in
         case authorizer_checks rt world (au_Scopes v) (au_signatureRegistry v) 0 (au_Checks v) [] symbols of
           (Inl err, symbols1) \<Rightarrow> (Some (QueryError err), v\<lparr>au_symbols := symbols1\<rparr>)
         | (Inr errs, symbols1) \<Rightarrow>
           (case biscuit_checks rt world (au_signatureRegistry v) 0 (zip (au_biscuitChecks v) (au_biscuitScopes v)) errs symbols1 of
              (Inl err, symbols2) \<Rightarrow> (Some (QueryError err), v\<lparr>au_symbols := symbols2\<rparr>)
            | (Inr errs', symbols2) \<Rightarrow>
                if length errs' > 0 then (Some (ChecksFailed errs'), v\<lparr>au_symbols := symbols2\<rparr>)
                else
                  (case policies_loop rt world (au_signatureRegistry v) (au_Policies v) (symbols2, au_publicKeys v) of
                     (res, (symbols3, publicKeys)) \<Rightarrow>
                       (res, v\<lparr>au_symbols := symbols3, au_publicKeys := publicKeys\<rparr>)))))"

definition authorizer_Query :: "runtime \<Rightarrow> authorizer \<Rightarrow> BRule \<Rightarrow> schedule \<Rightarrow> (auth_error + BFactSet) \<times> authorizer" where
  "authorizer_Query rt v rule sch =
     (case World_Run rt (au_world v) (au_symbols v) sch of
        (Some err, world, symbols) \<Rightarrow> (Inl (RunError err), v\<lparr>au_world := world, au_symbols := symbols\<rparr>)
      | (None, world, symbols) \<Rightarrow>
        (let v = v\<lparr>au_world := world\<rparr> in
         case BRule_Convert rt rule (symbols, au_publicKeys v) of
           None \<Rightarrow> (Inl (ConvError ConvPanic), v\<lparr>au_symbols := symbols\<rparr>)
         | Some (convertedRule, (symbols1, publicKeys)) \<Rightarrow>
           (let v = v\<lparr>au_publicKeys := publicKeys\<rparr> in
            case World_QueryRule rt world convertedRule (NewTrustedOriginFromScopes rt [] (elems (rule_Scopes convertedRule))
                AuthorizerBlockID (au_signatureRegistry v)) symbols1 of
              (Inl err, symbols2) \<Rightarrow> (Inl (QueryError err), v\<lparr>au_symbols := symbols2\<rparr>)
            | (Inr facts, symbols2) \<Rightarrow>
                (case traverse (fromDatalogFact rt symbols2) (FactSet_AllFacts rt facts) of
                   Inl err \<Rightarrow> (Inl (ConvError err), v\<lparr>au_symbols := symbols2\<rparr>)
                 | Inr biscuitFacts \<Rightarrow>
                     (Inr (fold (\<lambda>f result. snd (HashSet_Insert (bfact_hash rt) BFact_Equal result f)) biscuitFacts
                        (NewBFactSet rt [])), v\<lparr>au_symbols := symbols2\<rparr>)))))"

definition authorizer_Biscuit :: "authorizer \<Rightarrow> Biscuit" where
  "authorizer_Biscuit v = au_biscuit v"

section \<open>What a query answers\<close>

text \<open>Rules and queries never leave an empty set of facts in a result: its number of origins tells
  whether there is a fact.\<close>

definition sets_nonempty :: "FactSet \<Rightarrow> bool" where
  "sets_nonempty fs \<longleftrightarrow> (\<forall>(k, s) \<in> set fs. HashSet_Iter s \<noteq> [])"

lemma HashSet_Insert_nonempty: "HashSet_Iter (snd (HashSet_Insert h eq s x)) \<noteq> []"
proof (cases "list_ex (\<lambda>e. eq e x) (bucket_at s (h x))")
  case True
  then obtain e where e: "e \<in> set (bucket_at s (h x))" by (auto simp: list_ex_iff)
  then obtain b where "map_of (buckets s) (h x) = Some b" "e \<in> set b"
    by (cases "map_of (buckets s) (h x)") (auto simp: bucket_at_def)
  then have "e \<in> hs_set s" by (force simp: HashSet_Iter_def dest: map_of_SomeD)
  then show ?thesis using True by (auto simp: HashSet_Insert_def bucket_at_def Let_def)
next
  case False
  let ?b = "bucket_at s (h x) @ [x]"
  have "(h x, ?b) \<in> set (AList.update (h x) ?b (buckets s))"
    using map_of_SomeD[of "AList.update (h x) ?b (buckets s)" "h x" ?b] by (simp add: update_conv)
  then have "x \<in> hs_set (HashSet (AList.update (h x) ?b (buckets s)) (Suc (hs_size s)))"
    unfolding HashSet_Iter_def by force
  moreover have "snd (HashSet_Insert h eq s x) = HashSet (AList.update (h x) ?b (buckets s)) (Suc (hs_size s))"
    using False by (simp add: HashSet_Insert_def bucket_at_def Let_def)
  ultimately show ?thesis by (metis empty_iff set_empty2)
qed

lemma FactSet_Insert_nonempty: "sets_nonempty fs \<Longrightarrow> sets_nonempty (FactSet_Insert rt fs o1 f)"
  using HashSet_Insert_nonempty[of "fact_hash rt" Fact_Equal]
  by (auto simp: sets_nonempty_def FactSet_Insert_def Let_def NewHashSet_def split: option.split dest!: in_update_cases)

lemma valid_matches_nonempty:
  "valid_matches_loop rt es (derive_fact rt rule o1) ms acc symbols = (Inr out, symbols') \<Longrightarrow>
    sets_nonempty acc \<Longrightarrow> sets_nonempty out"
proof (induction ms arbitrary: acc symbols)
  case (Cons r ms)
  then show ?case
    by (auto simp: derive_fact_def Let_def bind_res_eq_Inr FactSet_Insert_nonempty split: prod.splits sum.splits if_splits)
qed simp

lemma nonempty_facts: "sets_nonempty fs \<Longrightarrow> fs \<noteq> [] \<longleftrightarrow> facts_of rt fs \<noteq> {}"
proof (cases fs)
  case (Cons ks fs')
  assume "sets_nonempty fs"
  then have "HashSet_Iter (snd ks) \<noteq> []" using Cons by (auto simp: sets_nonempty_def)
  then have "hd (HashSet_Iter (snd ks)) \<in> hs_set (snd ks)" by simp
  then have "(key_blocks rt (fst ks), hd (HashSet_Iter (snd ks))) \<in> facts_of rt fs"
    unfolding keyed_rel_def Cons by force
  then show ?thesis using Cons by auto
qed simp

lemma Rule_Apply_nonempty: "Rule_Apply rt r b fs symbols = (Inr out, symbols') \<Longrightarrow> sets_nonempty out"
  using valid_matches_nonempty[of rt _ r _ _ "[]"]
  by (auto simp: Rule_Apply_def getNewFacts_def getValidMatches_def sets_nonempty_def[of "[]"] split: option.splits)

text \<open>A query of the authorizer holds when it derives a fact from what its scopes make visible.\<close>

definition query_plain :: "Rule \<Rightarrow> bool" where
  "query_plain q \<longleftrightarrow> head_atomic q \<and> exprs_pure (elems (rule_Expressions q))"

definition query_holds :: "runtime \<Rightarrow> relation \<Rightarrow> Scope list \<Rightarrow> SignatureRegistry \<Rightarrow> SymbolTable \<Rightarrow> Rule \<Rightarrow> bool" where
  "query_holds rt R scopes reg symbols q \<longleftrightarrow>
     rule_derives rt AuthorizerBlockID q (visible R scopes AuthorizerBlockID reg q) symbols \<noteq> {}"

lemma QueryRule_holds:
  assumes "facts_ground rt (World_Facts w)" "query_plain q"
    and "World_QueryRule rt w q (NewTrustedOriginFromScopes rt scopes (elems (rule_Scopes q)) AuthorizerBlockID reg) symbols =
      (Inr out, symbols')"
  shows "symbols' = symbols \<and> (length out \<noteq> 0 \<longleftrightarrow> query_holds rt (facts_of rt (World_Facts w)) scopes reg symbols q)"
proof -
  let ?gs = "FactSet_WithOrigin rt (World_Facts w)
    (NewTrustedOriginFromScopes rt scopes (elems (rule_Scopes q)) AuthorizerBlockID reg)"
  have run: "Rule_Apply rt q AuthorizerBlockID ?gs symbols = (Inr out, symbols')"
    using assms(3) by (simp add: World_QueryRule_def)
  have q: "head_atomic q" "exprs_pure (elems (rule_Expressions q))" using assms(2) by (simp_all add: query_plain_def)
  have gs: "facts_ground rt ?gs" "facts_of rt ?gs = visible (facts_of rt (World_Facts w)) scopes AuthorizerBlockID reg q"
    using visible_facts[OF assms(1) refl] by blast+
  have "facts_of rt out = rule_derives rt AuthorizerBlockID q (visible (facts_of rt (World_Facts w)) scopes AuthorizerBlockID reg q) symbols"
    using Rule_Apply_exact_facts[OF gs(1) q run] gs(2) by simp
  moreover have "symbols' = symbols" by (rule Rule_Apply_pure[OF q(2) run])
  ultimately show ?thesis
    using nonempty_facts[OF Rule_Apply_nonempty[OF run], of rt] by (simp add: query_holds_def)
qed

section \<open>What Authorize decides\<close>

text \<open>The meaning of a check of a block, over the facts of a run.\<close>

definition check_meaning :: "runtime \<Rightarrow> relation \<Rightarrow> Scope list \<Rightarrow> u64 \<Rightarrow> SignatureRegistry \<Rightarrow> SymbolTable \<Rightarrow> Check \<Rightarrow> bool" where
  "check_meaning rt R scopes b reg symbols c = (case check_Kind c of
      CheckOne \<Rightarrow> (\<exists>q \<in> set (elems (check_Queries c)). check_spec rt CheckOne R scopes b reg symbols q)
    | CheckKindOther _ \<Rightarrow> True
    | kind \<Rightarrow> (\<forall>q \<in> set (elems (check_Queries c)). check_spec rt kind R scopes b reg symbols q))"

text \<open>The meaning of a check of the authorizer: one of its queries holds, whatever its kind.\<close>

definition authorizer_check_meaning :: "runtime \<Rightarrow> relation \<Rightarrow> Scope list \<Rightarrow> SignatureRegistry \<Rightarrow> SymbolTable \<Rightarrow> Check \<Rightarrow> bool" where
  "authorizer_check_meaning rt R scopes reg symbols c =
     (\<exists>q \<in> set (elems (check_Queries c)). query_holds rt R scopes reg symbols q)"

definition failing :: "('a \<Rightarrow> bool) \<Rightarrow> 'b \<Rightarrow> nat \<Rightarrow> 'a list \<Rightarrow> ('b \<times> nat) list" where
  "failing holds tag i xs = map (\<lambda>(k, _). (tag, k)) (filter (\<lambda>(_, c). \<not> holds c) (enumerate i xs))"

lemma failing_simps [simp]:
  "failing holds tag i [] = []"
  "failing holds tag i (x # xs) = (if holds x then [] else [(tag, i)]) @ failing holds tag (Suc i) xs"
  by (simp_all add: failing_def)

text \<open>The queries of a policy up to the first that holds, and the tables they leave.\<close>

fun policy_scan :: "runtime \<Rightarrow> relation \<Rightarrow> SignatureRegistry \<Rightarrow> BRule list \<Rightarrow> tables \<Rightarrow> bool \<times> tables" where
  "policy_scan rt R reg [] st = (False, st)"
| "policy_scan rt R reg (q # qs) st = (case BRule_Convert rt q st of
      None \<Rightarrow> (False, st)
    | Some (dl, st') \<Rightarrow> if query_holds rt R [] reg (fst st') dl then (True, st') else policy_scan rt R reg qs st')"

text \<open>The first policy of a known kind with a query that holds decides.\<close>

fun first_policy :: "runtime \<Rightarrow> relation \<Rightarrow> SignatureRegistry \<Rightarrow> Policy list \<Rightarrow> tables \<Rightarrow> auth_error option" where
  "first_policy rt R reg [] st = Some ErrNoMatchingPolicy"
| "first_policy rt R reg (p # ps) st = (let (matches, st') = policy_scan rt R reg (pol_Queries p) st in
     if matches \<and> pol_Kind p = PolicyKindAllow then None
     else if matches \<and> pol_Kind p = PolicyKindDeny then Some ErrPolicyDenied
     else first_policy rt R reg ps st')"

fun failing_blocks :: "runtime \<Rightarrow> relation \<Rightarrow> SignatureRegistry \<Rightarrow> SymbolTable \<Rightarrow> nat \<Rightarrow> (Check list \<times> Scope list) list \<Rightarrow>
    (nat option \<times> nat) list" where
  "failing_blocks rt R reg symbols i [] = []"
| "failing_blocks rt R reg symbols i ((checks, scopes) # rest) =
     failing (check_meaning rt R scopes (word_of_nat i) reg symbols) (Some i) 0 checks @
     failing_blocks rt R reg symbols (i + 1) rest"

text \<open>The specification of \<^verbatim>\<open>Authorize\<close> on the facts \<open>R\<close>: all failing checks, or the decision of the policies.\<close>

definition authorization :: "runtime \<Rightarrow> authorizer \<Rightarrow> relation \<Rightarrow> auth_error option" where
  "authorization rt v R =
     (let symbols = au_symbols v; reg = au_signatureRegistry v;
          failed = failing (authorizer_check_meaning rt R (au_Scopes v) reg symbols) None 0 (au_Checks v) @
            failing_blocks rt R reg symbols 0 (zip (au_biscuitChecks v) (au_biscuitScopes v))
      in if failed \<noteq> [] then Some (ChecksFailed failed)
         else first_policy rt R reg (au_Policies v) (symbols, au_publicKeys v))"

subsection \<open>Expressions of policies\<close>

definition bquery_plain :: "BRule \<Rightarrow> bool" where
  "bquery_plain r \<longleftrightarrow> (\<forall>t \<in> set (bp_IDs (br_Head r)). bterm_atomic t) \<and>
     (\<forall>e \<in> set (br_Expressions r). BBinaryOp 10 \<notin> set e)"

lemma term_convert_atomic: "bterm_atomic t \<Longrightarrow> BTerm_convert rt t s = Some (y, s') \<Longrightarrow> is_atomic y"
  by (cases t) (auto split: prod.splits)

lemma op_convert_Add: "x \<noteq> BBinaryOp 10 \<Longrightarrow> BOp_convert rt x s = Some (y, s') \<Longrightarrow> y \<noteq> BinaryOp Add"
  by (cases x) (auto simp: BBinaryOp_convert_def split: option.splits if_splits)

lemma bquery_plain_convert:
  assumes "bquery_plain r" "BRule_Convert rt r st = Some (q, st')"
  shows "query_plain q"
proof (cases st; cases st')
  fix s k s' k' assume st: "st = (s, k)" "st' = (s', k')"
  show ?thesis
  proof (rule BRule_Convert_parts[OF assms(2)[unfolded st]])
    fix s1 es s2 h
    assume e: "thread (BExpression_convert rt) (br_Expressions r) s1 = Some (es, s2)" "elems (rule_Expressions q) = es"
      and h: "BPredicate_convert rt (br_Head r) s2 = Some (h, s')" "rule_Head q = h"
    have "\<forall>e \<in> set es. adds (elems e) = 0"
    proof (rule thread_forall[OF _ e(1)], intro ballI allI impI)
      fix x s y s' assume x: "x \<in> set (br_Expressions r)" "BExpression_convert rt x s = Some (y, s')"
      then obtain ops where o: "thread (BOp_convert rt) x s = Some (ops, s')" "y = Some ops"
        by (auto simp: BExpression_convert_def)
      have "BBinaryOp 10 \<notin> set x" using assms(1) x(1) by (simp add: bquery_plain_def)
      then have "\<forall>u \<in> set x. \<forall>s y s'. BOp_convert rt u s = Some (y, s') \<longrightarrow> y \<noteq> BinaryOp Add"
        using op_convert_Add by metis
      from thread_forall[OF this o(1)] show "adds (elems y) = 0" using o(2) by (simp add: adds_def filter_empty_conv)
    qed
    moreover obtain ids s3 where i: "thread (BTerm_convert rt) (bp_IDs (br_Head r)) s2 = Some (ids, s3)" "pred_Terms h = Some ids"
      using h(1) by (auto simp: BPredicate_convert_def split: option.splits prod.splits)
    have "\<forall>t \<in> set (bp_IDs (br_Head r)). \<forall>s y s'. BTerm_convert rt t s = Some (y, s') \<longrightarrow> is_atomic y"
      using assms(1) term_convert_atomic unfolding bquery_plain_def by blast
    from thread_forall[OF this i(1)] have "\<forall>t \<in> set ids. is_atomic t" .
    ultimately show ?thesis using e(2) h(2) i(2) by (simp add: query_plain_def head_atomic_def exprs_pure_def)
  qed
qed

subsection \<open>The loops compute the specification\<close>

definition check_plain :: "Check \<Rightarrow> bool" where
  "check_plain c \<longleftrightarrow> (\<forall>q \<in> set (elems (check_Queries c)). query_plain q)"

lemma check_queries_spec:
  assumes "facts_ground rt (World_Facts w)"
  shows "\<forall>q \<in> set qs. query_plain q \<Longrightarrow> check_queries rt w scopes reg qs symbols = (Inr b, symbols') \<Longrightarrow>
    symbols' = symbols \<and> (b \<longleftrightarrow> (\<exists>q \<in> set qs. query_holds rt (facts_of rt (World_Facts w)) scopes reg symbols q))"
proof (induction qs)
  case (Cons q qs)
  obtain out s1 where r: "World_QueryRule rt w q
      (NewTrustedOriginFromScopes rt scopes (elems (rule_Scopes q)) AuthorizerBlockID reg) symbols = (Inr out, s1)"
    using Cons.prems(2) by (auto split: prod.splits sum.splits)
  have "s1 = symbols \<and> (length out \<noteq> 0 \<longleftrightarrow> query_holds rt (facts_of rt (World_Facts w)) scopes reg symbols q)"
    by (rule QueryRule_holds[OF assms _ r]) (use Cons.prems(1) in simp)
  then show ?case using Cons r by (auto split: if_splits)
qed simp

lemma authorizer_checks_spec:
  assumes "facts_ground rt (World_Facts w)"
  shows "\<forall>c \<in> set cs. check_plain c \<Longrightarrow> authorizer_checks rt w scopes reg i cs errs symbols = (Inr errs', symbols') \<Longrightarrow>
    symbols' = symbols \<and>
    errs' = errs @ failing (authorizer_check_meaning rt (facts_of rt (World_Facts w)) scopes reg symbols) None i cs"
proof (induction cs arbitrary: i errs)
  case (Cons c cs)
  obtain b s1 where r: "check_queries rt w scopes reg (elems (check_Queries c)) symbols = (Inr b, s1)"
    using Cons.prems(2) by (auto split: prod.splits sum.splits)
  have "s1 = symbols \<and> (b \<longleftrightarrow> authorizer_check_meaning rt (facts_of rt (World_Facts w)) scopes reg symbols c)"
    using check_queries_spec[OF assms _ r] Cons.prems(1) by (simp add: check_plain_def authorizer_check_meaning_def)
  then show ?case using Cons.IH Cons.prems r by fastforce
qed simp

lemma Check_Verify_meaning:
  assumes "facts_ground rt fs" "check_plain c" "Check_Verify rt c fs bs b reg symbols = (Inr res, symbols')"
  shows "symbols' = symbols \<and> (res \<longleftrightarrow> check_meaning rt (facts_of rt fs) bs b reg symbols c)"
proof -
  have "\<forall>q \<in> set (elems (check_Queries c)). exprs_pure (elems (rule_Expressions q))"
    using assms(2) by (simp add: check_plain_def query_plain_def)
  from verify_queries_spec[OF assms(1) this assms(3)[unfolded Check_Verify_def]] show ?thesis
    by (cases "check_Kind c") (simp_all add: check_meaning_def)
qed

lemma block_checks_spec:
  assumes "facts_ground rt (World_Facts w)"
  shows "\<forall>c \<in> set cs. check_plain c \<Longrightarrow> block_checks rt w reg i scopes j cs errs symbols = (Inr errs', symbols') \<Longrightarrow>
    symbols' = symbols \<and>
    errs' = errs @ failing (check_meaning rt (facts_of rt (World_Facts w)) scopes (word_of_nat i) reg symbols) (Some i) j cs"
proof (induction cs arbitrary: j errs)
  case (Cons c cs)
  obtain b s1 where r: "Check_Verify rt c (World_Facts w) scopes (word_of_nat i) reg symbols = (Inr b, s1)"
    using Cons.prems(2) by (auto split: prod.splits sum.splits)
  have "s1 = symbols \<and> (b \<longleftrightarrow> check_meaning rt (facts_of rt (World_Facts w)) scopes (word_of_nat i) reg symbols c)"
    by (rule Check_Verify_meaning[OF assms _ r]) (use Cons.prems(1) in simp)
  then show ?case using Cons.IH Cons.prems r by fastforce
qed simp

lemma biscuit_checks_spec:
  assumes "facts_ground rt (World_Facts w)"
  shows "\<forall>(cs, scopes) \<in> set bs. \<forall>c \<in> set cs. check_plain c \<Longrightarrow>
    biscuit_checks rt w reg i bs errs symbols = (Inr errs', symbols') \<Longrightarrow>
    symbols' = symbols \<and> errs' = errs @ failing_blocks rt (facts_of rt (World_Facts w)) reg symbols i bs"
proof (induction bs arbitrary: i errs)
  case (Cons cb bs)
  obtain cs scopes where cb: "cb = (cs, scopes)" by fastforce
  then obtain es s1 where r: "block_checks rt w reg i scopes 0 cs errs symbols = (Inr es, s1)"
    using Cons.prems(2) by (auto split: prod.splits sum.splits)
  have "s1 = symbols \<and> es = errs @ failing (check_meaning rt (facts_of rt (World_Facts w)) scopes (word_of_nat i) reg symbols) (Some i) 0 cs"
    by (rule block_checks_spec[OF assms _ r]) (use Cons.prems(1) cb in auto)
  then show ?case using Cons.IH[of "i + 1" es] Cons.prems r cb by simp
qed simp

lemma policy_queries_spec:
  assumes "facts_ground rt (World_Facts w)"
  shows "\<forall>q \<in> set qs. bquery_plain q \<Longrightarrow> policy_queries rt w reg kind qs st = (Inr res, st') \<Longrightarrow>
    (\<exists>m. policy_scan rt (facts_of rt (World_Facts w)) reg qs st = (m, st') \<and>
      res = (if m \<and> kind = PolicyKindAllow then Some None else if m \<and> kind = PolicyKindDeny then Some (Some ErrPolicyDenied) else None))"
proof (induction qs arbitrary: st)
  case (Cons q qs)
  obtain dl symbols keys where c: "BRule_Convert rt q st = Some (dl, (symbols, keys))"
    using Cons.prems(2) by (auto split: option.splits)
  have dl: "query_plain dl" by (rule bquery_plain_convert[OF _ c]) (use Cons.prems(1) in simp)
  obtain out s1 where r: "World_QueryRule rt w dl
      (NewTrustedOriginFromScopes rt [] (elems (rule_Scopes dl)) AuthorizerBlockID reg) symbols = (Inr out, s1)"
    using Cons.prems(2) c by (auto split: prod.splits sum.splits)
  have "s1 = symbols \<and> (length out \<noteq> 0 \<longleftrightarrow> query_holds rt (facts_of rt (World_Facts w)) [] reg symbols dl)"
    by (rule QueryRule_holds[OF assms dl r])
  then have s1: "s1 = symbols" and h: "length out \<noteq> 0 \<longleftrightarrow> query_holds rt (facts_of rt (World_Facts w)) [] reg symbols dl"
    by simp_all
  show ?case
  proof (cases "length out \<noteq> 0")
    case True
    then have "st' = (symbols, keys)" "res = (if kind = PolicyKindAllow then Some None
        else if kind = PolicyKindDeny then Some (Some ErrPolicyDenied) else None)"
      using Cons.prems(2) c r s1 by simp_all
    then show ?thesis using True h c by (intro exI[of _ True]) simp
  next
    case False
    then have "policy_queries rt w reg kind qs (symbols, keys) = (Inr res, st')" using Cons.prems(2) c r s1 by simp
    from Cons.IH[OF _ this] Cons.prems(1) have "\<exists>m. policy_scan rt (facts_of rt (World_Facts w)) reg qs (symbols, keys) = (m, st') \<and>
      res = (if m \<and> kind = PolicyKindAllow then Some None else if m \<and> kind = PolicyKindDeny then Some (Some ErrPolicyDenied) else None)"
      by simp
    moreover have "policy_scan rt (facts_of rt (World_Facts w)) reg (q # qs) st = policy_scan rt (facts_of rt (World_Facts w)) reg qs (symbols, keys)"
      using False h c by simp
    ultimately show ?thesis by metis
  qed
qed (intro exI[of _ False], simp)

lemma policy_queries_error:
  "policy_queries rt w reg kind qs st = (Inl e, st') \<Longrightarrow> (\<exists>x. e = QueryError x) \<or> (\<exists>x. e = ConvError x)"
  by (induction qs arbitrary: st) (auto split: option.splits prod.splits sum.splits if_splits)

definition not_an_error :: "auth_error option \<Rightarrow> bool" where
  "not_an_error res \<longleftrightarrow> (\<forall>e. res \<noteq> Some (RunError e)) \<and> (\<forall>e. res \<noteq> Some (QueryError e)) \<and> (\<forall>e. res \<noteq> Some (ConvError e))"

lemma policies_loop_spec:
  assumes "facts_ground rt (World_Facts w)"
  shows "\<forall>p \<in> set ps. \<forall>q \<in> set (pol_Queries p). bquery_plain q \<Longrightarrow> policies_loop rt w reg ps st = (res, st') \<Longrightarrow>
    not_an_error res \<Longrightarrow> res = first_policy rt (facts_of rt (World_Facts w)) reg ps st"
proof (induction ps arbitrary: st)
  case (Cons p ps)
  obtain r s1 where r: "policy_queries rt w reg (pol_Kind p) (pol_Queries p) st = (r, s1)"
    by (cases "policy_queries rt w reg (pol_Kind p) (pol_Queries p) st")
  show ?case
  proof (cases r)
    case (Inl e)
    then have "res = Some e" using Cons.prems(2) r by simp
    then show ?thesis using policy_queries_error[OF r[unfolded Inl]] Cons.prems(3) by (auto simp: not_an_error_def)
  next
    case (Inr d)
    have "\<forall>q \<in> set (pol_Queries p). bquery_plain q" using Cons.prems(1) by simp
    from policy_queries_spec[OF assms this r[unfolded Inr]]
    obtain m where m: "policy_scan rt (facts_of rt (World_Facts w)) reg (pol_Queries p) st = (m, s1)"
      "d = (if m \<and> pol_Kind p = PolicyKindAllow then Some None
        else if m \<and> pol_Kind p = PolicyKindDeny then Some (Some ErrPolicyDenied) else None)"
      by blast
    have l: "policies_loop rt w reg (p # ps) st = (case d of Some pr \<Rightarrow> (pr, s1) | None \<Rightarrow> policies_loop rt w reg ps s1)"
      using r Inr by (simp split: option.split)
    show ?thesis
    proof (cases d)
      case None
      then have "res = first_policy rt (facts_of rt (World_Facts w)) reg ps s1"
        using Cons.IH[of s1] Cons.prems l by simp
      then show ?thesis using m None by (auto split: if_splits)
    next
      case (Some pr)
      then show ?thesis using m l Cons.prems(2) by (auto split: if_splits)
    qed
  qed
qed simp

text \<open>What the run and the queries of an authorizer need: ground facts, no string concatenation.\<close>

definition authorizer_plain :: "runtime \<Rightarrow> authorizer \<Rightarrow> bool" where
  "authorizer_plain rt v \<longleftrightarrow> facts_ground rt (World_Facts (au_world v)) \<and> rules_plain rt (World_Rules (au_world v)) \<and>
     (\<forall>c \<in> set (au_Checks v). check_plain c) \<and> (\<forall>cs \<in> set (au_biscuitChecks v). \<forall>c \<in> set cs. check_plain c) \<and>
     (\<forall>p \<in> set (au_Policies v). \<forall>q \<in> set (pol_Queries p). bquery_plain q)"

definition authorizer_model :: "runtime \<Rightarrow> authorizer \<Rightarrow> relation" where
  "authorizer_model rt v = model rt (rules_of rt (World_Rules (au_world v))) (au_symbols v) (facts_of rt (World_Facts (au_world v)))"

lemma Authorize_spec:
  assumes "authorizer_plain rt v" and "authorizer_Authorize rt v sch = (res, v')" and "not_an_error res"
  shows "res = authorization rt v (authorizer_model rt v)"
proof -
  obtain r w s where run: "World_Run rt (au_world v) (au_symbols v) sch = (r, w, s)" by (metis prod_cases3)
  have r: "r = None"
  proof (cases r)
    case (Some e)
    then have "res = Some (RunError e)" using assms(2) run by (simp add: authorizer_Authorize_def)
    then show ?thesis using assms(3) by (simp add: not_an_error_def)
  qed
  have p: "facts_ground rt (World_Facts (au_world v))" "rules_plain rt (World_Rules (au_world v))"
    using assms(1) by (simp_all add: authorizer_plain_def)
  have m: "facts_of rt (World_Facts w) = authorizer_model rt v" "facts_ground rt (World_Facts w)" "s = au_symbols v"
    using World_Run_model[OF p run[unfolded r]] by (simp_all add: authorizer_model_def)
  let ?symbols = "au_symbols v" and ?reg = "au_signatureRegistry v" and ?R = "authorizer_model rt v"
  obtain a s1 where a: "authorizer_checks rt w (au_Scopes v) ?reg 0 (au_Checks v) [] ?symbols = (a, s1)" by fastforce
  then obtain errs where errs: "a = Inr errs"
    using assms(2,3) run r m(3) by (cases a) (auto simp: authorizer_Authorize_def not_an_error_def)
  have ac: "s1 = ?symbols \<and> errs = failing (authorizer_check_meaning rt ?R (au_Scopes v) ?reg ?symbols) None 0 (au_Checks v)"
    using authorizer_checks_spec[OF m(2) _ a[unfolded errs]] assms(1) m(1) by (simp add: authorizer_plain_def)
  obtain b s2 where b: "biscuit_checks rt w ?reg 0 (zip (au_biscuitChecks v) (au_biscuitScopes v)) errs ?symbols = (b, s2)" by fastforce
  then obtain errs' where errs': "b = Inr errs'"
    using assms(2,3) run r m(3) a errs ac by (cases b) (auto simp: authorizer_Authorize_def not_an_error_def)
  have "\<forall>(cs, scopes) \<in> set (zip (au_biscuitChecks v) (au_biscuitScopes v)). \<forall>c \<in> set cs. check_plain c"
    using assms(1) by (auto simp: authorizer_plain_def dest: set_zip_leftD)
  from biscuit_checks_spec[OF m(2) this b[unfolded errs']]
  have bc: "s2 = ?symbols" "errs' = errs @ failing_blocks rt ?R ?reg ?symbols 0 (zip (au_biscuitChecks v) (au_biscuitScopes v))"
    using m(1) by simp_all
  show ?thesis
  proof (cases "errs' = []")
    case False
    then have "res = Some (ChecksFailed errs')"
      using assms(2) run r m(3) a errs ac b errs' bc(1) by (auto simp: authorizer_Authorize_def)
    then show ?thesis using False bc(2) ac by (simp add: authorization_def Let_def)
  next
    case True
    obtain pr st where l: "policies_loop rt w ?reg (au_Policies v) (?symbols, au_publicKeys v) = (pr, st)"
      by (cases "policies_loop rt w ?reg (au_Policies v) (?symbols, au_publicKeys v)")
    then have pr: "pr = res"
      using assms(2) run r m(3) a errs ac b errs' bc(1) True by (auto simp: authorizer_Authorize_def split: prod.splits)
    have "pr = first_policy rt ?R ?reg (au_Policies v) (?symbols, au_publicKeys v)"
      using policies_loop_spec[OF m(2) _ l] assms(1,3) m(1) pr by (simp add: authorizer_plain_def)
    then show ?thesis using True bc(2) ac pr by (simp add: authorization_def Let_def)
  qed
qed

text \<open>Queries without expressions whose head variables occur in the body cannot fail.\<close>

definition query_safe :: "Rule \<Rightarrow> bool" where
  "query_safe q \<longleftrightarrow> head_atomic q \<and> rule_safe q \<and> elems (rule_Expressions q) = []"

definition policy_safe :: "Policy \<Rightarrow> bool" where
  "policy_safe p \<longleftrightarrow> (\<forall>q \<in> set (pol_Queries p). brule_plain q \<and> bp_IDs (br_Head q) = [] \<and> br_Expressions q = [])"

definition authorizer_safe :: "runtime \<Rightarrow> authorizer \<Rightarrow> bool" where
  "authorizer_safe rt v \<longleftrightarrow> facts_ground rt (World_Facts (au_world v)) \<and> rules_safe rt (World_Rules (au_world v)) \<and>
     (\<forall>c \<in> set (au_Checks v) \<union> \<Union> (set ` set (au_biscuitChecks v)). \<forall>q \<in> set (elems (check_Queries c)). query_safe q) \<and>
     (\<forall>p \<in> set (au_Policies v). policy_safe p)"

lemma query_safe_plain: "query_safe q \<Longrightarrow> query_plain q"
  by (simp add: query_safe_def query_plain_def exprs_pure_def)

lemma policy_safe_plain: "policy_safe p \<Longrightarrow> q \<in> set (pol_Queries p) \<Longrightarrow> bquery_plain q"
  by (auto simp: policy_safe_def bquery_plain_def)

lemma authorizer_safe_plain: "authorizer_safe rt v \<Longrightarrow> authorizer_plain rt v"
  using rules_safe_plain query_safe_plain policy_safe_plain
  by (fastforce simp: authorizer_safe_def authorizer_plain_def check_plain_def)

lemma QueryRule_returns:
  assumes "facts_ground rt (World_Facts w)" "query_safe q"
  shows "\<exists>out. World_QueryRule rt w q (NewTrustedOriginFromScopes rt scopes (elems (rule_Scopes q)) AuthorizerBlockID reg) symbols =
    (Inr out, symbols)"
proof -
  let ?gs = "FactSet_WithOrigin rt (World_Facts w)
    (NewTrustedOriginFromScopes rt scopes (elems (rule_Scopes q)) AuthorizerBlockID reg)"
  have "facts_ground rt ?gs" using visible_facts[OF assms(1) refl] by blast
  then obtain out s where run: "Rule_Apply rt q AuthorizerBlockID ?gs symbols = (Inr out, s)"
    using Rule_Apply_returns[of rt ?gs q AuthorizerBlockID symbols] assms(2) by (auto simp: query_safe_def rule_safe_def)
  moreover have "exprs_pure (elems (rule_Expressions q))" using assms(2) by (simp add: query_safe_def exprs_pure_def)
  ultimately show ?thesis
    using Rule_Apply_pure[OF _ run] by (simp add: World_QueryRule_def)
qed

lemma checks_return:
  assumes "facts_ground rt (World_Facts w)"
  shows "\<forall>q \<in> set qs. query_safe q \<Longrightarrow> \<exists>b. check_queries rt w scopes reg qs symbols = (Inr b, symbols)"
    and "\<forall>c \<in> set cs. \<forall>q \<in> set (elems (check_Queries c)). query_safe q \<Longrightarrow>
      \<exists>e. authorizer_checks rt w scopes reg i cs errs symbols = (Inr e, symbols)"
    and "\<forall>c \<in> set cs. \<forall>q \<in> set (elems (check_Queries c)). query_safe q \<Longrightarrow>
      \<exists>e. block_checks rt w reg k scopes j cs errs symbols = (Inr e, symbols)"
proof -
  have qs: "\<forall>q \<in> set qs. query_safe q \<Longrightarrow> \<exists>b. check_queries rt w scopes reg qs symbols = (Inr b, symbols)" for qs
  proof (induction qs)
    case (Cons q qs)
    then show ?case using QueryRule_returns[OF assms, of q scopes reg symbols] by auto
  qed (intro exI[of _ False], simp)
  then show "\<forall>q \<in> set qs. query_safe q \<Longrightarrow> \<exists>b. check_queries rt w scopes reg qs symbols = (Inr b, symbols)" .
  show "\<forall>c \<in> set cs. \<forall>q \<in> set (elems (check_Queries c)). query_safe q \<Longrightarrow>
      \<exists>e. authorizer_checks rt w scopes reg i cs errs symbols = (Inr e, symbols)"
  proof (induction cs arbitrary: i errs)
    case (Cons c cs)
    then obtain b where "check_queries rt w scopes reg (elems (check_Queries c)) symbols = (Inr b, symbols)"
      using qs[of "elems (check_Queries c)"] by auto
    then show ?case using Cons by simp
  qed simp
  show "\<forall>c \<in> set cs. \<forall>q \<in> set (elems (check_Queries c)). query_safe q \<Longrightarrow>
      \<exists>e. block_checks rt w reg k scopes j cs errs symbols = (Inr e, symbols)"
  proof (induction cs arbitrary: j errs)
    case (Cons c cs)
    have "\<forall>q \<in> set (elems (check_Queries c)). elems (rule_Expressions q) = []"
      using Cons.prems by (simp add: query_safe_def)
    then obtain b where "Check_Verify rt c (World_Facts w) scopes (word_of_nat k) reg symbols = (Inr b, symbols)"
      using no_expressions_verify[OF assms] unfolding Check_Verify_def by blast
    then show ?case using Cons by simp
  qed simp
qed

lemma biscuit_checks_return:
  assumes "facts_ground rt (World_Facts w)"
  shows "\<forall>(cs, scopes) \<in> set bs. \<forall>c \<in> set cs. \<forall>q \<in> set (elems (check_Queries c)). query_safe q \<Longrightarrow>
    \<exists>e. biscuit_checks rt w reg i bs errs symbols = (Inr e, symbols)"
proof (induction bs arbitrary: i errs)
  case (Cons cb bs)
  obtain cs scopes where cb: "cb = (cs, scopes)" by fastforce
  obtain e where "block_checks rt w reg i scopes 0 cs errs symbols = (Inr e, symbols)"
    using checks_return(3)[OF assms, of cs reg i scopes 0 errs symbols] Cons.prems cb by auto
  then show ?case using Cons cb by simp
qed simp

lemma policy_queries_return:
  assumes "facts_ground rt (World_Facts w)"
  shows "\<forall>q \<in> set qs. brule_plain q \<and> bp_IDs (br_Head q) = [] \<and> br_Expressions q = [] \<Longrightarrow>
    \<exists>r st'. policy_queries rt w reg kind qs st = (Inr r, st')"
proof (induction qs arbitrary: st)
  case (Cons q qs)
  have q: "brule_plain q" "bp_IDs (br_Head q) = []" "br_Expressions q = []" using Cons.prems by simp_all
  obtain dl st1 where "BRule_Convert rt q st = Some (dl, st1)" using rule_interning.conv_returns[OF q(1)] by fastforce
  then obtain s k where dl: "BRule_Convert rt q st = Some (dl, (s, k))" by (cases st1) auto
  have "query_safe dl"
    using dl q(2,3) by (cases st) (auto simp: BRule_Convert_def BPredicate_convert_def query_safe_def head_atomic_def rule_safe_def
      pred_vars_def split: option.splits prod.splits)
  then obtain out where "World_QueryRule rt w dl
      (NewTrustedOriginFromScopes rt [] (elems (rule_Scopes dl)) AuthorizerBlockID reg) s = (Inr out, s)"
    using QueryRule_returns[OF assms] by blast
  then show ?case using Cons dl by auto
qed simp

lemma policies_return:
  assumes "facts_ground rt (World_Facts w)"
  shows "\<forall>p \<in> set ps. policy_safe p \<Longrightarrow> not_an_error (fst (policies_loop rt w reg ps st))"
proof (induction ps arbitrary: st)
  case (Cons p ps)
  have "\<forall>q \<in> set (pol_Queries p). brule_plain q \<and> bp_IDs (br_Head q) = [] \<and> br_Expressions q = []"
    using Cons.prems by (simp add: policy_safe_def)
  from policy_queries_return[OF assms this]
  obtain r st' where r: "policy_queries rt w reg (pol_Kind p) (pol_Queries p) st = (Inr r, st')" by blast
  have "r = Some x \<Longrightarrow> not_an_error x" for x
    using policy_queries_spec[OF assms _ r] Cons.prems policy_safe_plain[of p]
    by (auto simp: not_an_error_def split: if_splits)
  then show ?case using Cons r by (auto split: option.split)
qed (simp add: not_an_error_def)

lemma Authorize_returns:
  assumes "authorizer_safe rt v" and "fst (World_Run rt (au_world v) (au_symbols v) sch) = None"
  shows "not_an_error (fst (authorizer_Authorize rt v sch))"
proof -
  obtain w s where run: "World_Run rt (au_world v) (au_symbols v) sch = (None, w, s)"
    using assms(2) by (metis prod_cases3 fst_conv)
  have p: "facts_ground rt (World_Facts (au_world v))" "rules_plain rt (World_Rules (au_world v))"
    using assms(1) rules_safe_plain by (simp_all add: authorizer_safe_def)
  have g: "facts_ground rt (World_Facts w)" using World_Run_model[OF p run] by simp
  obtain e where e: "authorizer_checks rt w (au_Scopes v) (au_signatureRegistry v) 0 (au_Checks v) [] s = (Inr e, s)"
    using checks_return(2)[OF g, of "au_Checks v"] assms(1) by (fastforce simp: authorizer_safe_def)
  have "\<forall>(cs, scopes) \<in> set (zip (au_biscuitChecks v) (au_biscuitScopes v)). \<forall>c \<in> set cs. \<forall>q \<in> set (elems (check_Queries c)). query_safe q"
    using assms(1) by (auto simp: authorizer_safe_def dest: set_zip_leftD)
  from biscuit_checks_return[OF g this]
  obtain e' where e': "biscuit_checks rt w (au_signatureRegistry v) 0 (zip (au_biscuitChecks v) (au_biscuitScopes v)) e s = (Inr e', s)"
    by blast
  have "not_an_error (fst (policies_loop rt w (au_signatureRegistry v) (au_Policies v) (s, au_publicKeys v)))"
    by (rule policies_return[OF g]) (use assms(1) in \<open>simp add: authorizer_safe_def\<close>)
  moreover have "fst (authorizer_Authorize rt v sch) = (if e' \<noteq> [] then Some (ChecksFailed e')
      else fst (policies_loop rt w (au_signatureRegistry v) (au_Policies v) (s, au_publicKeys v)))"
    using run e e' by (simp add: authorizer_Authorize_def Let_def split: prod.split)
  ultimately show ?thesis by (simp add: not_an_error_def)
qed

text \<open>
  C1: \<^verbatim>\<open>Authorize\<close> decides what it is specified to decide. When it does not stop with an error of
  the run or of an expression, its answer is the one computed from the least model of the token's
  and the authorizer's facts and rules: all checks that do not hold, in order, or else the answer
  of the first policy one of whose queries holds. (Checks of the authorizer hold when one of
  their queries derives a fact, whatever their kind.)
\<close>

theorem Authorize_decides:
  assumes "authorizer_plain rt v" and "authorizer_Authorize rt v sch = (res, v')" and "not_an_error res"
  shows "res = authorization rt v (authorizer_model rt v)"
  by (rule Authorize_spec[OF assms])

definition demo_biscuit :: Biscuit where
  "demo_biscuit = \<lparr>bis_authority = \<lparr>blk_symbols = [], blk_publicKeys = None, blk_facts = [], blk_scopes = [], blk_rules = [],
       blk_checks = [], blk_context = [], blk_version = 6, blk_externalSignature = None\<rparr>,
     bis_blocks = [], bis_symbols = [], bis_publicKeys = [],
     bis_container = \<lparr>pbs_RootKeyId = None, pbs_Authority = \<lparr>sb_Block = [], sb_NextKey = \<lparr>pbk_Algorithm = 0, pbk_Key = []\<rparr>,
       sb_Signature = [], sb_ExternalSignature = None, sb_Version = None\<rparr>, pbs_Blocks = [], pbs_Proof = Proof_absent\<rparr>,
     bis_signatureRegistry = []\<rparr>"

definition demo_authorizer :: authorizer where
  "demo_authorizer = \<lparr>au_biscuit = demo_biscuit, au_world = demo_world, au_symbols = [], au_publicKeys = [],
     au_signatureRegistry = [], au_Scopes = [], au_Checks = [demo_check CheckAll],
     au_Policies = [DefaultAllowPolicy, DefaultDenyPolicy], au_biscuitChecks = [[demo_check CheckOne]], au_biscuitScopes = [[]]\<rparr>"

lemma demo_authorizer_safe: "authorizer_safe demo_runtime demo_authorizer"
proof -
  have "query_safe demo_rule"
    by (simp add: query_safe_def head_atomic_def rule_safe_def demo_rule_def pred_vars_def)
  moreover have "policy_safe DefaultAllowPolicy" "policy_safe DefaultDenyPolicy"
    by (simp_all add: policy_safe_def DefaultAllowPolicy_def DefaultDenyPolicy_def named_rule_def brule_plain_def bpred_plain_def)
  ultimately show ?thesis
    by (simp add: authorizer_safe_def demo_authorizer_def demo_world_facts demo_facts_spec(1) demo_world_safe demo_check_def)
qed

theorem Authorize_decides_witness:
  "fst (authorizer_Authorize demo_runtime demo_authorizer demo_schedule) = None"
proof -
  obtain res v' where r: "authorizer_Authorize demo_runtime demo_authorizer demo_schedule = (res, v')"
    by (cases "authorizer_Authorize demo_runtime demo_authorizer demo_schedule")
  have "not_an_error res"
    using Authorize_returns[OF demo_authorizer_safe, of demo_schedule] r demo_run[of "[]"] by (auto simp: demo_authorizer_def)
  from Authorize_decides[OF authorizer_safe_plain[OF demo_authorizer_safe] r this]
  have res: "res = authorization demo_runtime demo_authorizer (authorizer_model demo_runtime demo_authorizer)" .
  have R: "authorizer_model demo_runtime demo_authorizer = {({0}, demo_fact 4), ({1, 0}, demo_fact 2)}"
    using demo_model by (simp add: authorizer_model_def demo_authorizer_def demo_world_facts insert_commute)
  let ?R = "{({0}, demo_fact 4), ({1, 0}, demo_fact 2)}"
  have V: "visible ?R [] b [] demo_rule = {({0}, demo_fact 4)}" if "b = 0 \<or> b = AuthorizerBlockID" for b
    using that by (auto simp: visible_def trusted_blocks_def demo_rule_def AuthorizerBlockID_def)
  have q: "query_holds demo_runtime ?R [] [] [] demo_rule"
    using demo_derives[of AuthorizerBlockID "[]"] by (simp add: query_holds_def V demo_facts_spec(2))
  have "query_match {({0}, demo_fact 4)} demo_rule [0 \<mapsto> TInteger 1]"
  proof -
    have "visible (facts_of demo_runtime demo_facts) [] 0 [] demo_rule = {({0}, demo_fact 4)}"
      by (auto simp: demo_facts_spec(2) visible_def trusted_blocks_def Let_def)
    then show ?thesis using demo_query_match by simp
  qed
  then have c: "check_spec demo_runtime CheckOne ?R [] 0 [] [] demo_rule"
    by (auto simp: check_spec_def V Let_def all_true_def demo_rule_simps)
  obtain dl st where dl: "BRule_Convert demo_runtime (named_rule ''allow'') ([], []) = Some (dl, st)"
    "elems (rule_Body dl) = []" "elems (rule_Expressions dl) = []"
    by (cases "SymbolTable_Insert [] ''allow''") (simp add: BRule_Convert_def BPredicate_convert_def named_rule_def)
  have p: "query_holds demo_runtime ?R [] [] symbols dl" for symbols
  proof -
    have "body_match X [] \<sigma> {}" for X \<sigma> by (simp add: body_match_def)
    then show ?thesis using dl by (auto simp: query_holds_def rule_derives_def all_true_def)
  qed
  have "authorization demo_runtime demo_authorizer ?R = None"
    using q c dl(1) p
    by (simp add: authorization_def demo_authorizer_def demo_check_def authorizer_check_meaning_def check_meaning_def
      DefaultAllowPolicy_def)
  then show ?thesis using r res R by simp
qed

section \<open>The kind of authorizer checks\<close>

definition with_kinds :: "(Check \<Rightarrow> CheckKind) \<Rightarrow> Check list \<Rightarrow> Check list" where
  "with_kinds kind checks = map (\<lambda>c. c\<lparr>check_Kind := kind c\<rparr>) checks"

lemma authorizer_checks_with_kinds:
  "authorizer_checks rt w scopes reg i (with_kinds kind cs) errs symbols = authorizer_checks rt w scopes reg i cs errs symbols"
  by (induction cs arbitrary: i errs symbols) (simp_all add: with_kinds_def split: prod.split sum.split)

text \<open>
  C38: the kind of an authorizer check has no effect. Whatever kinds the checks of an authorizer are
  given, \<^verbatim>\<open>Authorize\<close> ends in the same way and leaves the same world and tables: \<^verbatim>\<open>check all\<close> and
  \<^verbatim>\<open>reject if\<close> are decided like \<^verbatim>\<open>check if\<close>.
\<close>

theorem authorizer_check_kind_ignored:
  "authorizer_Authorize rt (v\<lparr>au_Checks := with_kinds kind (au_Checks v)\<rparr>) sch =
    (fst (authorizer_Authorize rt v sch), (snd (authorizer_Authorize rt v sch))\<lparr>au_Checks := with_kinds kind (au_Checks v)\<rparr>)"
  by (simp add: authorizer_Authorize_def authorizer_checks_with_kinds Let_def split: prod.split sum.split option.split)

end
