(* ===== verification/Loading.thy ===== *)
theory Loading
  imports Authorizers
begin

text \<open>
  What \<^verbatim>\<open>Build\<close> of authorizer.go puts into an authorizer. Each block of the token is read with its
  own tables, which gives its meaning, and interned into the tables of the authorizer; its
  facts go into the world with the block as their origin. \<open>block_reads\<close> is the meaning of a block;
  the theorems say that reading the authorizer with its own tables gives the meaning of the blocks
  and of the builder, each in its place.
\<close>

section \<open>Reading and interning\<close>

context interning
begin

lemma translate_le:
  assumes "translate read_it conv xs s = Inr (ys, s')" "\<forall>x \<in> set xs. \<forall>a. read_it x = Inr a \<longrightarrow> ok a"
  shows "le s s'"
  using assms
proof (induction xs arbitrary: s ys)
  case (Cons x xs)
  obtain a y s1 zs where y: "read_it x = Inr a" "conv a s = Some (y, s1)" "translate read_it conv xs s1 = Inr (zs, s')"
    using Cons.prems(1) by (auto simp: bind_res_eq_Inr split: option.splits)
  have "ok a" "le s1 s'" using Cons.prems(2) y(1) Cons.IH[OF y(3)] by simp_all
  then show ?case using conv_le[OF _ y(2)] le_trans by blast
qed (simp add: le_refl)

lemma translate_reads:
  assumes "translate read_it conv xs s = Inr (ys, s')" "\<forall>x \<in> set xs. \<forall>a. read_it x = Inr a \<longrightarrow> ok a"
    and "le s' t" "fits t"
  shows "\<exists>as. traverse read_it xs = Inr as \<and> traverse (read_back t) ys = Inr as"
  using assms
proof (induction xs arbitrary: s ys)
  case (Cons x xs)
  obtain a y s1 zs where y: "read_it x = Inr a" "conv a s = Some (y, s1)" "translate read_it conv xs s1 = Inr (zs, s')" "ys = y # zs"
    using Cons.prems(1) by (auto simp: bind_res_eq_Inr split: option.splits)
  have ok: "ok a" "\<forall>x \<in> set xs. \<forall>a. read_it x = Inr a \<longrightarrow> ok a" using Cons.prems(2) y(1) by simp_all
  have "le s1 t" using translate_le[OF y(3) ok(2)] Cons.prems(3) by (rule le_trans)
  then have "read_back t y = Inr a" using round[OF ok(1) y(2)] Cons.prems(4) by blast
  then show ?case using Cons.IH[OF y(3) ok(2) Cons.prems(3,4)] y(1,4) by auto
qed simp

end

lemma translate_all:
  assumes "translate read_it convert_it xs s = Inr (ys, s')"
    and "\<And>x a y s s'. x \<in> set xs \<Longrightarrow> read_it x = Inr a \<Longrightarrow> convert_it a s = Some (y, s') \<Longrightarrow> Q y"
  shows "\<forall>y \<in> set ys. Q y"
  using assms
proof (induction xs arbitrary: s ys)
  case (Cons x xs)
  obtain a y s1 zs where y: "read_it x = Inr a" "convert_it a s = Some (y, s1)"
    "translate read_it convert_it xs s1 = Inr (zs, s')" "ys = y # zs"
    using Cons.prems(1) by (auto simp: bind_res_eq_Inr split: option.splits)
  have "\<forall>z \<in> set zs. Q z" by (rule Cons.IH[OF y(3)], rule Cons.prems(2)) simp_all
  moreover have "Q y" by (rule Cons.prems(2)[OF _ y(1,2)]) simp
  ultimately show ?case using y(4) by simp
qed simp

text \<open>What is read from terms without sets can be interned.\<close>

lemma read_plain: "is_atomic t \<Longrightarrow> fromDatalogID rt symbols t = Inr b \<Longrightarrow> bterm_plain b"
  by (cases t) (auto simp: bind_res_eq_Inr)

lemma read_pred_plain:
  assumes "pred_atomic p" "fromDatalogPredicate rt symbols p = Inr b"
  shows "bpred_plain b"
proof -
  obtain ts where ts: "traverse (fromDatalogID rt symbols) (elems (pred_Terms p)) = Inr ts" "bp_IDs b = ts"
    using assms(2) by (auto simp: fromDatalogPredicate_def bind_res_eq_Inr)
  have "\<forall>t \<in> set ts. bterm_plain t"
    by (rule traverse_all[OF ts(1)], rule read_plain) (use assms(1) in \<open>auto simp: pred_atomic_def\<close>)
  then show ?thesis using ts(2) by (simp add: bpred_plain_def)
qed

lemma read_op_plain: "op_atomic x \<Longrightarrow> fromDatalogOp rt symbols x = Inr b \<Longrightarrow> bop_plain b"
proof (cases x)
  case (UnaryOp u)
  then show "fromDatalogOp rt symbols x = Inr b \<Longrightarrow> bop_plain b" by (cases u) auto
next
  case (BinaryOp f)
  then show "fromDatalogOp rt symbols x = Inr b \<Longrightarrow> bop_plain b" by (cases f) auto
qed (auto simp: fromDatalogValueOp_def bind_res_eq_Inr read_plain)

lemma read_expr_plain:
  assumes "\<forall>x \<in> set (elems e). op_atomic x" "fromDatalogExpression rt symbols e = Inr b"
  shows "bexpr_plain b"
  unfolding bexpr_plain_def
  by (rule traverse_all[OF assms(2)[unfolded fromDatalogExpression_def]], rule read_op_plain) (use assms(1) in simp_all)

lemma read_scope_plain: "fromDatalogScope keys x = Inr b \<Longrightarrow> bscope_plain b"
  by (auto simp: fromDatalogScope_def bscope_plain_def Let_def split: ScopeType.splits option.splits if_splits)

lemma read_rule_plain:
  assumes "rule_ok r" "fromDatalogRule rt symbols keys r = Inr b"
  shows "brule_plain b"
proof -
  have b: "fromDatalogPredicate rt symbols (rule_Head r) = Inr (br_Head b)"
    "traverse (fromDatalogPredicate rt symbols) (elems (rule_Body r)) = Inr (br_Body b)"
    "traverse (fromDatalogExpression rt symbols) (elems (rule_Expressions r)) = Inr (br_Expressions b)"
    "traverse (fromDatalogScope keys) (elems (rule_Scopes r)) = Inr (br_Scopes b)"
    using assms(2) by (auto simp: fromDatalogRule_def bind_res_eq_Inr)
  have r: "pred_atomic (rule_Head r)" "\<forall>p \<in> set (elems (rule_Body r)). pred_atomic p"
    "\<forall>e \<in> set (elems (rule_Expressions r)). \<forall>x \<in> set (elems e). op_atomic x"
    using assms(1) by (auto simp: rule_ok_def)
  have "\<forall>p \<in> set (br_Body b). bpred_plain p"
    by (rule traverse_all[OF b(2)], rule read_pred_plain) (use r(2) in simp_all)
  moreover have "\<forall>e \<in> set (br_Expressions b). bexpr_plain e"
    by (rule traverse_all[OF b(3)], rule read_expr_plain) (use r(3) in simp_all)
  moreover have "\<forall>s \<in> set (br_Scopes b). bscope_plain s"
    by (rule traverse_all[OF b(4)], rule read_scope_plain)
  ultimately show ?thesis using read_pred_plain[OF r(1) b(1)] by (simp add: brule_plain_def)
qed

definition check_ok :: "Check \<Rightarrow> bool" where
  "check_ok c \<longleftrightarrow> (\<forall>q \<in> set (elems (check_Queries c)). rule_ok q)"

lemma read_check_plain:
  assumes "check_ok c" "fromDatalogCheck rt symbols keys c = Inr b"
  shows "bcheck_plain b"
proof -
  have b: "traverse (fromDatalogRule rt symbols keys) (elems (check_Queries c)) = Inr (bc_Queries b)" "bc_Kind b = known_kind (check_Kind c)"
    using assms(2) by (auto simp: fromDatalogCheck_def bind_res_eq_Inr)
  have "\<forall>q \<in> set (bc_Queries b). brule_plain q"
    by (rule traverse_all[OF b(1)], rule read_rule_plain) (use assms(1) in \<open>simp_all add: check_ok_def\<close>)
  then show ?thesis using b(2) by (simp add: bcheck_plain_def)
qed

text \<open>What can be interned has no sets.\<close>

lemma bterm_plain_atomic: "bterm_plain t \<Longrightarrow> bterm_atomic t"
  by (cases t) simp_all

lemma convert_pred_atomic:
  assumes "bpred_plain b" "BPredicate_convert rt b s = Some (p, s')"
  shows "pred_atomic p"
proof -
  obtain ts s1 where ts: "thread (BTerm_convert rt) (bp_IDs b) s = Some (ts, s1)" "pred_Terms p = Some ts"
    using assms(2) by (auto simp: BPredicate_convert_def split: option.splits prod.splits)
  have "\<forall>t \<in> set ts. is_atomic t"
    by (rule thread_all[OF ts(1)], rule term_convert_atomic) (use assms(1) in \<open>simp_all add: bpred_plain_def bterm_plain_atomic\<close>)
  then show ?thesis using ts(2) by (simp add: pred_atomic_def)
qed

lemma convert_op_atomic: "bop_plain x \<Longrightarrow> BOp_convert rt x s = Some (y, s') \<Longrightarrow> op_atomic y"
  by (cases x) (auto intro: term_convert_atomic[OF bterm_plain_atomic] split: option.splits)

lemma convert_rule_ok:
  assumes "brule_plain b" "BRule_Convert rt b (s, k) = Some (r, (s', k'))"
  shows "rule_ok r"
proof (rule BRule_Convert_parts[OF assms(2)])
  fix body s1 es s2 scs h
  assume c: "thread (BPredicate_convert rt) (br_Body b) s = Some (body, s1)"
    "thread (BExpression_convert rt) (br_Expressions b) s1 = Some (es, s2)"
    "BPredicate_convert rt (br_Head b) s2 = Some (h, s')" "rule_Head r = h" "elems (rule_Body r) = body"
    "elems (rule_Expressions r) = es"
  have "\<forall>p \<in> set body. pred_atomic p"
    by (rule thread_all[OF c(1)], rule convert_pred_atomic) (use assms(1) in \<open>simp_all add: brule_plain_def\<close>)
  moreover have "\<forall>e \<in> set es. e \<noteq> None \<and> (\<forall>x \<in> set (elems e). op_atomic x)"
  proof (rule thread_all[OF c(2)])
    fix x s e s' assume x: "x \<in> set (br_Expressions b)" "BExpression_convert rt x s = Some (e, s')"
    then obtain ops where o: "thread (BOp_convert rt) x s = Some (ops, s')" "e = Some ops" by (auto simp: BExpression_convert_def)
    have "\<forall>y \<in> set ops. op_atomic y"
      by (rule thread_all[OF o(1)], rule convert_op_atomic) (use assms(1) x(1) in \<open>simp_all add: brule_plain_def bexpr_plain_def\<close>)
    then show "e \<noteq> None \<and> (\<forall>x \<in> set (elems e). op_atomic x)" using o(2) by simp
  qed
  moreover have "pred_atomic h" by (rule convert_pred_atomic[OF _ c(3)]) (use assms(1) in \<open>simp add: brule_plain_def\<close>)
  ultimately show "rule_ok r" using c(4-6) by (simp add: rule_ok_def)
qed

section \<open>Worlds after adding facts and rules\<close>

lemma fold_AddFact:
  assumes "facts_inv rt (World_Facts w)" "\<forall>f \<in> set fs. pred_atomic f"
  shows "facts_inv rt (World_Facts (fold (\<lambda>f w. World_AddFact rt w (NewOrigin rt b []) f) fs w)) \<and>
    facts_of rt (World_Facts (fold (\<lambda>f w. World_AddFact rt w (NewOrigin rt b []) f) fs w)) =
      facts_of rt (World_Facts w) \<union> {{b}} \<times> set fs \<and>
    World_Rules (fold (\<lambda>f w. World_AddFact rt w (NewOrigin rt b []) f) fs w) = World_Rules w"
  using assms
proof (induction fs arbitrary: w)
  case (Cons f fs)
  let ?w = "World_AddFact rt w (NewOrigin rt b []) f"
  have w: "facts_inv rt (World_Facts ?w)" "facts_of rt (World_Facts ?w) = facts_of rt (World_Facts w) \<union> {({b}, f)}"
    "World_Rules ?w = World_Rules w"
    using FactSet_Insert_spec[OF Cons.prems(1), of "NewOrigin rt b []" f] Cons.prems(2) by (simp_all add: World_AddFact_def)
  show ?case using Cons.IH[OF w(1)] Cons.prems(2) unfolding fold_simps o_apply w(2,3) by auto
qed simp

lemma fold_AddRule:
  assumes "rules_inv rt (World_Rules w)" "\<forall>r \<in> set rs. rule_ok r"
    and "\<And>r. origin_ok rt (T r) \<and> hs_set (T r) \<noteq> {}"
  shows "rules_inv rt (World_Rules (fold (\<lambda>r w. World_AddRule rt w (T r) b r) rs w)) \<and>
    rules_of rt (World_Rules (fold (\<lambda>r w. World_AddRule rt w (T r) b r) rs w)) =
      rules_of rt (World_Rules w) \<union> (\<lambda>r. (hs_set (T r), b, rule_norm r)) ` set rs \<and>
    World_Facts (fold (\<lambda>r w. World_AddRule rt w (T r) b r) rs w) = World_Facts w"
  using assms(1,2)
proof (induction rs arbitrary: w)
  case (Cons r rs)
  let ?w = "World_AddRule rt w (T r) b r"
  have w: "rules_inv rt (World_Rules ?w)" "rules_of rt (World_Rules ?w) = rules_of rt (World_Rules w) \<union> {(hs_set (T r), b, rule_norm r)}"
    "World_Facts ?w = World_Facts w"
    using RuleSet_Insert_spec[OF Cons.prems(1), of "T r" r b] assms(3) Cons.prems(2) by (simp_all add: World_AddRule_def)
  show ?case using Cons.IH[OF w(1)] Cons.prems(2) unfolding fold_simps o_apply w(2,3) by auto
qed simp

section \<open>The meaning of a block\<close>

record meaning =
  m_Facts :: "BFact list"
  m_Rules :: "BRule list"
  m_Checks :: "BCheck list"
  m_Scopes :: "BScope list"

definition block_reads :: "runtime \<Rightarrow> SymbolTable \<Rightarrow> Block \<Rightarrow> conv_error + meaning" where
  "block_reads rt symbols b =
     bind_res (traverse (fromDatalogFact rt symbols) (blk_facts b)) (\<lambda>facts.
     bind_res (traverse (fromDatalogRule rt symbols (blk_publicKeys b)) (blk_rules b)) (\<lambda>rules.
     bind_res (traverse (fromDatalogCheck rt symbols (blk_publicKeys b)) (blk_checks b)) (\<lambda>checks.
     bind_res (traverse (fromDatalogScope (blk_publicKeys b)) (blk_scopes b)) (\<lambda>scopes.
       Inr \<lparr>m_Facts = facts, m_Rules = rules, m_Checks = checks, m_Scopes = scopes\<rparr>))))"

text \<open>A third-party block has symbols of its own; the authority block never is one.\<close>

definition block_symbols :: "SymbolTable \<Rightarrow> nat \<Rightarrow> Block \<Rightarrow> SymbolTable" where
  "block_symbols symbols i b = (if blk_externalSignature b \<noteq> None \<and> i > 0 then blk_symbols b else symbols)"

definition block_atomic :: "Block \<Rightarrow> bool" where
  "block_atomic b \<longleftrightarrow> (\<forall>f \<in> set (blk_facts b). pred_atomic f) \<and> (\<forall>r \<in> set (blk_rules b). rule_ok r) \<and>
     (\<forall>c \<in> set (blk_checks b). check_ok c)"

definition loading_tables :: "loading \<Rightarrow> tables" where
  "loading_tables ld = (ld_symbols ld, ld_publicKeys ld)"

definition loading_inv :: "runtime \<Rightarrow> loading \<Rightarrow> bool" where
  "loading_inv rt ld \<longleftrightarrow> facts_inv rt (World_Facts (ld_world ld)) \<and> rules_inv rt (World_Rules (ld_world ld))"

lemma block_tables_eq:
  assumes "block_tables rt symbols i b ld = (syms, keys, reg)"
  shows "syms = block_symbols symbols i b \<and> key_le (ld_publicKeys ld) keys"
  using assms by (auto simp: block_tables_def block_symbols_def Let_def intro: Key_Insert_le split: option.splits if_splits prod.splits)

text \<open>One step of the loop over the blocks: what it adds, and what that means under any later tables.\<close>

lemma load_block_spec:
  assumes ld: "load_block rt symbols i block ld = Inr ld'" and inv: "loading_inv rt ld" and ok: "block_atomic block"
  obtains facts rules checks scopes where
    "loading_inv rt ld'" "tables_le (loading_tables ld) (loading_tables ld')"
    "ld_Scopes ld' = ld_Scopes ld @ [scopes]" "ld_Checks ld' = ld_Checks ld @ [checks]"
    "facts_of rt (World_Facts (ld_world ld')) = facts_of rt (World_Facts (ld_world ld)) \<union> {{word_of_nat i}} \<times> set facts"
    "rules_of rt (World_Rules (ld_world ld')) = rules_of rt (World_Rules (ld_world ld)) \<union>
      (\<lambda>r. (trusted_blocks scopes (elems (rule_Scopes r)) (word_of_nat i) (ld_signatureRegistry ld'),
        word_of_nat i, rule_norm r)) ` set rules"
    "\<And>t k. tables_le (loading_tables ld') (t, k) \<Longrightarrow> tables_fit (t, k) \<Longrightarrow>
      \<exists>m. block_reads rt (block_symbols symbols i block) block = Inr m \<and>
        traverse (fromDatalogFact rt t) facts = Inr (m_Facts m) \<and>
        traverse (fromDatalogRule rt t (Some k)) rules = Inr (m_Rules m) \<and>
        traverse (fromDatalogCheck rt t (Some k)) checks = Inr (m_Checks m) \<and>
        traverse (fromDatalogScope (Some k)) scopes = Inr (m_Scopes m)"
proof -
  let ?b = "word_of_nat i :: BlockID" and ?syms = "block_symbols symbols i block"
  obtain keys reg where start: "block_tables rt symbols i block ld = (?syms, keys, reg)" and keys: "key_le (ld_publicKeys ld) keys"
    using block_tables_eq[of rt symbols i block ld] by (metis prod_cases3)
  obtain scopes keys1 facts symbols1 rules st checks where c:
    "translate (fromDatalogScope (blk_publicKeys block)) BScope_convert (blk_scopes block) keys = Inr (scopes, keys1)"
    "translate (fromDatalogFact rt ?syms) (BFact_convert rt) (blk_facts block) (ld_symbols ld) = Inr (facts, symbols1)"
    "translate (fromDatalogRule rt ?syms (blk_publicKeys block)) (BRule_Convert rt) (blk_rules block) (symbols1, keys1) = Inr (rules, st)"
    "translate (fromDatalogCheck rt ?syms (blk_publicKeys block)) (BCheck_Convert rt) (blk_checks block) st = Inr (checks, loading_tables ld')"
    and ld': "ld_Scopes ld' = ld_Scopes ld @ [scopes]" "ld_Checks ld' = ld_Checks ld @ [checks]" "ld_signatureRegistry ld' = reg"
    "ld_world ld' = fold (\<lambda>r w. World_AddRule rt w (NewTrustedOriginFromScopes rt scopes (elems (rule_Scopes r)) ?b reg) ?b r) rules
      (fold (\<lambda>f w. World_AddFact rt w (NewOrigin rt ?b []) f) facts (ld_world ld))"
    using ld by (auto simp: load_block_def Let_def start bind_res_eq_Inr loading_tables_def)
  have splain: "\<forall>x \<in> set (blk_scopes block). \<forall>a. fromDatalogScope (blk_publicKeys block) x = Inr a \<longrightarrow> bscope_plain a"
    using read_scope_plain by blast
  have fplain: "\<forall>x \<in> set (blk_facts block). \<forall>a. fromDatalogFact rt ?syms x = Inr a \<longrightarrow> bpred_plain a"
    using ok read_pred_plain[of _ rt ?syms] by (auto simp: block_atomic_def fromDatalogFact_def)
  have rplain: "\<forall>x \<in> set (blk_rules block). \<forall>a. fromDatalogRule rt ?syms (blk_publicKeys block) x = Inr a \<longrightarrow> brule_plain a"
    using ok read_rule_plain unfolding block_atomic_def by blast
  have cplain: "\<forall>x \<in> set (blk_checks block). \<forall>a. fromDatalogCheck rt ?syms (blk_publicKeys block) x = Inr a \<longrightarrow> bcheck_plain a"
    using ok read_check_plain unfolding block_atomic_def by blast
  note facts_conv = c(2)[unfolded BFact_convert_def[abs_def]]
  have le: "key_le keys keys1" "sym_le (ld_symbols ld) symbols1" "tables_le (symbols1, keys1) st" "tables_le st (loading_tables ld')"
    using scope_interning.translate_le[OF c(1) splain] pred_interning.translate_le[OF facts_conv fplain]
      rule_interning.translate_le[OF c(3) rplain] check_interning.translate_le[OF c(4) cplain] .
  have facts: "\<forall>f \<in> set facts. pred_atomic f"
    by (rule translate_all[OF facts_conv], rule convert_pred_atomic) (use fplain in blast)+
  have rules: "\<forall>r \<in> set rules. rule_ok r"
  proof (rule translate_all[OF c(3)])
    fix x a y and s s' :: tables assume x: "x \<in> set (blk_rules block)" "fromDatalogRule rt ?syms (blk_publicKeys block) x = Inr a"
      "BRule_Convert rt a s = Some (y, s')"
    have "brule_plain a" using rplain x(1,2) by blast
    then show "rule_ok y" using convert_rule_ok x(3) by (cases s; cases s') simp
  qed
  note F = fold_AddFact[OF _ facts, of rt "ld_world ld" ?b]
  have R: "rules_inv rt (World_Rules (fold (\<lambda>f w. World_AddFact rt w (NewOrigin rt ?b []) f) facts (ld_world ld)))"
    using F inv by (simp add: loading_inv_def)
  note R = fold_AddRule[OF R rules, of "\<lambda>r. NewTrustedOriginFromScopes rt scopes (elems (rule_Scopes r)) ?b reg" ?b]
  have ne: "trusted_blocks bs rs cur sr \<noteq> {}" for bs rs cur sr by (auto simp: trusted_blocks_def Let_def)
  show thesis
  proof (rule that[of scopes checks facts rules])
    show "loading_inv rt ld'" using F R inv ne by (simp add: loading_inv_def ld'(4) set_NewTrustedOriginFromScopes)
    show "tables_le (loading_tables ld) (loading_tables ld')"
      using le keys by (cases st) (auto simp: tables_le_def loading_tables_def intro: sym_le_trans key_le_trans)
    show "facts_of rt (World_Facts (ld_world ld')) = facts_of rt (World_Facts (ld_world ld)) \<union> {{?b}} \<times> set facts"
      "rules_of rt (World_Rules (ld_world ld')) = rules_of rt (World_Rules (ld_world ld)) \<union>
        (\<lambda>r. (trusted_blocks scopes (elems (rule_Scopes r)) ?b (ld_signatureRegistry ld'), ?b, rule_norm r)) ` set rules"
      using F R inv ne by (simp_all add: loading_inv_def ld'(3,4) set_NewTrustedOriginFromScopes)
  next
    fix t k assume t: "tables_le (loading_tables ld') (t, k)" "tables_fit (t, k)"
    have les: "tables_le st (t, k)" "sym_le symbols1 t" "key_le keys1 k"
      using le t(1) by (cases st, auto simp: tables_le_def loading_tables_def intro: sym_le_trans key_le_trans)+
    have fits: "sym_fits t" "key_fits k" using t(2) by (simp_all add: tables_fit_def)
    show "\<exists>m. block_reads rt ?syms block = Inr m \<and> traverse (fromDatalogFact rt t) facts = Inr (m_Facts m) \<and>
        traverse (fromDatalogRule rt t (Some k)) rules = Inr (m_Rules m) \<and>
        traverse (fromDatalogCheck rt t (Some k)) checks = Inr (m_Checks m) \<and>
        traverse (fromDatalogScope (Some k)) scopes = Inr (m_Scopes m)"
      using scope_interning.translate_reads[OF c(1) splain les(3) fits(2)]
        pred_interning.translate_reads[OF facts_conv fplain les(2) fits(1)]
        rule_interning.translate_reads[OF c(3) rplain les(1) t(2)]
        check_interning.translate_reads[OF c(4) cplain t]
      by (auto simp: block_reads_def fromDatalogFact_def[abs_def])
  qed (rule ld'(1,2))+
qed

section \<open>The meaning of a token\<close>

fun blocks_read :: "runtime \<Rightarrow> SymbolTable \<Rightarrow> nat \<Rightarrow> Block list \<Rightarrow> conv_error + meaning list" where
  "blocks_read rt symbols i [] = Inr []"
| "blocks_read rt symbols i (b # bs) =
     bind_res (block_reads rt (block_symbols symbols i b) b) (\<lambda>m.
     bind_res (blocks_read rt symbols (i + 1) bs) (\<lambda>ms. Inr (m # ms)))"

text \<open>Elements with the identifier of their block.\<close>

fun placed :: "nat \<Rightarrow> 'a list list \<Rightarrow> (BlockID \<times> 'a) set" where
  "placed i [] = {}"
| "placed i (xs # xss) = {word_of_nat i} \<times> set xs \<union> placed (i + 1) xss"

text \<open>What the facts and rules of a world say, read with the tables of the authorizer.\<close>

definition read_facts :: "runtime \<Rightarrow> SymbolTable \<Rightarrow> World \<Rightarrow> (BlockID set \<times> BFact) set" where
  "read_facts rt t w = {(B, b). \<exists>f. (B, f) \<in> facts_of rt (World_Facts w) \<and> fromDatalogFact rt t f = Inr b}"

definition read_rules :: "runtime \<Rightarrow> tables \<Rightarrow> World \<Rightarrow> (BlockID \<times> BRule) set" where
  "read_rules rt st w = {(n, b). \<exists>T r. (T, n, r) \<in> rules_of rt (World_Rules w) \<and>
     fromDatalogRule rt (fst st) (Some (snd st)) r = Inr b}"

definition facts_readable :: "runtime \<Rightarrow> SymbolTable \<Rightarrow> World \<Rightarrow> bool" where
  "facts_readable rt t w \<longleftrightarrow> (\<forall>(B, f) \<in> facts_of rt (World_Facts w). \<exists>b. fromDatalogFact rt t f = Inr b)"

lemma traverse_mem: "traverse f xs = Inr ys \<Longrightarrow> y \<in> set ys \<Longrightarrow> \<exists>x \<in> set xs. f x = Inr y"
  by (induction xs arbitrary: ys) (auto simp: bind_res_eq_Inr)

lemma traverse_set: "traverse f xs = Inr ys \<Longrightarrow> x \<in> set xs \<Longrightarrow> \<exists>y \<in> set ys. f x = Inr y"
  by (induction xs arbitrary: ys) (auto simp: bind_res_eq_Inr)

lemma traverse_append: "traverse f xs = Inr as \<Longrightarrow> traverse f ys = Inr bs \<Longrightarrow> traverse f (xs @ ys) = Inr (as @ bs)"
  by (induction xs arbitrary: as) (auto simp: bind_res_eq_Inr)

lemma fromDatalogRule_norm [simp]: "fromDatalogRule rt t k (rule_norm r) = fromDatalogRule rt t k r"
  by (simp add: fromDatalogRule_def rule_norm_def)

lemma read_facts_add:
  assumes "facts_of rt (World_Facts w') = facts_of rt (World_Facts w) \<union> {{n}} \<times> set fs"
    and "traverse (fromDatalogFact rt t) fs = Inr bs"
  shows "read_facts rt t w' = read_facts rt t w \<union> (\<lambda>f. ({n}, f)) ` set bs"
    and "facts_readable rt t w \<Longrightarrow> facts_readable rt t w'"
proof -
  have "(\<exists>f \<in> set fs. fromDatalogFact rt t f = Inr b) \<longleftrightarrow> b \<in> set bs" for b
    using traverse_mem[OF assms(2)] traverse_set[OF assms(2)] by fastforce
  then show "read_facts rt t w' = read_facts rt t w \<union> (\<lambda>f. ({n}, f)) ` set bs"
    unfolding read_facts_def assms(1) by auto
  show "facts_readable rt t w'" if "facts_readable rt t w"
    using that traverse_set[OF assms(2)] unfolding facts_readable_def assms(1) by fastforce
qed

lemma read_rules_add:
  assumes "rules_of rt (World_Rules w') = rules_of rt (World_Rules w) \<union> (\<lambda>r. (T r, n, rule_norm r)) ` set rs"
    and "traverse (fromDatalogRule rt (fst st) (Some (snd st))) rs = Inr bs"
  shows "read_rules rt st w' = read_rules rt st w \<union> {n} \<times> set bs"
proof -
  have "(\<exists>r \<in> set rs. fromDatalogRule rt (fst st) (Some (snd st)) r = Inr b) \<longleftrightarrow> b \<in> set bs" for b
    using traverse_mem[OF assms(2)] traverse_set[OF assms(2)] by fastforce
  moreover have "p \<in> read_rules rt st w' \<longleftrightarrow> p \<in> read_rules rt st w \<or>
      (fst p = n \<and> (\<exists>r \<in> set rs. fromDatalogRule rt (fst st) (Some (snd st)) r = Inr (snd p)))" for p
    unfolding read_rules_def assms(1) by (cases p) (force simp: image_iff)
  ultimately show ?thesis by auto
qed

lemma load_blocks_inv:
  assumes "load_blocks rt symbols i blocks ld = Inr ld'" "loading_inv rt ld" "\<forall>b \<in> set blocks. block_atomic b"
  shows "loading_inv rt ld' \<and> tables_le (loading_tables ld) (loading_tables ld')"
  using assms
proof (induction blocks arbitrary: i ld)
  case (Cons b blocks)
  obtain ld1 where ld1: "load_block rt symbols i b ld = Inr ld1" "load_blocks rt symbols (i + 1) blocks ld1 = Inr ld'"
    using Cons.prems(1) by (auto simp: bind_res_eq_Inr)
  have b: "block_atomic b" "\<forall>b \<in> set blocks. block_atomic b" using Cons.prems(3) by simp_all
  have "loading_inv rt ld1" "tables_le (loading_tables ld) (loading_tables ld1)"
    by (rule load_block_spec[OF ld1(1) Cons.prems(2) b(1)], assumption)+
  then show ?case using Cons.IH[OF ld1(2) _ b(2)] rule_interning.le_trans by blast
qed (simp add: rule_interning.le_refl)

lemma load_blocks_spec:
  assumes "load_blocks rt symbols i blocks ld = Inr ld'" "loading_inv rt ld" "\<forall>b \<in> set blocks. block_atomic b"
    and t: "tables_le (loading_tables ld') (t, k)" "tables_fit (t, k)" and "facts_readable rt t (ld_world ld)"
  shows "\<exists>ms css scs. blocks_read rt symbols i blocks = Inr ms \<and> facts_readable rt t (ld_world ld') \<and>
    read_facts rt t (ld_world ld') = read_facts rt t (ld_world ld) \<union> (\<lambda>(n, f). ({n}, f)) ` placed i (map m_Facts ms) \<and>
    read_rules rt (t, k) (ld_world ld') = read_rules rt (t, k) (ld_world ld) \<union> placed i (map m_Rules ms) \<and>
    ld_Checks ld' = ld_Checks ld @ css \<and> traverse (traverse (fromDatalogCheck rt t (Some k))) css = Inr (map m_Checks ms) \<and>
    ld_Scopes ld' = ld_Scopes ld @ scs \<and> traverse (traverse (fromDatalogScope (Some k))) scs = Inr (map m_Scopes ms)"
  using assms(1,2,3,6)
proof (induction blocks arbitrary: i ld)
  case (Cons b blocks)
  obtain ld1 where ld1: "load_block rt symbols i b ld = Inr ld1" "load_blocks rt symbols (i + 1) blocks ld1 = Inr ld'"
    using Cons.prems(1) by (auto simp: bind_res_eq_Inr)
  have b: "block_atomic b" "\<forall>b \<in> set blocks. block_atomic b" using Cons.prems(3) by simp_all
  show ?case
  proof (rule load_block_spec[OF ld1(1) Cons.prems(2) b(1)])
    fix facts rules checks scopes
    assume inv: "loading_inv rt ld1" and s: "ld_Scopes ld1 = ld_Scopes ld @ [scopes]" "ld_Checks ld1 = ld_Checks ld @ [checks]"
      and f: "facts_of rt (World_Facts (ld_world ld1)) = facts_of rt (World_Facts (ld_world ld)) \<union> {{word_of_nat i}} \<times> set facts"
      and r: "rules_of rt (World_Rules (ld_world ld1)) = rules_of rt (World_Rules (ld_world ld)) \<union>
        (\<lambda>r. (trusted_blocks scopes (elems (rule_Scopes r)) (word_of_nat i) (ld_signatureRegistry ld1),
          word_of_nat i, rule_norm r)) ` set rules"
      and m: "\<And>t k. tables_le (loading_tables ld1) (t, k) \<Longrightarrow> tables_fit (t, k) \<Longrightarrow>
        \<exists>m. block_reads rt (block_symbols symbols i b) b = Inr m \<and> traverse (fromDatalogFact rt t) facts = Inr (m_Facts m) \<and>
          traverse (fromDatalogRule rt t (Some k)) rules = Inr (m_Rules m) \<and>
          traverse (fromDatalogCheck rt t (Some k)) checks = Inr (m_Checks m) \<and>
          traverse (fromDatalogScope (Some k)) scopes = Inr (m_Scopes m)"
    have "tables_le (loading_tables ld1) (t, k)"
      using load_blocks_inv[OF ld1(2) inv b(2)] t(1) rule_interning.le_trans by blast
    from m[OF this t(2)] obtain m where m: "block_reads rt (block_symbols symbols i b) b = Inr m"
      "traverse (fromDatalogFact rt t) facts = Inr (m_Facts m)" "traverse (fromDatalogRule rt t (Some k)) rules = Inr (m_Rules m)"
      "traverse (fromDatalogCheck rt t (Some k)) checks = Inr (m_Checks m)" "traverse (fromDatalogScope (Some k)) scopes = Inr (m_Scopes m)"
      by blast
    note F = read_facts_add[OF f m(2)]
    have R: "read_rules rt (t, k) (ld_world ld1) = read_rules rt (t, k) (ld_world ld) \<union> {word_of_nat i} \<times> set (m_Rules m)"
      by (rule read_rules_add[OF r]) (simp add: m(3))
    obtain ms css scs where IH: "blocks_read rt symbols (i + 1) blocks = Inr ms" "facts_readable rt t (ld_world ld')"
      "read_facts rt t (ld_world ld') = read_facts rt t (ld_world ld1) \<union> (\<lambda>(n, f). ({n}, f)) ` placed (i + 1) (map m_Facts ms)"
      "read_rules rt (t, k) (ld_world ld') = read_rules rt (t, k) (ld_world ld1) \<union> placed (i + 1) (map m_Rules ms)"
      "ld_Checks ld' = ld_Checks ld1 @ css" "traverse (traverse (fromDatalogCheck rt t (Some k))) css = Inr (map m_Checks ms)"
      "ld_Scopes ld' = ld_Scopes ld1 @ scs" "traverse (traverse (fromDatalogScope (Some k))) scs = Inr (map m_Scopes ms)"
      using Cons.IH[OF ld1(2) inv b(2) F(2)[OF Cons.prems(4)]] by (elim exE conjE) (rule that; assumption)
    have "read_facts rt t (ld_world ld') = read_facts rt t (ld_world ld) \<union> (\<lambda>(n, f). ({n}, f)) ` placed i (map m_Facts (m # ms))"
      unfolding IH(3) F(1) by auto
    moreover have "read_rules rt (t, k) (ld_world ld') = read_rules rt (t, k) (ld_world ld) \<union> placed i (map m_Rules (m # ms))"
      unfolding IH(4) R by auto
    ultimately show ?case
      using IH m s by (intro exI[of _ "m # ms"] exI[of _ "checks # css"] exI[of _ "scopes # scs"]) simp
  qed
qed auto

text \<open>The parts of a successful \<^verbatim>\<open>Build\<close>.\<close>

lemma authorizer_Build_parts:
  assumes "authorizerBuilder_Build rt ab opts = Inr v" "ab_biscuit ab = Some biscuit"
  obtains ld start facts symbols1 keys1 rules st where
    "load_blocks rt (bis_symbols biscuit) 0 (Biscuit_Blocks biscuit) start = Inr ld" "ld_world start = NewWorld []"
    "ld_Checks start = []" "ld_Scopes start = []"
    "thread BScope_convert (ab_Scopes ab) (ld_publicKeys ld) = Some (au_Scopes v, keys1)"
    "thread (BFact_convert rt) (ab_Facts ab) (ld_symbols ld) = Some (facts, symbols1)"
    "thread (BRule_Convert rt) (ab_Rules ab) (symbols1, keys1) = Some (rules, st)"
    "thread (BCheck_Convert rt) (ab_Checks ab) st = Some (au_Checks v, (au_symbols v, au_publicKeys v))"
    "au_world v = fold (\<lambda>r w. World_AddRule rt w (NewTrustedOriginFromScopes rt (au_Scopes v) (elems (rule_Scopes r))
        AuthorizerBlockID (ld_signatureRegistry ld)) AuthorizerBlockID r) rules
      (fold (\<lambda>f w. World_AddFact rt w (NewOrigin rt AuthorizerBlockID []) f) facts (ld_world ld))"
    "au_biscuitChecks v = ld_Checks ld" "au_biscuitScopes v = ld_Scopes ld" "au_Policies v = ab_Policies ab"
    "au_biscuit v = biscuit" "au_signatureRegistry v = ld_signatureRegistry ld"
proof -
  note b = assms(1)[unfolded authorizerBuilder_Build_def assms(2) option.case Let_def bind_res_eq_Inr]
  from b obtain ld start where ld: "load_blocks rt (bis_symbols biscuit) 0 (Biscuit_Blocks biscuit) start = Inr ld"
    "ld_world start = NewWorld []" "ld_Checks start = []" "ld_Scopes start = []"
    "(case thread BScope_convert (ab_Scopes ab) (ld_publicKeys ld) of None \<Rightarrow> Inl ConvPanic
     | Some (authorizerScopes, publicKeys1) \<Rightarrow>
     (case thread (BFact_convert rt) (ab_Facts ab) (ld_symbols ld) of None \<Rightarrow> Inl ConvPanic
     | Some (facts, symbols1) \<Rightarrow>
     (case thread (BRule_Convert rt) (ab_Rules ab) (symbols1, publicKeys1) of None \<Rightarrow> Inl ConvPanic
     | Some (rules, st) \<Rightarrow>
     (case thread (BCheck_Convert rt) (ab_Checks ab) st of None \<Rightarrow> Inl ConvPanic
     | Some (authorizerChecks, (symbols2, publicKeys2)) \<Rightarrow>
        Inr \<lparr>au_biscuit = biscuit, au_world = fold (\<lambda>r w. World_AddRule rt w
              (NewTrustedOriginFromScopes rt authorizerScopes (elems (rule_Scopes r))
              AuthorizerBlockID (ld_signatureRegistry ld)) AuthorizerBlockID r) rules
              (fold (\<lambda>f w. World_AddFact rt w (NewOrigin rt AuthorizerBlockID []) f) facts (ld_world ld)),
          au_symbols = symbols2, au_publicKeys = publicKeys2,
          au_signatureRegistry = ld_signatureRegistry ld, au_Scopes = authorizerScopes, au_Checks = authorizerChecks,
          au_Policies = ab_Policies ab, au_biscuitChecks = ld_Checks ld, au_biscuitScopes = ld_Scopes ld\<rparr>)))) = Inr v"
    by (elim exE conjE) (rule that, assumption, simp, simp, simp, assumption)
  show thesis
    using ld(5) by (auto split: option.split_asm prod.split_asm intro: that[OF ld(1-4)])
qed

text \<open>What the builder holds can be interned.\<close>

definition authorizer_plain_builder :: "authorizerBuilder \<Rightarrow> bool" where
  "authorizer_plain_builder ab \<longleftrightarrow> (\<forall>f \<in> set (ab_Facts ab). bpred_plain f) \<and> (\<forall>r \<in> set (ab_Rules ab). brule_plain r) \<and>
     (\<forall>c \<in> set (ab_Checks ab). bcheck_plain c) \<and> (\<forall>s \<in> set (ab_Scopes ab). bscope_plain s)"

text \<open>The authorizer \<open>v\<close> says what the blocks, whose meanings are \<open>ms\<close>, and the builder say.\<close>

definition authorizer_says :: "runtime \<Rightarrow> authorizer \<Rightarrow> meaning list \<Rightarrow> authorizerBuilder \<Rightarrow> bool" where
  "authorizer_says rt v ms ab \<longleftrightarrow>
     read_facts rt (au_symbols v) (au_world v) =
       (\<lambda>(n, f). ({n}, f)) ` placed 0 (map m_Facts ms) \<union> (\<lambda>f. ({AuthorizerBlockID}, f)) ` set (ab_Facts ab) \<and>
     read_rules rt (au_symbols v, au_publicKeys v) (au_world v) =
       placed 0 (map m_Rules ms) \<union> {AuthorizerBlockID} \<times> set (ab_Rules ab) \<and>
     traverse (traverse (fromDatalogCheck rt (au_symbols v) (Some (au_publicKeys v)))) (au_biscuitChecks v) = Inr (map m_Checks ms) \<and>
     traverse (fromDatalogCheck rt (au_symbols v) (Some (au_publicKeys v))) (au_Checks v) = Inr (ab_Checks ab) \<and>
     traverse (traverse (fromDatalogScope (Some (au_publicKeys v)))) (au_biscuitScopes v) = Inr (map m_Scopes ms) \<and>
     traverse (fromDatalogScope (Some (au_publicKeys v))) (au_Scopes v) = Inr (ab_Scopes ab) \<and>
     au_Policies v = ab_Policies ab"

lemma authorizer_Build_spec:
  assumes "authorizerBuilder_Build rt ab opts = Inr v" and biscuit: "ab_biscuit ab = Some biscuit"
    and blocks: "\<forall>b \<in> set (Biscuit_Blocks biscuit). block_atomic b" and ab: "authorizer_plain_builder ab"
    and fit: "tables_fit (au_symbols v, au_publicKeys v)"
  shows "\<exists>ms. blocks_read rt (bis_symbols biscuit) 0 (Biscuit_Blocks biscuit) = Inr ms \<and> authorizer_says rt v ms ab"
    and "facts_readable rt (au_symbols v) (au_world v)" and "facts_inv rt (World_Facts (au_world v))"
proof -
  obtain ld start facts symbols1 keys1 rules st where p:
    "load_blocks rt (bis_symbols biscuit) 0 (Biscuit_Blocks biscuit) start = Inr ld" "ld_world start = NewWorld []"
    "ld_Checks start = []" "ld_Scopes start = []"
    "thread BScope_convert (ab_Scopes ab) (ld_publicKeys ld) = Some (au_Scopes v, keys1)"
    "thread (BFact_convert rt) (ab_Facts ab) (ld_symbols ld) = Some (facts, symbols1)"
    "thread (BRule_Convert rt) (ab_Rules ab) (symbols1, keys1) = Some (rules, st)"
    "thread (BCheck_Convert rt) (ab_Checks ab) st = Some (au_Checks v, (au_symbols v, au_publicKeys v))"
    "au_world v = fold (\<lambda>r w. World_AddRule rt w (NewTrustedOriginFromScopes rt (au_Scopes v) (elems (rule_Scopes r))
        AuthorizerBlockID (ld_signatureRegistry ld)) AuthorizerBlockID r) rules
      (fold (\<lambda>f w. World_AddFact rt w (NewOrigin rt AuthorizerBlockID []) f) facts (ld_world ld))"
    "au_biscuitChecks v = ld_Checks ld" "au_biscuitScopes v = ld_Scopes ld" "au_Policies v = ab_Policies ab"
    by (rule authorizer_Build_parts[OF assms(1) biscuit])
  let ?t = "au_symbols v" and ?k = "au_publicKeys v"
  have plain: "\<forall>f \<in> set (ab_Facts ab). bpred_plain f" "\<forall>r \<in> set (ab_Rules ab). brule_plain r"
    "\<forall>c \<in> set (ab_Checks ab). bcheck_plain c" "\<forall>s \<in> set (ab_Scopes ab). bscope_plain s"
    using ab by (simp_all add: authorizer_plain_builder_def)
  note facts_conv = p(6)[unfolded BFact_convert_def[abs_def]]
  have le: "key_le (ld_publicKeys ld) keys1" "sym_le (ld_symbols ld) symbols1" "tables_le (symbols1, keys1) st" "tables_le st (?t, ?k)"
    using scope_interning.thread_le[OF plain(4) p(5)] pred_interning.thread_le[OF plain(1) facts_conv]
      rule_interning.thread_le[OF plain(2) p(7)] check_interning.thread_le[OF plain(3) p(8)] .
  have final: "tables_le (loading_tables ld) (?t, ?k)" "sym_le symbols1 ?t" "key_le keys1 ?k"
    using le by (cases st, auto simp: tables_le_def loading_tables_def intro: sym_le_trans key_le_trans)+
  have fits: "sym_fits ?t" "key_fits ?k" using fit by (simp_all add: tables_fit_def)
  have start: "loading_inv rt start" "facts_readable rt ?t (ld_world start)"
    "read_facts rt ?t (ld_world start) = {}" "read_rules rt (?t, ?k) (ld_world start) = {}"
    by (simp_all add: loading_inv_def facts_readable_def read_facts_def read_rules_def p(2) NewWorld_def)
  obtain ms css scs where B: "blocks_read rt (bis_symbols biscuit) 0 (Biscuit_Blocks biscuit) = Inr ms"
    "facts_readable rt ?t (ld_world ld)"
    "read_facts rt ?t (ld_world ld) = (\<lambda>(n, f). ({n}, f)) ` placed 0 (map m_Facts ms)"
    "read_rules rt (?t, ?k) (ld_world ld) = placed 0 (map m_Rules ms)"
    "ld_Checks ld = css" "traverse (traverse (fromDatalogCheck rt ?t (Some ?k))) css = Inr (map m_Checks ms)"
    "ld_Scopes ld = scs" "traverse (traverse (fromDatalogScope (Some ?k))) scs = Inr (map m_Scopes ms)"
    using load_blocks_spec[OF p(1) start(1) blocks final(1) fit start(2)]
    unfolding start p(3,4) append_Nil sup_bot_left by (elim exE conjE) (rule that; assumption)
  have inv: "facts_inv rt (World_Facts (ld_world ld))" "rules_inv rt (World_Rules (ld_world ld))"
    using load_blocks_inv[OF p(1) start(1) blocks] by (simp_all add: loading_inv_def)
  have facts: "\<forall>f \<in> set facts. pred_atomic f"
    by (rule thread_all[OF facts_conv], rule convert_pred_atomic) (use plain(1) in blast)+
  have rules: "\<forall>r \<in> set rules. rule_ok r"
    by (rule thread_all[OF p(7)]) (metis plain(2) convert_rule_ok prod.collapse)
  let ?w = "fold (\<lambda>f w. World_AddFact rt w (NewOrigin rt AuthorizerBlockID []) f) facts (ld_world ld)"
  have F: "facts_inv rt (World_Facts ?w)" "World_Rules ?w = World_Rules (ld_world ld)"
    "facts_of rt (World_Facts ?w) = facts_of rt (World_Facts (ld_world ld)) \<union> {{AuthorizerBlockID}} \<times> set facts"
    using fold_AddFact[OF inv(1) facts] by blast+
  have R: "rules_inv rt (World_Rules ?w)" using inv(2) F(2) by simp
  have ne: "trusted_blocks bs rs cur sr \<noteq> {}" for bs rs cur sr by (auto simp: trusted_blocks_def Let_def)
  note A = fold_AddRule[OF R rules, of "\<lambda>r. NewTrustedOriginFromScopes rt (au_Scopes v) (elems (rule_Scopes r))
    AuthorizerBlockID (ld_signatureRegistry ld)" AuthorizerBlockID, folded p(9)]
  have W: "World_Facts (au_world v) = World_Facts ?w" "rules_of rt (World_Rules (au_world v)) =
      rules_of rt (World_Rules (ld_world ld)) \<union> (\<lambda>r. (trusted_blocks (au_Scopes v) (elems (rule_Scopes r)) AuthorizerBlockID
        (ld_signatureRegistry ld), AuthorizerBlockID, rule_norm r)) ` set rules"
    using A ne F(2) by (simp_all add: set_NewTrustedOriginFromScopes)
  have fr: "traverse (fromDatalogFact rt ?t) facts = Inr (ab_Facts ab)"
    using pred_interning.thread_round[OF plain(1) facts_conv final(2) fits(1)] by (simp add: fromDatalogFact_def[abs_def])
  have rr: "traverse (fromDatalogRule rt (fst (?t, ?k)) (Some (snd (?t, ?k)))) rules = Inr (ab_Rules ab)"
    using rule_interning.thread_round[OF plain(2) p(7) le(4) fit] by simp
  have cr: "traverse (fromDatalogCheck rt ?t (Some ?k)) (au_Checks v) = Inr (ab_Checks ab)"
    using check_interning.thread_round[OF plain(3) p(8) _ fit] by (simp add: tables_le_def)
  have sr: "traverse (fromDatalogScope (Some ?k)) (au_Scopes v) = Inr (ab_Scopes ab)"
    by (rule scope_interning.thread_round[OF plain(4) p(5) final(3) fits(2)])
  note G = read_facts_add[of rt "au_world v" "ld_world ld" AuthorizerBlockID facts, OF _ fr, unfolded W(1) F(3), OF refl]
  show "facts_readable rt ?t (au_world v)" by (rule G(2)[OF B(2)])
  show "facts_inv rt (World_Facts (au_world v))" using F(1) W(1) by simp
  show "\<exists>ms. blocks_read rt (bis_symbols biscuit) 0 (Biscuit_Blocks biscuit) = Inr ms \<and> authorizer_says rt v ms ab"
    using B(1) B(5-8) G(1) read_rules_add[OF W(2) rr] cr sr
    by (intro exI[of _ ms]) (simp add: authorizer_says_def B(3,4) p(10-12))
qed

section \<open>Properties\<close>

text \<open>
  C13: \<^verbatim>\<open>Build\<close> keeps blocks apart and keeps their meaning. Loading block \<open>i\<close> of a token adds facts
  of origin \<open>{i}\<close> only, and rules of block \<open>i\<close> only, each reading what the scopes of its block and its
  own name; all other facts and rules of the world stay. Read with the tables of the authorizer,
  what was added says what the block says under its own tables. (Blocks whose terms are not sets,
  tables whose indices fit.)
\<close>

theorem load_block_places:
  assumes "load_block rt symbols i block ld = Inr ld'" and "loading_inv rt ld" and "block_atomic block"
    and "tables_fit (ld_symbols ld', ld_publicKeys ld')"
  shows "\<exists>m facts rules checks scopes. block_reads rt (block_symbols symbols i block) block = Inr m \<and>
    facts_of rt (World_Facts (ld_world ld')) = facts_of rt (World_Facts (ld_world ld)) \<union> {{word_of_nat i}} \<times> set facts \<and>
    rules_of rt (World_Rules (ld_world ld')) = rules_of rt (World_Rules (ld_world ld)) \<union>
      (\<lambda>r. (trusted_blocks scopes (elems (rule_Scopes r)) (word_of_nat i) (ld_signatureRegistry ld'),
        word_of_nat i, rule_norm r)) ` set rules \<and>
    ld_Scopes ld' = ld_Scopes ld @ [scopes] \<and> ld_Checks ld' = ld_Checks ld @ [checks] \<and>
    traverse (fromDatalogFact rt (ld_symbols ld')) facts = Inr (m_Facts m) \<and>
    traverse (fromDatalogRule rt (ld_symbols ld') (Some (ld_publicKeys ld'))) rules = Inr (m_Rules m) \<and>
    traverse (fromDatalogCheck rt (ld_symbols ld') (Some (ld_publicKeys ld'))) checks = Inr (m_Checks m) \<and>
    traverse (fromDatalogScope (Some (ld_publicKeys ld'))) scopes = Inr (m_Scopes m)"
proof (rule load_block_spec[OF assms(1-3)])
  fix facts rules checks scopes
  assume s: "ld_Scopes ld' = ld_Scopes ld @ [scopes]" "ld_Checks ld' = ld_Checks ld @ [checks]"
    and f: "facts_of rt (World_Facts (ld_world ld')) = facts_of rt (World_Facts (ld_world ld)) \<union> {{word_of_nat i}} \<times> set facts"
    and r: "rules_of rt (World_Rules (ld_world ld')) = rules_of rt (World_Rules (ld_world ld)) \<union>
      (\<lambda>r. (trusted_blocks scopes (elems (rule_Scopes r)) (word_of_nat i) (ld_signatureRegistry ld'),
        word_of_nat i, rule_norm r)) ` set rules"
    and m: "\<And>t k. tables_le (loading_tables ld') (t, k) \<Longrightarrow> tables_fit (t, k) \<Longrightarrow>
      \<exists>m. block_reads rt (block_symbols symbols i block) block = Inr m \<and>
        traverse (fromDatalogFact rt t) facts = Inr (m_Facts m) \<and>
        traverse (fromDatalogRule rt t (Some k)) rules = Inr (m_Rules m) \<and>
        traverse (fromDatalogCheck rt t (Some k)) checks = Inr (m_Checks m) \<and>
        traverse (fromDatalogScope (Some k)) scopes = Inr (m_Scopes m)"
  have "tables_le (loading_tables ld') (ld_symbols ld', ld_publicKeys ld')" by (simp add: loading_tables_def tables_le_def)
  from m[OF this assms(4)] show ?thesis using s f r by blast
qed

theorem load_block_places_witness:
  "\<exists>ld' f. load_block demo_runtime [''a''] 2 (demo_block\<lparr>blk_scopes := []\<rparr>)
       \<lparr>ld_world = NewWorld [], ld_symbols = [], ld_publicKeys = [], ld_signatureRegistry = [], ld_Scopes = [], ld_Checks = []\<rparr> = Inr ld' \<and>
     facts_of demo_runtime (World_Facts (ld_world ld')) = {({2}, f)} \<and>
     fromDatalogFact demo_runtime (ld_symbols ld') f = Inr \<lparr>bp_Name = ''a'', bp_IDs = [BInteger 7]\<rparr>"
proof -
  let ?block = "demo_block\<lparr>blk_scopes := []\<rparr>"
  let ?ld = "\<lparr>ld_world = NewWorld [], ld_symbols = [], ld_publicKeys = [], ld_signatureRegistry = [], ld_Scopes = [], ld_Checks = []\<rparr>"
  have str: "SymbolTable_Str [''a''] 1024 = Some ''a''" by (simp add: SymbolTable_Str_def OFFSET_def Let_def length_DEFAULT_SYMBOLS)
  have ins: "SymbolTable_Insert [] ''a'' = (1024, [''a''])" by code_simp
  obtain ld' where ld': "load_block demo_runtime [''a''] 2 ?block ?ld = Inr ld'" "ld_symbols ld' = [''a'']" "ld_publicKeys ld' = []"
    by (simp add: load_block_def block_tables_def demo_block_def fromDatalogFact_def fromDatalogPredicate_def read_Str_def
      str BFact_convert_def BPredicate_convert_def ins Let_def)
  have w: "World_Facts (NewWorld []) = []" "World_Rules (NewWorld []) = []" by (simp_all add: NewWorld_def)
  have "\<exists>m facts rules checks scopes. block_reads demo_runtime (block_symbols [''a''] 2 ?block) ?block = Inr m \<and>
    facts_of demo_runtime (World_Facts (ld_world ld')) = facts_of demo_runtime (World_Facts (ld_world ?ld)) \<union> {{word_of_nat 2}} \<times> set facts \<and>
    rules_of demo_runtime (World_Rules (ld_world ld')) = rules_of demo_runtime (World_Rules (ld_world ?ld)) \<union>
      (\<lambda>r. (trusted_blocks scopes (elems (rule_Scopes r)) (word_of_nat 2) (ld_signatureRegistry ld'),
        word_of_nat 2, rule_norm r)) ` set rules \<and>
    ld_Scopes ld' = ld_Scopes ?ld @ [scopes] \<and> ld_Checks ld' = ld_Checks ?ld @ [checks] \<and>
    traverse (fromDatalogFact demo_runtime (ld_symbols ld')) facts = Inr (m_Facts m) \<and>
    traverse (fromDatalogRule demo_runtime (ld_symbols ld') (Some (ld_publicKeys ld'))) rules = Inr (m_Rules m) \<and>
    traverse (fromDatalogCheck demo_runtime (ld_symbols ld') (Some (ld_publicKeys ld'))) checks = Inr (m_Checks m) \<and>
    traverse (fromDatalogScope (Some (ld_publicKeys ld'))) scopes = Inr (m_Scopes m)"
    by (rule load_block_places[OF ld'(1)])
       (simp_all add: loading_inv_def w demo_block_def block_atomic_def pred_atomic_def ld'(2,3) tables_fit_def sym_fits_def key_fits_def)
  then obtain m facts where m: "block_reads demo_runtime [''a''] ?block = Inr m"
    "facts_of demo_runtime (World_Facts (ld_world ld')) = {{2}} \<times> set facts"
    "traverse (fromDatalogFact demo_runtime (ld_symbols ld')) facts = Inr (m_Facts m)"
    by (auto simp: w block_symbols_def demo_block_def)
  have "m_Facts m = [\<lparr>bp_Name = ''a'', bp_IDs = [BInteger 7]\<rparr>]"
    using m(1) by (auto simp: block_reads_def demo_block_def fromDatalogFact_def fromDatalogPredicate_def read_Str_def str)
  with m(3) obtain f where "facts = [f]" "fromDatalogFact demo_runtime (ld_symbols ld') f = Inr \<lparr>bp_Name = ''a'', bp_IDs = [BInteger 7]\<rparr>"
    by (cases facts) (auto simp: bind_res_eq_Inr traverse_Inr)
  then show ?thesis using ld'(1) m(2) by auto
qed

text \<open>
  C12: an authorizer says what its token and its builder say. After a successful \<^verbatim>\<open>Build\<close>, every
  block has a meaning under its own tables, and the world, the checks and the scopes of the
  authorizer, read with the tables of the authorizer, are exactly these meanings, facts and rules under the
  identifier of their block, and next to them what was added to the builder. (No sets in the terms;
  symbols and keys that fit their tables.)
\<close>

theorem Build_says_what_was_written:
  assumes "authorizerBuilder_Build rt ab opts = Inr v" and "ab_biscuit ab = Some biscuit"
    and "\<forall>b \<in> set (Biscuit_Blocks biscuit). block_atomic b" and "authorizer_plain_builder ab"
    and "tables_fit (au_symbols v, au_publicKeys v)"
  shows "\<exists>ms. blocks_read rt (bis_symbols biscuit) 0 (Biscuit_Blocks biscuit) = Inr ms \<and> authorizer_says rt v ms ab"
  by (rule authorizer_Build_spec(1)[OF assms])

definition demo_policies :: authorizerBuilder where
  "demo_policies = \<lparr>ab_biscuit = Some demo_biscuit, ab_Facts = [\<lparr>bp_Name = ''read'', bp_IDs = [BInteger 7]\<rparr>], ab_Rules = [],
     ab_Scopes = [], ab_Checks = [\<lparr>bc_Queries = [named_rule ''read''], bc_Kind = CheckAll\<rparr>], ab_Policies = [DefaultAllowPolicy]\<rparr>"

lemma demo_symbol: "SymbolTable_Insert [] ''read'' = (0, [])" "SymbolTable_Str [] 0 = Some ''read''"
  by code_simp+

lemma demo_Build: "\<exists>v. authorizerBuilder_Build demo_runtime demo_policies [] = Inr v \<and> au_symbols v = [] \<and> au_publicKeys v = []"
  by (simp add: authorizerBuilder_Build_def demo_policies_def demo_biscuit_def Biscuit_Blocks_def load_block_def block_tables_def
      Let_def BFact_convert_def BPredicate_convert_def demo_symbol BCheck_Convert_def BRule_Convert_def named_rule_def)

lemma demo_policies_plain:
  "ab_biscuit demo_policies = Some demo_biscuit" "\<forall>b \<in> set (Biscuit_Blocks demo_biscuit). block_atomic b"
  "authorizer_plain_builder demo_policies" "tables_fit ([], [])"
  by (simp_all add: demo_policies_def demo_biscuit_def Biscuit_Blocks_def block_atomic_def authorizer_plain_builder_def
      bpred_plain_def bcheck_plain_def named_rule_def brule_plain_def tables_fit_def sym_fits_def key_fits_def)

theorem Build_says_what_was_written_witness:
  "\<exists>v ms. authorizerBuilder_Build demo_runtime demo_policies [] = Inr v \<and>
     blocks_read demo_runtime (bis_symbols demo_biscuit) 0 (Biscuit_Blocks demo_biscuit) = Inr ms \<and>
     authorizer_says demo_runtime v ms demo_policies"
proof -
  obtain v where v: "authorizerBuilder_Build demo_runtime demo_policies [] = Inr v" "au_symbols v = []" "au_publicKeys v = []"
    using demo_Build by blast
  show ?thesis
    using Build_says_what_was_written[OF v(1) demo_policies_plain(1-3)] demo_policies_plain(4) v by auto
qed

end
