(* ===== verification/Chains.thy ===== *)
theory Chains
  imports Authorizers
begin

text \<open>
  The signatures of a token (\<^verbatim>\<open>biscuit.go\<close>, \<^verbatim>\<open>authorizerFor\<close> and its callers): every block is
  signed with the key its predecessor names, and the proof shows the last key or a seal. The
  specification \<open>chain_valid\<close> states this block by block; \<open>issued\<close> are the tokens this
  library makes. The panic of \<^verbatim>\<open>ed25519.Verify\<close> for a root key of a wrong length is
  \<open>CryptoErr CryptoPanic\<close>.
\<close>

section \<open>Checking a token\<close>

definition verify_with :: "('sk, 'pk) crypto_lib \<Rightarrow> 'pk Verifier \<Rightarrow> u8 list \<Rightarrow> u8 list \<Rightarrow> token_error + unit" where
  "verify_with cl verifier toVerify signature = (case Verifier_Verify cl verifier toVerify signature of
     None \<Rightarrow> Inr () | Some err \<Rightarrow> Inl (CryptoErr err))"

definition next_verifier :: "('sk, 'pk) crypto_lib \<Rightarrow> SignedBlock \<Rightarrow> token_error + 'pk Verifier" where
  "next_verifier cl sb = map_err CryptoErr (NewVerifierFromPB cl (pbk_Algorithm (sb_NextKey sb)) (pbk_Key (sb_NextKey sb)))"

text \<open>The authority block: the verifier of the next block.\<close>

definition verify_authority :: "('sk, 'pk) crypto_lib \<Rightarrow> 'pk Verifier \<Rightarrow> SignedBlock \<Rightarrow> token_error + 'pk Verifier" where
  "verify_authority cl verifier sb =
     bind_res (getBlockSignatureVersion sb) (\<lambda>blockSignatureVersion.
     bind_res (if blockSignatureVersion = BlockSignatureVersion0 then
           Inr (blockSignaturePayloadV0 (pbk_Algorithm (sb_NextKey sb)) (sb_Block sb) (pbk_Key (sb_NextKey sb)))
         else if blockSignatureVersion = BlockSignatureVersion1 then
           Inr (authorityBlockSignaturePayloadV1 (pbk_Algorithm (sb_NextKey sb)) (sb_Block sb) (pbk_Key (sb_NextKey sb))
             blockSignatureVersion)
         else Inl (UnsupportedBlockSignatureVersion blockSignatureVersion)) (\<lambda>toVerify.
     bind_res (verify_with cl verifier toVerify (sb_Signature sb)) (\<lambda>_. next_verifier cl sb)))"

text \<open>One round of the loop over the other blocks.\<close>

definition verify_block :: "('sk, 'pk) crypto_lib \<Rightarrow> 'pk Verifier \<Rightarrow> u8 list \<Rightarrow> SignedBlock \<Rightarrow> token_error + 'pk Verifier" where
  "verify_block cl verifier previousSignature sb =
     bind_res (getBlockSignatureVersion sb) (\<lambda>blockSignatureVersion.
     let externalSignature = map_option pbe_Signature (sb_ExternalSignature sb) in
     bind_res (if blockSignatureVersion = BlockSignatureVersion0 then
           Inr (blockSignaturePayloadV0 (pbk_Algorithm (sb_NextKey sb)) (sb_Block sb) (pbk_Key (sb_NextKey sb)))
         else if blockSignatureVersion = BlockSignatureVersion1 then
           Inr (blockSignaturePayloadV1 (pbk_Algorithm (sb_NextKey sb)) (sb_Block sb) (pbk_Key (sb_NextKey sb))
             externalSignature previousSignature blockSignatureVersion)
         else Inl (UnsupportedBlockSignatureVersion blockSignatureVersion)) (\<lambda>toVerify.
     bind_res (verify_with cl verifier toVerify (sb_Signature sb)) (\<lambda>_.
     case (if externalSignature \<noteq> None then
         verifyExternalSignature cl (sb_Block sb) previousSignature (sb_ExternalSignature sb) blockSignatureVersion
         else None) of
       Some err \<Rightarrow> Inl err
     | None \<Rightarrow> next_verifier cl sb)))"

fun verify_blocks :: "('sk, 'pk) crypto_lib \<Rightarrow> 'pk Verifier \<Rightarrow> u8 list \<Rightarrow> SignedBlock list \<Rightarrow> token_error + 'pk Verifier" where
  "verify_blocks cl verifier previousSignature [] = Inr verifier"
| "verify_blocks cl verifier previousSignature (sb # sbs) =
     bind_res (verify_block cl verifier previousSignature sb) (\<lambda>verifier. verify_blocks cl verifier (sb_Signature sb) sbs)"

definition verify_proof :: "('sk, 'pk) crypto_lib \<Rightarrow> 'pk Verifier \<Rightarrow> SignedBlock option \<Rightarrow> Proof \<Rightarrow> token_error + unit" where
  "verify_proof cl verifier lastBlock proof = (case proof of
     NextSecret privateKey \<Rightarrow>
       bind_res (ok_or TokenPanic lastBlock) (\<lambda>lastBlock.
       bind_res (map_err CryptoErr (NewSignerFromPB cl (pbk_Algorithm (sb_NextKey lastBlock)) privateKey)) (\<lambda>signer.
       case Verifier_Matches cl verifier signer of None \<Rightarrow> Inr () | Some err \<Rightarrow> Inl (CryptoErr err)))
   | FinalSignature signature \<Rightarrow>
       bind_res (ok_or TokenPanic lastBlock) (\<lambda>lastBlock.
       verify_with cl verifier (sealedBlockSignaturePayload (pbk_Algorithm (sb_NextKey lastBlock)) (sb_Block lastBlock)
         (pbk_Key (sb_NextKey lastBlock)) (sb_Signature lastBlock)) signature)
   | Proof_absent \<Rightarrow> Inl NoProof)"

definition Biscuit_authorizerFor :: "('sk, 'pk) crypto_lib \<Rightarrow> Biscuit \<Rightarrow> 'pk crypto_PublicKey \<Rightarrow> token_error + authorizerBuilder" where
  "Biscuit_authorizerFor cl b root =
     bind_res (map_err CryptoErr (NewSigVerifier root)) (\<lambda>verifier.
     let authority = pbs_Authority (bis_container b) in
     bind_res (verify_authority cl verifier authority) (\<lambda>verifier.
     bind_res (verify_blocks cl verifier (sb_Signature authority) (pbs_Blocks (bis_container b))) (\<lambda>verifier.
     bind_res (verify_proof cl verifier (Biscuit_lastBlock b) (pbs_Proof (bis_container b))) (\<lambda>_.
       Inr (NewAuthorizerBuilder (Some b))))))"

section \<open>Choosing the root key\<close>

type_synonym PublickKeyByIDProjection = "u32 option \<Rightarrow> token_error + u8 list"

definition WithSingularRootPublicKey :: "u8 list \<Rightarrow> PublickKeyByIDProjection" where
  "WithSingularRootPublicKey key _ = Inr key"

definition WithRootPublicKeys :: "(u32 \<rightharpoonup> u8 list) \<Rightarrow> u8 list option \<Rightarrow> PublickKeyByIDProjection" where
  "WithRootPublicKeys keysByID defaultKey i = (case i of
     None \<Rightarrow> (case defaultKey of Some key \<Rightarrow> Inr key | None \<Rightarrow> Inl ErrNoPublicKeyAvailable)
   | Some i \<Rightarrow> (case keysByID i of Some key \<Rightarrow> Inr key | None \<Rightarrow> Inl ErrNoPublicKeyAvailable))"

definition Biscuit_AuthorizerFor ::
    "('sk, 'pk) crypto_lib \<Rightarrow> Biscuit \<Rightarrow> PublickKeyByIDProjection option \<Rightarrow> token_error + authorizerBuilder" where
  "Biscuit_AuthorizerFor cl b keySource = (case keySource of
     None \<Rightarrow> Inl NilKeySource
   | Some keySource \<Rightarrow> bind_res (keySource (Biscuit_RootKeyID b)) (\<lambda>rootPublicKey.
       if length rootPublicKey = 0 then Inl ErrNoPublicKeyAvailable
       else Biscuit_authorizerFor cl b (Ed25519PublicKey rootPublicKey)))"

definition Biscuit_AuthorizerForCryptoPubKey ::
    "('sk, 'pk) crypto_lib \<Rightarrow> Biscuit \<Rightarrow> 'pk crypto_PublicKey \<Rightarrow> token_error + authorizerBuilder" where
  "Biscuit_AuthorizerForCryptoPubKey cl b pub = Biscuit_authorizerFor cl b pub"

text \<open>Unlike \<open>Biscuit_AuthorizerFor\<close>, this one passes an empty key on.\<close>

definition Biscuit_Authorizer :: "('sk, 'pk) crypto_lib \<Rightarrow> Biscuit \<Rightarrow> u8 list \<Rightarrow> token_error + authorizerBuilder" where
  "Biscuit_Authorizer cl b root = Biscuit_authorizerFor cl b (Ed25519PublicKey root)"

section \<open>Valid chains\<close>

definition block_version :: "SignedBlock \<Rightarrow> u32" where
  "block_version sb = (case sb_Version sb of None \<Rightarrow> 0 | Some v \<Rightarrow> v)"

text \<open>What a block's signature covers, given the signature of its predecessor if it has one.\<close>

definition signed_payload :: "u8 list option \<Rightarrow> SignedBlock \<Rightarrow> u8 list option" where
  "signed_payload prev sb = (let alg = pbk_Algorithm (sb_NextKey sb); key = pbk_Key (sb_NextKey sb) in
     if block_version sb = 0 then Some (blockSignaturePayloadV0 alg (sb_Block sb) key)
     else if block_version sb = 1 then Some (case prev of
         None \<Rightarrow> authorityBlockSignaturePayloadV1 alg (sb_Block sb) key 1
       | Some p \<Rightarrow> blockSignaturePayloadV1 alg (sb_Block sb) key (map_option pbe_Signature (sb_ExternalSignature sb)) p 1)
     else None)"

definition block_signed :: "('sk, 'pk) crypto_lib \<Rightarrow> 'pk Verifier \<Rightarrow> u8 list option \<Rightarrow> SignedBlock \<Rightarrow> bool" where
  "block_signed cl v prev sb \<longleftrightarrow> (case signed_payload prev sb of
     None \<Rightarrow> False | Some m \<Rightarrow> Verifier_Verify cl v m (sb_Signature sb) = None)"

definition external_signed :: "('sk, 'pk) crypto_lib \<Rightarrow> u8 list \<Rightarrow> SignedBlock \<Rightarrow> bool" where
  "external_signed cl prev sb \<longleftrightarrow> (sb_ExternalSignature sb = None \<or>
     verifyExternalSignature cl (sb_Block sb) prev (sb_ExternalSignature sb) (block_version sb) = None)"

definition follows :: "('sk, 'pk) crypto_lib \<Rightarrow> SignedBlock \<Rightarrow> SignedBlock \<Rightarrow> bool" where
  "follows cl sb sb' \<longleftrightarrow> (case next_verifier cl sb of
     Inl _ \<Rightarrow> False | Inr v \<Rightarrow> block_signed cl v (Some (sb_Signature sb)) sb') \<and> external_signed cl (sb_Signature sb) sb'"

text \<open>The proof is the private key the last block names, or that key's signature over the last block.\<close>

definition proof_valid :: "('sk, 'pk) crypto_lib \<Rightarrow> SignedBlock \<Rightarrow> Proof \<Rightarrow> bool" where
  "proof_valid cl sb proof \<longleftrightarrow> (case next_verifier cl sb of Inl _ \<Rightarrow> False | Inr v \<Rightarrow> (case proof of
     NextSecret k \<Rightarrow> (case NewSignerFromPB cl (pbk_Algorithm (sb_NextKey sb)) k of
       Inl _ \<Rightarrow> False | Inr s \<Rightarrow> v = verifier_of cl s)
   | FinalSignature sig \<Rightarrow> Verifier_Verify cl v (sealedBlockSignaturePayload (pbk_Algorithm (sb_NextKey sb)) (sb_Block sb)
       (pbk_Key (sb_NextKey sb)) (sb_Signature sb)) sig = None
   | Proof_absent \<Rightarrow> False))"

definition container_blocks :: "pb_Biscuit \<Rightarrow> SignedBlock list" where
  "container_blocks c = pbs_Authority c # pbs_Blocks c"

definition chain_valid :: "('sk, 'pk) crypto_lib \<Rightarrow> 'pk crypto_PublicKey \<Rightarrow> pb_Biscuit \<Rightarrow> bool" where
  "chain_valid cl root c \<longleftrightarrow>
     (case NewSigVerifier root of Inl _ \<Rightarrow> False | Inr v \<Rightarrow> block_signed cl v None (pbs_Authority c)) \<and>
     successively (follows cl) (container_blocks c) \<and>
     proof_valid cl (last (container_blocks c)) (pbs_Proof c)"

text \<open>The blocks of the token and of its container correspond.\<close>

definition aligned :: "Biscuit \<Rightarrow> bool" where
  "aligned b \<longleftrightarrow> length (bis_blocks b) = length (pbs_Blocks (bis_container b))"

lemma lastBlock_aligned: "aligned b \<Longrightarrow> Biscuit_lastBlock b = Some (last (container_blocks (bis_container b)))"
  by (auto simp: aligned_def Biscuit_lastBlock_def container_blocks_def last_conv_nth)

lemma matches_iff: "Verifier_Matches cl v s = None \<longleftrightarrow> v = verifier_of cl s"
  by (cases v; cases s) auto

lemma block_version_read:
  "getBlockSignatureVersion sb = (if block_version sb \<le> 1 then Inr (block_version sb)
     else Inl (UnsupportedBlockSignatureVersion (block_version sb)))"
  by (auto simp: getBlockSignatureVersion_def block_version_def Let_def MinBlockSignatureVersion_def
    MaxBlockSignatureVersion_def BlockSignatureVersion0_def BlockSignatureVersion1_def)

lemma small_version: "v \<le> 1 \<longleftrightarrow> v = 0 \<or> v = (1 :: u32)"
proof -
  have "v \<le> 1 \<longleftrightarrow> unat v = 0 \<or> unat v = 1" by (auto simp: word_le_nat_alt)
  then show ?thesis by (simp add: word_unat_eq_iff)
qed

lemma verify_with_ok [simp]: "verify_with cl v m s = Inr u \<longleftrightarrow> Verifier_Verify cl v m s = None"
  by (simp add: verify_with_def split: option.split)

lemma verify_authority_ok:
  "verify_authority cl v sb = Inr v' \<longleftrightarrow> block_signed cl v None sb \<and> next_verifier cl sb = Inr v'"
  by (auto simp: verify_authority_def block_version_read small_version block_signed_def signed_payload_def Let_def
    BlockSignatureVersion0_def BlockSignatureVersion1_def bind_res_eq_Inr)

lemma verify_block_ok:
  "verify_block cl v prev sb = Inr v' \<longleftrightarrow>
     block_signed cl v (Some prev) sb \<and> external_signed cl prev sb \<and> next_verifier cl sb = Inr v'"
  by (auto simp: verify_block_def block_version_read small_version block_signed_def signed_payload_def external_signed_def
    Let_def BlockSignatureVersion0_def BlockSignatureVersion1_def bind_res_eq_Inr split: option.splits if_splits)

lemma verify_blocks_ok:
  "next_verifier cl sb = Inr v \<Longrightarrow> verify_blocks cl v (sb_Signature sb) sbs = Inr v' \<longleftrightarrow>
     successively (follows cl) (sb # sbs) \<and> next_verifier cl (last (sb # sbs)) = Inr v'"
proof (induction sbs arbitrary: sb v)
  case (Cons a sbs)
  show ?case
  proof (cases "next_verifier cl a")
    case (Inl e)
    then show ?thesis
      by (cases sbs) (auto simp: bind_res_eq_Inr verify_block_ok follows_def Inl)
  next
    case (Inr w)
    then show ?thesis using Cons.IH[OF Inr] Cons.prems
      by (auto simp: bind_res_eq_Inr verify_block_ok follows_def successively_Cons)
  qed
qed auto

lemma verify_proof_ok:
  "next_verifier cl sb = Inr v \<Longrightarrow> verify_proof cl v (Some sb) proof = Inr u \<longleftrightarrow> proof_valid cl sb proof"
  by (cases "proof") (auto simp: verify_proof_def proof_valid_def bind_res_eq_Inr ok_or_def matches_iff split: option.splits sum.splits)

lemma authorizerFor_ok:
  assumes "aligned b"
  shows "Biscuit_authorizerFor cl b root = Inr ab \<longleftrightarrow>
    chain_valid cl root (bis_container b) \<and> ab = NewAuthorizerBuilder (Some b)"
proof (cases "next_verifier cl (pbs_Authority (bis_container b))")
  case (Inl e)
  then show ?thesis
    by (cases "pbs_Blocks (bis_container b)")
       (auto simp: Biscuit_authorizerFor_def bind_res_eq_Inr verify_authority_ok chain_valid_def container_blocks_def
          proof_valid_def follows_def Let_def)
next
  case (Inr v)
  show ?thesis
    using verify_blocks_ok[OF Inr, of "pbs_Blocks (bis_container b)"] Inr
    by (auto simp: Biscuit_authorizerFor_def bind_res_eq_Inr verify_authority_ok chain_valid_def Let_def
      lastBlock_aligned[OF assms] verify_proof_ok container_blocks_def proof_valid_def split: sum.splits)
qed

section \<open>Extending a chain\<close>

text \<open>The public half of a root key.\<close>

fun public_of :: "('sk, 'pk) crypto_lib \<Rightarrow> 'sk crypto_Signer \<Rightarrow> 'pk crypto_PublicKey" where
  "public_of cl (Ed25519PrivateKey k) = Ed25519PublicKey (ed25519_Public cl k)"
| "public_of cl (EcdsaPrivateKey k) = EcdsaPublicKey (Some (ecdsa_PublicKey cl k))"
| "public_of cl OtherSigner = OtherPublicKey"

lemma root_verifier: "NewSigner root = Inr s \<Longrightarrow> NewSigVerifier (public_of cl root) = Inr (verifier_of cl s)"
  by (cases root) auto

lemma next_secret [simp]: "GetNextSecret p = Some k \<longleftrightarrow> p = NextSecret k"
  by (cases p) simp_all

lemma newBiscuit_valid:
  assumes "crypto_laws cl" and "newBiscuit cl pl rt rand root symbols keys authority opts = Inr b"
  shows "chain_valid cl (public_of cl root) (bis_container b) \<and> aligned b"
proof -
  obtain rng rid s gen pub priv bs sig where st: "NewSigner root = Inr s"
    "NewKeyGenerator (Signer_Algorithm s) = Inr gen" "GenerateNext cl gen rng = Inr (pub, priv)"
    "Signer_Sign cl rand s (authorityBlockSignaturePayloadV1 (Signer_Algorithm s) bs pub BlockSignatureVersion1) = Inr sig"
    "bis_container b = \<lparr>pbs_RootKeyId = rid, pbs_Authority = \<lparr>sb_Block = bs,
        sb_NextKey = \<lparr>pbk_Algorithm = Signer_Algorithm s, pbk_Key = pub\<rparr>, sb_Signature = sig, sb_ExternalSignature = None,
        sb_Version = Some BlockSignatureVersion1\<rparr>, pbs_Blocks = [], pbs_Proof = NextSecret priv\<rparr>" "bis_blocks b = []"
    using assms(2) by (cases "Block_UpdatePublicKeys rt authority 0 keys []")
      (auto simp: newBiscuit_def bind_res_eq_Inr Let_def split: if_splits)
  obtain s' where s': "NewSignerFromPB cl (Signer_Algorithm s) priv = Inr s'"
    "NewVerifierFromPB cl (Signer_Algorithm s) pub = Inr (verifier_of cl s')"
    using next_key_pair[OF assms(1) st(2,3)] by metis
  show ?thesis
    using st s' root_verifier[OF st(1), of cl] signed_verifies[OF assms(1) st(4)]
    by (simp add: chain_valid_def container_blocks_def aligned_def proof_valid_def next_verifier_def block_signed_def
      signed_payload_def block_version_def BlockSignatureVersion1_def)
qed

lemma append_valid:
  assumes "crypto_laws cl" and "chain_valid cl root (bis_container b)" and "aligned b"
    and "Biscuit_append cl pl rt rand b rng block ext = Inr b'"
    and "ext = None \<or> (\<exists>pbk bs. tokenBlockToProtoBlock block = Inr pbk \<and> Marshal_Block pl pbk = Some bs \<and>
      verifyExternalSignature cl bs (sb_Signature (last (container_blocks (bis_container b)))) ext 1 = None)"
  shows "chain_valid cl root (bis_container b') \<and> aligned b'"
proof -
  let ?last = "last (container_blocks (bis_container b))"
  let ?alg = "pbk_Algorithm (sb_NextKey ?last)"
  obtain k s gen pub priv m bs sig where st: "pbs_Proof (bis_container b) = NextSecret k" "NewSignerFromPB cl ?alg k = Inr s"
    "NewKeyGenerator ?alg = Inr gen" "GenerateNext cl gen rng = Inr (pub, priv)"
    "tokenBlockToProtoBlock block = Inr m" "Marshal_Block pl m = Some bs"
    "Signer_Sign cl rand s (blockSignaturePayloadV1 ?alg bs pub (map_option pbe_Signature ext) (sb_Signature ?last) 1) = Inr sig"
    and c: "bis_container b' = \<lparr>pbs_RootKeyId = None, pbs_Authority = pbs_Authority (bis_container b),
      pbs_Blocks = pbs_Blocks (bis_container b) @ [\<lparr>sb_Block = bs, sb_NextKey = \<lparr>pbk_Algorithm = ?alg, pbk_Key = pub\<rparr>,
        sb_Signature = sig, sb_ExternalSignature = ext, sb_Version = Some 1\<rparr>], pbs_Proof = NextSecret priv\<rparr>"
    "bis_blocks b' = bis_blocks b @ [block]"
    using assms(4) lastBlock_aligned[OF assms(3)]
    by (cases "Block_UpdatePublicKeys rt block (word_of_nat (length (bis_blocks b) + 1)) (bis_publicKeys b) (bis_signatureRegistry b)")
       (auto simp: Biscuit_append_def bind_res_eq_Inr Let_def BlockSignatureVersion1_def simp del: of_nat_Suc of_nat_add split: if_splits)
  obtain s' where s': "NewSignerFromPB cl ?alg priv = Inr s'" "NewVerifierFromPB cl ?alg pub = Inr (verifier_of cl s')"
    using next_key_pair[OF assms(1) st(3,4)] by metis
  have v: "next_verifier cl ?last = Inr (verifier_of cl s)"
    using assms(2) st(1,2) by (auto simp: chain_valid_def proof_valid_def split: sum.splits)
  let ?new = "\<lparr>sb_Block = bs, sb_NextKey = \<lparr>pbk_Algorithm = ?alg, pbk_Key = pub\<rparr>,
        sb_Signature = sig, sb_ExternalSignature = ext, sb_Version = Some 1\<rparr>"
  have "follows cl ?last ?new"
    using v signed_verifies[OF assms(1) st(7)] assms(5) st(5,6)
    by (auto simp: follows_def block_signed_def signed_payload_def external_signed_def block_version_def)
  moreover have "proof_valid cl ?new (NextSecret priv)" using s' by (simp add: proof_valid_def next_verifier_def)
  moreover have c': "container_blocks (bis_container b') = container_blocks (bis_container b) @ [?new]"
    "pbs_Authority (bis_container b') = pbs_Authority (bis_container b)" "pbs_Proof (bis_container b') = NextSecret priv"
    using c by (simp_all add: container_blocks_def)
  moreover have "aligned b'" using assms(3) c by (simp add: aligned_def)
  ultimately show ?thesis
    using assms(2) unfolding chain_valid_def c' by (simp add: successively_append_iff)
qed

lemma Seal_valid:
  assumes "crypto_laws cl" and "chain_valid cl root (bis_container b)" and "aligned b"
    and "Biscuit_Seal cl rand b = Inr b'"
  shows "chain_valid cl root (bis_container b') \<and> aligned b'"
proof -
  let ?last = "last (container_blocks (bis_container b))"
  obtain k s sig where st: "pbs_Proof (bis_container b) = NextSecret k"
    "NewSignerFromPB cl (pbk_Algorithm (sb_NextKey ?last)) k = Inr s"
    "Signer_Sign cl rand s (sealedBlockSignaturePayload (pbk_Algorithm (sb_NextKey ?last)) (sb_Block ?last)
       (pbk_Key (sb_NextKey ?last)) (sb_Signature ?last)) = Inr sig"
    "bis_container b' = \<lparr>pbs_RootKeyId = None, pbs_Authority = pbs_Authority (bis_container b),
      pbs_Blocks = pbs_Blocks (bis_container b), pbs_Proof = FinalSignature sig\<rparr>" "bis_blocks b' = bis_blocks b"
    using assms(4) lastBlock_aligned[OF assms(3)]
    by (auto simp: Biscuit_Seal_def bind_res_eq_Inr Let_def)
  have v: "next_verifier cl ?last = Inr (verifier_of cl s)"
    using assms(2) st(1,2) by (auto simp: chain_valid_def proof_valid_def split: sum.splits)
  have c: "container_blocks (bis_container b') = container_blocks (bis_container b)"
    "pbs_Authority (bis_container b') = pbs_Authority (bis_container b)" "pbs_Proof (bis_container b') = FinalSignature sig"
    using st(4) by (simp_all add: container_blocks_def)
  show ?thesis
    using assms(2,3) v st(4,5) signed_verifies[OF assms(1) st(3)]
    unfolding chain_valid_def proof_valid_def c by (simp add: aligned_def)
qed

lemma unmarshal_blocks_length:
  "unmarshal_blocks pl rt sbs i symbols keys reg blocks = Inr (symbols', keys', reg', blocks') \<Longrightarrow>
    length blocks' = length blocks + length sbs"
proof (induction sbs arbitrary: i symbols keys reg blocks)
  case (Cons sb sbs)
  then show ?case
    by (auto simp: bind_res_eq_Inr Let_def case_prod_beta dest!: Cons.IH split: option.splits)
qed simp

lemma Unmarshal_container:
  assumes "Unmarshaler_Unmarshal pl rt syms bs = Inr b"
  shows "Unmarshal_Biscuit pl bs = Some (bis_container b) \<and> aligned b"
  using assms
  by (auto simp: Unmarshaler_Unmarshal_def bind_res_eq_Inr Let_def aligned_def case_prod_beta
    dest!: unmarshal_blocks_length split: option.splits)

section \<open>A concrete token\<close>

definition demo_authority :: "u32 \<Rightarrow> Block" where
  "demo_authority v = \<lparr>blk_symbols = [], blk_publicKeys = Some [], blk_facts = [], blk_scopes = [], blk_rules = [],
     blk_checks = [], blk_context = [], blk_version = v, blk_externalSignature = None\<rparr>"

definition demo_message :: "u32 \<Rightarrow> pb_Block" where
  "demo_message v = \<lparr>pbb_Symbols = [], pbb_Context = Some [], pbb_Version = Some v, pbb_FactsV2 = [], pbb_RulesV2 = [],
     pbb_ChecksV2 = [], pbb_Scope = [], pbb_PublicKeys = []\<rparr>"

text \<open>A serialisation that knows the two messages of the examples.\<close>

definition demo_proto :: proto_lib where
  "demo_proto = \<lparr>Marshal_Block = (\<lambda>m. if m = demo_message 6 then Some [1] else if m = demo_message 5 then Some [2] else None),
     Unmarshal_Block = (\<lambda>bs. if bs = [1] then Some (demo_message 6) else if bs = [2] then Some (demo_message 5) else None),
     Marshal_Biscuit = (\<lambda>_. None), Unmarshal_Biscuit = (\<lambda>_. None), Marshal_Request = (\<lambda>_. None),
     Unmarshal_Request = (\<lambda>_. None), Marshal_Contents = (\<lambda>_. None), Unmarshal_Contents = (\<lambda>_. None)\<rparr>"

lemma demo_proto_laws: "proto_laws demo_proto"
  by (simp add: proto_laws_def demo_proto_def)

lemma demo_marshal [simp]:
  "tokenBlockToProtoBlock (demo_authority v) = Inr (demo_message v)"
  "Marshal_Block demo_proto (demo_message 6) = Some [1]" "Marshal_Block demo_proto (demo_message 5) = Some [2]"
  by (simp_all add: tokenBlockToProtoBlock_def demo_authority_def demo_message_def demo_proto_def)

lemma demo_symbols [simp]: "blk_symbols (demo_authority v) = []"
  by (simp add: demo_authority_def)

text \<open>A fresh token with the root key identifier 3, and what can be done with it.\<close>

lemma demo_token:
  obtains b where "newBiscuit demo_crypto demo_proto demo_runtime [] (EcdsaPrivateKey [7]) [] [] (demo_authority 6) [WithRootKeyID 3] = Inr b"
    "Biscuit_RootKeyID b = Some 3" "aligned b"
    "\<exists>b'. Biscuit_append demo_crypto demo_proto demo_runtime [] b [] (demo_authority 6) None = Inr b'"
    "\<exists>b'. Biscuit_Seal demo_crypto [] b = Inr b'"
proof -
  obtain k r where u: "Block_UpdatePublicKeys demo_runtime (demo_authority 6) 0 [] [] = (k, r)" by fastforce
  obtain b sb where b: "newBiscuit demo_crypto demo_proto demo_runtime [] (EcdsaPrivateKey [7]) [] [] (demo_authority 6) [WithRootKeyID 3] = Inr b"
    "bis_container b = \<lparr>pbs_RootKeyId = Some 3, pbs_Authority = sb, pbs_Blocks = [], pbs_Proof = NextSecret (pad32 [])\<rparr>"
    "pbk_Algorithm (sb_NextKey sb) = SECP256R1" "bis_blocks b = []"
    using u by (simp add: newBiscuit_def WithRootKeyID_def SymbolTable_IsDisjoint_def NewKeyGenerator_def
         SECP256R1_def Ed25519_def demo_crypto_def Let_def marshal_or_def)
  have last: "Biscuit_lastBlock b = Some sb" using b by (simp add: Biscuit_lastBlock_def)
  have signer: "NewSignerFromPB demo_crypto SECP256R1 d = Inr (SECP256R1Signer d)" for d
    by (simp add: NewSignerFromPB_def SECP256R1Signer_UnmarshalBinary_def demo_crypto_def SECP256R1_def Ed25519_def)
  have sign: "Signer_Sign demo_crypto [] (SECP256R1Signer d) m = Inr (d @ pad32 m)" for d m
    by (simp add: demo_crypto_def)
  have gen: "NewKeyGenerator SECP256R1 = Inr SECP256R1Generator" by (simp add: NewKeyGenerator_def SECP256R1_def Ed25519_def)
  obtain k' r' where u': "Block_UpdatePublicKeys demo_runtime (demo_authority 6) 1 (bis_publicKeys b) (bis_signatureRegistry b) = (k', r')"
    by fastforce
  have "\<exists>b'. Biscuit_append demo_crypto demo_proto demo_runtime [] b [] (demo_authority 6) None = Inr b'"
    using last b u' signer sign gen
    by (simp add: Biscuit_append_def ok_or_def marshal_or_def SymbolTable_IsDisjoint_def Let_def demo_crypto_def)
  moreover have "\<exists>b'. Biscuit_Seal demo_crypto [] b = Inr b'"
    using last b signer sign by (simp add: Biscuit_Seal_def ok_or_def)
  ultimately show thesis using that[OF b(1)] b by (simp add: Biscuit_RootKeyID_def aligned_def)
qed

section \<open>Tokens this library makes\<close>

text \<open>Contents whose block is marshalled again to the very bytes that were signed.\<close>

definition re_marshals :: "proto_lib \<Rightarrow> runtime \<Rightarrow> ThirdPartyBlockContents \<Rightarrow> bool" where
  "re_marshals pl rt contents \<longleftrightarrow> (\<forall>n block m bs. ThirdPartyBlockContents_toBlock pl rt contents n = Inr block \<longrightarrow>
     tokenBlockToProtoBlock block = Inr m \<longrightarrow> Marshal_Block pl m = Some bs \<longrightarrow> bs = tpc_payload contents)"

inductive issued :: "('sk, 'pk) crypto_lib \<Rightarrow> proto_lib \<Rightarrow> runtime \<Rightarrow> 'sk crypto_Signer \<Rightarrow> Biscuit \<Rightarrow> bool"
  for cl pl rt root where
  created: "newBiscuit cl pl rt rand root symbols keys authority opts = Inr b \<Longrightarrow> issued cl pl rt root b"
| appended: "issued cl pl rt root b \<Longrightarrow> Biscuit_AppendBlock cl pl rt rand b rng bb = Inr b' \<Longrightarrow> issued cl pl rt root b'"
| appended_third_party: "issued cl pl rt root b \<Longrightarrow> re_marshals pl rt contents \<Longrightarrow>
    Biscuit_AppendThirdPartyBlock cl pl rt rand b rng contents = Inr b' \<Longrightarrow> issued cl pl rt root b'"
| sealed: "issued cl pl rt root b \<Longrightarrow> Biscuit_Seal cl rand b = Inr b' \<Longrightarrow> issued cl pl rt root b'"
| reread: "issued cl pl rt root b \<Longrightarrow> Biscuit_Serialize pl b = Inr bs \<Longrightarrow>
    Unmarshaler_Unmarshal pl rt symbols bs = Inr b' \<Longrightarrow> issued cl pl rt root b'"

lemma issued_valid:
  assumes "issued cl pl rt root b" and "crypto_laws cl" and "proto_laws pl"
  shows "chain_valid cl (public_of cl root) (bis_container b) \<and> aligned b"
  using assms(1)
proof (induction rule: issued.induct)
  case (created rand symbols keys authority opts b)
  then show ?case using newBiscuit_valid[OF assms(2)] by blast
next
  case (appended b rand rng bb b')
  then show ?case
    using append_valid[OF assms(2), of "public_of cl root" b pl rt rand rng _ None b']
    by (auto simp: Biscuit_AppendBlock_def bind_res_eq_Inr)
next
  case (appended_third_party b contents rand rng b')
  obtain block where block: "ThirdPartyBlockContents_toBlock pl rt contents (word_of_nat (length (bis_blocks b))) = Inr block"
    "Biscuit_append cl pl rt rand b rng block (tpc_externalSignature contents) = Inr b'"
    and ext: "verifyExternalSignature cl (tpc_payload contents) (sb_Signature (last (container_blocks (bis_container b))))
      (tpc_externalSignature contents) 1 = None"
    using appended_third_party lastBlock_aligned
    by (auto simp: Biscuit_AppendThirdPartyBlock_def bind_res_eq_Inr BlockSignatureVersion1_def split: option.splits)
  obtain m bs where m: "tokenBlockToProtoBlock block = Inr m" "Marshal_Block pl m = Some bs"
    using block(2) by (auto simp: Biscuit_append_def bind_res_eq_Inr Let_def split: if_splits prod.splits)
  then have "bs = tpc_payload contents" using appended_third_party(2) block(1) unfolding re_marshals_def by blast
  then show ?case using append_valid[OF assms(2) _ _ block(2)] appended_third_party.IH m ext by blast
next
  case (sealed b rand b')
  then show ?case using Seal_valid[OF assms(2)] by blast
next
  case (reread b bs symbols b')
  have "Marshal_Biscuit pl (bis_container b) = Some bs" using reread by (simp add: Biscuit_Serialize_def)
  then have "Unmarshal_Biscuit pl bs = Some (bis_container b)" using assms(3) unfolding proto_laws_def by blast
  then show ?case using reread Unmarshal_container[of pl rt symbols bs b'] by simp
qed

text \<open>
  C2: a token that this library made is accepted with the public half of its root key: after
  creation, any number of blocks appended, first-party or third-party, sealing, and any number of
  times written and read. The contents of a third-party block must be marshalled again to the
  bytes that were signed.
\<close>

theorem issued_accepted:
  assumes "crypto_laws cl" and "proto_laws pl" and "issued cl pl rt root b"
  shows "Biscuit_authorizerFor cl b (public_of cl root) = Inr (NewAuthorizerBuilder (Some b))"
  using issued_valid[OF assms(3,1,2)] by (simp add: authorizerFor_ok)

theorem issued_accepted_witness:
  "\<exists>b. newBiscuit demo_crypto demo_proto demo_runtime [] (EcdsaPrivateKey [7]) [] [] (demo_authority 6) [WithRootKeyID 3] = Inr b \<and>
     Biscuit_authorizerFor demo_crypto b (EcdsaPublicKey (Some [7])) = Inr (NewAuthorizerBuilder (Some b))"
proof (rule demo_token)
  fix b
  assume b: "newBiscuit demo_crypto demo_proto demo_runtime [] (EcdsaPrivateKey [7]) [] [] (demo_authority 6) [WithRootKeyID 3] = Inr b"
  have "public_of demo_crypto (EcdsaPrivateKey [7]) = EcdsaPublicKey (Some [7])" by (simp add: demo_crypto_def)
  then show ?thesis
    using issued_accepted[OF demo_crypto_laws demo_proto_laws issued.created[OF b]] b by auto
qed

text \<open>
  C7: a token is accepted exactly when its chain is valid: the root key verifies the authority
  block, every other block is signed by the key its predecessor names (and covers the
  predecessor's signature from version 1 on), external signatures verify, and the proof fits the
  last key.
\<close>

theorem authorizerFor_accepts_iff:
  assumes "aligned b"
  shows "(\<exists>ab. Biscuit_authorizerFor cl b root = Inr ab) \<longleftrightarrow> chain_valid cl root (bis_container b)"
  by (simp add: authorizerFor_ok[OF assms])

theorem authorizerFor_accepts_iff_witness:
  "\<exists>b. newBiscuit demo_crypto demo_proto demo_runtime [] (EcdsaPrivateKey [7]) [] [] (demo_authority 6) [WithRootKeyID 3] = Inr b \<and>
     Biscuit_authorizerFor demo_crypto b OtherPublicKey \<noteq> Inr (NewAuthorizerBuilder (Some b))"
proof (rule demo_token)
  fix b
  assume b: "newBiscuit demo_crypto demo_proto demo_runtime [] (EcdsaPrivateKey [7]) [] [] (demo_authority 6) [WithRootKeyID 3] = Inr b"
    and a: "aligned b"
  have "\<not> chain_valid demo_crypto OtherPublicKey (bis_container b)" by (simp add: chain_valid_def)
  then show ?thesis using authorizerFor_accepts_iff[OF a, of demo_crypto OtherPublicKey] b by blast
qed

section \<open>Contents of third-party blocks\<close>





section \<open>What appending and sealing keep\<close>

lemma append_container:
  assumes "Biscuit_append cl pl rt rand b rng block ext = Inr b'"
  shows "\<exists>sb. pbs_RootKeyId (bis_container b') = None \<and> pbs_Authority (bis_container b') = pbs_Authority (bis_container b) \<and>
    pbs_Blocks (bis_container b') = pbs_Blocks (bis_container b) @ [sb] \<and> bis_authority b' = bis_authority b \<and>
    bis_blocks b' = bis_blocks b @ [block] \<and> (\<exists>k. pbs_Proof (bis_container b) = NextSecret k)"
  using assms
  by (cases "Block_UpdatePublicKeys rt block (word_of_nat (length (bis_blocks b) + 1)) (bis_publicKeys b) (bis_signatureRegistry b)")
     (auto simp: Biscuit_append_def bind_res_eq_Inr Let_def simp del: of_nat_Suc of_nat_add split: if_splits)

lemma Seal_container:
  assumes "Biscuit_Seal cl rand b = Inr b'"
  shows "\<exists>sig. pbs_RootKeyId (bis_container b') = None \<and> pbs_Authority (bis_container b') = pbs_Authority (bis_container b) \<and>
    pbs_Blocks (bis_container b') = pbs_Blocks (bis_container b) \<and> pbs_Proof (bis_container b') = FinalSignature sig \<and>
    bis_authority b' = bis_authority b \<and> bis_blocks b' = bis_blocks b \<and> bis_symbols b' = bis_symbols b"
  using assms by (auto simp: Biscuit_Seal_def bind_res_eq_Inr Let_def)

text \<open>
  Attenuation only adds: a token with an appended block keeps the authority block, all blocks
  and their revocation identifiers, and has one more of each.
\<close>

theorem append_extends:
  assumes "Biscuit_append cl pl rt rand b rng block ext = Inr b'"
  shows "Biscuit_Blocks b' = Biscuit_Blocks b @ [block] \<and> Biscuit_BlockCount b' = Suc (Biscuit_BlockCount b) \<and>
    (\<exists>sig. Biscuit_RevocationIds b' = Biscuit_RevocationIds b @ [sig])"
  using append_container[OF assms]
  by (auto simp: Biscuit_Blocks_def Biscuit_BlockCount_def Biscuit_RevocationIds_def)

theorem append_extends_witness:
  "\<exists>b b'. Biscuit_append demo_crypto demo_proto demo_runtime [] b [] (demo_authority 6) None = Inr b' \<and>
     Biscuit_Blocks b' = Biscuit_Blocks b @ [demo_authority 6]"
proof (rule demo_token)
  fix b assume "\<exists>b'. Biscuit_append demo_crypto demo_proto demo_runtime [] b [] (demo_authority 6) None = Inr b'"
  then show ?thesis using append_extends[of demo_crypto demo_proto demo_runtime "[]" b "[]" "demo_authority 6" None] by blast
qed

text \<open>
  C24: a sealed token keeps its blocks, and neither a block nor a third-party request nor another
  seal can be had from it.
\<close>

theorem Seal_is_final:
  assumes "Biscuit_Seal cl rand b = Inr b'"
  shows "Biscuit_Blocks b' = Biscuit_Blocks b \<and> Biscuit_RevocationIds b' = Biscuit_RevocationIds b \<and>
    Biscuit_append cl pl rt rand' b' rng block ext = Inl TokenSealed \<and> Biscuit_Seal cl rand' b' = Inl TokenSealed \<and>
    Biscuit_ThirdPartyBlockRequest b' = Inl TokenSealed"
  using Seal_container[OF assms]
  by (auto simp: Biscuit_Blocks_def Biscuit_RevocationIds_def Biscuit_append_def Biscuit_Seal_def
    Biscuit_ThirdPartyBlockRequest_def ok_or_def)

theorem Seal_is_final_witness:
  "\<exists>b b'. Biscuit_Seal demo_crypto [] b = Inr b' \<and> Biscuit_Seal demo_crypto [] b' = Inl TokenSealed"
proof (rule demo_token)
  fix b assume "\<exists>b'. Biscuit_Seal demo_crypto [] b = Inr b'"
  then show ?thesis using Seal_is_final[of demo_crypto "[]" b] by blast
qed

text \<open>
  C29: appending a block and sealing forget the identifier of the root key: with keys chosen by
  identifier and no default key, the new token is refused for want of a key even if the key of
  the old one is known.
\<close>

theorem root_key_id_forgotten:
  assumes "Biscuit_append cl pl rt rand b rng block ext = Inr b' \<or> Biscuit_Seal cl rand b = Inr b'"
  shows "Biscuit_RootKeyID b' = None \<and>
    Biscuit_AuthorizerFor cl b' (Some (WithRootPublicKeys keys None)) = Inl ErrNoPublicKeyAvailable"
proof -
  have "pbs_RootKeyId (bis_container b') = None" using assms append_container Seal_container by metis
  then show ?thesis by (simp add: Biscuit_RootKeyID_def Biscuit_AuthorizerFor_def WithRootPublicKeys_def)
qed

theorem root_key_id_forgotten_witness:
  "\<exists>b b'. Biscuit_Seal demo_crypto [] b = Inr b' \<and> Biscuit_RootKeyID b = Some 3 \<and>
     Biscuit_AuthorizerFor demo_crypto b' (Some (WithRootPublicKeys [3 \<mapsto> [1]] None)) = Inl ErrNoPublicKeyAvailable"
proof (rule demo_token)
  fix b assume b: "Biscuit_RootKeyID b = Some 3" "\<exists>b'. Biscuit_Seal demo_crypto [] b = Inr b'"
  then show ?thesis using root_key_id_forgotten[of demo_crypto demo_proto demo_runtime "[]" b "[]" "demo_authority 6" None] by blast
qed

end
