(* ===== verification/Issuing.thy ===== *)
theory Issuing
  imports Loading Chains
begin

text \<open>
  The whole way of a token: a caller fills a token builder (builder.go), the token is created and
  written (biscuit.go), a service reads it, verifies it and builds an authorizer
  (authorizer.go). What the authorizer then holds is what the caller put into the
  builder. The parts are proved where they belong (\<open>Blocks\<close>, \<open>Protobuf\<close>, \<open>Chains\<close>, \<open>Loading\<close>); this
  theory joins them: a fresh block has well-formed tables, and reading a block does not depend on
  what serialisation changes.
\<close>

section \<open>Interning keeps tables well-formed\<close>

text \<open>The contract of a conversion that keeps its tables well-formed.\<close>

locale keeping =
  fixes conv :: "'a \<Rightarrow> 's \<Rightarrow> ('b \<times> 's) option" and ok :: "'a \<Rightarrow> bool" and wf :: "'s \<Rightarrow> bool"
  assumes keeps: "ok x \<Longrightarrow> conv x s = Some (y, s') \<Longrightarrow> wf s \<Longrightarrow> wf s'"
begin

lemma thread_keeps: "\<forall>x \<in> set xs. ok x \<Longrightarrow> thread conv xs s = Some (ys, s') \<Longrightarrow> wf s \<Longrightarrow> wf s'"
proof (induction xs arbitrary: s ys)
  case (Cons x xs)
  obtain y s1 zs where y: "conv x s = Some (y, s1)" "thread conv xs s1 = Some (zs, s')"
    using Cons.prems(2) by (auto split: option.splits)
  show ?case
    by (rule Cons.IH[OF _ y(2) keeps[OF _ y(1) Cons.prems(3)]]) (use Cons.prems(1) in simp_all)
qed simp

end

lemma Insert_keeps: "SymbolTable_Insert s x = (i, s') \<Longrightarrow> symtab_wf s \<Longrightarrow> symtab_wf s'"
  using SymbolTable_Insert_wf[of s x] by simp

interpretation term_keeping: keeping "BTerm_convert rt" bterm_plain symtab_wf for rt
proof
  fix x s y s' assume "bterm_plain x" "BTerm_convert rt x s = Some (y, s')" "symtab_wf s"
  then show "symtab_wf s'" by (cases x) (auto split: prod.splits intro: Insert_keeps)
qed

interpretation pred_keeping: keeping "BPredicate_convert rt" bpred_plain symtab_wf for rt
proof
  fix b s y s' assume b: "bpred_plain b" "BPredicate_convert rt b s = Some (y, s')" "symtab_wf s"
  obtain ts s1 i where ts: "thread (BTerm_convert rt) (bp_IDs b) s = Some (ts, s1)" "SymbolTable_Insert s1 (bp_Name b) = (i, s')"
    using b(2) by (auto simp: BPredicate_convert_def split: option.splits prod.splits)
  have "symtab_wf s1" using term_keeping.thread_keeps[OF _ ts(1) b(3)] b(1) by (simp add: bpred_plain_def)
  then show "symtab_wf s'" using Insert_keeps ts(2) by blast
qed

interpretation op_keeping: keeping "BOp_convert rt" bop_plain symtab_wf for rt
proof
  fix x s y s' assume "bop_plain x" "BOp_convert rt x s = Some (y, s')" "symtab_wf s"
  then show "symtab_wf s'" by (cases x) (auto intro: term_keeping.keeps split: option.splits)
qed

interpretation expr_keeping: keeping "BExpression_convert rt" bexpr_plain symtab_wf for rt
proof
  fix e s y s' assume e: "bexpr_plain e" "BExpression_convert rt e s = Some (y, s')" "symtab_wf s"
  obtain ops where "thread (BOp_convert rt) e s = Some (ops, s')" using e(2) by (auto simp: BExpression_convert_def)
  then show "symtab_wf s'" using op_keeping.thread_keeps[OF _ _ e(3)] e(1) by (simp add: bexpr_plain_def)
qed

interpretation scope_keeping: keeping BScope_convert "\<lambda>_. True" distinct
proof
  fix x k y k' assume "BScope_convert x k = Some (y, k')" "distinct k"
  then show "distinct k'"
    by (auto simp: BScope_convert_def PublicKeyTable_Insert_def Let_def find_index_None split: option.splits prod.splits)
qed

definition tables_wf :: "tables \<Rightarrow> bool" where
  "tables_wf st \<longleftrightarrow> symtab_wf (fst st) \<and> distinct (snd st)"

interpretation rule_keeping: keeping "BRule_Convert rt" brule_plain tables_wf for rt
proof
  fix b r and st st' :: tables assume b: "brule_plain b" "BRule_Convert rt b st = Some (r, st')" "tables_wf st"
  obtain s k s' k' where st: "st = (s, k)" "st' = (s', k')" by fastforce
  have wf: "symtab_wf s" "distinct k" using b(3) st by (simp_all add: tables_wf_def)
  have plain: "\<forall>p \<in> set (br_Body b). bpred_plain p" "\<forall>e \<in> set (br_Expressions b). bexpr_plain e" "bpred_plain (br_Head b)"
    using b(1) by (simp_all add: brule_plain_def)
  show "tables_wf st'"
  proof (rule BRule_Convert_parts[OF b(2)[unfolded st]])
    fix body s1 es s2 scs h
    assume c: "thread (BPredicate_convert rt) (br_Body b) s = Some (body, s1)"
      "thread (BExpression_convert rt) (br_Expressions b) s1 = Some (es, s2)"
      "thread BScope_convert (br_Scopes b) k = Some (scs, k')" "BPredicate_convert rt (br_Head b) s2 = Some (h, s')"
    have "symtab_wf s1" by (rule pred_keeping.thread_keeps[OF plain(1) c(1) wf(1)])
    then have "symtab_wf s2" by (rule expr_keeping.thread_keeps[OF plain(2) c(2)])
    then have "symtab_wf s'" by (rule pred_keeping.keeps[OF plain(3) c(4)])
    moreover have "distinct k'" using scope_keeping.thread_keeps[OF _ c(3) wf(2)] by simp
    ultimately show ?thesis by (simp add: st tables_wf_def)
  qed
qed

interpretation check_keeping: keeping "BCheck_Convert rt" bcheck_plain tables_wf for rt
proof
  fix b c and st st' :: tables assume b: "bcheck_plain b" "BCheck_Convert rt b st = Some (c, st')" "tables_wf st"
  obtain qs where qs: "thread (BRule_Convert rt) (bc_Queries b) st = Some (qs, st')"
    using b(2) by (auto simp: BCheck_Convert_def split: option.splits)
  show "tables_wf st'" by (rule rule_keeping.thread_keeps[OF _ qs b(3)]) (use b(1) in \<open>simp add: bcheck_plain_def\<close>)
qed

section \<open>The block of a new token\<close>

lemma convert_rules_ok:
  assumes "\<forall>r \<in> set rs. brule_plain r" "thread (BRule_Convert rt) rs st = Some (ys, st')"
  shows "\<forall>y \<in> set ys. rule_ok y"
proof (rule thread_all[OF assms(2)])
  fix x y and s s' :: tables assume "x \<in> set rs" "BRule_Convert rt x s = Some (y, s')"
  then show "rule_ok y" using convert_rule_ok[of x rt "fst s" "snd s" y "fst s'" "snd s'"] assms(1) by simp
qed

lemma convert_check_ok:
  assumes "bcheck_plain b" "BCheck_Convert rt b st = Some (c, st')"
  shows "check_ok c"
proof -
  obtain qs where qs: "thread (BRule_Convert rt) (bc_Queries b) st = Some (qs, st')" "check_Queries c = Some qs"
    using assms(2) by (auto simp: BCheck_Convert_def split: option.splits)
  then show ?thesis using convert_rules_ok[OF _ qs(1)] assms(1) by (simp add: check_ok_def bcheck_plain_def)
qed

definition builder_meaning :: "blockBuilder \<Rightarrow> meaning" where
  "builder_meaning b = \<lparr>m_Facts = HashSet_Iter (bb_facts b), m_Rules = bb_rules b, m_Checks = bb_checks b, m_Scopes = bb_scopes b\<rparr>"

lemma fresh_block:
  assumes "bb_buildOptions b = []" and "builder_plain b" and "blockBuilder_Build rt b [] [] [] = Some block"
  shows "symtab_wf (blk_symbols block) \<and> distinct (block_keys block) \<and> block_atomic block \<and>
    blk_publicKeys block = Some (block_keys block)"
proof (rule Build_parts[OF assms(1,2), of rt "[]" "[]" "[]"])
  fix fs s1 rs s2 k2 cs s3 k3 scs k4
  assume c: "thread (BPredicate_convert rt) (HashSet_Iter (bb_facts b)) [] = Some (fs, s1)"
    "thread (BRule_Convert rt) (bb_rules b) (s1, []) = Some (rs, (s2, k2))"
    "thread (BCheck_Convert rt) (bb_checks b) (s2, k2) = Some (cs, (s3, k3))"
    "thread BScope_convert (bb_scopes b) k3 = Some (scs, k4)"
    and build: "blockBuilder_Build rt b [] [] [] = Some \<lparr>blk_symbols = drop (length ([] :: SymbolTable)) s3,
      blk_publicKeys = Some (drop (length ([] :: PublicKeyTable)) k4), blk_facts = fs, blk_scopes = scs, blk_rules = rs, blk_checks = cs,
      blk_context = bb_context b, blk_version = minimumDatalogVersionForThirdPartyBlocks, blk_externalSignature = None\<rparr>"
  have block: "blk_symbols block = s3" "blk_publicKeys block = Some k4" "blk_facts block = fs" "blk_rules block = rs"
    "blk_checks block = cs"
    using build assms(3) by auto
  have plain: "\<forall>f \<in> set (HashSet_Iter (bb_facts b)). bpred_plain f" "\<forall>r \<in> set (bb_rules b). brule_plain r"
    "\<forall>c \<in> set (bb_checks b). bcheck_plain c"
    using assms(2) by (simp_all add: builder_plain_def)
  have "symtab_wf []" by (simp add: symtab_wf_def DEFAULT_SYMBOLS_def)
  then have "symtab_wf s1" by (rule pred_keeping.thread_keeps[OF plain(1) c(1)])
  then have "tables_wf (s1, [])" by (simp add: tables_wf_def)
  then have "tables_wf (s2, k2)" by (rule rule_keeping.thread_keeps[OF plain(2) c(2)])
  then have wf: "tables_wf (s3, k3)" by (rule check_keeping.thread_keeps[OF plain(3) c(3)])
  then have "distinct k4" using scope_keeping.thread_keeps[OF _ c(4)] by (simp add: tables_wf_def)
  moreover have "\<forall>f \<in> set fs. pred_atomic f"
    by (rule thread_all[OF c(1)], rule convert_pred_atomic) (use plain(1) in simp_all)
  moreover have "\<forall>c \<in> set cs. check_ok c"
    by (rule thread_all[OF c(3)], rule convert_check_ok) (use plain(3) in simp_all)
  ultimately show ?thesis
    using wf convert_rules_ok[OF plain(2) c(2)] by (simp add: block block_keys_def block_atomic_def tables_wf_def)
qed

section \<open>What serialisation changes does not change the meaning\<close>

lemma traverse_related:
  assumes "list_all2 R xs ys" and "traverse f xs = Inr bs"
    and "\<And>x y b. x \<in> set xs \<Longrightarrow> R x y \<Longrightarrow> f x = Inr b \<Longrightarrow> g y = Inr b"
  shows "traverse g ys = Inr bs"
  using assms
proof (induction arbitrary: bs rule: list_all2_induct)
  case (Cons x xs y ys)
  obtain b cs where b: "f x = Inr b" "traverse f xs = Inr cs" "bs = b # cs"
    using Cons.prems(1) by (auto simp: bind_res_eq_Inr)
  have "g y = Inr b" using Cons.prems(2)[OF _ Cons.hyps(1) b(1)] by simp
  moreover have "traverse g ys = Inr cs" by (rule Cons.IH[OF b(2)], rule Cons.prems(2)) simp_all
  ultimately show ?case using b(3) by simp
qed simp

lemma same_atoms: "list_all2 (same_term rt) ts us \<Longrightarrow> \<forall>t \<in> set ts. is_atomic t \<Longrightarrow> us = ts"
proof (induction rule: list_all2_induct)
  case (Cons x xs y ys)
  then show ?case by (cases x; cases y) simp_all
qed simp

lemma same_pred_atomic:
  assumes "same_pred rt p q" "pred_atomic p"
  shows "q = p"
proof -
  have "elems (pred_Terms q) = elems (pred_Terms p)" using assms same_atoms by (auto simp: same_pred_def pred_atomic_def)
  then show ?thesis using assms by (cases p; cases q) (auto simp: same_pred_def pred_atomic_def)
qed

lemma same_ops: "list_all2 (same_op rt) xs ys \<Longrightarrow> \<forall>x \<in> set xs. op_atomic x \<Longrightarrow> ys = xs"
proof (induction rule: list_all2_induct)
  case (Cons x xs y ys)
  have "y = x" using Cons.hyps(1) Cons.prems same_atoms[of rt "[t]" "[u]" for t u] by (cases x; cases y) auto
  then show ?case using Cons by simp
qed simp

lemma same_list: "list_all2 R xs ys \<Longrightarrow> (\<And>x y. x \<in> set xs \<Longrightarrow> R x y \<Longrightarrow> y = x) \<Longrightarrow> ys = xs"
  by (induction rule: list_all2_induct) auto

lemma same_expr_atomic: "same_expr rt e e' \<Longrightarrow> e \<noteq> None \<Longrightarrow> \<forall>x \<in> set (elems e). op_atomic x \<Longrightarrow> e' = e"
  using same_ops[of rt "elems e" "elems e'"] by (auto simp: same_expr_def)

text \<open>Only the slices of a rule may change from empty to nil, and the unused index of a scope.\<close>

lemma same_rule_parts:
  assumes "same_rule rt r r'" "rule_ok r"
  shows "rule_Head r' = rule_Head r \<and> elems (rule_Body r') = elems (rule_Body r) \<and>
    elems (rule_Expressions r') = elems (rule_Expressions r) \<and> list_all2 same_scope (elems (rule_Scopes r)) (elems (rule_Scopes r')) \<and>
    rule_ok r'"
proof -
  have r: "pred_atomic (rule_Head r)" "\<forall>p \<in> set (elems (rule_Body r)). pred_atomic p"
    "\<forall>e \<in> set (elems (rule_Expressions r)). e \<noteq> None \<and> (\<forall>x \<in> set (elems e). op_atomic x)"
    using assms(2) by (simp_all add: rule_ok_def)
  have s: "same_pred rt (rule_Head r) (rule_Head r')" "list_all2 (same_pred rt) (elems (rule_Body r)) (elems (rule_Body r'))"
    "list_all2 (same_expr rt) (elems (rule_Expressions r)) (elems (rule_Expressions r'))"
    "list_all2 same_scope (elems (rule_Scopes r)) (elems (rule_Scopes r'))"
    using assms(1) by (simp_all add: same_rule_def)
  have h: "rule_Head r' = rule_Head r" by (rule same_pred_atomic[OF s(1) r(1)])
  have b: "elems (rule_Body r') = elems (rule_Body r)" by (rule same_list[OF s(2)], rule same_pred_atomic) (use r(2) in simp_all)
  have e: "elems (rule_Expressions r') = elems (rule_Expressions r)"
    by (rule same_list[OF s(3)], rule same_expr_atomic) (use r(3) in simp_all)
  show ?thesis using h b e s(4) r by (simp add: rule_ok_def)
qed

text \<open>A table without keys comes back as nil; then no scope that could be read has a key.\<close>

definition reread_keys :: "PublicKeyTable \<Rightarrow> PublicKeyTable option" where
  "reread_keys ks = (if ks = [] then None else Some ks)"

lemma reread_scope: "same_scope x y \<Longrightarrow> fromDatalogScope (Some ks) x = Inr b \<Longrightarrow> fromDatalogScope (reread_keys ks) y = Inr b"
  by (cases x; cases y) (auto simp: fromDatalogScope_def reread_keys_def split: ScopeType.splits if_splits)

lemma reread_rule:
  assumes "same_rule rt r r'" "rule_ok r" "fromDatalogRule rt syms (Some ks) r = Inr b"
  shows "fromDatalogRule rt syms (reread_keys ks) r' = Inr b"
proof -
  have p: "rule_Head r' = rule_Head r" "elems (rule_Body r') = elems (rule_Body r)"
    "elems (rule_Expressions r') = elems (rule_Expressions r)" "list_all2 same_scope (elems (rule_Scopes r)) (elems (rule_Scopes r'))"
    using same_rule_parts[OF assms(1,2)] by blast+
  obtain scs where scs: "traverse (fromDatalogScope (Some ks)) (elems (rule_Scopes r)) = Inr scs"
    using assms(3) by (auto simp: fromDatalogRule_def bind_res_eq_Inr)
  have "traverse (fromDatalogScope (reread_keys ks)) (elems (rule_Scopes r')) = Inr scs"
    by (rule traverse_related[OF p(4) scs]) (rule reread_scope)
  then show ?thesis using assms(3) scs by (simp add: fromDatalogRule_def p(1-3) bind_res_eq_Inr)
qed

lemma reread_check:
  assumes "same_check rt c c'" "check_ok c" "fromDatalogCheck rt syms (Some ks) c = Inr b"
  shows "fromDatalogCheck rt syms (reread_keys ks) c' = Inr b"
proof -
  obtain qs where qs: "traverse (fromDatalogRule rt syms (Some ks)) (elems (check_Queries c)) = Inr qs"
    "b = \<lparr>bc_Queries = qs, bc_Kind = known_kind (check_Kind c)\<rparr>"
    using assms(3) by (auto simp: fromDatalogCheck_def bind_res_eq_Inr)
  have "list_all2 (same_rule rt) (elems (check_Queries c)) (elems (check_Queries c'))" using assms(1) by (simp add: same_check_def)
  then have "traverse (fromDatalogRule rt syms (reread_keys ks)) (elems (check_Queries c')) = Inr qs"
    by (rule traverse_related[OF _ qs(1)], intro reread_rule) (use assms(2) in \<open>simp_all add: check_ok_def\<close>)
  moreover have "known_kind (check_Kind c') = known_kind (check_Kind c)"
    using assms(1) by (cases "check_Kind c") (simp_all add: same_check_def)
  ultimately show ?thesis using qs(2) by (simp add: fromDatalogCheck_def)
qed

lemma reread_block:
  assumes same: "same_block rt b b'" and ok: "block_atomic b"
    and denotes: "block_denotes rt syms (block_keys b) b bb"
  shows "block_reads rt syms b' = Inr (builder_meaning bb) \<and> block_atomic b'"
proof -
  let ?ks = "block_keys b"
  have s: "blk_publicKeys b' = reread_keys ?ks" "list_all2 (same_pred rt) (blk_facts b) (blk_facts b')"
    "list_all2 same_scope (blk_scopes b) (blk_scopes b')" "list_all2 (same_rule rt) (blk_rules b) (blk_rules b')"
    "list_all2 (same_check rt) (blk_checks b) (blk_checks b')"
    using same by (simp_all add: same_block_def reread_keys_def)
  have d: "traverse (fromDatalogFact rt syms) (blk_facts b) = Inr (HashSet_Iter (bb_facts bb))"
    "traverse (fromDatalogRule rt syms (Some ?ks)) (blk_rules b) = Inr (bb_rules bb)"
    "traverse (fromDatalogCheck rt syms (Some ?ks)) (blk_checks b) = Inr (bb_checks bb)"
    "traverse (fromDatalogScope (Some ?ks)) (blk_scopes b) = Inr (bb_scopes bb)"
    using denotes by (simp_all add: block_denotes_def)
  have o: "\<forall>f \<in> set (blk_facts b). pred_atomic f" "\<forall>r \<in> set (blk_rules b). rule_ok r" "\<forall>c \<in> set (blk_checks b). check_ok c"
    using ok by (simp_all add: block_atomic_def)
  have f: "blk_facts b' = blk_facts b" by (rule same_list[OF s(2)], rule same_pred_atomic) (use o(1) in simp_all)
  have r: "traverse (fromDatalogRule rt syms (reread_keys ?ks)) (blk_rules b') = Inr (bb_rules bb)"
    by (rule traverse_related[OF s(4) d(2)], rule reread_rule) (use o(2) in simp_all)
  have c: "traverse (fromDatalogCheck rt syms (reread_keys ?ks)) (blk_checks b') = Inr (bb_checks bb)"
    by (rule traverse_related[OF s(5) d(3)], rule reread_check) (use o(3) in simp_all)
  have sc: "traverse (fromDatalogScope (reread_keys ?ks)) (blk_scopes b') = Inr (bb_scopes bb)"
    by (rule traverse_related[OF s(3) d(4)]) (rule reread_scope)
  have rules: "\<forall>y \<in> set ys. rule_ok y" if "list_all2 (same_rule rt) xs ys" "\<forall>x \<in> set xs. rule_ok x" for xs ys
    using that by (induction rule: list_all2_induct) (use same_rule_parts in auto)
  have "\<forall>y \<in> set ys. check_ok y" if "list_all2 (same_check rt) xs ys" "\<forall>x \<in> set xs. check_ok x" for xs ys
    using that by (induction rule: list_all2_induct) (use rules in \<open>auto simp: check_ok_def same_check_def\<close>)
  then have "block_atomic b'" using rules[OF s(4) o(2)] o(1,3) s(5) f by (simp add: block_atomic_def)
  then show ?thesis using d(1) f r c sc by (simp add: block_reads_def s(1) builder_meaning_def)
qed

section \<open>From the builder to the authorizer\<close>

lemma newBiscuit_written:
  assumes "newBiscuit cl pl rt rand root symbols keys authority opts = Inr b"
  shows "\<exists>pb. tokenBlockToProtoBlock authority = Inr pb \<and> Marshal_Block pl pb = Some (sb_Block (pbs_Authority (bis_container b))) \<and>
    pbs_Blocks (bis_container b) = [] \<and> bis_authority b = authority \<and> bis_symbols b = SymbolTable_Extend symbols (blk_symbols authority)"
  using assms by (cases "Block_UpdatePublicKeys rt authority 0 keys []")
    (auto simp: newBiscuit_def bind_res_eq_Inr Let_def split: if_splits)

lemma single_block_read:
  assumes "Unmarshal pl rt bytes = Inr b'" and "Unmarshal_Biscuit pl bytes = Some c" and "pbs_Blocks c = []"
    and "Unmarshal_Block pl (sb_Block (pbs_Authority c)) = Some pb" and "protoBlockToTokenBlock rt pb None = Inr block"
  shows "Biscuit_Blocks b' = [block] \<and> bis_symbols b' = SymbolTable_Extend [] (blk_symbols block)"
  using assms by (cases "Block_UpdatePublicKeys rt block 0 NewPublicKeyTable []")
    (auto simp: Unmarshal_def Unmarshaler_Unmarshal_def defaultSymbolTable_def SymbolTable_Clone_def Biscuit_Blocks_def Let_def
      bind_res_eq_Inr split: option.splits)

lemma Extend_fresh: "symtab_wf t \<Longrightarrow> SymbolTable_Extend [] t = t"
  using SymbolTable_SplitOff_Extend[of t 0 t "[]"] by (simp add: SymbolTable_SplitOff_def)

lemma reread_token:
  assumes "proto_laws pl" and "bb_buildOptions (bib_authorityBlock ib) = []" and "builder_plain (bib_authorityBlock ib)"
    and build: "biscuitBuilder_Build cl pl rt rand ib = Inr b" and fit: "tables_fit (bis_symbols b, block_keys (bis_authority b))"
    and "Biscuit_Serialize pl b = Inr bytes" and read: "Unmarshal pl rt bytes = Inr b'"
  shows "blocks_read rt (bis_symbols b') 0 (Biscuit_Blocks b') = Inr [builder_meaning (bib_authorityBlock ib)] \<and>
    (\<forall>block \<in> set (Biscuit_Blocks b'). block_atomic block)"
proof -
  let ?bb = "bib_authorityBlock ib"
  obtain built where built: "blockBuilder_Build rt ?bb [] [] [] = Some built"
    and b: "newBiscuit cl pl rt rand (bib_rootKey ib) [] [] (built\<lparr>blk_version := DatalogVersion3_3\<rparr>) (bib_biscuitOptions ib) = Inr b"
    using build by (auto simp: biscuitBuilder_Build_def biscuitBuilder_BuildWithSymbols_def defaultSymbolTable_def
      SymbolTable_Clone_def NewPublicKeyTable_def bind_res_eq_Inr)
  let ?block = "built\<lparr>blk_version := DatalogVersion3_3\<rparr>"
  have keys: "block_keys (built\<lparr>blk_version := n\<rparr>) = block_keys built" for n by (simp add: block_keys_def)
  have fresh: "symtab_wf (blk_symbols built)" "distinct (block_keys built)" "block_atomic built"
    using fresh_block[OF assms(2,3) built] by blast+
  have atomic: "block_atomic ?block" using fresh(3) by (simp add: block_atomic_def)
  have writable: "block_writable rt ?block"
  proof -
    have t: "is_atomic t \<Longrightarrow> term_writable rt t" for t by (cases t) simp_all
    have p: "pred_atomic p \<Longrightarrow> pred_writable rt p" for p using t by (auto simp: pred_atomic_def pred_writable_def)
    have o: "op_atomic x \<Longrightarrow> op_writable rt x" for x using t by (cases x) simp_all
    have "rule_ok r \<Longrightarrow> rule_writable rt r" for r using p o by (auto simp: rule_ok_def rule_writable_def expr_writable_def)
    then show ?thesis using atomic p by (auto simp: block_atomic_def block_writable_def check_ok_def check_writable_def)
  qed
  obtain pb where pb: "tokenBlockToProtoBlock ?block = Inr pb" "Marshal_Block pl pb = Some (sb_Block (pbs_Authority (bis_container b)))"
    "pbs_Blocks (bis_container b) = []" "bis_authority b = ?block" "bis_symbols b = blk_symbols built"
    using newBiscuit_written[OF b] Extend_fresh[OF fresh(1)] by auto
  have "\<exists>pb b'. tokenBlockToProtoBlock ?block = Inr pb \<and> protoBlockToTokenBlock rt pb None = Inr b' \<and>
      same_block rt ?block b' \<and> blk_externalSignature b' = decoded_signature None"
    by (rule block_codec[OF writable]) (use fresh(2) in \<open>simp_all add: keys MinSchemaVersion_def MaxSchemaVersion_def DatalogVersion3_0_def DatalogVersion3_3_def\<close>)
  then obtain block where block: "protoBlockToTokenBlock rt pb None = Inr block" "same_block rt ?block block"
    using pb(1) by auto
  have msg: "Unmarshal_Block pl (sb_Block (pbs_Authority (bis_container b))) = Some pb"
    "Unmarshal_Biscuit pl bytes = Some (bis_container b)"
    using assms(1,6) pb(2) unfolding proto_laws_def by (simp_all add: Biscuit_Serialize_def)
  have b': "Biscuit_Blocks b' = [block]" "bis_symbols b' = blk_symbols built"
    using single_block_read[OF read msg(2) pb(3) msg(1) block(1)] block(2) Extend_fresh[OF fresh(1)] by (simp_all add: same_block_def)
  have "block_denotes rt ([] @ blk_symbols built @ us) ([] @ block_keys built @ ks) built ?bb"
    if "1024 + length ([] @ blk_symbols built @ us) \<le> 2 ^ 32" "length ([] @ block_keys built @ ks) < 2 ^ 64" for us ks
    using Build_denotes[OF assms(2,3), of rt "[]" "[]" "[]"] built that by auto
  from this[of "[]" "[]"] have "block_denotes rt (blk_symbols built) (block_keys built) built ?bb"
    using fit by (simp add: pb(4,5) keys tables_fit_def sym_fits_def key_fits_def)
  then have "block_denotes rt (bis_symbols b') (block_keys ?block) ?block ?bb" by (simp add: b' keys block_denotes_def)
  then show ?thesis
    using reread_block[OF block(2) atomic] by (simp add: b'(1) block_symbols_def)
qed

text \<open>
  C11: what a caller puts into a token builder arrives in the authorizer. When the token is built, written,
  read by a service and built into an authorizer, the signatures are accepted with the public half of
  the root key, and the facts, rules, checks and scopes of the authorizer, read with its own tables, are
  those of the token builder under block 0, and next to them those the service added. (No sets in the
  terms; symbols and keys that fit their tables.)
\<close>

theorem issued_token_says:
  assumes "crypto_laws cl" and "proto_laws pl"
    and "bb_buildOptions (bib_authorityBlock ib) = []" and "builder_plain (bib_authorityBlock ib)"
    and "biscuitBuilder_Build cl pl rt rand ib = Inr b" and "tables_fit (bis_symbols b, block_keys (bis_authority b))"
    and "Biscuit_Serialize pl b = Inr bytes" and "Unmarshal pl rt bytes = Inr b'"
    and "ab_biscuit ab = Some b'" and "authorizer_plain_builder ab"
    and "authorizerBuilder_Build rt ab opts = Inr v" and "tables_fit (au_symbols v, au_publicKeys v)"
  shows "Biscuit_authorizerFor cl b' (public_of cl (bib_rootKey ib)) = Inr (NewAuthorizerBuilder (Some b')) \<and>
    authorizer_says rt v [builder_meaning (bib_authorityBlock ib)] ab"
proof
  have "issued cl pl rt (bib_rootKey ib) b"
    using assms(5) by (auto simp: biscuitBuilder_Build_def biscuitBuilder_BuildWithSymbols_def bind_res_eq_Inr intro: issued.created)
  then have "issued cl pl rt (bib_rootKey ib) b'"
    using assms(7,8) unfolding Unmarshal_def by (rule issued.reread)
  then show "Biscuit_authorizerFor cl b' (public_of cl (bib_rootKey ib)) = Inr (NewAuthorizerBuilder (Some b'))"
    using issued_valid[OF _ assms(1,2)] by (simp add: authorizerFor_ok)
next
  note r = reread_token[OF assms(2-8)]
  then show "authorizer_says rt v [builder_meaning (bib_authorityBlock ib)] ab"
    using authorizer_Build_spec(1)[OF assms(11,9) _ assms(10,12)] by auto
qed

section \<open>A token on its way\<close>

text \<open>A wire that knows one token and the message of its block.\<close>

definition demo_wire :: "pb_Block \<Rightarrow> pb_Biscuit \<Rightarrow> proto_lib" where
  "demo_wire m c = demo_proto\<lparr>Marshal_Block := (\<lambda>x. if x = m then Some [1] else None),
     Unmarshal_Block := (\<lambda>bs. if bs = [1] then Some m else None),
     Marshal_Biscuit := (\<lambda>x. if x = c then Some [9] else None),
     Unmarshal_Biscuit := (\<lambda>bs. if bs = [9] then Some c else None)\<rparr>"

lemma demo_wire_laws: "proto_laws (demo_wire m c)"
  by (simp add: proto_laws_def demo_wire_def demo_proto_def)

definition demo_issuer :: "u8 list biscuitBuilder" where
  "demo_issuer = snd (biscuitBuilder_AddAuthorityFact demo_runtime (NewBuilderSigner demo_runtime (EcdsaPrivateKey [7]) [])
     \<lparr>bp_Name = ''read'', bp_IDs = [BInteger 7]\<rparr>)"

definition demo_issued :: Block where
  "demo_issued = \<lparr>blk_symbols = [], blk_publicKeys = Some [], blk_facts = [\<lparr>pred_Name = 0, pred_Terms = Some [TInteger 7]\<rparr>],
     blk_scopes = [], blk_rules = [], blk_checks = [], blk_context = [], blk_version = 6, blk_externalSignature = None\<rparr>"

lemma demo_issuer_parts:
  "HashSet_Iter (bb_facts (bib_authorityBlock demo_issuer)) = [\<lparr>bp_Name = ''read'', bp_IDs = [BInteger 7]\<rparr>]"
  "bb_rules (bib_authorityBlock demo_issuer) = []" "bb_checks (bib_authorityBlock demo_issuer) = []"
  "bb_scopes (bib_authorityBlock demo_issuer) = []" "bb_context (bib_authorityBlock demo_issuer) = []"
  "bb_buildOptions (bib_authorityBlock demo_issuer) = []" "bib_rootKey demo_issuer = EcdsaPrivateKey [7]"
  "bib_biscuitOptions demo_issuer = []"
  by (simp_all add: demo_issuer_def biscuitBuilder_AddAuthorityFact_def NewBuilderSigner_def blockBuilder_AddFact_def
    NewBlockBuilder_def NewBFactSet_def NewHashSet_def HashSet_Insert_def HashSet_empty_def HashSet_Iter_def Let_def split: prod.splits)

lemma demo_issuer_plain: "builder_plain (bib_authorityBlock demo_issuer)"
  by (simp add: builder_plain_def demo_issuer_parts bpred_plain_def)

lemma demo_issuer_block:
  "blockBuilder_Build demo_runtime (bib_authorityBlock demo_issuer) [] [] [] = Some (demo_issued\<lparr>blk_version := 5\<rparr>)"
  by (simp add: blockBuilder_Build_def demo_issuer_parts BFact_convert_def BPredicate_convert_def demo_symbol Let_def
    SymbolTable_SplitOff_def PublicKeyTable_SplitOff_def demo_issued_def minimumDatalogVersionForThirdPartyBlocks_def DatalogVersion3_2_def)

lemma demo_message_read:
  "\<exists>m. tokenBlockToProtoBlock demo_issued = Inr m \<and>
     protoBlockToTokenBlock demo_runtime m None = Inr (demo_issued\<lparr>blk_publicKeys := None\<rparr>)"
  by (simp add: tokenBlockToProtoBlock_def protoBlockToTokenBlock_def demo_issued_def tokenFactToProtoFactV2_def
    protoFactToTokenFactV2_def tokenPredicateToProtoPredicateV2_def protoPredicateToTokenPredicateV2_def getDatalogVersion_def
    MinSchemaVersion_def MaxSchemaVersion_def DatalogVersion3_0_def DatalogVersion3_1_def DatalogVersion3_2_def
    DatalogVersion3_3_def)

definition demo_container :: pb_Biscuit where
  "demo_container = \<lparr>pbs_RootKeyId = None, pbs_Authority = \<lparr>sb_Block = [1],
     sb_NextKey = \<lparr>pbk_Algorithm = SECP256R1, pbk_Key = 2 # pad32 []\<rparr>,
     sb_Signature = 7 # pad32 (authorityBlockSignaturePayloadV1 SECP256R1 [1] (2 # pad32 []) BlockSignatureVersion1),
     sb_ExternalSignature = None, sb_Version = Some BlockSignatureVersion1\<rparr>, pbs_Blocks = [], pbs_Proof = NextSecret (pad32 [])\<rparr>"

lemma demo_issue:
  assumes "tokenBlockToProtoBlock demo_issued = Inr m"
  shows "\<exists>b. biscuitBuilder_Build demo_crypto (demo_wire m c) demo_runtime [] demo_issuer = Inr b \<and>
      bis_container b = demo_container \<and> bis_symbols b = [] \<and> block_keys (bis_authority b) = []"
proof -
  have v: "demo_issued\<lparr>blk_version := 5, blk_version := DatalogVersion3_3\<rparr> = demo_issued"
    by (simp add: demo_issued_def DatalogVersion3_3_def)
  obtain k r where u: "Block_UpdatePublicKeys demo_runtime demo_issued 0 [] [] = (k, r)" by fastforce
  have parts: "blk_symbols demo_issued = []" "block_keys demo_issued = []" by (simp_all add: demo_issued_def block_keys_def)
  have "biscuitBuilder_Build demo_crypto (demo_wire m c) demo_runtime [] demo_issuer =
      newBiscuit demo_crypto (demo_wire m c) demo_runtime [] (EcdsaPrivateKey [7]) [] [] demo_issued []"
    by (simp add: biscuitBuilder_Build_def biscuitBuilder_BuildWithSymbols_def defaultSymbolTable_def SymbolTable_Clone_def
      NewPublicKeyTable_def demo_issuer_block v demo_issuer_parts(7,8) ok_or_def)
  moreover have "Marshal_Block (demo_wire m c) m = Some [1]" by (simp add: demo_wire_def)
  ultimately show ?thesis
    by (simp add: newBiscuit_def assms parts u SymbolTable_IsDisjoint_def SymbolTable_Extend_def NewKeyGenerator_def
        SECP256R1_def Ed25519_def demo_crypto_def Let_def marshal_or_def demo_container_def)
qed

lemma demo_receive:
  assumes "protoBlockToTokenBlock demo_runtime m None = Inr (demo_issued\<lparr>blk_publicKeys := None\<rparr>)"
  shows "\<exists>b. Unmarshal (demo_wire m demo_container) demo_runtime [9] = Inr b \<and>
    Biscuit_Blocks b = [demo_issued\<lparr>blk_publicKeys := None\<rparr>] \<and> bis_symbols b = []"
proof -
  obtain k r where u: "Block_UpdatePublicKeys demo_runtime (demo_issued\<lparr>blk_publicKeys := None\<rparr>) 0 [] [] = (k, r)" by fastforce
  have wire: "Unmarshal_Biscuit (demo_wire m demo_container) [9] = Some demo_container"
    "Unmarshal_Block (demo_wire m demo_container) (sb_Block (pbs_Authority demo_container)) = Some m"
    by (simp_all add: demo_wire_def demo_container_def)
  have parts: "pbs_Blocks demo_container = []" "verifySignedBlockCryptoSizes (pbs_Authority demo_container) = None"
    "blk_symbols demo_issued = []"
    by (simp_all add: demo_container_def verifySignedBlockCryptoSizes_def SECP256R1_def Ed25519_def demo_issued_def)
  show ?thesis
    by (simp add: Unmarshal_def Unmarshaler_Unmarshal_def defaultSymbolTable_def SymbolTable_Clone_def NewPublicKeyTable_def
      wire parts assms u unmarshal_or_def SymbolTable_Extend_def Biscuit_Blocks_def Let_def)
qed

lemma demo_service:
  assumes "Biscuit_Blocks b = [demo_issued\<lparr>blk_publicKeys := None\<rparr>]" and "bis_symbols b = []"
  shows "\<exists>v. authorizerBuilder_Build demo_runtime (demo_policies\<lparr>ab_biscuit := Some b\<rparr>) [] = Inr v \<and>
    au_symbols v = [] \<and> au_publicKeys v = []"
  by (simp add: authorizerBuilder_Build_def demo_policies_def assms load_block_def block_tables_def demo_issued_def
      fromDatalogFact_def fromDatalogPredicate_def read_Str_def demo_symbol
      Let_def BFact_convert_def BPredicate_convert_def BCheck_Convert_def BRule_Convert_def named_rule_def)

theorem issued_token_says_witness:
  "\<exists>pl b bytes b' v. proto_laws pl \<and> biscuitBuilder_Build demo_crypto pl demo_runtime [] demo_issuer = Inr b \<and>
     Biscuit_Serialize pl b = Inr bytes \<and> Unmarshal pl demo_runtime bytes = Inr b' \<and>
     Biscuit_authorizerFor demo_crypto b' (EcdsaPublicKey (Some [7])) = Inr (NewAuthorizerBuilder (Some b')) \<and>
     authorizerBuilder_Build demo_runtime (demo_policies\<lparr>ab_biscuit := Some b'\<rparr>) [] = Inr v \<and>
     ({0}, \<lparr>bp_Name = ''read'', bp_IDs = [BInteger 7]\<rparr>) \<in> read_facts demo_runtime (au_symbols v) (au_world v)"
proof -
  obtain m where m: "tokenBlockToProtoBlock demo_issued = Inr m"
    "protoBlockToTokenBlock demo_runtime m None = Inr (demo_issued\<lparr>blk_publicKeys := None\<rparr>)"
    using demo_message_read by blast
  let ?pl = "demo_wire m demo_container"
  obtain b where b: "biscuitBuilder_Build demo_crypto ?pl demo_runtime [] demo_issuer = Inr b" "bis_container b = demo_container"
    "bis_symbols b = []" "block_keys (bis_authority b) = []"
    using demo_issue[OF m(1)] by blast
  obtain b' where b': "Unmarshal ?pl demo_runtime [9] = Inr b'" "Biscuit_Blocks b' = [demo_issued\<lparr>blk_publicKeys := None\<rparr>]"
    "bis_symbols b' = []"
    using demo_receive[OF m(2)] by blast
  obtain v where v: "authorizerBuilder_Build demo_runtime (demo_policies\<lparr>ab_biscuit := Some b'\<rparr>) [] = Inr v"
    "au_symbols v = []" "au_publicKeys v = []"
    using demo_service[OF b'(2,3)] by blast
  have bytes: "Biscuit_Serialize ?pl b = Inr [9]" by (simp add: Biscuit_Serialize_def b(2) demo_wire_def marshal_or_def)
  have fit: "tables_fit (bis_symbols b, block_keys (bis_authority b))" "tables_fit (au_symbols v, au_publicKeys v)"
    by (simp_all add: b(3,4) v(2,3) tables_fit_def sym_fits_def key_fits_def)
  have ab: "ab_biscuit (demo_policies\<lparr>ab_biscuit := Some b'\<rparr>) = Some b'" "authorizer_plain_builder (demo_policies\<lparr>ab_biscuit := Some b'\<rparr>)"
    using demo_policies_plain(3) by (simp_all add: authorizer_plain_builder_def)
  note says = issued_token_says[OF demo_crypto_laws demo_wire_laws demo_issuer_parts(6) demo_issuer_plain b(1) fit(1) bytes b'(1) ab v(1) fit(2)]
  moreover have "public_of demo_crypto (bib_rootKey demo_issuer) = EcdsaPublicKey (Some [7])"
    by (simp add: demo_issuer_parts(7)) (simp add: demo_crypto_def)
  moreover have "({0}, \<lparr>bp_Name = ''read'', bp_IDs = [BInteger 7]\<rparr>) \<in> read_facts demo_runtime (au_symbols v) (au_world v)"
    using says by (auto simp: authorizer_says_def builder_meaning_def demo_issuer_parts image_iff)
  ultimately show ?thesis using demo_wire_laws b(1) bytes b'(1) v(1) by (metis (no_types))
qed

end
