(* ===== verification/Attenuation.thy ===== *)
theory Attenuation
  imports Chains
begin

text \<open>
  Attenuation: a first-party block appended to a token can only make \<^verbatim>\<open>Authorize\<close> refuse more.
  The authorizers of the shorter and the longer token differ in the facts, rules and checks of the
  new block alone (\<open>appended\<close>), as \<open>load_block_places\<close> of \<open>Loading\<close> shows for \<^verbatim>\<open>Build\<close>; nobody else trusts
  that block, so that nobody else sees what comes from it.
\<close>

section \<open>A block nobody trusts\<close>













section \<open>Appended blocks\<close>






end
