(* ===== verification/Inspection.thy ===== *)
theory Inspection
  imports Loading
begin

text \<open>
  The inspector of an authorizer (\<^verbatim>\<open>authorizer_inspection.go\<close>) and the comparison of rules and
  checks of \<^verbatim>\<open>types.go\<close> it sorts with. \<^verbatim>\<open>Scope.Compare\<close> dereferences the key of both scopes,
  which is nil unless the scope names a key: to compare is partial, \<open>None\<close> is the panic. An
  iterator is the list of what it hands to a consumer that takes everything, and whether it ends
  with a panic; a consumer that stops earlier sees a prefix. The theorems say what the iterators
  show of the world, and when sorting the checks panics.
\<close>

section \<open>Comparison of surface rules and checks\<close>

definition or_else :: "int option \<Rightarrow> int option \<Rightarrow> int option" where
  "or_else x y = (case x of None \<Rightarrow> None | Some i \<Rightarrow> if i \<noteq> 0 then Some i else y)"

fun positions_panic :: "('a \<Rightarrow> 'a \<Rightarrow> int option) \<Rightarrow> 'a list \<Rightarrow> 'a list \<Rightarrow> int option" where
  "positions_panic c (a # as) (b # bs) = or_else (c a b) (positions_panic c as bs)"
| "positions_panic c _ _ = Some 0"

text \<open>\<^verbatim>\<open>ComparedSlices\<close> for elements whose comparison may panic.\<close>

definition ComparedSlices_panic :: "('a \<Rightarrow> 'a \<Rightarrow> int option) \<Rightarrow> 'a list \<Rightarrow> 'a list option \<Rightarrow> int option" where
  "ComparedSlices_panic c a ob = (case ob of
     None \<Rightarrow> Some 1
   | Some b \<Rightarrow> or_else (Some (cmp_Compare (length a) (length b))) (positions_panic c a b))"

definition BScope_Compare :: "BScope \<Rightarrow> BScope \<Rightarrow> int option" where
  "BScope_Compare s s2 =
     or_else (Some (cmp_Compare (ScopeType_iota (bs_Type s)) (ScopeType_iota (bs_Type s2))))
       (case (bs_PublicKey s, bs_PublicKey s2) of
          (Some pk, Some pk2) \<Rightarrow> Some (BPublicKey_Compare pk pk2)
        | _ \<Rightarrow> None)"

fun BOp_Type :: "BOp \<Rightarrow> OpType option" where
  "BOp_Type (BValue _) = Some OpTypeValue"
| "BOp_Type BNilValue = Some OpTypeValue"
| "BOp_Type (BUnaryOp _) = Some OpTypeUnary"
| "BOp_Type (BBinaryOp _) = Some OpTypeBinary"
| "BOp_Type BNil = None"

definition cmp_BOpType :: "OpType \<Rightarrow> BOp \<Rightarrow> int option" where
  "cmp_BOpType t op = map_option (\<lambda>t2. cmp_Compare (OpType_iota t) (OpType_iota t2)) (BOp_Type op)"

text \<open>The term of the receiver may be nil, then calling its method panics.\<close>

definition BValue_Compare :: "BTerm option \<Rightarrow> BOp \<Rightarrow> int option" where
  "BValue_Compare v op = or_else (cmp_BOpType OpTypeValue op) (case op of
     BValue v2 \<Rightarrow> map_option (\<lambda>t. BTerm_Compare t (Some v2)) v
   | BNilValue \<Rightarrow> map_option (\<lambda>t. BTerm_Compare t None) v
   | _ \<Rightarrow> Some 0)"

definition BUnaryOp_Compare :: "u8 \<Rightarrow> BOp \<Rightarrow> int option" where
  "BUnaryOp_Compare u op = or_else (cmp_BOpType OpTypeUnary op) (case op of
     BUnaryOp u2 \<Rightarrow> Some (cmp_Compare u u2) | _ \<Rightarrow> Some 0)"

definition BBinaryOp_Compare :: "u8 \<Rightarrow> BOp \<Rightarrow> int option" where
  "BBinaryOp_Compare b op = or_else (cmp_BOpType OpTypeBinary op) (case op of
     BBinaryOp b2 \<Rightarrow> Some (cmp_Compare b b2) | _ \<Rightarrow> Some 0)"

fun BOp_Compare :: "BOp \<Rightarrow> BOp \<Rightarrow> int option" where
  "BOp_Compare (BValue t) op = BValue_Compare (Some t) op"
| "BOp_Compare BNilValue op = BValue_Compare None op"
| "BOp_Compare (BUnaryOp u) op = BUnaryOp_Compare u op"
| "BOp_Compare (BBinaryOp b) op = BBinaryOp_Compare b op"
| "BOp_Compare BNil op = None"

definition BExpression_Compare :: "BExpression \<Rightarrow> BExpression \<Rightarrow> int option" where
  "BExpression_Compare e e2 = ComparedSlices_panic BOp_Compare e (Some e2)"

text \<open>
  The rules compared here were made by \<^verbatim>\<open>fromDatalogRule\<close>: their body and expressions are made
  slices, their scopes are nil when there are none.
\<close>

definition slice_of_scopes :: "BScope list \<Rightarrow> BScope list option" where
  "slice_of_scopes scopes = (if length scopes > 0 then Some scopes else None)"

definition BRule_Compare :: "BRule \<Rightarrow> BRule \<Rightarrow> int option" where
  "BRule_Compare r r2 =
     or_else (Some (BPredicate_Compare (br_Head r) (br_Head r2)))
     (or_else (Some (ComparedSlices BPredicate_Compare (br_Body r) (Some (br_Body r2))))
     (or_else (ComparedSlices_panic BExpression_Compare (br_Expressions r) (Some (br_Expressions r2)))
       (ComparedSlices_panic BScope_Compare (br_Scopes r) (slice_of_scopes (br_Scopes r2)))))"

definition BCheck_Compare :: "BCheck \<Rightarrow> BCheck \<Rightarrow> int option" where
  "BCheck_Compare c c2 = ComparedSlices_panic BRule_Compare (bc_Queries c) (Some (bc_Queries c2))"

section \<open>slices.SortFunc\<close>

text \<open>
  The insertion sort of Go's standard library, which \<^verbatim>\<open>slices.SortFunc\<close> uses up to twelve elements:
  each element sinks from the end of the sorted prefix (kept reversed) to its place. Longer slices are
  compared in another order.
\<close>

fun sink :: "('a \<Rightarrow> 'a \<Rightarrow> int option) \<Rightarrow> 'a \<Rightarrow> 'a list \<Rightarrow> 'a list option" where
  "sink c x [] = Some [x]"
| "sink c x (y # ys) = (case c x y of
     None \<Rightarrow> None
   | Some d \<Rightarrow> if d < 0 then map_option ((#) y) (sink c x ys) else Some (x # y # ys))"

fun insertion_sort :: "('a \<Rightarrow> 'a \<Rightarrow> int option) \<Rightarrow> 'a list \<Rightarrow> 'a list \<Rightarrow> 'a list option" where
  "insertion_sort c prefix [] = Some (rev prefix)"
| "insertion_sort c prefix (x # xs) = (case sink c x prefix of
     None \<Rightarrow> None | Some prefix' \<Rightarrow> insertion_sort c prefix' xs)"

definition SortFunc :: "('a \<Rightarrow> 'a \<Rightarrow> int option) \<Rightarrow> 'a list \<Rightarrow> 'a list option" where
  "SortFunc c xs = insertion_sort c [] xs"

section \<open>The iterators\<close>

text \<open>A conversion that fails is skipped, one that panics is not.\<close>

fun readable :: "('a \<Rightarrow> conv_error + 'b) \<Rightarrow> 'a list \<Rightarrow> 'b list option" where
  "readable read_it [] = Some []"
| "readable read_it (x # xs) = (case read_it x of
     Inr y \<Rightarrow> map_option ((#) y) (readable read_it xs)
   | Inl ConvPanic \<Rightarrow> None
   | Inl _ \<Rightarrow> readable read_it xs)"

text \<open>Each entry is read when its turn comes; entries without elements are not yielded.\<close>

fun yield_entries :: "('x \<Rightarrow> 'k) \<Rightarrow> ('x \<Rightarrow> 'a list option) \<Rightarrow> 'x list \<Rightarrow> ('k \<times> 'a list) list \<times> bool" where
  "yield_entries key entry [] = ([], False)"
| "yield_entries key entry (x # xs) = (case entry x of
     None \<Rightarrow> ([], True)
   | Some ys \<Rightarrow>
       (let (zs, panics) = yield_entries key entry xs in
        (if length ys > 0 then (key x, ys) # zs else zs, panics)))"

definition Inspector_Facts :: "runtime \<Rightarrow> authorizer \<Rightarrow> (u64 list \<times> BFact list) list \<times> bool" where
  "Inspector_Facts rt v =
     yield_entries (\<lambda>(origin, facts). Origin_BlockIDs origin)
       (\<lambda>(origin, facts). readable (fromDatalogFact rt (au_symbols v)) (Sorted Fact_Compare (HashSet_Iter facts)))
       (FactSet_IterSorted rt (World_Facts (au_world v)))"

definition Inspector_Rules :: "runtime \<Rightarrow> authorizer \<Rightarrow> (u64 \<times> BRule list) list \<times> bool" where
  "Inspector_Rules rt v =
     yield_entries (\<lambda>(blockID, rules). blockID)
       (\<lambda>(blockID, rules). readable (fromDatalogRule rt (au_symbols v) (Some (au_publicKeys v))) rules)
       (RuleSet_RulesByBlockID rt (World_Rules (au_world v)))"

definition sorted_checks :: "runtime \<Rightarrow> authorizer \<Rightarrow> Check list \<Rightarrow> BCheck list option" where
  "sorted_checks rt v checks = Option.bind
     (readable (fromDatalogCheck rt (au_symbols v) (Some (au_publicKeys v))) checks) (SortFunc BCheck_Compare)"

text \<open>The checks of the authorizer first, then those of the blocks in order.\<close>

definition checks_by_block :: "authorizer \<Rightarrow> (u64 \<times> Check list) list" where
  "checks_by_block v = (if length (au_Checks v) > 0 then [(AuthorizerBlockID, au_Checks v)] else []) @
     map (\<lambda>(blockID, checks). (word_of_nat blockID, checks)) (List.enumerate 0 (au_biscuitChecks v))"

definition Inspector_Checks :: "runtime \<Rightarrow> authorizer \<Rightarrow> (u64 \<times> BCheck list) list \<times> bool" where
  "Inspector_Checks rt v = yield_entries fst (\<lambda>(blockID, checks). sorted_checks rt v checks) (checks_by_block v)"

definition Inspector_Policies :: "authorizer \<Rightarrow> Policy list" where
  "Inspector_Policies v = map (\<lambda>policy. policy) (au_Policies v)"

definition Inspector_Symbols :: "authorizer \<Rightarrow> string list" where
  "Inspector_Symbols v = map (\<lambda>s. s) (au_symbols v)"

definition Inspector_PublicKeys :: "authorizer \<Rightarrow> PublicKey list" where
  "Inspector_PublicKeys v = map (\<lambda>pk. pk) (au_publicKeys v)"

text \<open>\<open>None\<close> is an authorizer of another type than the one of this package.\<close>

definition InspectAuthorizer :: "authorizer option \<Rightarrow> (authorizer \<Rightarrow> 'a) \<Rightarrow> unit + 'a" where
  "InspectAuthorizer a f = (case a of Some inspectableAuthorizer \<Rightarrow> Inr (f inspectableAuthorizer) | None \<Rightarrow> Inl ())"

section \<open>Lemmas on the loops\<close>

lemma or_else_simps [simp]:
  "or_else None y = None" "or_else (Some 0) y = y" "i \<noteq> 0 \<Longrightarrow> or_else (Some i) y = Some i"
  by (simp_all add: or_else_def)

lemma or_else_None: "or_else x y = None \<longleftrightarrow> x = None \<or> x = Some 0 \<and> y = None"
  by (cases x) (auto simp: or_else_def)

lemma positions_panic_returns:
  assumes "\<And>x y. x \<in> set a \<Longrightarrow> y \<in> set b \<Longrightarrow> c x y \<noteq> None"
  shows "positions_panic c a b \<noteq> None"
  using assms by (induction c a b rule: positions_panic.induct) (auto simp: or_else_None)

lemma ComparedSlices_panic_returns:
  assumes "\<And>x y. x \<in> set a \<Longrightarrow> y \<in> set (elems b) \<Longrightarrow> c x y \<noteq> None"
  shows "ComparedSlices_panic c a b \<noteq> None"
  using positions_panic_returns[of a "elems b" c] assms
  by (cases b) (auto simp: ComparedSlices_panic_def or_else_None)

lemma sink_returns: "\<forall>y \<in> set ys. c x y \<noteq> None \<Longrightarrow> \<exists>zs. sink c x ys = Some zs \<and> mset zs = add_mset x (mset ys)"
  by (induction ys) (auto split: option.split)

lemma insertion_sort_returns:
  assumes "\<And>x y. x \<in> set xs \<Longrightarrow> y \<in> set prefix \<union> set xs \<Longrightarrow> c x y \<noteq> None"
  shows "\<exists>ys. insertion_sort c prefix xs = Some ys \<and> mset ys = mset prefix + mset xs"
  using assms
proof (induction xs arbitrary: prefix)
  case (Cons x xs)
  obtain zs where zs: "sink c x prefix = Some zs" "mset zs = add_mset x (mset prefix)"
    using sink_returns[of prefix c x] Cons.prems[of x] by auto
  have "set zs = insert x (set prefix)" using arg_cong[OF zs(2), of set_mset] by simp
  then obtain ys where "insertion_sort c zs xs = Some ys" "mset ys = mset zs + mset xs"
    using Cons.IH[of zs] Cons.prems by auto
  then show ?case using zs by simp
qed simp

lemma SortFunc_returns:
  assumes "\<And>x y. x \<in> set xs \<Longrightarrow> y \<in> set xs \<Longrightarrow> c x y \<noteq> None"
  shows "\<exists>ys. SortFunc c xs = Some ys \<and> mset ys = mset xs"
  using insertion_sort_returns[of xs "[]" c] assms by (simp add: SortFunc_def)

lemma readable_all: "\<forall>x \<in> set xs. read_it x = Inr (f x) \<Longrightarrow> readable read_it xs = Some (map f xs)"
  by (induction xs) simp_all

lemma readable_set: "readable read_it xs = Some ys \<Longrightarrow> set ys = {y. \<exists>x \<in> set xs. read_it x = Inr y}"
proof (induction xs arbitrary: ys)
  case (Cons x xs)
  show ?case
  proof (cases "read_it x")
    case (Inl err)
    then have "readable read_it xs = Some ys" using Cons.prems by (cases err) simp_all
    then show ?thesis using Cons.IH Inl by simp
  next
    case (Inr y)
    then obtain zs where "readable read_it xs = Some zs" "ys = y # zs" using Cons.prems by auto
    then show ?thesis using Cons.IH Inr by auto
  qed
qed simp

text \<open>An iteration that does not panic yields the entries that have elements, in order.\<close>

lemma yield_entries_map:
  assumes "\<not> snd (yield_entries key entry xs)"
  shows "\<forall>x \<in> set xs. entry x \<noteq> None"
    and "fst (yield_entries key entry xs) = filter (\<lambda>(k, ys). ys \<noteq> []) (map (\<lambda>x. (key x, the (entry x))) xs)"
  using assms by (induction xs) (auto simp: Let_def case_prod_beta split: option.splits if_splits)

lemma yield_entries_mem:
  assumes "\<not> snd (yield_entries key entry xs)"
  shows "(k, ys) \<in> set (fst (yield_entries key entry xs)) \<longleftrightarrow> (\<exists>x \<in> set xs. k = key x \<and> entry x = Some ys \<and> ys \<noteq> [])"
  using yield_entries_map[OF assms] by force

lemma bex_pair: "(\<exists>x \<in> A. P x) \<longleftrightarrow> (\<exists>a b. (a, b) \<in> A \<and> P (a, b))"
  by auto

lemma yield_entries_returns:
  assumes "\<forall>x \<in> set xs. entry x \<noteq> None"
  shows "\<not> snd (yield_entries key entry xs)"
  using assms by (induction xs) (auto simp: Let_def case_prod_beta)

section \<open>What the inspector shows of the facts\<close>

lemma Inspector_Facts_spec:
  assumes inv: "facts_inv rt (World_Facts (au_world v))" and ok: "\<not> snd (Inspector_Facts rt v)"
  shows "{(set ids, f) | ids fs f. (ids, fs) \<in> set (fst (Inspector_Facts rt v)) \<and> f \<in> set fs} =
    {(B, b). \<exists>f. (B, f) \<in> facts_of rt (World_Facts (au_world v)) \<and> fromDatalogFact rt (au_symbols v) f = Inr b}"
    (is "?L = ?R")
proof -
  let ?facts = "FactSet_Iter rt (World_Facts (au_world v))"
  let ?read = "fromDatalogFact rt (au_symbols v)"
  let ?entry = "\<lambda>s. readable ?read (Sorted Fact_Compare (HashSet_Iter s))"
  note y = yield_entries_map(1)[OF ok[unfolded Inspector_Facts_def]] yield_entries_mem[OF ok[unfolded Inspector_Facts_def]]
  have it: "set (FactSet_IterSorted rt (World_Facts (au_world v))) = set ?facts" by (simp add: FactSet_IterSorted_def)
  have ids: "set (Origin_BlockIDs o1) = hs_set o1" for o1 by (simp add: Origin_BlockIDs_def Sorted_def)
  have entry: "set fs = {b. \<exists>f \<in> hs_set s. ?read f = Inr b}" if "?entry s = Some fs" for s fs
    using readable_set[OF that] by (simp add: Sorted_def)
  have some: "?entry s \<noteq> None" if "(o1, s) \<in> set ?facts" for o1 s using y(1) that unfolding it by fastforce
  have mem: "(ids, fs) \<in> set (fst (Inspector_Facts rt v)) \<longleftrightarrow>
      (\<exists>o1 s. (o1, s) \<in> set ?facts \<and> ids = Origin_BlockIDs o1 \<and> ?entry s = Some fs \<and> fs \<noteq> [])" for ids fs
    unfolding Inspector_Facts_def y(2) it bex_pair prod.case by (rule refl)
  have eq: "p \<in> ?L \<longleftrightarrow> (\<exists>o1 s b. p = (hs_set o1, b) \<and> (o1, s) \<in> set ?facts \<and> (\<exists>f \<in> hs_set s. ?read f = Inr b))" for p
  proof
    assume "p \<in> ?L"
    then obtain ids fs b where p: "p = (set ids, b)" "(ids, fs) \<in> set (fst (Inspector_Facts rt v))" "b \<in> set fs" by blast
    then obtain o1 s where "(o1, s) \<in> set ?facts" "ids = Origin_BlockIDs o1" "?entry s = Some fs" unfolding mem by blast
    then show "\<exists>o1 s b. p = (hs_set o1, b) \<and> (o1, s) \<in> set ?facts \<and> (\<exists>f \<in> hs_set s. ?read f = Inr b)"
      using p entry ids by blast
  next
    assume "\<exists>o1 s b. p = (hs_set o1, b) \<and> (o1, s) \<in> set ?facts \<and> (\<exists>f \<in> hs_set s. ?read f = Inr b)"
    then obtain o1 s b where p: "p = (hs_set o1, b)" "(o1, s) \<in> set ?facts" "\<exists>f \<in> hs_set s. ?read f = Inr b" by blast
    obtain fs where fs: "?entry s = Some fs" using some[OF p(2)] by blast
    then have b: "b \<in> set fs" using entry p(3) by blast
    then have "fs \<noteq> []" by auto
    then have "(Origin_BlockIDs o1, fs) \<in> set (fst (Inspector_Facts rt v))" unfolding mem using p(2) fs by blast
    then show "p \<in> ?L" using p(1) b ids by blast
  qed
  have L: "?L = {(hs_set o1, b) | o1 s b. (o1, s) \<in> set ?facts \<and> (\<exists>f \<in> hs_set s. ?read f = Inr b)}"
    by (intro set_eqI) (rule trans[OF eq], simp only: mem_Collect_eq)
  have "(B, f) \<in> facts_of rt (World_Facts (au_world v)) \<longleftrightarrow> (\<exists>o1 s. (o1, s) \<in> set ?facts \<and> f \<in> hs_set s \<and> B = hs_set o1)" for B f
    unfolding facts_of_Iter[OF inv] by blast
  then have R: "?R = {(hs_set o1, b) | o1 s b. (o1, s) \<in> set ?facts \<and> (\<exists>f \<in> hs_set s. ?read f = Inr b)}"
    by (simp only:) blast
  show ?thesis unfolding L R ..
qed

lemma readable_returns: "\<forall>x \<in> set xs. \<exists>y. read_it x = Inr y \<Longrightarrow> readable read_it xs \<noteq> None"
  by (induction xs) auto

lemma Inspector_Facts_returns:
  assumes inv: "facts_inv rt (World_Facts (au_world v))"
    and "\<forall>(B, f) \<in> facts_of rt (World_Facts (au_world v)). \<exists>b. fromDatalogFact rt (au_symbols v) f = Inr b"
  shows "\<not> snd (Inspector_Facts rt v)"
  unfolding Inspector_Facts_def
proof (rule yield_entries_returns, intro ballI)
  fix x assume "x \<in> set (FactSet_IterSorted rt (World_Facts (au_world v)))"
  moreover obtain o1 s where x: "x = (o1, s)" by fastforce
  ultimately have "(o1, s) \<in> set (FactSet_Iter rt (World_Facts (au_world v)))" by (simp add: FactSet_IterSorted_def)
  then have "(hs_set o1, f) \<in> facts_of rt (World_Facts (au_world v))" if "f \<in> hs_set s" for f
    unfolding facts_of_Iter[OF inv] using that by blast
  then have "readable (fromDatalogFact rt (au_symbols v)) (Sorted Fact_Compare (HashSet_Iter s)) \<noteq> None"
    using assms(2) by (intro readable_returns) (fastforce simp: Sorted_def)
  then show "(case x of (origin, facts) \<Rightarrow> readable (fromDatalogFact rt (au_symbols v)) (Sorted Fact_Compare (HashSet_Iter facts))) \<noteq> None"
    by (simp add: x)
qed

section \<open>Which checks can be compared\<close>

text \<open>What \<^verbatim>\<open>fromDatalogCheck\<close> makes holds no nil operation, and a key exactly in scopes that name one.\<close>

fun made_op :: "BOp \<Rightarrow> bool" where
  "made_op BNilValue = False"
| "made_op BNil = False"
| "made_op _ = True"

definition made_rule :: "BRule \<Rightarrow> bool" where
  "made_rule r \<longleftrightarrow> (\<forall>e \<in> set (br_Expressions r). \<forall>x \<in> set e. made_op x) \<and>
     (\<forall>s \<in> set (br_Scopes r). bs_PublicKey s = None \<longleftrightarrow> bs_Type s \<noteq> PublicKeyScopeType)"

lemma fromDatalogOp_made: "fromDatalogOp rt symbols x = Inr y \<Longrightarrow> made_op y"
  by (cases x) (auto simp: fromDatalogValueOp_def bind_res_eq_Inr)

lemma fromDatalogScope_made:
  "fromDatalogScope keys x = Inr y \<Longrightarrow> bs_Type y = scope_Type x \<and> (bs_PublicKey y = None \<longleftrightarrow> bs_Type y \<noteq> PublicKeyScopeType)"
  by (auto simp: fromDatalogScope_def Let_def split: ScopeType.splits option.splits if_splits)

lemma fromDatalogRule_made:
  assumes "fromDatalogRule rt symbols keys r = Inr b"
  shows "made_rule b"
proof -
  have b: "traverse (fromDatalogExpression rt symbols) (elems (rule_Expressions r)) = Inr (br_Expressions b)"
    "traverse (fromDatalogScope keys) (elems (rule_Scopes r)) = Inr (br_Scopes b)"
    using assms by (auto simp: fromDatalogRule_def bind_res_eq_Inr)
  have "\<forall>e \<in> set (br_Expressions b). \<forall>x \<in> set e. made_op x"
    by (rule traverse_all[OF b(1)], unfold fromDatalogExpression_def, erule traverse_all, erule fromDatalogOp_made)
  moreover have "\<forall>s \<in> set (br_Scopes b). bs_PublicKey s = None \<longleftrightarrow> bs_Type s \<noteq> PublicKeyScopeType"
    by (rule traverse_all[OF b(2)], drule fromDatalogScope_made, erule conjunct2)
  ultimately show ?thesis by (simp add: made_rule_def)
qed

lemma BOp_Compare_returns: "made_op x \<Longrightarrow> made_op y \<Longrightarrow> BOp_Compare x y \<noteq> None"
  by (cases x; cases y)
     (auto simp: or_else_None BValue_Compare_def BUnaryOp_Compare_def BBinaryOp_Compare_def cmp_BOpType_def)

lemma BRule_Compare_returns:
  assumes "made_rule r" "made_rule r2"
    and "\<forall>s \<in> set (br_Scopes r) \<union> set (br_Scopes r2). bs_Type s = PublicKeyScopeType"
  shows "BRule_Compare r r2 \<noteq> None"
proof -
  have "BExpression_Compare e e2 \<noteq> None" if "e \<in> set (br_Expressions r)" "e2 \<in> set (br_Expressions r2)" for e e2
    unfolding BExpression_Compare_def
    using that assms(1,2) by (intro ComparedSlices_panic_returns BOp_Compare_returns) (auto simp: made_rule_def)
  then have e: "ComparedSlices_panic BExpression_Compare (br_Expressions r) (Some (br_Expressions r2)) \<noteq> None"
    by (intro ComparedSlices_panic_returns) simp_all
  have key: "bs_PublicKey s \<noteq> None" if "s \<in> set (br_Scopes r) \<union> set (br_Scopes r2)" for s
    using that assms by (auto simp: made_rule_def)
  have "BScope_Compare s s2 \<noteq> None" if "s \<in> set (br_Scopes r)" "s2 \<in> set (br_Scopes r2)" for s s2
    using key[of s] key[of s2] that by (auto simp: BScope_Compare_def or_else_None)
  then have "ComparedSlices_panic BScope_Compare (br_Scopes r) (slice_of_scopes (br_Scopes r2)) \<noteq> None"
    by (intro ComparedSlices_panic_returns) (auto simp: slice_of_scopes_def split: if_splits)
  with e show ?thesis by (auto simp: BRule_Compare_def or_else_None)
qed

text \<open>The scopes of every query of a check name keys.\<close>

definition names_keys :: "BCheck \<Rightarrow> bool" where
  "names_keys b \<longleftrightarrow> (\<forall>q \<in> set (bc_Queries b). \<forall>s \<in> set (br_Scopes q). bs_Type s = PublicKeyScopeType)"

lemma fromDatalogCheck_made:
  assumes "fromDatalogCheck rt symbols keys c = Inr b" "r \<in> set (bc_Queries b)"
  shows "made_rule r"
proof -
  have "traverse (fromDatalogRule rt symbols keys) (elems (check_Queries c)) = Inr (bc_Queries b)"
    using assms(1) by (auto simp: fromDatalogCheck_def bind_res_eq_Inr)
  from traverse_mem[OF this assms(2)] show ?thesis by (blast intro: fromDatalogRule_made)
qed

lemma BCheck_Compare_returns:
  assumes "\<forall>r \<in> set (bc_Queries b) \<union> set (bc_Queries b2). made_rule r" and "names_keys b" "names_keys b2"
  shows "BCheck_Compare b b2 \<noteq> None"
  unfolding BCheck_Compare_def
proof (rule ComparedSlices_panic_returns)
  fix x y assume xy: "x \<in> set (bc_Queries b)" "y \<in> set (elems (Some (bc_Queries b2)))"
  show "BRule_Compare x y \<noteq> None"
    by (rule BRule_Compare_returns) (use xy assms in \<open>auto simp: names_keys_def\<close>)
qed

lemma sorted_checks_returns:
  assumes tr: "traverse (fromDatalogCheck rt (au_symbols v) (Some (au_publicKeys v))) checks = Inr bs"
    and keys: "\<forall>b \<in> set bs. names_keys b"
  shows "\<exists>cs. sorted_checks rt v checks = Some cs \<and> mset cs = mset bs"
proof -
  have r: "readable f xs = Some ys" if "traverse f xs = Inr ys" for f :: "Check \<Rightarrow> conv_error + BCheck" and xs ys
    using that by (induction xs arbitrary: ys) (auto simp: bind_res_eq_Inr)
  have made: "\<forall>r \<in> set (bc_Queries b). made_rule r" if "b \<in> set bs" for b
    using traverse_mem[OF tr that] fromDatalogCheck_made by blast
  have "BCheck_Compare x y \<noteq> None" if "x \<in> set bs" "y \<in> set bs" for x y
    by (rule BCheck_Compare_returns) (use that made keys in blast)+
  then have "\<exists>cs. SortFunc BCheck_Compare bs = Some cs \<and> mset cs = mset bs"
    by (rule SortFunc_returns)
  then show ?thesis by (simp add: sorted_checks_def r[OF tr])
qed

section \<open>What was built is shown\<close>

lemma Inspector_Facts_ids:
  assumes "facts_inv rt (World_Facts (au_world v))" "\<not> snd (Inspector_Facts rt v)"
    and "(ids, fs) \<in> set (fst (Inspector_Facts rt v))"
  shows "distinct ids"
proof -
  obtain x where x: "x \<in> set (FactSet_IterSorted rt (World_Facts (au_world v)))" "ids = (\<lambda>(origin, facts). Origin_BlockIDs origin) x"
    using assms(3) unfolding Inspector_Facts_def yield_entries_mem[OF assms(2)[unfolded Inspector_Facts_def]] by blast
  obtain o1 s where o1: "x = (o1, s)" by fastforce
  then have "(o1, s) \<in> set (FactSet_Iter rt (World_Facts (au_world v)))" using x(1) by (simp add: FactSet_IterSorted_def)
  from in_FactSet_Iter[OF assms(1) this] show ?thesis
    using hs_inv_distinct x(2) o1 by (auto simp: Origin_BlockIDs_def Sorted_def)
qed

text \<open>
  C30: the inspector shows what was put into the builder. After a successful \<^verbatim>\<open>Build\<close> (of terms
  without sets, with symbols and keys that fit their tables), \<^verbatim>\<open>Facts\<close> does not panic and shows every
  fact of the builder under the authorizer's identifier alone, and \<^verbatim>\<open>Checks\<close> begins with the checks of
  the builder, each as often as it was added, if their scopes name keys only.
\<close>

theorem built_authorizer_is_shown:
  assumes "authorizerBuilder_Build rt ab opts = Inr v" and "ab_biscuit ab = Some biscuit"
    and "\<forall>b \<in> set (Biscuit_Blocks biscuit). block_atomic b" and "authorizer_plain_builder ab"
    and "tables_fit (au_symbols v, au_publicKeys v)"
    and "\<forall>c \<in> set (ab_Checks ab). names_keys c" and "ab_Checks ab \<noteq> []"
  shows "\<not> snd (Inspector_Facts rt v) \<and>
    (\<forall>f \<in> set (ab_Facts ab). \<exists>fs. ([AuthorizerBlockID], fs) \<in> set (fst (Inspector_Facts rt v)) \<and> f \<in> set fs) \<and>
    (\<exists>cs rest. fst (Inspector_Checks rt v) = (AuthorizerBlockID, cs) # rest \<and> mset cs = mset (ab_Checks ab))"
proof (intro conjI ballI)
  note B = authorizer_Build_spec[OF assms(1-5)]
  obtain ms where says: "authorizer_says rt v ms ab" using B(1) by blast
  show ok: "\<not> snd (Inspector_Facts rt v)"
    by (rule Inspector_Facts_returns[OF B(3)]) (use B(2) in \<open>simp add: facts_readable_def\<close>)
  have tr: "traverse (fromDatalogCheck rt (au_symbols v) (Some (au_publicKeys v))) (au_Checks v) = Inr (ab_Checks ab)"
    using says by (simp add: authorizer_says_def)
  obtain cs where cs: "sorted_checks rt v (au_Checks v) = Some cs" "mset cs = mset (ab_Checks ab)"
    using sorted_checks_returns[OF tr assms(6)] by blast
  moreover have "au_Checks v \<noteq> []" "cs \<noteq> []" using tr assms(7) cs(2) by auto
  ultimately show "\<exists>cs rest. fst (Inspector_Checks rt v) = (AuthorizerBlockID, cs) # rest \<and> mset cs = mset (ab_Checks ab)"
    by (simp add: Inspector_Checks_def checks_by_block_def Let_def case_prod_beta)
  fix f assume "f \<in> set (ab_Facts ab)"
  then have "({AuthorizerBlockID}, f) \<in> read_facts rt (au_symbols v) (au_world v)" using says by (auto simp: authorizer_says_def)
  then have "({AuthorizerBlockID}, f) \<in> {(set ids, f) | ids fs f. (ids, fs) \<in> set (fst (Inspector_Facts rt v)) \<and> f \<in> set fs}"
    unfolding Inspector_Facts_spec[OF B(3) ok] read_facts_def .
  then obtain ids fs where shown: "set ids = {AuthorizerBlockID}" "(ids, fs) \<in> set (fst (Inspector_Facts rt v))" "f \<in> set fs" by blast
  have "length ids = 1" using distinct_card[OF Inspector_Facts_ids[OF B(3) ok shown(2)]] shown(1) by simp
  then have "ids = [AuthorizerBlockID]" using shown(1) by (cases ids) auto
  then show "\<exists>fs. ([AuthorizerBlockID], fs) \<in> set (fst (Inspector_Facts rt v)) \<and> f \<in> set fs" using shown by blast
qed

theorem built_authorizer_is_shown_witness:
  "\<exists>v fs cs rest. authorizerBuilder_Build demo_runtime demo_policies [] = Inr v \<and>
     ([AuthorizerBlockID], fs) \<in> set (fst (Inspector_Facts demo_runtime v)) \<and>
     \<lparr>bp_Name = ''read'', bp_IDs = [BInteger 7]\<rparr> \<in> set fs \<and>
     fst (Inspector_Checks demo_runtime v) = (AuthorizerBlockID, cs) # rest \<and> mset cs = mset (ab_Checks demo_policies)"
proof -
  obtain v where v: "authorizerBuilder_Build demo_runtime demo_policies [] = Inr v" "au_symbols v = []" "au_publicKeys v = []"
    using demo_Build by blast
  have "\<not> snd (Inspector_Facts demo_runtime v) \<and>
    (\<forall>f \<in> set (ab_Facts demo_policies). \<exists>fs. ([AuthorizerBlockID], fs) \<in> set (fst (Inspector_Facts demo_runtime v)) \<and> f \<in> set fs) \<and>
    (\<exists>cs rest. fst (Inspector_Checks demo_runtime v) = (AuthorizerBlockID, cs) # rest \<and> mset cs = mset (ab_Checks demo_policies))"
    by (rule built_authorizer_is_shown[OF v(1) demo_policies_plain(1-3)])
       (simp_all add: v demo_policies_plain(4), simp_all add: demo_policies_def names_keys_def named_rule_def)
  then show ?thesis using v(1) by (auto simp: demo_policies_def)
qed

section \<open>Two equal checks\<close>

lemma compare_positions_self: "(\<And>x. x \<in> set xs \<Longrightarrow> c x x = 0) \<Longrightarrow> compare_positions c xs xs = 0"
  by (induction xs) (simp_all add: Let_def)

lemma BTerm_Compare_self: "BTerm_Compare t (Some t) = 0"
proof (induction "size t" arbitrary: t rule: less_induct)
  case less
  show ?case
  proof (cases t)
    case (BSet s)
    have "BTerm_Compare x (Some x) = 0" if "x \<in> hs_set s" for x
      using less[of x] bsize_element[OF that] BSet by simp
    then have "Compared (\<lambda>x y. BTerm_Compare x (Some y)) (HashSet_Iter s) (HashSet_Iter s) = 0"
      by (auto simp: Compared_def Let_def intro: compare_positions_self)
    then show ?thesis unfolding BSet by (simp add: BTerm_Compare.simps BSet_Compare_def compare_as_def)
  qed (simp_all add: BTerm_Compare.simps BVariable_Compare_def BInteger_Compare_def BString_Compare_def
       BDate_Compare_def BBytes_Compare_def BBool_Compare_def compare_as_def CompareBool_cmp)
qed

lemma BPredicate_Compare_self: "BPredicate_Compare p p = 0"
proof -
  have "compare_terms ts ts = 0" for ts by (induction ts) (simp_all add: BTerm_Compare_self)
  then show ?thesis by (simp add: BPredicate_Compare_def)
qed

lemma positions_panic_self: "(\<And>x. x \<in> set xs \<Longrightarrow> c x x = Some 0) \<Longrightarrow> positions_panic c xs xs = Some 0"
  by (induction xs) simp_all

lemma BOp_Compare_self: "made_op x \<Longrightarrow> BOp_Compare x x = Some 0"
  by (cases x) (simp_all add: BValue_Compare_def BUnaryOp_Compare_def BBinaryOp_Compare_def cmp_BOpType_def BTerm_Compare_self)

lemma BRule_Compare_self_panics:
  assumes "made_rule r" "br_Scopes r = s # ss" "bs_Type s \<noteq> PublicKeyScopeType"
  shows "BRule_Compare r r = None"
proof -
  have "BExpression_Compare e e = Some 0" if "e \<in> set (br_Expressions r)" for e
    using that assms(1)
    by (auto simp: BExpression_Compare_def ComparedSlices_panic_def made_rule_def intro: positions_panic_self BOp_Compare_self)
  then have "positions_panic BExpression_Compare (br_Expressions r) (br_Expressions r) = Some 0"
    by (rule positions_panic_self)
  moreover have "BScope_Compare s s = None" using assms by (simp add: BScope_Compare_def made_rule_def)
  ultimately show ?thesis
    by (simp add: BRule_Compare_def BPredicate_Compare_self ComparedSlices_def ComparedSlices_panic_def
        compare_positions_self slice_of_scopes_def assms(2))
qed

text \<open>
  C39: sorting the checks dereferences a nil key. When an authorizer holds the same check twice and
  the first scope of its first query trusts the authority or the previous blocks, \<^verbatim>\<open>Checks\<close> panics
  before it yields anything.
\<close>

theorem equal_checks_panic:
  assumes "au_Checks v = [c, c]" and "fromDatalogCheck rt (au_symbols v) (Some (au_publicKeys v)) c = Inr b"
    and "bc_Queries b = q # qs" and "br_Scopes q = s # ss" and "bs_Type s \<noteq> PublicKeyScopeType"
  shows "Inspector_Checks rt v = ([], True)"
proof -
  have "made_rule q" using fromDatalogCheck_made[OF assms(2)] assms(3) by simp
  then have "BCheck_Compare b b = None"
    using BRule_Compare_self_panics[of q s ss] assms(3-5) by (simp add: BCheck_Compare_def ComparedSlices_panic_def)
  then have "sorted_checks rt v (au_Checks v) = None"
    by (simp add: sorted_checks_def assms(1,2) SortFunc_def)
  then show ?thesis by (simp add: Inspector_Checks_def checks_by_block_def assms(1))
qed

definition twice_checked :: authorizer where
  "twice_checked = (let c = \<lparr>check_Queries = Some [\<lparr>rule_Head = \<lparr>pred_Name = 0, pred_Terms = Some []\<rparr>, rule_Body = Some [],
       rule_Expressions = Some [], rule_Scopes = Some [Scope AuthorityScopeType 0]\<rparr>], check_Kind = CheckOne\<rparr>
     in demo_authorizer\<lparr>au_Checks := [c, c]\<rparr>)"

theorem equal_checks_panic_witness: "Inspector_Checks demo_runtime twice_checked = ([], True)"
proof -
  let ?r = "\<lparr>br_Head = \<lparr>bp_Name = ''read'', bp_IDs = []\<rparr>, br_Body = [], br_Expressions = [],
    br_Scopes = [\<lparr>bs_Type = AuthorityScopeType, bs_PublicKey = None\<rparr>]\<rparr>"
  show ?thesis
    by (rule equal_checks_panic[of _ "hd (au_Checks twice_checked)" _ "\<lparr>bc_Queries = [?r], bc_Kind = CheckOne\<rparr>" ?r "[]"
        "\<lparr>bs_Type = AuthorityScopeType, bs_PublicKey = None\<rparr>" "[]"])
       (simp_all add: twice_checked_def demo_authorizer_def Let_def fromDatalogCheck_def fromDatalogRule_def
         fromDatalogPredicate_def read_Str_def demo_symbol fromDatalogScope_def)
qed

end
