(* ===== verification/Printing.thy ===== *)
theory Printing
  imports Authorizers
begin

text \<open>
  How datalog is shown: \<^verbatim>\<open>Expression.Print\<close> of \<^verbatim>\<open>datalog/expressions.go\<close>, which runs a
  postfix program on a stack of strings, \<^verbatim>\<open>SymbolDebugger\<close> of \<^verbatim>\<open>datalog/symbol.go\<close>, which
  resolves symbols and keys, and the \<^verbatim>\<open>String\<close> methods of \<^verbatim>\<open>types.go\<close>. \<open>None\<close> is the panic
  of a symbol or key index from \<open>2 ^ 63\<close> on.
\<close>

section \<open>Expressions\<close>

fun UnaryOp_Print :: "UnaryOpFunc \<Rightarrow> string \<Rightarrow> string" where
  "UnaryOp_Print Negate v = ''!'' @ v"
| "UnaryOp_Print Parens v = ''('' @ v @ '')''"
| "UnaryOp_Print Length v = v @ ''.length()''"

fun BinaryOp_Print :: "BinaryOpFunc \<Rightarrow> string \<Rightarrow> string \<Rightarrow> string" where
  "BinaryOp_Print LessThan left right = left @ '' < '' @ right"
| "BinaryOp_Print LessOrEqual left right = left @ '' <= '' @ right"
| "BinaryOp_Print GreaterThan left right = left @ '' > '' @ right"
| "BinaryOp_Print GreaterOrEqual left right = left @ '' >= '' @ right"
| "BinaryOp_Print Equal left right = left @ '' === '' @ right"
| "BinaryOp_Print Contains left right = left @ ''.contains('' @ right @ '')''"
| "BinaryOp_Print Prefix left right = left @ ''.starts_with('' @ right @ '')''"
| "BinaryOp_Print Suffix left right = left @ ''.ends_with('' @ right @ '')''"
| "BinaryOp_Print Regex left right = left @ ''.matches('' @ right @ '')''"
| "BinaryOp_Print Add left right = left @ '' + '' @ right"
| "BinaryOp_Print Sub left right = left @ '' - '' @ right"
| "BinaryOp_Print Mul left right = left @ '' * '' @ right"
| "BinaryOp_Print Div left right = left @ '' / '' @ right"
| "BinaryOp_Print And left right = left @ '' && '' @ right"
| "BinaryOp_Print Or left right = left @ '' || '' @ right"
| "BinaryOp_Print Intersection left right = left @ ''.intersection('' @ right @ '')''"
| "BinaryOp_Print Union left right = left @ ''.union('' @ right @ '')''"

definition stringstack_Push :: "string list \<Rightarrow> string \<Rightarrow> string list option" where
  "stringstack_Push s v = (if length s \<ge> maxStackSize then None else Some (s @ [v]))"

definition stringstack_Pop :: "string list \<Rightarrow> (string \<times> string list) option" where
  "stringstack_Pop s = (if length s = 0 then None
     else Some (s ! (length s - 1), take (length s - 1) s))"

definition print_value :: "runtime \<Rightarrow> SymbolTable \<Rightarrow> Term \<Rightarrow> string option" where
  "print_value rt symbols v = (case v of
     TString s \<Rightarrow> (case SymbolTable_Str symbols s of None \<Rightarrow> None | Some str \<Rightarrow> Some (''\"'' @ str @ ''\"''))
   | TVariable x \<Rightarrow> Some (''$'' @ SymbolTable_Var symbols x)
   | TSet _ \<Rightarrow> SymbolTable_FormatTerm rt symbols v
   | _ \<Rightarrow> Some (Term_String rt v))"

definition stack_overflow_text :: string where
  "stack_overflow_text = ''<invalid expression: stack overflow>''"

text \<open>Every return inside the loop ends the printing with its text.\<close>

fun print_ops :: "runtime \<Rightarrow> SymbolTable \<Rightarrow> Op list \<Rightarrow> string list \<Rightarrow> string option" where
  "print_ops rt symbols [] s =
     (if length s = 1 then (case stringstack_Pop s of
          None \<Rightarrow> Some ''<invalid expression: failed to pop result value>'' | Some (v, _) \<Rightarrow> Some v)
      else Some ''<invalid expression: invalid resulting stack>'')"
| "print_ops rt symbols (Value v # ops) s = (case print_value rt symbols v of None \<Rightarrow> None
   | Some str \<Rightarrow> (case stringstack_Push s str of
        None \<Rightarrow> Some stack_overflow_text | Some s' \<Rightarrow> print_ops rt symbols ops s'))"
| "print_ops rt symbols (UnaryOp f # ops) s = (case stringstack_Pop s of
     None \<Rightarrow> Some ''<invalid expression: unary operation failed to pop value>''
   | Some (v, s1) \<Rightarrow> (case stringstack_Push s1 (UnaryOp_Print f v) of
        None \<Rightarrow> Some stack_overflow_text | Some s' \<Rightarrow> print_ops rt symbols ops s'))"
| "print_ops rt symbols (BinaryOp f # ops) s = (case stringstack_Pop s of
     None \<Rightarrow> Some ''<invalid expression: binary operation failed to pop right value>''
   | Some (right, s1) \<Rightarrow> (case stringstack_Pop s1 of
        None \<Rightarrow> Some ''<invalid expression: binary operation failed to pop left value>''
      | Some (left, s2) \<Rightarrow> (case stringstack_Push s2 (BinaryOp_Print f left right) of
           None \<Rightarrow> Some stack_overflow_text | Some s' \<Rightarrow> print_ops rt symbols ops s')))"

definition Expression_Print :: "runtime \<Rightarrow> Expression \<Rightarrow> SymbolTable \<Rightarrow> string option" where
  "Expression_Print rt e symbols = print_ops rt symbols (elems e) []"

section \<open>The symbol debugger\<close>

text \<open>The verb \<^verbatim>\<open>%v\<close> on a list of strings.\<close>

definition go_list :: "string list \<Rightarrow> string" where
  "go_list xs = ''['' @ join_with '' '' xs @ '']''"

abbreviation newline :: string where "newline \<equiv> [CHR 0x0A]"
abbreviation tabulator :: string where "tabulator \<equiv> [CHR 0x09]"

text \<open>The debugger embeds two pointers; the one to the keys may be nil.\<close>

record SymbolDebugger =
  sd_SymbolTable :: SymbolTable
  sd_PublicKeyTable :: "PublicKeyTable option"

function SymbolDebugger_Term :: "runtime \<Rightarrow> SymbolDebugger \<Rightarrow> Term \<Rightarrow> string option" where
  "SymbolDebugger_Term rt d (TString v) =
     (case SymbolTable_Str (sd_SymbolTable d) v of None \<Rightarrow> None | Some str \<Rightarrow> Some (''\"'' @ str @ ''\"''))"
| "SymbolDebugger_Term rt d (TVariable v) = Some (''$'' @ SymbolTable_Var (sd_SymbolTable d) v)"
| "SymbolDebugger_Term rt d (TSet v) = format_set (\<lambda>elem. SymbolDebugger_Term rt d elem) v"
| "SymbolDebugger_Term rt d (TInteger i) = Some (Term_String rt (TInteger i))"
| "SymbolDebugger_Term rt d (TDate t) = Some (Term_String rt (TDate t))"
| "SymbolDebugger_Term rt d (TBytes b) = Some (Term_String rt (TBytes b))"
| "SymbolDebugger_Term rt d (TBool b) = Some (Term_String rt (TBool b))"
  by pat_completeness auto
termination
  by (relation "measure (\<lambda>(_, _, a). size a)") (auto dest: size_element)

definition SymbolDebugger_Predicate :: "runtime \<Rightarrow> SymbolDebugger \<Rightarrow> Predicate \<Rightarrow> string option" where
  "SymbolDebugger_Predicate rt d p =
     (case those (map (SymbolDebugger_Term rt d) (elems (pred_Terms p))) of None \<Rightarrow> None
      | Some strs \<Rightarrow> (case SymbolTable_Str (sd_SymbolTable d) (pred_Name p) of None \<Rightarrow> None
      | Some name \<Rightarrow> Some (name @ ''('' @ join_with '', '' strs @ '')'')))"

definition SymbolDebugger_Expression :: "runtime \<Rightarrow> SymbolDebugger \<Rightarrow> Expression \<Rightarrow> string option" where
  "SymbolDebugger_Expression rt d e = Expression_Print rt e (sd_SymbolTable d)"

text \<open>The body of a rule: its predicates, then its expressions.\<close>

definition show_body :: "string list \<Rightarrow> string list \<Rightarrow> string" where
  "show_body preds expressions =
     (let expressionsStart = (if length preds > 0 \<and> length expressions > 0 then '', '' else '''') in
      join_with '', '' preds @ expressionsStart @ join_with '', '' expressions)"

definition SymbolDebugger_Rule :: "runtime \<Rightarrow> SymbolDebugger \<Rightarrow> Rule \<Rightarrow> string option" where
  "SymbolDebugger_Rule rt d r =
     (case SymbolDebugger_Predicate rt d (rule_Head r) of None \<Rightarrow> None
      | Some head \<Rightarrow> (case those (map (SymbolDebugger_Predicate rt d) (elems (rule_Body r))) of None \<Rightarrow> None
      | Some preds \<Rightarrow> (case those (map (SymbolDebugger_Expression rt d) (elems (rule_Expressions r))) of None \<Rightarrow> None
      | Some expressions \<Rightarrow> Some (head @ '' <- '' @ show_body preds expressions))))"

definition SymbolDebugger_PublicKey :: "PublicKey \<Rightarrow> string" where
  "SymbolDebugger_PublicKey pk =
     (if pk_Algorithm pk = Ed25519 then ''ed25519''
      else if pk_Algorithm pk = SECP256R1 then ''secp256r1'' else ''unknown'') @ ''/'' @ hex_encode (pk_Key pk)"

text \<open>
  \<^verbatim>\<open>int(index)\<close> is negative from \<open>2 ^ 63\<close> on: such an index passes the comparison with
  the length and then panics.
\<close>

definition SymbolDebugger_Scope :: "SymbolDebugger \<Rightarrow> Scope \<Rightarrow> string option" where
  "SymbolDebugger_Scope d s = (case scope_Type s of
     AuthorityScopeType \<Rightarrow> Some ''trusting authority''
   | PreviousScopeType \<Rightarrow> Some ''trusting previous''
   | PublicKeyScopeType \<Rightarrow>
       (let index = scope_PublicKeyTableIndex s;
            unknown = ''trusting <key#'' @ show_nat (unat index) @ ''>'' in
        case sd_PublicKeyTable d of None \<Rightarrow> Some unknown
        | Some keys \<Rightarrow>
            if sint index < int (length keys) then
              (if unat index < length keys
               then Some (''trusting '' @ SymbolDebugger_PublicKey (keys ! unat index)) else None)
            else Some unknown))"

definition SymbolDebugger_CheckQuery :: "runtime \<Rightarrow> SymbolDebugger \<Rightarrow> Rule \<Rightarrow> string option" where
  "SymbolDebugger_CheckQuery rt d r =
     (case those (map (SymbolDebugger_Predicate rt d) (elems (rule_Body r))) of None \<Rightarrow> None
      | Some preds \<Rightarrow> (case those (map (SymbolDebugger_Expression rt d) (elems (rule_Expressions r))) of None \<Rightarrow> None
      | Some expressions \<Rightarrow>
         (let query = show_body preds expressions in
          if length (elems (rule_Scopes r)) > 0 then
            (case those (map (SymbolDebugger_Scope d) (elems (rule_Scopes r))) of None \<Rightarrow> None
             | Some scopeStrs \<Rightarrow> Some (query @ '' '' @ join_with '', '' scopeStrs))
          else Some query)))"

fun check_syntax :: "CheckKind \<Rightarrow> string" where
  "check_syntax CheckAll = ''check all''"
| "check_syntax CheckReject = ''reject if''"
| "check_syntax _ = ''check if''"

definition SymbolDebugger_Check :: "runtime \<Rightarrow> SymbolDebugger \<Rightarrow> Check \<Rightarrow> string option" where
  "SymbolDebugger_Check rt d c =
     (case those (map (SymbolDebugger_CheckQuery rt d) (elems (check_Queries c))) of None \<Rightarrow> None
      | Some queries \<Rightarrow> Some (check_syntax (check_Kind c) @ '' '' @ join_with '' or '' queries))"

definition sort_Strings :: "string list \<Rightarrow> string list" where
  "sort_Strings xs = SortedFunc cmp_Compare xs"

text \<open>\<^verbatim>\<open>Sprintf\<close> has no escape for braces: the two of the format are printed.\<close>

definition SymbolDebugger_World :: "runtime \<Rightarrow> SymbolDebugger \<Rightarrow> World \<Rightarrow> string option" where
  "SymbolDebugger_World rt d w =
     (case those (map (SymbolDebugger_Predicate rt d) (FactSet_AllFacts rt (World_Facts w))) of None \<Rightarrow> None
      | Some facts \<Rightarrow> (case those (map (SymbolDebugger_Rule rt d) (RuleSet_AllRules rt (World_Rules w))) of None \<Rightarrow> None
      | Some rules \<Rightarrow> Some (''World {{'' @ newline @ tabulator @ ''facts: '' @ go_list (sort_Strings facts) @
           newline @ tabulator @ ''rules: '' @ go_list (sort_Strings rules) @ newline @ ''}}'')))"

definition SymbolDebugger_FactSet :: "runtime \<Rightarrow> SymbolDebugger \<Rightarrow> FactSet \<Rightarrow> string option" where
  "SymbolDebugger_FactSet rt d s =
     map_option go_list (those (map (SymbolDebugger_Predicate rt d) (FactSet_AllFacts rt s)))"

definition SymbolDebugger_Facts :: "runtime \<Rightarrow> SymbolDebugger \<Rightarrow> Fact list \<Rightarrow> string option" where
  "SymbolDebugger_Facts rt d s = map_option go_list (those (map (SymbolDebugger_Predicate rt d) s))"

definition authorizer_PrintWorld :: "runtime \<Rightarrow> authorizer \<Rightarrow> string option" where
  "authorizer_PrintWorld rt v =
     (let debug = \<lparr>sd_SymbolTable = au_symbols v, sd_PublicKeyTable = Some (au_publicKeys v)\<rparr> in
      SymbolDebugger_World rt debug (au_world v))"

section \<open>Blocks and tokens\<close>

text \<open>\<^verbatim>\<open>Block.Code\<close> gives the debugger no key table.\<close>

definition Block_Code :: "runtime \<Rightarrow> Block \<Rightarrow> SymbolTable \<Rightarrow> string option" where
  "Block_Code rt b symbols =
     (let debug = \<lparr>sd_SymbolTable = symbols, sd_PublicKeyTable = None\<rparr>;
          gap = newline @ tabulator @ tabulator in
      case those (map (SymbolDebugger_Predicate rt debug) (blk_facts b)) of None \<Rightarrow> None
      | Some facts \<Rightarrow> (case those (map (SymbolDebugger_Rule rt debug) (blk_rules b)) of None \<Rightarrow> None
      | Some rules \<Rightarrow> (case those (map (SymbolDebugger_Check rt debug) (blk_checks b)) of None \<Rightarrow> None
      | Some checks \<Rightarrow> (case those (map (SymbolDebugger_Scope debug) (blk_scopes b)) of None \<Rightarrow> None
      | Some scopes \<Rightarrow> Some (''Block {'' @
          gap @ join_with ('';'' @ newline) facts @
          gap @ join_with ('';'' @ newline) rules @
          gap @ join_with ('';'' @ newline) checks @
          gap @ join_with ('';'' @ newline) scopes @
          newline @ tabulator @ ''}'')))))"

definition Biscuit_Code :: "runtime \<Rightarrow> Biscuit \<Rightarrow> string list option" where
  "Biscuit_Code rt b = those (map (\<lambda>block. Block_Code rt block (bis_symbols b)) (bis_blocks b))"

section \<open>The terms and facts of callers\<close>

definition BSet_String :: "(BTerm \<Rightarrow> string) \<Rightarrow> BTerm hashset \<Rightarrow> string" where
  "BSet_String str a = (let elts = map str (HashSet_Iter a) in
     ''{'' @ join_with '', '' (sort_Strings elts) @ ''}'')"

lemma BSet_String_cong [fundef_cong]:
  assumes "s = s'" and "\<And>a. a \<in> set (HashSet_Iter s') \<Longrightarrow> f a = g a"
  shows "BSet_String f s = BSet_String g s'"
proof -
  have "map f (HashSet_Iter s') = map g (HashSet_Iter s')" using assms(2) by simp
  then show ?thesis unfolding BSet_String_def assms(1) by (simp only:)
qed

text \<open>The layout \<^verbatim>\<open>RFC3339\<close> has no fraction of a second.\<close>

definition BVariable_String :: "string \<Rightarrow> string" where "BVariable_String a = ''$'' @ a"
definition BInteger_String :: "u64 \<Rightarrow> string" where "BInteger_String a = show_int (sint a)"
definition BString_String :: "string \<Rightarrow> string" where "BString_String a = ''\"'' @ a @ ''\"''"
definition BDate_String :: "runtime \<Rightarrow> time \<Rightarrow> string" where "BDate_String rt a = rfc3339 rt (fst a)"
definition BBytes_String :: "u8 list \<Rightarrow> string" where "BBytes_String a = ''hex:'' @ hex_encode a"
definition BBool_String :: "bool \<Rightarrow> string" where "BBool_String b = (if b then ''true'' else ''false'')"

function BTerm_String :: "runtime \<Rightarrow> BTerm \<Rightarrow> string" where
  "BTerm_String rt (BVariable a) = BVariable_String a"
| "BTerm_String rt (BInteger a) = BInteger_String a"
| "BTerm_String rt (BString a) = BString_String a"
| "BTerm_String rt (BDate a) = BDate_String rt a"
| "BTerm_String rt (BBytes a) = BBytes_String a"
| "BTerm_String rt (BBool b) = BBool_String b"
| "BTerm_String rt (BSet a) = BSet_String (\<lambda>e. BTerm_String rt e) a"
  by pat_completeness auto
termination
  by (relation "measure (\<lambda>(_, a). size a)") (auto dest: bsize_element)

declare BVariable_String_def [simp] BInteger_String_def [simp] BString_String_def [simp]
declare BDate_String_def [simp] BBytes_String_def [simp] BBool_String_def [simp]

definition BPredicate_String :: "runtime \<Rightarrow> BPredicate \<Rightarrow> string" where
  "BPredicate_String rt p =
     bp_Name p @ ''('' @ join_with '', '' (map (BTerm_String rt) (bp_IDs p)) @ '')''"

definition BFact_String :: "runtime \<Rightarrow> BFact \<Rightarrow> string" where
  "BFact_String rt f = BPredicate_String rt f"

definition BFactSet_String :: "runtime \<Rightarrow> BFactSet \<Rightarrow> string" where
  "BFactSet_String rt fs =
     (let out = map (BFact_String rt) (HashSet_Iter fs);
          outStr = (if length out > 0
            then newline @ tabulator @ join_with ('','' @ newline @ tabulator) out @ newline else [])
      in ''['' @ outStr @ '']'')"

section \<open>What is printed\<close>

lemma debugger_term [simp]: "SymbolDebugger_Term rt d t = SymbolTable_FormatTerm rt (sd_SymbolTable d) t"
proof (induction rt d t rule: SymbolDebugger_Term.induct)
  case (3 rt d v)
  then have "format_set (\<lambda>e. SymbolDebugger_Term rt d e) v =
      format_set (\<lambda>e. SymbolTable_FormatTerm rt (sd_SymbolTable d) e) v"
    by (intro format_set_cong) auto
  then show ?case by simp
qed (simp_all split: option.splits)

lemma print_value_FormatTerm [simp]: "print_value rt symbols v = SymbolTable_FormatTerm rt symbols v"
  by (cases v) (simp_all add: print_value_def split: option.splits)

text \<open>The infix text of an expression tree.\<close>

fun tree_text :: "runtime \<Rightarrow> SymbolTable \<Rightarrow> tree \<Rightarrow> string option" where
  "tree_text rt symbols (Leaf t) = SymbolTable_FormatTerm rt symbols t"
| "tree_text rt symbols (Unary f a) = map_option (UnaryOp_Print f) (tree_text rt symbols a)"
| "tree_text rt symbols (Binary f a b) = (case tree_text rt symbols a of None \<Rightarrow> None
   | Some l \<Rightarrow> map_option (BinaryOp_Print f l) (tree_text rt symbols b))"

lemma stringstack_Pop_snoc [simp]: "stringstack_Pop (s @ [v]) = Some (v, s)"
  by (simp add: stringstack_Pop_def)

lemma print_ops_compile:
  assumes "length s + depth t \<le> maxStackSize"
  shows "print_ops rt symbols (compile t @ ops) s = (case tree_text rt symbols t of
     None \<Rightarrow> None | Some v \<Rightarrow> print_ops rt symbols ops (s @ [v]))"
  using assms
proof (induction t arbitrary: ops s)
  case (Leaf t)
  then show ?case by (simp add: stringstack_Push_def split: option.splits)
next
  case (Unary f a)
  have "length s < maxStackSize" using Unary.prems depth_pos[of a] by (simp del: depth_pos)
  with Unary show ?case by (simp add: stringstack_Push_def split: option.splits)
next
  case (Binary f a b)
  have l: "length s + depth a \<le> maxStackSize" "length s < maxStackSize"
    "\<And>v. length (s @ [v]) + depth b \<le> maxStackSize" using Binary.prems by auto
  have pop: "stringstack_Pop (s @ [x, y]) = Some (y, s @ [x])" for x y
    using stringstack_Pop_snoc[of "s @ [x]" y] by simp
  show ?case using Binary.IH(1)[OF l(1)] Binary.IH(2)[OF l(3)] l(2)
    by (simp add: stringstack_Push_def pop split: option.splits)
qed

lemma Print_tree:
  "depth t \<le> maxStackSize \<Longrightarrow> Expression_Print rt (Some (compile t)) symbols = tree_text rt symbols t"
  using print_ops_compile[of "[]" t rt symbols "[]"]
  by (simp add: Expression_Print_def stringstack_Pop_def split: option.splits)

lemma Expression_Print_elems: "Expression_Print rt e symbols = Expression_Print rt (Some (elems e)) symbols"
  by (simp add: Expression_Print_def)

text \<open>
  An expression that has a value is printed as the infix text of the very tree that was
  evaluated, every operand in its place, and never as one of the texts for invalid expressions.
\<close>

theorem Print_shows_what_is_evaluated:
  assumes "Expression_Evaluate rt e values symbols = (Inr v, symbols')"
  shows "\<exists>t. elems e = compile t \<and> tree_eval rt values t symbols = (Inr v, symbols') \<and>
     Expression_Print rt e symbols'' = tree_text rt symbols'' t"
proof -
  obtain t where t: "elems e = compile t" "depth t \<le> maxStackSize"
    using Evaluate_value_tree[OF assms] by blast
  have "tree_eval rt values t symbols = (Inr v, symbols')"
    using Evaluate_tree[OF t(2), of rt "values" symbols] assms t(1)
    by (simp add: Expression_Evaluate_def)
  then show ?thesis using Print_tree[OF t(2)] Expression_Print_elems[of rt e] t(1) by metis
qed

theorem Print_shows_what_is_evaluated_witness:
  "\<exists>t. [Value (TInteger 7), Value (TInteger 2), BinaryOp Sub] = compile t \<and>
     tree_eval demo_runtime [] t [] = (Inr (TInteger 5), []) \<and>
     Expression_Print demo_runtime (Some [Value (TInteger 7), Value (TInteger 2), BinaryOp Sub]) [] =
       tree_text demo_runtime [] t"
proof -
  let ?t = "Binary Sub (Leaf (TInteger 7)) (Leaf (TInteger 2))"
  have "tree_eval demo_runtime [] ?t [] = (Inr (TInteger 5), [])"
    by (simp add: BinaryOpFunc_Eval_def Sub_Eval_def int64_or_overflow_def IsInt64_def)
  then have "Expression_Evaluate demo_runtime (Some (compile ?t)) [] [] = (Inr (TInteger 5), [])"
    using Evaluate_tree[of ?t demo_runtime "[]" "[]"] by (simp add: maxStackSize_def)
  from Print_shows_what_is_evaluated[OF this, of "[]"] show ?thesis by simp
qed

end
