(* ===== verification/Quoting.thy ===== *)
theory Quoting
  imports Printing
begin

text \<open>
  \<^verbatim>\<open>Block.String\<close> of \<^verbatim>\<open>types.go\<close> and \<^verbatim>\<open>Biscuit.String\<close> of \<^verbatim>\<open>biscuit.go\<close>, which show symbols and
  contexts quoted: the verbs \<^verbatim>\<open>%q\<close> and \<^verbatim>\<open>%+q\<close> of fmt, which are \<^verbatim>\<open>strconv.Quote\<close> and
  \<^verbatim>\<open>strconv.QuoteToASCII\<close>. A string is its bytes. Which runes beyond ASCII are printable is a
  table of Unicode, the argument \<open>printable\<close>.
\<close>

section \<open>Quoting\<close>

text \<open>\<^verbatim>\<open>utf8.DecodeRuneInString\<close>: the rune and its width; \<open>None\<close> is an invalid encoding, of width 1.\<close>

definition continuation :: "nat \<Rightarrow> bool" where
  "continuation b \<longleftrightarrow> 0x80 \<le> b \<and> b \<le> 0xBF"

fun decode_rune :: "nat list \<Rightarrow> (nat \<times> nat) option" where
  "decode_rune [] = None"
| "decode_rune (b0 # bs) =
     (if b0 < 0x80 then Some (b0, 1)
      else if b0 < 0xC2 \<or> 0xF4 < b0 then None
      else if b0 < 0xE0 then (case bs of
          b1 # _ \<Rightarrow> if continuation b1 then Some ((b0 - 0xC0) * 64 + (b1 - 0x80), 2) else None
        | _ \<Rightarrow> None)
      else if b0 < 0xF0 then (case bs of
          b1 # b2 # _ \<Rightarrow>
            if (if b0 = 0xE0 then 0xA0 else 0x80) \<le> b1 \<and> b1 \<le> (if b0 = 0xED then 0x9F else 0xBF) \<and> continuation b2
            then Some ((b0 - 0xE0) * 4096 + (b1 - 0x80) * 64 + (b2 - 0x80), 3) else None
        | _ \<Rightarrow> None)
      else (case bs of
          b1 # b2 # b3 # _ \<Rightarrow>
            if (if b0 = 0xF0 then 0x90 else 0x80) \<le> b1 \<and> b1 \<le> (if b0 = 0xF4 then 0x8F else 0xBF) \<and>
              continuation b2 \<and> continuation b3
            then Some ((b0 - 0xF0) * 262144 + (b1 - 0x80) * 4096 + (b2 - 0x80) * 64 + (b3 - 0x80), 4) else None
        | _ \<Rightarrow> None))"

abbreviation backslash :: char where "backslash \<equiv> CHR 0x5C"
abbreviation quotation :: char where "quotation \<equiv> CHR 0x22"

definition strconv_IsPrint :: "(nat \<Rightarrow> bool) \<Rightarrow> nat \<Rightarrow> bool" where
  "strconv_IsPrint printable r = (if r < 0x80 then 0x20 \<le> r \<and> r < 0x7F else printable r)"

definition control_escapes :: "nat \<rightharpoonup> char" where
  "control_escapes = map_of [(7, CHR ''a''), (8, CHR ''b''), (12, CHR ''f''), (10, CHR ''n''), (13, CHR ''r''), (9, CHR ''t''), (11, CHR ''v'')]"

text \<open>\<^verbatim>\<open>appendEscapedRune\<close>; the last argument is the encoding of the rune.\<close>

definition escape_rune :: "bool \<Rightarrow> (nat \<Rightarrow> bool) \<Rightarrow> nat \<Rightarrow> string \<Rightarrow> string" where
  "escape_rune ASCIIonly printable r bytes =
     (if r = 0x22 \<or> r = 0x5C then backslash # bytes
      else if strconv_IsPrint printable r \<and> (ASCIIonly \<longrightarrow> r < 0x80) then bytes
      else case control_escapes r of Some c \<Rightarrow> [backslash, c]
      | None \<Rightarrow>
        if r < 0x20 \<or> r = 0x7F then [backslash, CHR ''x''] @ hex_encode [word_of_nat r]
        else if r < 0x10000 then [backslash, CHR ''u''] @ hex_encode [word_of_nat (r div 256), word_of_nat r]
        else [backslash, CHR ''U''] @ hex_encode [0, word_of_nat (r div 65536), word_of_nat (r div 256), word_of_nat r])"

function quote_runes :: "bool \<Rightarrow> (nat \<Rightarrow> bool) \<Rightarrow> string \<Rightarrow> string" where
  "quote_runes ASCIIonly printable [] = []"
| "quote_runes ASCIIonly printable (c # cs) = (case decode_rune (map of_char (c # cs)) of
     None \<Rightarrow> [backslash, CHR ''x''] @ hex_encode [of_char c] @ quote_runes ASCIIonly printable cs
   | Some (r, width) \<Rightarrow> escape_rune ASCIIonly printable r (take width (c # cs)) @
       quote_runes ASCIIonly printable (drop (width - 1) cs))"
  by pat_completeness auto
termination
  by (relation "measure (\<lambda>(_, _, s). length s)") auto

definition strconv_Quote :: "(nat \<Rightarrow> bool) \<Rightarrow> string \<Rightarrow> string" where
  "strconv_Quote printable s = quotation # quote_runes False printable s @ [quotation]"

definition strconv_QuoteToASCII :: "(nat \<Rightarrow> bool) \<Rightarrow> string \<Rightarrow> string" where
  "strconv_QuoteToASCII printable s = quotation # quote_runes True printable s @ [quotation]"

section \<open>Blocks and tokens\<close>

definition Block_String :: "runtime \<Rightarrow> (nat \<Rightarrow> bool) \<Rightarrow> Block \<Rightarrow> SymbolTable \<Rightarrow> string option" where
  "Block_String rt printable b symbols =
     (let debug = \<lparr>sd_SymbolTable = symbols, sd_PublicKeyTable = None\<rparr>;
          gap = newline @ tabulator @ tabulator in
      case those (map (SymbolDebugger_Rule rt debug) (blk_rules b)) of None \<Rightarrow> None
      | Some rules \<Rightarrow> (case those (map (SymbolDebugger_Check rt debug) (blk_checks b)) of None \<Rightarrow> None
      | Some checks \<Rightarrow> (case those (map (SymbolDebugger_Scope debug) (blk_scopes b)) of None \<Rightarrow> None
      | Some scopes \<Rightarrow> (case SymbolDebugger_Facts rt debug (blk_facts b) of None \<Rightarrow> None
      | Some facts \<Rightarrow> Some (''Block {'' @
          gap @ ''symbols: '' @ go_list (map (strconv_QuoteToASCII printable) (blk_symbols b)) @
          gap @ ''context: '' @ strconv_Quote printable (blk_context b) @
          gap @ ''facts: '' @ facts @
          gap @ ''rules: '' @ go_list rules @
          gap @ ''checks: '' @ go_list checks @
          gap @ ''scopes: '' @ go_list scopes @
          gap @ ''authorizerChecks: ['' @ join_with '', '' checks @ '']'' @
          gap @ ''version: '' @ show_nat (unat (blk_version b)) @
          newline @ tabulator @ ''}'')))))"

definition Biscuit_String :: "runtime \<Rightarrow> (nat \<Rightarrow> bool) \<Rightarrow> Biscuit \<Rightarrow> string option" where
  "Biscuit_String rt printable b =
     (case those (map (\<lambda>block. Block_String rt printable block (bis_symbols b)) (bis_blocks b)) of None \<Rightarrow> None
      | Some blocks \<Rightarrow> (case Block_String rt printable (bis_authority b) (bis_symbols b) of None \<Rightarrow> None
      | Some authority \<Rightarrow> Some (newline @ ''Biscuit {'' @
          newline @ tabulator @ ''symbols: '' @ go_list (map (strconv_QuoteToASCII printable) (bis_symbols b)) @
          newline @ tabulator @ ''authority: '' @ authority @
          newline @ tabulator @ ''blocks: '' @ go_list blocks @
          newline @ ''}'')))"

section \<open>What quoting guarantees\<close>

abbreviation clean_char :: "char \<Rightarrow> bool" where
  "clean_char c \<equiv> 0x20 \<le> (of_char c :: nat) \<and> (of_char c :: nat) < 0x7F"

lemma decode_rune_ascii: "decode_rune (b # bs) = Some (r, w) \<Longrightarrow> r < 0x80 \<Longrightarrow> b = r \<and> w = 1"
  by (auto simp: continuation_def split: if_splits list.splits)

lemma control_escapes_clean: "control_escapes r = Some c \<Longrightarrow> clean_char c"
  by (auto simp: control_escapes_def split: if_splits)

lemma digit_char_clean: "d < 16 \<Longrightarrow> clean_char (digit_char d)"
proof -
  assume "d < 16"
  then have "d = 0 \<or> d = 1 \<or> d = 2 \<or> d = 3 \<or> d = 4 \<or> d = 5 \<or> d = 6 \<or> d = 7 \<or> d = 8 \<or> d = 9 \<or> d = 10 \<or> d = 11 \<or>
    d = 12 \<or> d = 13 \<or> d = 14 \<or> d = 15" by arith
  then show ?thesis by (auto simp: digit_char_def)
qed

lemma hex_clean: "\<forall>c \<in> set (hex_encode bs). clean_char c"
proof -
  have "unat b div 16 < 16" for b :: u8
  proof -
    have "unat b < 256" using unsigned_less[of b] by simp
    then show ?thesis by simp
  qed
  then show ?thesis using digit_char_clean by (fastforce simp: hex_encode_def)
qed

lemma escape_rune_clean:
  assumes "decode_rune (map of_char (c # cs)) = Some (r, w)"
  shows "\<forall>a \<in> set (escape_rune True printable r (take w (c # cs))). clean_char a"
proof (cases "r < 0x80")
  case True
  have c: "(of_char c :: nat) = r" "w = 1" using decode_rune_ascii assms True by auto
  show ?thesis
    using hex_clean control_escapes_clean c True
    by (auto simp: escape_rune_def strconv_IsPrint_def split: option.splits)
next
  case False
  then show ?thesis
    using hex_clean control_escapes_clean by (auto simp: escape_rune_def split: option.splits)
qed

text \<open>
  What \<^verbatim>\<open>%+q\<close> shows of a symbol has only printable ASCII characters, whatever bytes a token carries as
  its symbols: no line break and no control character reaches the log.
\<close>

theorem quoted_symbols_are_clean: "list_all clean_char (strconv_QuoteToASCII printable s)"
proof -
  have "\<forall>a \<in> set (quote_runes True printable s). clean_char a"
  proof (induction True printable s rule: quote_runes.induct)
    case (2 printable c cs)
    show ?case
    proof (cases "decode_rune (map of_char (c # cs))")
      case None
      then have "quote_runes True printable (c # cs) =
          [backslash, CHR ''x''] @ hex_encode [of_char c] @ quote_runes True printable cs" by (simp del: decode_rune.simps)
      then show ?thesis using hex_clean[of "[of_char c]"] "2.hyps"(1)[OF None] by auto
    next
      case (Some p)
      then obtain r w where p: "decode_rune (map of_char (c # cs)) = Some (r, w)" by (cases p) auto
      then have "quote_runes True printable (c # cs) =
          escape_rune True printable r (take w (c # cs)) @ quote_runes True printable (drop (w - 1) cs)" by (simp del: decode_rune.simps)
      then show ?thesis using escape_rune_clean[OF p, of printable] "2.hyps"(2)[OF p] by auto
    qed
  qed simp
  then show ?thesis by (simp add: strconv_QuoteToASCII_def list_all_iff)
qed

text \<open>Printable ASCII without quotation marks and backslashes is quoted as it is.\<close>

lemma quote_runes_plain:
  assumes "list_all (\<lambda>c. clean_char c \<and> c \<noteq> quotation \<and> c \<noteq> backslash) s"
  shows "quote_runes ASCIIonly printable s = s"
  using assms
proof (induction s)
  case (Cons c s)
  have c: "clean_char c" "(of_char c :: nat) \<noteq> 0x22" "(of_char c :: nat) \<noteq> 0x5C"
    using Cons.prems of_char_eq_iff[of c quotation] of_char_eq_iff[of c backslash] by auto
  then show ?case using Cons by (auto simp: escape_rune_def strconv_IsPrint_def)
qed simp

end
