(* ===== verification/Grammar.thy ===== *)
theory Grammar
  imports Printing
begin

text \<open>
  The text format: the syntax tree of \<^verbatim>\<open>parser/grammar.go\<close> and its translation to the types
  of \<^verbatim>\<open>types.go\<close>, and \<^verbatim>\<open>parser/parser.go\<close>. The tree is built from the text by the library
  participle, guided by the struct tags; that step and \<^verbatim>\<open>time.Parse\<close> are parameters. A field
  that holds one of several alternatives, or may be missing, is an option; a field that the
  grammar always fills is not.
\<close>

section \<open>Syntax trees\<close>

datatype Operator =
    OpMul | OpDiv | OpAdd | OpSub | OpAnd | OpOr | OpLessOrEqual | OpGreaterOrEqual | OpLessThan
  | OpGreaterThan | OpEqual | OpNotEqual | OpHeterogeneousEqual | OpHeterogeneousNotEqual | OpContains
  | OpPrefix | OpSuffix | OpMatches | OpIntersection | OpUnion | OpLength | OpNegate

definition operatorMap :: "(string \<times> Operator) list" where
  "operatorMap =
     [(''+'', OpAdd), (''-'', OpSub), (''*'', OpMul), (''/'', OpDiv), (''&&'', OpAnd), (''||'', OpOr),
      (''<='', OpLessOrEqual), (''>='', OpGreaterOrEqual), (''<'', OpLessThan), (''>'', OpGreaterThan),
      (''=='', OpHeterogeneousEqual), (''!='', OpHeterogeneousNotEqual), (''==='', OpEqual),
      (''!=='', OpNotEqual), (''!'', OpNegate), (''contains'', OpContains), (''starts_with'', OpPrefix),
      (''ends_with'', OpSuffix), (''matches'', OpMatches), (''intersection'', OpIntersection),
      (''union'', OpUnion), (''length'', OpLength)]"

text \<open>An unknown operator is the zero value of the enumeration.\<close>

definition Operator_Capture :: "string \<Rightarrow> Operator" where
  "Operator_Capture s = (case map_of operatorMap s of Some op \<Rightarrow> op | None \<Rightarrow> OpMul)"

datatype GTerm = GTerm
  (gt_Variable: "string option")
  (gt_Bytes: "string option")
  (gt_String: "string option")
  (gt_Date: "string option")
  (gt_Integer: "u64 option")
  (gt_Bool: "bool option")
  (gt_Parameter: "string option")
  (gt_EmptySet: "string option")
  (gt_Set: "GTerm list option")

text \<open>
  The structs of the levels of precedence. Parentheses and arguments of methods contain an
  expression of the outermost level again, which is the type parameter until the last line.
\<close>

datatype 'e ExprTerm = ExprTerm "GTerm option" "'e option"
datatype 'e OpExpr7 = OpExpr7 Operator "'e option"
datatype 'e Expr6 = Expr6 "'e ExprTerm" "'e OpExpr7 list"
datatype 'e Expr5 = Expr5 "Operator option" "'e Expr6"
datatype 'e OpExpr5 = OpExpr5 Operator "'e Expr5"
datatype 'e Expr4 = Expr4 "'e Expr5" "'e OpExpr5 list"
datatype 'e OpExpr4 = OpExpr4 Operator "'e Expr4"
datatype 'e Expr3 = Expr3 "'e Expr4" "'e OpExpr4 list"
datatype 'e OpExpr3 = OpExpr3 Operator "'e Expr3"
datatype 'e Expr2 = Expr2 "'e Expr3" "'e OpExpr3 option"
datatype 'e OpExpr2 = OpExpr2 Operator "'e Expr2"
datatype 'e Expr1 = Expr1 "'e Expr2" "'e OpExpr2 list"
datatype 'e OpExpr1 = OpExpr1 Operator "'e Expr1"
datatype GExpression = GExpression "GExpression Expr1" "GExpression OpExpr1 list"

record GPredicate =
  gp_Name :: string
  gp_IDs :: "GTerm list"

record GRuleElement =
  re_Predicate :: "GPredicate option"
  re_Expression :: "GExpression option"

record GPublicKey =
  gpk_Algorithm :: string
  gpk_HexBytes :: string

record GOrigin =
  or_Authority :: "string option"
  or_Previous :: "string option"
  or_PublicKey :: "GPublicKey option"

type_synonym GOriginClause = "GOrigin list"

record GRule =
  gr_Head :: GPredicate
  gr_Body :: "GRuleElement list"
  gr_Origin :: "GOriginClause option"

type_synonym GCheckQuery = "GRuleElement list"

text \<open>The alternatives of a check have the same fields.\<close>

record GAlternative =
  alt_Queries :: "GCheckQuery list"
  alt_Origin :: "GOriginClause option"

record GCheck =
  gc_CheckIf :: "GAlternative option"
  gc_CheckAll :: "GAlternative option"
  gc_RejectIf :: "GAlternative option"

record GPolicy =
  gpol_Allow :: "GCheckQuery list option"
  gpol_Deny :: "GCheckQuery list option"

text \<open>\<open>None\<close> in the last field is a nil slice: no \<open>"<-"\<close>.\<close>

record GBlockElement =
  be_Check :: "GCheck option"
  be_Predicate :: "GPredicate option"
  be_RuleBody :: "GRuleElement list option"

type_synonym GBlock = "GBlockElement list"

record GAuthorizerElement =
  ae_Policy :: "GPolicy option"
  ae_BlockElement :: "GBlockElement option"

type_synonym GAuthorizer = "GAuthorizerElement list"

section \<open>Tokens of the lexer\<close>

datatype parse_error =
    ErrSyntax
  | InvalidToken
  | InvalidDate
  | InvalidHex
  | UnboundParameter string
  | UnsupportedTerm
  | ErrVariableInSet
  | ErrVariableInFact
  | UnsupportedAlgorithm string
  | InvalidPublicKey
  | NilOrigin
  | UnsupportedCheck
  | ParserPanic     \<comment> \<open>a nil pointer\<close>

definition Variable_Capture :: "string list \<Rightarrow> parse_error + string" where
  "Variable_Capture vs =
     (if length vs \<noteq> 1 then Inl InvalidToken
      else if take 1 (vs ! 0) \<noteq> ''$'' then Inl InvalidToken
      else Inr (drop 1 (vs ! 0)))"

text \<open>\<^verbatim>\<open>strconv.ParseBool\<close>\<close>

definition parse_bool :: "string \<Rightarrow> bool option" where
  "parse_bool s =
     (if s \<in> set [''1'', ''t'', ''T'', ''TRUE'', ''true'', ''True''] then Some True
      else if s \<in> set [''0'', ''f'', ''F'', ''FALSE'', ''false'', ''False''] then Some False
      else None)"

definition Bool_Capture :: "string list \<Rightarrow> parse_error + bool" where
  "Bool_Capture vs =
     (if length vs \<noteq> 1 then Inl InvalidToken
      else (case parse_bool (vs ! 0) of None \<Rightarrow> Inl InvalidToken | Some v \<Rightarrow> Inr v))"

definition PublicKey_Capture :: "string list \<Rightarrow> parse_error + GPublicKey" where
  "PublicKey_Capture vs = (if vs = [] then Inl ParserPanic else
     (let parts = split_on (CHR ''/'') (vs ! 0) in
      if length parts \<noteq> 2 then Inl InvalidToken
      else Inr \<lparr>gpk_Algorithm = parts ! 0, gpk_HexBytes = parts ! 1\<rparr>))"

text \<open>\<open>None\<close> is \<^verbatim>\<open>participle.NextMatch\<close>: the token is not consumed.\<close>

definition HexString_Parse :: "string \<Rightarrow> string option" where
  "HexString_Parse token = (if take 4 token \<noteq> ''hex:'' then None else Some (drop 4 token))"

text \<open>\<^verbatim>\<open>hex.DecodeString\<close>\<close>

definition hex_digit :: "char \<Rightarrow> nat option" where
  "hex_digit ch = (case digit_val ch of None \<Rightarrow> None | Some d \<Rightarrow> if d < 16 then Some d else None)"

fun hex_decode :: "string \<Rightarrow> u8 list option" where
  "hex_decode [] = Some []"
| "hex_decode (a # b # s) = (case (hex_digit a, hex_digit b) of
     (Some x, Some y) \<Rightarrow> map_option (\<lambda>bs. word_of_nat (16 * x + y) # bs) (hex_decode s)
   | _ \<Rightarrow> None)"
| "hex_decode [_] = None"

definition HexString_Decode :: "string \<Rightarrow> u8 list option" where
  "HexString_Decode h = hex_decode h"

text \<open>
  \<^verbatim>\<open>strings.ToLower\<close>. Only the two names below are compared with the result; no letter beyond
  ASCII has a lower case among theirs, so that the mapping of ASCII letters decides.
\<close>

definition lower_char :: "char \<Rightarrow> char" where
  "lower_char ch = (let n = of_char ch :: nat in if 65 \<le> n \<and> n \<le> 90 then char_of (n + 32) else ch)"

definition NewPublicKey :: "string \<Rightarrow> string \<Rightarrow> parse_error + BPublicKey" where
  "NewPublicKey algorithm hexBytes =
     (case map_of [(''secp256r1'', SECP256R1), (''ed25519'', Ed25519)] (map lower_char algorithm) of
        None \<Rightarrow> Inl (UnsupportedAlgorithm algorithm)
      | Some alg \<Rightarrow> (case hex_decode hexBytes of
           None \<Rightarrow> Inl InvalidHex
         | Some b \<Rightarrow> Inr \<lparr>bpk_Algorithm = alg, bpk_Bytes = b\<rparr>))"

section \<open>Terms and predicates\<close>

type_synonym ParametersMap = "string \<rightharpoonup> BTerm"

text \<open>What the translation is given: the runtime, \<^verbatim>\<open>time.Parse(time.RFC3339, _)\<close> and the parameters.\<close>

record parse_env =
  pe_runtime :: runtime
  pe_time :: "string \<Rightarrow> time option"
  pe_parameters :: ParametersMap

fun insert_terms :: "runtime \<Rightarrow> ('a \<Rightarrow> parse_error + BTerm) \<Rightarrow> 'a list \<Rightarrow> BTerm hashset \<Rightarrow> parse_error + BTerm hashset" where
  "insert_terms rt conv [] biscuitSet = Inr biscuitSet"
| "insert_terms rt conv (term # ts) biscuitSet =
     bind_res (conv term) (\<lambda>setTerm.
       if BTerm_Type setTerm = BTermTypeVariable then Inl ErrVariableInSet
       else insert_terms rt conv ts (snd (HashSet_Insert (bterm_hash rt) bterm_eq biscuitSet setTerm)))"

lemma insert_terms_cong [fundef_cong]:
  assumes "rt = rt'" "ts = ts'" "s = s'" "\<And>t. t \<in> set ts' \<Longrightarrow> f t = g t"
  shows "insert_terms rt f ts s = insert_terms rt' g ts' s'"
proof -
  have "(\<forall>t \<in> set ts. f t = g t) \<longrightarrow> insert_terms rt f ts s = insert_terms rt g ts s" for ts s
    by (induction ts arbitrary: s) (auto simp: bind_res_def split: sum.splits)
  then show ?thesis using assms by blast
qed

fun Term_ToBiscuit :: "parse_env \<Rightarrow> GTerm \<Rightarrow> parse_error + BTerm" where
  "Term_ToBiscuit pe (GTerm aVariable aBytes aString aDate aInteger aBool aParameter aEmptySet aSet) =
     (case aInteger of Some i \<Rightarrow> Inr (BInteger i) | None \<Rightarrow>
     (case aString of Some s \<Rightarrow> Inr (BString s) | None \<Rightarrow>
     (case aVariable of Some v \<Rightarrow> Inr (BVariable v) | None \<Rightarrow>
     (case aDate of Some d \<Rightarrow> (case pe_time pe d of None \<Rightarrow> Inl InvalidDate | Some date \<Rightarrow> Inr (BDate date)) | None \<Rightarrow>
     (case aBytes of Some h \<Rightarrow> (case HexString_Decode h of None \<Rightarrow> Inl InvalidHex | Some b \<Rightarrow> Inr (BBytes b)) | None \<Rightarrow>
     (case aBool of Some b \<Rightarrow> Inr (BBool b) | None \<Rightarrow>
     (case aEmptySet of Some _ \<Rightarrow> Inr (BSet (BNewSet (pe_runtime pe) [])) | None \<Rightarrow>
     (case aSet of Some ts \<Rightarrow>
         bind_res (insert_terms (pe_runtime pe) (\<lambda>term. Term_ToBiscuit pe term) ts (BNewSet (pe_runtime pe) []))
           (\<lambda>biscuitSet. Inr (BSet biscuitSet)) | None \<Rightarrow>
     (case aParameter of Some paramName \<Rightarrow>
         (case pe_parameters pe paramName of None \<Rightarrow> Inl (UnboundParameter paramName) | Some v \<Rightarrow> Inr v) | None \<Rightarrow>
       Inl UnsupportedTerm)))))))))"

definition Predicate_ToBiscuit :: "parse_env \<Rightarrow> GPredicate \<Rightarrow> parse_error + BPredicate" where
  "Predicate_ToBiscuit pe p =
     bind_res (traverse (Term_ToBiscuit pe) (gp_IDs p)) (\<lambda>terms.
       Inr \<lparr>bp_Name = gp_Name p, bp_IDs = terms\<rparr>)"

section \<open>Expressions\<close>

fun binary_op :: "Operator \<Rightarrow> BinaryOpFunc option" where
  "binary_op OpAnd = Some And"
| "binary_op OpOr = Some Or"
| "binary_op OpMul = Some Mul"
| "binary_op OpDiv = Some Div"
| "binary_op OpAdd = Some Add"
| "binary_op OpSub = Some Sub"
| "binary_op OpLessOrEqual = Some LessOrEqual"
| "binary_op OpGreaterOrEqual = Some GreaterOrEqual"
| "binary_op OpLessThan = Some LessThan"
| "binary_op OpGreaterThan = Some GreaterThan"
| "binary_op OpEqual = Some Equal"
| "binary_op OpContains = Some Contains"
| "binary_op OpPrefix = Some Prefix"
| "binary_op OpSuffix = Some Suffix"
| "binary_op OpMatches = Some Regex"
| "binary_op OpIntersection = Some Intersection"
| "binary_op OpUnion = Some Union"
| "binary_op _ = None"

text \<open>
  \<^verbatim>\<open>Operator.ToExpr\<close>: the switch has no case for \<^verbatim>\<open>==\<close>, \<^verbatim>\<open>!=\<close>, \<^verbatim>\<open>!==\<close> and \<^verbatim>\<open>!\<close>, for which
  it appends the nil interface.
\<close>

definition Operator_ToExpr :: "Operator \<Rightarrow> BExpression \<Rightarrow> BExpression" where
  "Operator_ToExpr op expr = expr @
     [if op = OpLength then BUnaryOp (fromDatalogUnaryOp Length)
      else (case binary_op op of Some f \<Rightarrow> BBinaryOp (fromDatalogBinaryOp f) | None \<Rightarrow> BNil)]"

text \<open>
  \<^verbatim>\<open>ToExpr\<close> appends to an expression. Below the outermost level, an expression in parentheses
  or in an argument is represented by what its own \<^verbatim>\<open>ToExpr\<close> does.
\<close>

type_synonym to_expr = "BExpression \<Rightarrow> BExpression"

fun ExprTerm_ToExpr :: "parse_env \<Rightarrow> to_expr ExprTerm \<Rightarrow> to_expr" where
  "ExprTerm_ToExpr pe (ExprTerm (Some term) _) expr =
     expr @ [case Term_ToBiscuit pe term of Inl _ \<Rightarrow> BNilValue | Inr t \<Rightarrow> BValue t]"
| "ExprTerm_ToExpr pe (ExprTerm None (Some e)) expr = e expr @ [BUnaryOp (fromDatalogUnaryOp Parens)]"
| "ExprTerm_ToExpr pe (ExprTerm None None) expr = expr"

fun OpExpr7_ToExpr :: "to_expr OpExpr7 \<Rightarrow> to_expr" where
  "OpExpr7_ToExpr (OpExpr7 op e) expr =
     (let expr1 = (case e of Some e \<Rightarrow> e expr | None \<Rightarrow> expr) in Operator_ToExpr op expr1)"

fun Expr6_ToExpr :: "parse_env \<Rightarrow> to_expr Expr6 \<Rightarrow> to_expr" where
  "Expr6_ToExpr pe (Expr6 left right) expr =
     fold (\<lambda>op expr. OpExpr7_ToExpr op expr) right (ExprTerm_ToExpr pe left expr)"

fun Expr5_ToExpr :: "parse_env \<Rightarrow> to_expr Expr5 \<Rightarrow> to_expr" where
  "Expr5_ToExpr pe (Expr5 op e) expr =
     (let expr1 = Expr6_ToExpr pe e expr in
      if op \<noteq> None then expr1 @ [BUnaryOp (fromDatalogUnaryOp Negate)] else expr1)"

fun OpExpr5_ToExpr :: "parse_env \<Rightarrow> to_expr OpExpr5 \<Rightarrow> to_expr" where
  "OpExpr5_ToExpr pe (OpExpr5 op e) expr = Operator_ToExpr op (Expr5_ToExpr pe e expr)"

fun Expr4_ToExpr :: "parse_env \<Rightarrow> to_expr Expr4 \<Rightarrow> to_expr" where
  "Expr4_ToExpr pe (Expr4 left right) expr =
     fold (\<lambda>op expr. OpExpr5_ToExpr pe op expr) right (Expr5_ToExpr pe left expr)"

fun OpExpr4_ToExpr :: "parse_env \<Rightarrow> to_expr OpExpr4 \<Rightarrow> to_expr" where
  "OpExpr4_ToExpr pe (OpExpr4 op e) expr = Operator_ToExpr op (Expr4_ToExpr pe e expr)"

fun Expr3_ToExpr :: "parse_env \<Rightarrow> to_expr Expr3 \<Rightarrow> to_expr" where
  "Expr3_ToExpr pe (Expr3 left right) expr =
     fold (\<lambda>op expr. OpExpr4_ToExpr pe op expr) right (Expr4_ToExpr pe left expr)"

fun OpExpr3_ToExpr :: "parse_env \<Rightarrow> to_expr OpExpr3 \<Rightarrow> to_expr" where
  "OpExpr3_ToExpr pe (OpExpr3 op e) expr = Operator_ToExpr op (Expr3_ToExpr pe e expr)"

fun Expr2_ToExpr :: "parse_env \<Rightarrow> to_expr Expr2 \<Rightarrow> to_expr" where
  "Expr2_ToExpr pe (Expr2 left right) expr =
     (let expr1 = Expr3_ToExpr pe left expr in
      case right of Some op \<Rightarrow> OpExpr3_ToExpr pe op expr1 | None \<Rightarrow> expr1)"

fun OpExpr2_ToExpr :: "parse_env \<Rightarrow> to_expr OpExpr2 \<Rightarrow> to_expr" where
  "OpExpr2_ToExpr pe (OpExpr2 op e) expr = Operator_ToExpr op (Expr2_ToExpr pe e expr)"

fun Expr1_ToExpr :: "parse_env \<Rightarrow> to_expr Expr1 \<Rightarrow> to_expr" where
  "Expr1_ToExpr pe (Expr1 left right) expr =
     fold (\<lambda>op expr. OpExpr2_ToExpr pe op expr) right (Expr2_ToExpr pe left expr)"

fun OpExpr1_ToExpr :: "parse_env \<Rightarrow> to_expr OpExpr1 \<Rightarrow> to_expr" where
  "OpExpr1_ToExpr pe (OpExpr1 op e) expr = Operator_ToExpr op (Expr1_ToExpr pe e expr)"

primrec Expression_ToExpr :: "parse_env \<Rightarrow> GExpression \<Rightarrow> to_expr" where
  "Expression_ToExpr pe (GExpression left right) =
     (\<lambda>expr. fold (\<lambda>op expr. OpExpr1_ToExpr pe op expr)
        (map (map_OpExpr1 (Expression_ToExpr pe)) right)
        (Expr1_ToExpr pe (map_Expr1 (Expression_ToExpr pe) left) expr))"

section \<open>Rules, checks and policies\<close>

text \<open>The loop over the elements of a body, which rules and queries have in common.\<close>

fun body_elements :: "parse_env \<Rightarrow> GRuleElement list \<Rightarrow> BPredicate list \<Rightarrow> BExpression list \<Rightarrow>
    parse_error + (BPredicate list \<times> BExpression list)" where
  "body_elements pe [] body expressions = Inr (body, expressions)"
| "body_elements pe (p # ps) body expressions = (case re_Predicate p of
     Some pr \<Rightarrow> bind_res (Predicate_ToBiscuit pe pr) (\<lambda>predicate. body_elements pe ps (body @ [predicate]) expressions)
   | None \<Rightarrow> (case re_Expression p of
        Some e \<Rightarrow> body_elements pe ps body (expressions @ [Expression_ToExpr pe e []])
      | None \<Rightarrow> body_elements pe ps body expressions))"

definition Origin_ToBiscuit :: "GOrigin \<Rightarrow> parse_error + BScope" where
  "Origin_ToBiscuit oc =
     (if or_Authority oc \<noteq> None then Inr \<lparr>bs_Type = AuthorityScopeType, bs_PublicKey = None\<rparr>
      else if or_Previous oc \<noteq> None then Inr \<lparr>bs_Type = PreviousScopeType, bs_PublicKey = None\<rparr>
      else (case or_PublicKey oc of
         Some pk \<Rightarrow> (case NewPublicKey (gpk_Algorithm pk) (gpk_HexBytes pk) of
              Inl _ \<Rightarrow> Inl InvalidPublicKey
            | Inr pubKey \<Rightarrow> Inr \<lparr>bs_Type = PublicKeyScopeType, bs_PublicKey = Some pubKey\<rparr>)
       | None \<Rightarrow> Inl NilOrigin))"

definition OriginClause_ToBiscuit :: "GOriginClause \<Rightarrow> parse_error + BScope list" where
  "OriginClause_ToBiscuit oc = traverse Origin_ToBiscuit oc"

definition Rule_ToBiscuit :: "parse_env \<Rightarrow> GRule \<Rightarrow> parse_error + BRule" where
  "Rule_ToBiscuit pe r =
     bind_res (body_elements pe (gr_Body r) [] []) (\<lambda>(body, expressions).
     bind_res (Predicate_ToBiscuit pe (gr_Head r)) (\<lambda>head.
     bind_res (case gr_Origin r of None \<Rightarrow> Inr [] | Some oc \<Rightarrow> OriginClause_ToBiscuit oc) (\<lambda>origin.
       Inr \<lparr>br_Head = head, br_Body = body, br_Expressions = expressions, br_Scopes = origin\<rparr>)))"

definition CheckQuery_ToBiscuit :: "parse_env \<Rightarrow> GCheckQuery \<Rightarrow> parse_error + BRule" where
  "CheckQuery_ToBiscuit pe r =
     bind_res (body_elements pe r [] []) (\<lambda>(body, expressions).
       Inr \<lparr>br_Head = \<lparr>bp_Name = ''query'', bp_IDs = []\<rparr>, br_Body = body, br_Expressions = expressions,
            br_Scopes = []\<rparr>)"

definition check_alternative :: "GCheck \<Rightarrow> (CheckKind \<times> GAlternative) option" where
  "check_alternative c =
     (case gc_CheckIf c of Some a \<Rightarrow> Some (CheckOne, a) | None \<Rightarrow>
     (case gc_CheckAll c of Some a \<Rightarrow> Some (CheckAll, a) | None \<Rightarrow>
     (case gc_RejectIf c of Some a \<Rightarrow> Some (CheckReject, a) | None \<Rightarrow> None)))"

definition Check_ToBiscuit :: "parse_env \<Rightarrow> GCheck \<Rightarrow> parse_error + BCheck" where
  "Check_ToBiscuit pe c = (case check_alternative c of
     None \<Rightarrow> Inl UnsupportedCheck
   | Some (kind, a) \<Rightarrow>
       bind_res (case alt_Origin a of None \<Rightarrow> Inr None
           | Some oc \<Rightarrow> bind_res (OriginClause_ToBiscuit oc) (\<lambda>scopes. Inr (Some scopes))) (\<lambda>scopes.
       bind_res (traverse (\<lambda>q. bind_res (CheckQuery_ToBiscuit pe q) (\<lambda>r.
           Inr (case scopes of Some ss \<Rightarrow> r\<lparr>br_Scopes := ss\<rparr> | None \<Rightarrow> r))) (alt_Queries a)) (\<lambda>queries.
         Inr \<lparr>bc_Queries = queries, bc_Kind = kind\<rparr>)))"

text \<open>Without an alternative, the kind is the zero value and there are no queries.\<close>

definition policy_alternative :: "GPolicy \<Rightarrow> u8 \<times> GCheckQuery list" where
  "policy_alternative p =
     (case gpol_Allow p of Some qs \<Rightarrow> (PolicyKindAllow, qs) | None \<Rightarrow>
     (case gpol_Deny p of Some qs \<Rightarrow> (PolicyKindDeny, qs) | None \<Rightarrow> (0, [])))"

definition Policy_ToBiscuit :: "parse_env \<Rightarrow> GPolicy \<Rightarrow> parse_error + Policy" where
  "Policy_ToBiscuit pe p =
     (let (kind, parsedQueries) = policy_alternative p in
      bind_res (traverse (CheckQuery_ToBiscuit pe) parsedQueries) (\<lambda>queries.
        Inr \<lparr>pol_Queries = queries, pol_Kind = kind\<rparr>))"

section \<open>Blocks and authorizers\<close>

definition empty_ParsedBlock :: "parse_env \<Rightarrow> ParsedBlock" where
  "empty_ParsedBlock pe = \<lparr>pb_Facts = NewBFactSet (pe_runtime pe) [], pb_Rules = [], pb_Checks = [], pb_Scope = []\<rparr>"

text \<open>
  An element of a block is a check, a predicate with a body, or a fact. The grammar has no
  scopes here: the rule that is translated has no origin.
\<close>

definition BlockElement_ToBiscuit :: "parse_env \<Rightarrow> GBlockElement \<Rightarrow> ParsedBlock \<Rightarrow> parse_error + ParsedBlock" where
  "BlockElement_ToBiscuit pe e b = (case be_Check e of
     Some check \<Rightarrow> bind_res (Check_ToBiscuit pe check) (\<lambda>c. Inr (b\<lparr>pb_Checks := pb_Checks b @ [c]\<rparr>))
   | None \<Rightarrow> (case (be_Predicate e, be_RuleBody e) of
        (Some p, Some body) \<Rightarrow>
          bind_res (Rule_ToBiscuit pe \<lparr>gr_Head = p, gr_Body = body, gr_Origin = None\<rparr>)
            (\<lambda>r. Inr (b\<lparr>pb_Rules := pb_Rules b @ [r]\<rparr>))
      | (Some p, None) \<Rightarrow>
          bind_res (Predicate_ToBiscuit pe p) (\<lambda>fact.
            Inr (b\<lparr>pb_Facts := snd (HashSet_Insert (bfact_hash (pe_runtime pe)) BFact_Equal (pb_Facts b) fact)\<rparr>))
      | (None, _) \<Rightarrow> Inl ParserPanic))"

fun block_elements :: "parse_env \<Rightarrow> GBlock \<Rightarrow> ParsedBlock \<Rightarrow> parse_error + ParsedBlock" where
  "block_elements pe [] b = Inr b"
| "block_elements pe (e # es) b = bind_res (BlockElement_ToBiscuit pe e b) (block_elements pe es)"

definition Block_ToBiscuit :: "parse_env \<Rightarrow> GBlock \<Rightarrow> parse_error + ParsedBlock" where
  "Block_ToBiscuit pe b = block_elements pe b (empty_ParsedBlock pe)"

fun authorizer_elements :: "parse_env \<Rightarrow> GAuthorizer \<Rightarrow> ParsedAuthorizer \<Rightarrow> parse_error + ParsedAuthorizer" where
  "authorizer_elements pe [] a = Inr a"
| "authorizer_elements pe (e # es) a = (case ae_BlockElement e of
     Some be \<Rightarrow> bind_res (BlockElement_ToBiscuit pe be (pa_Block a)) (\<lambda>b. authorizer_elements pe es (a\<lparr>pa_Block := b\<rparr>))
   | None \<Rightarrow> (case ae_Policy e of
        Some policy \<Rightarrow> bind_res (Policy_ToBiscuit pe policy) (\<lambda>p.
          authorizer_elements pe es (a\<lparr>pa_Policies := pa_Policies a @ [p]\<rparr>))
      | None \<Rightarrow> authorizer_elements pe es a))"

definition Authorizer_ToBiscuit :: "parse_env \<Rightarrow> GAuthorizer \<Rightarrow> parse_error + ParsedAuthorizer" where
  "Authorizer_ToBiscuit pe a = authorizer_elements pe a \<lparr>pa_Policies = [], pa_Block = empty_ParsedBlock pe\<rparr>"

section \<open>parser.go\<close>

text \<open>The parsers that participle builds from the grammar; \<open>None\<close> is a syntax error.\<close>

record parser =
  factParser :: "string \<Rightarrow> GPredicate option"
  ruleParser :: "string \<Rightarrow> GRule option"
  checkParser :: "string \<Rightarrow> GCheck option"
  policyParser :: "string \<Rightarrow> GPolicy option"
  blockParser :: "string \<Rightarrow> GBlock option"
  authorizerParser :: "string \<Rightarrow> GAuthorizer option"

definition parse_string :: "(string \<Rightarrow> 'a option) \<Rightarrow> string \<Rightarrow> parse_error + 'a" where
  "parse_string p s = (case p s of None \<Rightarrow> Inl ErrSyntax | Some x \<Rightarrow> Inr x)"

definition parser_Fact :: "parser \<Rightarrow> parse_env \<Rightarrow> string \<Rightarrow> parse_error + BFact" where
  "parser_Fact p pe input =
     bind_res (parse_string (factParser p) input) (\<lambda>parsed.
     bind_res (Predicate_ToBiscuit pe parsed) (\<lambda>pred.
       if list_ex (\<lambda>a. BTerm_Type a = BTermTypeVariable) (bp_IDs pred) then Inl ErrVariableInFact
       else Inr pred))"

definition parser_Rule :: "parser \<Rightarrow> parse_env \<Rightarrow> string \<Rightarrow> parse_error + BRule" where
  "parser_Rule p pe rule = bind_res (parse_string (ruleParser p) rule) (Rule_ToBiscuit pe)"

definition parser_Check :: "parser \<Rightarrow> parse_env \<Rightarrow> string \<Rightarrow> parse_error + BCheck" where
  "parser_Check p pe check = bind_res (parse_string (checkParser p) check) (Check_ToBiscuit pe)"

text \<open>\<^verbatim>\<open>parser.Policy\<close> repeats the body of \<^verbatim>\<open>Policy.ToBiscuit\<close> instead of calling it.\<close>

definition parser_Policy :: "parser \<Rightarrow> parse_env \<Rightarrow> string \<Rightarrow> parse_error + Policy" where
  "parser_Policy p pe policy =
     bind_res (parse_string (policyParser p) policy) (\<lambda>parsed.
       let (kind, parsedQueries) = policy_alternative parsed in
       bind_res (traverse (CheckQuery_ToBiscuit pe) parsedQueries) (\<lambda>queries.
         Inr \<lparr>pol_Queries = queries, pol_Kind = kind\<rparr>))"

definition parser_Block :: "parser \<Rightarrow> parse_env \<Rightarrow> string \<Rightarrow> parse_error + ParsedBlock" where
  "parser_Block p pe block = bind_res (parse_string (blockParser p) block) (Block_ToBiscuit pe)"

definition parser_Authorizer :: "parser \<Rightarrow> parse_env \<Rightarrow> string \<Rightarrow> parse_error + ParsedAuthorizer" where
  "parser_Authorizer p pe authorizer = bind_res (parse_string (authorizerParser p) authorizer) (Authorizer_ToBiscuit pe)"

text \<open>The parser whose methods panic on an error.\<close>

definition must :: "parse_error + 'a \<Rightarrow> 'a option" where
  "must r = (case r of Inl _ \<Rightarrow> None | Inr x \<Rightarrow> Some x)"

definition mustParser_Fact :: "parser \<Rightarrow> parse_env \<Rightarrow> string \<Rightarrow> BFact option" where
  "mustParser_Fact p pe input = must (parser_Fact p pe input)"

definition mustParser_Rule :: "parser \<Rightarrow> parse_env \<Rightarrow> string \<Rightarrow> BRule option" where
  "mustParser_Rule p pe rule = must (parser_Rule p pe rule)"

definition mustParser_Check :: "parser \<Rightarrow> parse_env \<Rightarrow> string \<Rightarrow> BCheck option" where
  "mustParser_Check p pe check = must (parser_Check p pe check)"

definition mustParser_Policy :: "parser \<Rightarrow> parse_env \<Rightarrow> string \<Rightarrow> Policy option" where
  "mustParser_Policy p pe policy = must (parser_Policy p pe policy)"

definition mustParser_Block :: "parser \<Rightarrow> parse_env \<Rightarrow> string \<Rightarrow> ParsedBlock option" where
  "mustParser_Block p pe block = must (parser_Block p pe block)"

definition mustParser_Authorizer :: "parser \<Rightarrow> parse_env \<Rightarrow> string \<Rightarrow> ParsedAuthorizer option" where
  "mustParser_Authorizer p pe authorizer = must (parser_Authorizer p pe authorizer)"

text \<open>The package functions make a parser for every call.\<close>

definition FromStringFactWithParams :: "parser \<Rightarrow> parse_env \<Rightarrow> string \<Rightarrow> ParametersMap \<Rightarrow> parse_error + BFact" where
  "FromStringFactWithParams p pe input parameters = parser_Fact p (pe\<lparr>pe_parameters := parameters\<rparr>) input"

definition FromStringRuleWithParams :: "parser \<Rightarrow> parse_env \<Rightarrow> string \<Rightarrow> ParametersMap \<Rightarrow> parse_error + BRule" where
  "FromStringRuleWithParams p pe input parameters = parser_Rule p (pe\<lparr>pe_parameters := parameters\<rparr>) input"

definition FromStringCheckWithParams :: "parser \<Rightarrow> parse_env \<Rightarrow> string \<Rightarrow> ParametersMap \<Rightarrow> parse_error + BCheck" where
  "FromStringCheckWithParams p pe input parameters = parser_Check p (pe\<lparr>pe_parameters := parameters\<rparr>) input"

definition FromStringPolicyWithParams :: "parser \<Rightarrow> parse_env \<Rightarrow> string \<Rightarrow> ParametersMap \<Rightarrow> parse_error + Policy" where
  "FromStringPolicyWithParams p pe input parameters = parser_Policy p (pe\<lparr>pe_parameters := parameters\<rparr>) input"

definition FromStringBlockWithParams :: "parser \<Rightarrow> parse_env \<Rightarrow> string \<Rightarrow> ParametersMap \<Rightarrow> parse_error + ParsedBlock" where
  "FromStringBlockWithParams p pe input parameters = parser_Block p (pe\<lparr>pe_parameters := parameters\<rparr>) input"

definition FromStringAuthorizerWithParams :: "parser \<Rightarrow> parse_env \<Rightarrow> string \<Rightarrow> ParametersMap \<Rightarrow> parse_error + ParsedAuthorizer" where
  "FromStringAuthorizerWithParams p pe input parameters = parser_Authorizer p (pe\<lparr>pe_parameters := parameters\<rparr>) input"

definition FromStringFact :: "parser \<Rightarrow> parse_env \<Rightarrow> string \<Rightarrow> parse_error + BFact" where
  "FromStringFact p pe input = FromStringFactWithParams p pe input Map.empty"

definition FromStringRule :: "parser \<Rightarrow> parse_env \<Rightarrow> string \<Rightarrow> parse_error + BRule" where
  "FromStringRule p pe input = FromStringRuleWithParams p pe input Map.empty"

definition FromStringCheck :: "parser \<Rightarrow> parse_env \<Rightarrow> string \<Rightarrow> parse_error + BCheck" where
  "FromStringCheck p pe input = FromStringCheckWithParams p pe input Map.empty"

definition FromStringPolicy :: "parser \<Rightarrow> parse_env \<Rightarrow> string \<Rightarrow> parse_error + Policy" where
  "FromStringPolicy p pe input = FromStringPolicyWithParams p pe input Map.empty"

definition FromStringBlock :: "parser \<Rightarrow> parse_env \<Rightarrow> string \<Rightarrow> parse_error + ParsedBlock" where
  "FromStringBlock p pe input = FromStringBlockWithParams p pe input Map.empty"

definition FromStringAuthorizer :: "parser \<Rightarrow> parse_env \<Rightarrow> string \<Rightarrow> parse_error + ParsedAuthorizer" where
  "FromStringAuthorizer p pe input = FromStringAuthorizerWithParams p pe input Map.empty"

end
