(* ===== verification/Parsing.thy ===== *)
theory Parsing
  imports Grammar
begin

text \<open>
  What the parser promises. An expression of the text format denotes a tree, fixed by the
  levels of the grammar; its translation is the postfix program of that tree, which survives
  the conversion to datalog, is evaluated as the tree, and is printed as it was written.
\<close>

section \<open>The tree and the text of an expression\<close>

datatype etree = ELeaf BTerm | EUnary UnaryOpFunc etree | EBinary BinaryOpFunc etree etree

fun ecompile :: "etree \<Rightarrow> BExpression" where
  "ecompile (ELeaf t) = [BValue t]"
| "ecompile (EUnary f a) = ecompile a @ [BUnaryOp (fromDatalogUnaryOp f)]"
| "ecompile (EBinary f a b) = ecompile a @ ecompile b @ [BBinaryOp (fromDatalogBinaryOp f)]"

fun edepth :: "etree \<Rightarrow> nat" where
  "edepth (ELeaf t) = 1"
| "edepth (EUnary f a) = edepth a"
| "edepth (EBinary f a b) = max (edepth a) (Suc (edepth b))"

fun etree_plain :: "etree \<Rightarrow> bool" where
  "etree_plain (ELeaf t) = bterm_plain t"
| "etree_plain (EUnary f a) = etree_plain a"
| "etree_plain (EBinary f a b) \<longleftrightarrow> etree_plain a \<and> etree_plain b"

fun etree_text :: "runtime \<Rightarrow> etree \<Rightarrow> string" where
  "etree_text rt (ELeaf t) = BTerm_String rt t"
| "etree_text rt (EUnary f a) = UnaryOp_Print f (etree_text rt a)"
| "etree_text rt (EBinary f a b) = BinaryOp_Print f (etree_text rt a) (etree_text rt b)"

text \<open>
  The tree of a struct of the grammar: operators of one level associate to the left. There is
  none for what the grammar accepts although it denotes nothing: an operator without meaning,
  \<open>()\<close>, a method without its argument, \<^verbatim>\<open>length\<close> with one, a term that has no value.
\<close>

definition infix_tree :: "Operator list \<Rightarrow> Operator \<Rightarrow> etree option \<Rightarrow> etree option \<Rightarrow> etree option" where
  "infix_tree level op l r = (if op \<in> set level then (case (binary_op op, l, r) of
     (Some f, Some a, Some b) \<Rightarrow> Some (EBinary f a b) | _ \<Rightarrow> None) else None)"

fun ExprTerm_tree :: "parse_env \<Rightarrow> etree option ExprTerm \<Rightarrow> etree option" where
  "ExprTerm_tree pe (ExprTerm (Some term) _) = (case Term_ToBiscuit pe term of Inl _ \<Rightarrow> None | Inr t \<Rightarrow> Some (ELeaf t))"
| "ExprTerm_tree pe (ExprTerm None (Some e)) = map_option (EUnary Parens) e"
| "ExprTerm_tree pe (ExprTerm None None) = None"

fun OpExpr7_tree :: "etree option \<Rightarrow> etree option OpExpr7 \<Rightarrow> etree option" where
  "OpExpr7_tree l (OpExpr7 op (Some r)) =
     infix_tree [OpMatches, OpPrefix, OpSuffix, OpContains, OpUnion, OpIntersection] op l r"
| "OpExpr7_tree l (OpExpr7 op None) = (if op = OpLength then map_option (EUnary Length) l else None)"

fun Expr6_tree :: "parse_env \<Rightarrow> etree option Expr6 \<Rightarrow> etree option" where
  "Expr6_tree pe (Expr6 left right) = foldl OpExpr7_tree (ExprTerm_tree pe left) right"

fun Expr5_tree :: "parse_env \<Rightarrow> etree option Expr5 \<Rightarrow> etree option" where
  "Expr5_tree pe (Expr5 None e) = Expr6_tree pe e"
| "Expr5_tree pe (Expr5 (Some op) e) = (if op = OpNegate then map_option (EUnary Negate) (Expr6_tree pe e) else None)"

fun OpExpr5_tree :: "parse_env \<Rightarrow> etree option \<Rightarrow> etree option OpExpr5 \<Rightarrow> etree option" where
  "OpExpr5_tree pe l (OpExpr5 op e) = infix_tree [OpMul, OpDiv] op l (Expr5_tree pe e)"

fun Expr4_tree :: "parse_env \<Rightarrow> etree option Expr4 \<Rightarrow> etree option" where
  "Expr4_tree pe (Expr4 left right) = foldl (OpExpr5_tree pe) (Expr5_tree pe left) right"

fun OpExpr4_tree :: "parse_env \<Rightarrow> etree option \<Rightarrow> etree option OpExpr4 \<Rightarrow> etree option" where
  "OpExpr4_tree pe l (OpExpr4 op e) = infix_tree [OpAdd, OpSub] op l (Expr4_tree pe e)"

fun Expr3_tree :: "parse_env \<Rightarrow> etree option Expr3 \<Rightarrow> etree option" where
  "Expr3_tree pe (Expr3 left right) = foldl (OpExpr4_tree pe) (Expr4_tree pe left) right"

definition comparison_operators :: "Operator list" where
  "comparison_operators = [OpLessOrEqual, OpGreaterOrEqual, OpLessThan, OpGreaterThan,
     OpHeterogeneousEqual, OpHeterogeneousNotEqual, OpEqual, OpNotEqual]"

fun OpExpr3_tree :: "parse_env \<Rightarrow> etree option \<Rightarrow> etree option OpExpr3 \<Rightarrow> etree option" where
  "OpExpr3_tree pe l (OpExpr3 op e) = infix_tree comparison_operators op l (Expr3_tree pe e)"

fun Expr2_tree :: "parse_env \<Rightarrow> etree option Expr2 \<Rightarrow> etree option" where
  "Expr2_tree pe (Expr2 left None) = Expr3_tree pe left"
| "Expr2_tree pe (Expr2 left (Some op)) = OpExpr3_tree pe (Expr3_tree pe left) op"

fun OpExpr2_tree :: "parse_env \<Rightarrow> etree option \<Rightarrow> etree option OpExpr2 \<Rightarrow> etree option" where
  "OpExpr2_tree pe l (OpExpr2 op e) = infix_tree [OpAnd] op l (Expr2_tree pe e)"

fun Expr1_tree :: "parse_env \<Rightarrow> etree option Expr1 \<Rightarrow> etree option" where
  "Expr1_tree pe (Expr1 left right) = foldl (OpExpr2_tree pe) (Expr2_tree pe left) right"

fun OpExpr1_tree :: "parse_env \<Rightarrow> etree option \<Rightarrow> etree option OpExpr1 \<Rightarrow> etree option" where
  "OpExpr1_tree pe l (OpExpr1 op e) = infix_tree [OpOr] op l (Expr1_tree pe e)"

primrec Expression_tree :: "parse_env \<Rightarrow> GExpression \<Rightarrow> etree option" where
  "Expression_tree pe (GExpression left right) =
     foldl (OpExpr1_tree pe) (Expr1_tree pe (map_Expr1 (Expression_tree pe) left))
       (map (map_OpExpr1 (Expression_tree pe)) right)"

text \<open>
  The text that is parsed to a struct, with single spaces; a term is written as the value it
  has, and an operator as \<open>operatorMap\<close> has it.
\<close>

definition op_text :: "Operator \<Rightarrow> string" where
  "op_text op = (case filter (\<lambda>(_, x). x = op) operatorMap of (s, _) # _ \<Rightarrow> s | [] \<Rightarrow> [])"

definition infix_text :: "Operator \<Rightarrow> string \<Rightarrow> string" where
  "infix_text op s = '' '' @ op_text op @ '' '' @ s"

fun ExprTerm_text :: "parse_env \<Rightarrow> string ExprTerm \<Rightarrow> string" where
  "ExprTerm_text pe (ExprTerm (Some term) _) =
     (case Term_ToBiscuit pe term of Inl _ \<Rightarrow> [] | Inr t \<Rightarrow> BTerm_String (pe_runtime pe) t)"
| "ExprTerm_text pe (ExprTerm None e) = ''('' @ (case e of Some s \<Rightarrow> s | None \<Rightarrow> []) @ '')''"

fun OpExpr7_text :: "string OpExpr7 \<Rightarrow> string" where
  "OpExpr7_text (OpExpr7 op e) = ''.'' @ op_text op @ ''('' @ (case e of Some s \<Rightarrow> s | None \<Rightarrow> []) @ '')''"

fun Expr6_text :: "parse_env \<Rightarrow> string Expr6 \<Rightarrow> string" where
  "Expr6_text pe (Expr6 left right) = ExprTerm_text pe left @ concat (map OpExpr7_text right)"

fun Expr5_text :: "parse_env \<Rightarrow> string Expr5 \<Rightarrow> string" where
  "Expr5_text pe (Expr5 op e) = (case op of Some op \<Rightarrow> op_text op | None \<Rightarrow> []) @ Expr6_text pe e"

fun OpExpr5_text :: "parse_env \<Rightarrow> string OpExpr5 \<Rightarrow> string" where
  "OpExpr5_text pe (OpExpr5 op e) = infix_text op (Expr5_text pe e)"

fun Expr4_text :: "parse_env \<Rightarrow> string Expr4 \<Rightarrow> string" where
  "Expr4_text pe (Expr4 left right) = Expr5_text pe left @ concat (map (OpExpr5_text pe) right)"

fun OpExpr4_text :: "parse_env \<Rightarrow> string OpExpr4 \<Rightarrow> string" where
  "OpExpr4_text pe (OpExpr4 op e) = infix_text op (Expr4_text pe e)"

fun Expr3_text :: "parse_env \<Rightarrow> string Expr3 \<Rightarrow> string" where
  "Expr3_text pe (Expr3 left right) = Expr4_text pe left @ concat (map (OpExpr4_text pe) right)"

fun OpExpr3_text :: "parse_env \<Rightarrow> string OpExpr3 \<Rightarrow> string" where
  "OpExpr3_text pe (OpExpr3 op e) = infix_text op (Expr3_text pe e)"

fun Expr2_text :: "parse_env \<Rightarrow> string Expr2 \<Rightarrow> string" where
  "Expr2_text pe (Expr2 left right) = Expr3_text pe left @ (case right of Some op \<Rightarrow> OpExpr3_text pe op | None \<Rightarrow> [])"

fun OpExpr2_text :: "parse_env \<Rightarrow> string OpExpr2 \<Rightarrow> string" where
  "OpExpr2_text pe (OpExpr2 op e) = infix_text op (Expr2_text pe e)"

fun Expr1_text :: "parse_env \<Rightarrow> string Expr1 \<Rightarrow> string" where
  "Expr1_text pe (Expr1 left right) = Expr2_text pe left @ concat (map (OpExpr2_text pe) right)"

fun OpExpr1_text :: "parse_env \<Rightarrow> string OpExpr1 \<Rightarrow> string" where
  "OpExpr1_text pe (OpExpr1 op e) = infix_text op (Expr1_text pe e)"

primrec Expression_text :: "parse_env \<Rightarrow> GExpression \<Rightarrow> string" where
  "Expression_text pe (GExpression left right) =
     Expr1_text pe (map_Expr1 (Expression_text pe) left) @
     concat (map (OpExpr1_text pe) (map (map_OpExpr1 (Expression_text pe)) right))"

section \<open>The translation follows the tree\<close>

definition translates :: "runtime \<Rightarrow> to_expr \<Rightarrow> string \<Rightarrow> etree option \<Rightarrow> bool" where
  "translates rt f s t \<longleftrightarrow> (\<forall>e. t = Some e \<longrightarrow> (\<forall>expr. f expr = expr @ ecompile e) \<and> etree_text rt e = s)"

lemma translates_None [simp]: "translates rt f s None"
  by (simp add: translates_def)

lemma translates_fold:
  assumes "translates rt f s t"
    and step: "\<And>op f s t. op \<in> set ops \<Longrightarrow> translates rt f s t \<Longrightarrow> translates rt (\<lambda>expr. A op (f expr)) (s @ B op) (C t op)"
  shows "translates rt (\<lambda>expr. fold A ops (f expr)) (s @ concat (map B ops)) (foldl C t ops)"
  using assms
proof (induction ops arbitrary: f s t)
  case (Cons op ops)
  have "translates rt (\<lambda>expr. A op (f expr)) (s @ B op) (C t op)" by (rule Cons.prems(2)) (simp_all add: Cons.prems(1))
  from Cons.IH[OF this] Cons.prems(2) show ?case by simp
qed simp

lemma infix_operators:
  assumes "op \<in> {OpOr, OpAnd, OpMul, OpDiv, OpAdd, OpSub} \<union> set comparison_operators" "binary_op op = Some f"
  shows "BinaryOp_Print f a b = a @ infix_text op b"
  using assms by (cases op) (auto simp: comparison_operators_def infix_text_def op_text_def operatorMap_def)

lemma method_operators:
  assumes "op \<in> {OpMatches, OpPrefix, OpSuffix, OpContains, OpUnion, OpIntersection}" "binary_op op = Some f"
  shows "BinaryOp_Print f a b = a @ ''.'' @ op_text op @ ''('' @ b @ '')''"
  using assms by (cases op) (auto simp: op_text_def operatorMap_def)

lemma infix_translates:
  assumes "translates rt f s t" "translates rt g u v"
    and "\<And>op f a b. op \<in> set level \<Longrightarrow> binary_op op = Some f \<Longrightarrow> BinaryOp_Print f a b = a @ render op b"
  shows "translates rt (\<lambda>expr. Operator_ToExpr op (g (f expr))) (s @ render op u) (infix_tree level op t v)"
proof (cases "infix_tree level op t v")
  case (Some e)
  then obtain b l r where e: "op \<in> set level" "binary_op op = Some b" "t = Some l" "v = Some r" "e = EBinary b l r"
    by (auto simp: infix_tree_def split: if_splits option.splits)
  have "op \<noteq> OpLength" using e(2) by auto
  then show ?thesis using assms(1,2) assms(3)[OF e(1,2)] e unfolding Some
    by (simp add: translates_def Operator_ToExpr_def)
qed simp

lemma operator_translates:
  assumes "translates rt f s t" "translates rt g u v"
    and "set level \<subseteq> {OpOr, OpAnd, OpMul, OpDiv, OpAdd, OpSub} \<union> set comparison_operators"
  shows "translates rt (\<lambda>expr. Operator_ToExpr op (g (f expr))) (s @ infix_text op u) (infix_tree level op t v)"
  by (rule infix_translates[OF assms(1,2)]) (use assms(3) infix_operators in blast)

text \<open>The levels, provided that the expressions inside are translated.\<close>

definition inside :: "'e set \<Rightarrow> parse_env \<Rightarrow> ('e \<Rightarrow> to_expr) \<Rightarrow> ('e \<Rightarrow> string) \<Rightarrow> ('e \<Rightarrow> etree option) \<Rightarrow> bool" where
  "inside E pe F S T \<longleftrightarrow> (\<forall>e \<in> E. translates (pe_runtime pe) (F e) (S e) (T e))"

lemma inside_subset: "inside E pe F S T \<Longrightarrow> D \<subseteq> E \<Longrightarrow> inside D pe F S T"
  by (auto simp: inside_def)

lemma ExprTerm_translates:
  assumes "inside (set_ExprTerm x) pe F S T"
  shows "translates (pe_runtime pe) (ExprTerm_ToExpr pe (map_ExprTerm F x)) (ExprTerm_text pe (map_ExprTerm S x))
     (ExprTerm_tree pe (map_ExprTerm T x))"
proof (cases x)
  case (ExprTerm t e)
  then show ?thesis using assms by (cases t; cases e) (auto simp: translates_def inside_def split: sum.splits)
qed

lemma OpExpr7_translates:
  assumes "inside (set_OpExpr7 x) pe F S T" "translates (pe_runtime pe) f s t"
  shows "translates (pe_runtime pe) (\<lambda>expr. OpExpr7_ToExpr (map_OpExpr7 F x) (f expr)) (s @ OpExpr7_text (map_OpExpr7 S x))
     (OpExpr7_tree t (map_OpExpr7 T x))"
proof (cases x)
  case (OpExpr7 op e)
  show ?thesis
  proof (cases e)
    case None
    then show ?thesis using OpExpr7 assms(2)
      by (auto simp: translates_def Operator_ToExpr_def op_text_def operatorMap_def)
  next
    case (Some y)
    let ?methods = "[OpMatches, OpPrefix, OpSuffix, OpContains, OpUnion, OpIntersection]"
    have "translates (pe_runtime pe) (F y) (S y) (T y)" using assms(1) OpExpr7 Some by (simp add: inside_def)
    from infix_translates[OF assms(2) this, where level = ?methods and
        render = "\<lambda>op b. ''.'' @ op_text op @ ''('' @ b @ '')''" and op = op] method_operators
    show ?thesis by (simp add: OpExpr7 Some)
  qed
qed

lemma Expr6_translates:
  assumes "inside (set_Expr6 x) pe F S T"
  shows "translates (pe_runtime pe) (Expr6_ToExpr pe (map_Expr6 F x)) (Expr6_text pe (map_Expr6 S x))
     (Expr6_tree pe (map_Expr6 T x))"
proof (cases x)
  case (Expr6 left right)
  have "translates (pe_runtime pe)
      (\<lambda>expr. fold OpExpr7_ToExpr (map (map_OpExpr7 F) right) (ExprTerm_ToExpr pe (map_ExprTerm F left) expr))
      (ExprTerm_text pe (map_ExprTerm S left) @ concat (map OpExpr7_text (map (map_OpExpr7 S) right)))
      (foldl OpExpr7_tree (ExprTerm_tree pe (map_ExprTerm T left)) (map (map_OpExpr7 T) right))"
    unfolding fold_map foldl_map map_map comp_def
    by (intro translates_fold ExprTerm_translates OpExpr7_translates) (use assms Expr6 in \<open>auto simp: inside_def\<close>)
  then show ?thesis by (simp add: Expr6 translates_def)
qed

lemma Expr5_translates:
  assumes "inside (set_Expr5 x) pe F S T"
  shows "translates (pe_runtime pe) (Expr5_ToExpr pe (map_Expr5 F x)) (Expr5_text pe (map_Expr5 S x))
     (Expr5_tree pe (map_Expr5 T x))"
proof (cases x)
  case (Expr5 op e)
  have "translates (pe_runtime pe) (Expr6_ToExpr pe (map_Expr6 F e)) (Expr6_text pe (map_Expr6 S e))
      (Expr6_tree pe (map_Expr6 T e))"
    by (rule Expr6_translates) (use assms Expr5 in simp)
  then show ?thesis
    by (cases op) (auto simp: Expr5 translates_def op_text_def operatorMap_def)
qed

lemma OpExpr5_translates:
  assumes "inside (set_OpExpr5 x) pe F S T" "translates (pe_runtime pe) f s t"
  shows "translates (pe_runtime pe) (\<lambda>expr. OpExpr5_ToExpr pe (map_OpExpr5 F x) (f expr))
     (s @ OpExpr5_text pe (map_OpExpr5 S x)) (OpExpr5_tree pe t (map_OpExpr5 T x))"
proof (cases x)
  case (OpExpr5 op e)
  have "translates (pe_runtime pe) (Expr5_ToExpr pe (map_Expr5 F e)) (Expr5_text pe (map_Expr5 S e))
      (Expr5_tree pe (map_Expr5 T e))"
    by (rule Expr5_translates) (use assms(1) OpExpr5 in simp)
  from operator_translates[OF assms(2) this, of "[OpMul, OpDiv]" op] show ?thesis
    by (simp add: OpExpr5)
qed

lemma Expr4_translates:
  assumes "inside (set_Expr4 x) pe F S T"
  shows "translates (pe_runtime pe) (Expr4_ToExpr pe (map_Expr4 F x)) (Expr4_text pe (map_Expr4 S x))
     (Expr4_tree pe (map_Expr4 T x))"
proof (cases x)
  case (Expr4 left right)
  have "translates (pe_runtime pe)
      (\<lambda>expr. fold (OpExpr5_ToExpr pe) (map (map_OpExpr5 F) right) (Expr5_ToExpr pe (map_Expr5 F left) expr))
      (Expr5_text pe (map_Expr5 S left) @ concat (map (OpExpr5_text pe) (map (map_OpExpr5 S) right)))
      (foldl (OpExpr5_tree pe) (Expr5_tree pe (map_Expr5 T left)) (map (map_OpExpr5 T) right))"
    unfolding fold_map foldl_map map_map comp_def
    by (intro translates_fold Expr5_translates OpExpr5_translates) (use assms Expr4 in \<open>auto simp: inside_def\<close>)
  then show ?thesis by (simp add: Expr4 translates_def)
qed

lemma OpExpr4_translates:
  assumes "inside (set_OpExpr4 x) pe F S T" "translates (pe_runtime pe) f s t"
  shows "translates (pe_runtime pe) (\<lambda>expr. OpExpr4_ToExpr pe (map_OpExpr4 F x) (f expr))
     (s @ OpExpr4_text pe (map_OpExpr4 S x)) (OpExpr4_tree pe t (map_OpExpr4 T x))"
proof (cases x)
  case (OpExpr4 op e)
  have "translates (pe_runtime pe) (Expr4_ToExpr pe (map_Expr4 F e)) (Expr4_text pe (map_Expr4 S e))
      (Expr4_tree pe (map_Expr4 T e))"
    by (rule Expr4_translates) (use assms(1) OpExpr4 in simp)
  from operator_translates[OF assms(2) this, of "[OpAdd, OpSub]" op] show ?thesis
    by (simp add: OpExpr4)
qed

lemma Expr3_translates:
  assumes "inside (set_Expr3 x) pe F S T"
  shows "translates (pe_runtime pe) (Expr3_ToExpr pe (map_Expr3 F x)) (Expr3_text pe (map_Expr3 S x))
     (Expr3_tree pe (map_Expr3 T x))"
proof (cases x)
  case (Expr3 left right)
  have "translates (pe_runtime pe)
      (\<lambda>expr. fold (OpExpr4_ToExpr pe) (map (map_OpExpr4 F) right) (Expr4_ToExpr pe (map_Expr4 F left) expr))
      (Expr4_text pe (map_Expr4 S left) @ concat (map (OpExpr4_text pe) (map (map_OpExpr4 S) right)))
      (foldl (OpExpr4_tree pe) (Expr4_tree pe (map_Expr4 T left)) (map (map_OpExpr4 T) right))"
    unfolding fold_map foldl_map map_map comp_def
    by (intro translates_fold Expr4_translates OpExpr4_translates) (use assms Expr3 in \<open>auto simp: inside_def\<close>)
  then show ?thesis by (simp add: Expr3 translates_def)
qed

lemma OpExpr3_translates:
  assumes "inside (set_OpExpr3 x) pe F S T" "translates (pe_runtime pe) f s t"
  shows "translates (pe_runtime pe) (\<lambda>expr. OpExpr3_ToExpr pe (map_OpExpr3 F x) (f expr))
     (s @ OpExpr3_text pe (map_OpExpr3 S x)) (OpExpr3_tree pe t (map_OpExpr3 T x))"
proof (cases x)
  case (OpExpr3 op e)
  have "translates (pe_runtime pe) (Expr3_ToExpr pe (map_Expr3 F e)) (Expr3_text pe (map_Expr3 S e))
      (Expr3_tree pe (map_Expr3 T e))"
    by (rule Expr3_translates) (use assms(1) OpExpr3 in simp)
  from operator_translates[OF assms(2) this, of comparison_operators op] show ?thesis
    by (auto simp: OpExpr3)
qed

lemma Expr2_translates:
  assumes "inside (set_Expr2 x) pe F S T"
  shows "translates (pe_runtime pe) (Expr2_ToExpr pe (map_Expr2 F x)) (Expr2_text pe (map_Expr2 S x))
     (Expr2_tree pe (map_Expr2 T x))"
proof (cases x)
  case (Expr2 left right)
  have l: "translates (pe_runtime pe) (Expr3_ToExpr pe (map_Expr3 F left)) (Expr3_text pe (map_Expr3 S left))
      (Expr3_tree pe (map_Expr3 T left))"
    by (rule Expr3_translates) (use assms Expr2 in \<open>auto simp: inside_def\<close>)
  show ?thesis
  proof (cases right)
    case (Some op)
    have "inside (set_OpExpr3 op) pe F S T" using assms Expr2 Some by (auto simp: inside_def)
    from OpExpr3_translates[OF this l] show ?thesis by (simp add: Expr2 Some translates_def)
  qed (use l in \<open>simp add: Expr2 translates_def\<close>)
qed

lemma OpExpr2_translates:
  assumes "inside (set_OpExpr2 x) pe F S T" "translates (pe_runtime pe) f s t"
  shows "translates (pe_runtime pe) (\<lambda>expr. OpExpr2_ToExpr pe (map_OpExpr2 F x) (f expr))
     (s @ OpExpr2_text pe (map_OpExpr2 S x)) (OpExpr2_tree pe t (map_OpExpr2 T x))"
proof (cases x)
  case (OpExpr2 op e)
  have "translates (pe_runtime pe) (Expr2_ToExpr pe (map_Expr2 F e)) (Expr2_text pe (map_Expr2 S e))
      (Expr2_tree pe (map_Expr2 T e))"
    by (rule Expr2_translates) (use assms(1) OpExpr2 in simp)
  from operator_translates[OF assms(2) this, of "[OpAnd]" op] show ?thesis
    by (simp add: OpExpr2)
qed

lemma Expr1_translates:
  assumes "inside (set_Expr1 x) pe F S T"
  shows "translates (pe_runtime pe) (Expr1_ToExpr pe (map_Expr1 F x)) (Expr1_text pe (map_Expr1 S x))
     (Expr1_tree pe (map_Expr1 T x))"
proof (cases x)
  case (Expr1 left right)
  have "translates (pe_runtime pe)
      (\<lambda>expr. fold (OpExpr2_ToExpr pe) (map (map_OpExpr2 F) right) (Expr2_ToExpr pe (map_Expr2 F left) expr))
      (Expr2_text pe (map_Expr2 S left) @ concat (map (OpExpr2_text pe) (map (map_OpExpr2 S) right)))
      (foldl (OpExpr2_tree pe) (Expr2_tree pe (map_Expr2 T left)) (map (map_OpExpr2 T) right))"
    unfolding fold_map foldl_map map_map comp_def
    by (intro translates_fold Expr2_translates OpExpr2_translates) (use assms Expr1 in \<open>auto simp: inside_def\<close>)
  then show ?thesis by (simp add: Expr1 translates_def)
qed

lemma OpExpr1_translates:
  assumes "inside (set_OpExpr1 x) pe F S T" "translates (pe_runtime pe) f s t"
  shows "translates (pe_runtime pe) (\<lambda>expr. OpExpr1_ToExpr pe (map_OpExpr1 F x) (f expr))
     (s @ OpExpr1_text pe (map_OpExpr1 S x)) (OpExpr1_tree pe t (map_OpExpr1 T x))"
proof (cases x)
  case (OpExpr1 op e)
  have "translates (pe_runtime pe) (Expr1_ToExpr pe (map_Expr1 F e)) (Expr1_text pe (map_Expr1 S e))
      (Expr1_tree pe (map_Expr1 T e))"
    by (rule Expr1_translates) (use assms(1) OpExpr1 in simp)
  from operator_translates[OF assms(2) this, of "[OpOr]" op] show ?thesis
    by (simp add: OpExpr1)
qed

lemma Expression_translates:
  "translates (pe_runtime pe) (Expression_ToExpr pe e) (Expression_text pe e) (Expression_tree pe e)"
proof (induction e)
  case (GExpression left right)
  let ?F = "Expression_ToExpr pe" and ?S = "Expression_text pe" and ?T = "Expression_tree pe"
  have ins: "inside (set_Expr1 left) pe ?F ?S ?T" "op \<in> set right \<Longrightarrow> inside (set_OpExpr1 op) pe ?F ?S ?T" for op
    using GExpression by (auto simp: inside_def)
  have "translates (pe_runtime pe)
      (\<lambda>expr. fold (OpExpr1_ToExpr pe) (map (map_OpExpr1 ?F) right) (Expr1_ToExpr pe (map_Expr1 ?F left) expr))
      (Expr1_text pe (map_Expr1 ?S left) @ concat (map (OpExpr1_text pe) (map (map_OpExpr1 ?S) right)))
      (foldl (OpExpr1_tree pe) (Expr1_tree pe (map_Expr1 ?T left)) (map (map_OpExpr1 ?T) right))"
    unfolding fold_map foldl_map map_map comp_def
    by (intro translates_fold Expr1_translates OpExpr1_translates ins)
  then show ?case by simp
qed

lemma ToExpr_compile:
  assumes "Expression_tree pe e = Some t"
  shows "Expression_ToExpr pe e [] = ecompile t" and "Expression_text pe e = etree_text (pe_runtime pe) t"
  using Expression_translates[of pe e] assms by (simp_all add: translates_def)

section \<open>From the text to the value\<close>

text \<open>Reading a datalog tree in the symbol table \<open>symbols\<close>.\<close>

fun read_tree :: "runtime \<Rightarrow> SymbolTable \<Rightarrow> tree \<Rightarrow> conv_error + etree" where
  "read_tree rt symbols (Leaf t) = bind_res (fromDatalogID rt symbols t) (\<lambda>v. Inr (ELeaf v))"
| "read_tree rt symbols (Unary f a) = bind_res (read_tree rt symbols a) (\<lambda>x. Inr (EUnary f x))"
| "read_tree rt symbols (Binary f a b) =
     bind_res (read_tree rt symbols a) (\<lambda>x. bind_res (read_tree rt symbols b) (\<lambda>y. Inr (EBinary f x y)))"

lemma converted_term_text:
  assumes "BTerm_convert rt t s = Some (v, s')" "bterm_plain t" "sym_le s' u" "sym_fits u"
  shows "SymbolTable_FormatTerm rt u v = Some (BTerm_String rt t)"
  using assms(1,2) Insert_get[OF _ assms(3,4)]
  by (cases t) (auto simp: Integer_String_def Bytes_String_def Bool_String_def Date_String_def split: prod.splits)

lemma operator_back [simp]:
  "BUnaryOp_convert (fromDatalogUnaryOp f) = Some f" "BBinaryOp_convert (fromDatalogBinaryOp g) = Some g"
  by (cases f; simp add: BUnaryOp_convert_def) (cases g; simp add: BBinaryOp_convert_def)

lemma convert_tree:
  assumes "etree_plain t"
  shows "\<exists>t' s'. thread (BOp_convert rt) (ecompile t) s = Some (compile t', s') \<and> sym_le s s' \<and> depth t' = edepth t \<and>
     (\<forall>u. sym_le s' u \<longrightarrow> sym_fits u \<longrightarrow> read_tree rt u t' = Inr t \<and> tree_text rt u t' = Some (etree_text rt t))"
  using assms
proof (induction t arbitrary: s)
  case (ELeaf t)
  then obtain v s' where v: "BTerm_convert rt t s = Some (v, s')"
    using term_interning.conv_returns[of t rt s] by (cases "BTerm_convert rt t s") auto
  have "bterm_plain t" using ELeaf by simp
  note facts = term_interning.conv_le[OF this v] term_interning.round[OF this v] converted_term_text[OF v this]
  then show ?case by (intro exI[of _ "Leaf v"] exI[of _ s']) (simp add: v)
next
  case (EUnary f a)
  then obtain a' s' where "thread (BOp_convert rt) (ecompile a) s = Some (compile a', s')" "sym_le s s'" "depth a' = edepth a"
    "\<forall>u. sym_le s' u \<longrightarrow> sym_fits u \<longrightarrow> read_tree rt u a' = Inr a \<and> tree_text rt u a' = Some (etree_text rt a)"
    by fastforce
  then show ?case by (intro exI[of _ "Unary f a'"] exI[of _ s']) (simp add: thread_append)
next
  case (EBinary f a b)
  then obtain a' s1 where a: "thread (BOp_convert rt) (ecompile a) s = Some (compile a', s1)" "sym_le s s1" "depth a' = edepth a"
    "\<forall>u. sym_le s1 u \<longrightarrow> sym_fits u \<longrightarrow> read_tree rt u a' = Inr a \<and> tree_text rt u a' = Some (etree_text rt a)"
    by fastforce
  obtain b' s' where b: "thread (BOp_convert rt) (ecompile b) s1 = Some (compile b', s')" "sym_le s1 s'" "depth b' = edepth b"
    "\<forall>u. sym_le s' u \<longrightarrow> sym_fits u \<longrightarrow> read_tree rt u b' = Inr b \<and> tree_text rt u b' = Some (etree_text rt b)"
    using EBinary.IH(2)[of s1] EBinary.prems by fastforce
  have "sym_le s1 u" if "sym_le s' u" for u using sym_le_trans[OF b(2) that] .
  then show ?case using a b sym_le_trans[OF a(2) b(2)]
    by (intro exI[of _ "Binary f a' b'"] exI[of _ s']) (simp add: thread_append)
qed

lemma fits_append: "1024 + length (s @ us) \<le> 2 ^ 32 \<Longrightarrow> sym_le s (s @ us) \<and> sym_fits (s @ us)"
  by (auto simp: sym_le_def sym_fits_def)

text \<open>
  C20: an expression is evaluated as it is written. If its text denotes a tree (operators of a
  level associate to the left, levels bind as the grammar nests them), then its translation
  converts to datalog without a panic, to a program whose evaluation, under all bindings, is that
  of a datalog tree which reads back as exactly the tree that was written.
\<close>

theorem parsed_expression_evaluates_as_written:
  assumes "Expression_tree pe e = Some t" and "etree_plain t" and "edepth t \<le> maxStackSize"
  shows "\<exists>x t' s'. BExpression_convert rt (Expression_ToExpr pe e []) s = Some (x, s') \<and>
     (\<forall>us. 1024 + length (s' @ us) \<le> 2 ^ 32 \<longrightarrow> read_tree rt (s' @ us) t' = Inr t) \<and>
     (\<forall>values symbols. Expression_Evaluate rt x values symbols = tree_eval rt values t' symbols)"
proof -
  obtain t' s' where c: "thread (BOp_convert rt) (ecompile t) s = Some (compile t', s')" "depth t' = edepth t"
    "\<forall>u. sym_le s' u \<longrightarrow> sym_fits u \<longrightarrow> read_tree rt u t' = Inr t"
    using convert_tree[OF assms(2), of rt s] by blast
  have "BExpression_convert rt (Expression_ToExpr pe e []) s = Some (Some (compile t'), s')"
    by (simp add: BExpression_convert_def ToExpr_compile[OF assms(1)] c(1))
  then show ?thesis using c(2,3) Evaluate_tree[of t' rt] assms(3) fits_append by metis
qed

text \<open>
  C21: what is written is what is printed. Once an expression that denotes a tree is part of a
  token or an authorizer, \<^verbatim>\<open>Expression.Print\<close> shows its source text, with the values of its terms,
  whatever symbols were interned later.
\<close>

theorem parsed_expression_prints_as_written:
  assumes "Expression_tree pe e = Some t" and "etree_plain t" and "edepth t \<le> maxStackSize"
    and "BExpression_convert (pe_runtime pe) (Expression_ToExpr pe e []) s = Some (x, s')"
    and "1024 + length (s' @ us) \<le> 2 ^ 32"
  shows "Expression_Print (pe_runtime pe) x (s' @ us) = Some (Expression_text pe e)"
proof -
  let ?rt = "pe_runtime pe"
  obtain t' s1 where c: "thread (BOp_convert ?rt) (ecompile t) s = Some (compile t', s1)" "depth t' = edepth t"
    "\<forall>u. sym_le s1 u \<longrightarrow> sym_fits u \<longrightarrow> tree_text ?rt u t' = Some (etree_text ?rt t)"
    using convert_tree[OF assms(2), of ?rt s] by blast
  have x: "x = Some (compile t')" "s' = s1"
    using assms(4) by (simp_all add: BExpression_convert_def ToExpr_compile[OF assms(1)] c(1))
  have "tree_text ?rt (s' @ us) t' = Some (etree_text ?rt t)"
    using c(3) x(2) fits_append[OF assms(5)] by blast
  then show ?thesis using Print_tree[of t' ?rt] c(2) assms(3) x(1) ToExpr_compile(2)[OF assms(1)] by simp
qed

text \<open>An example: the expression \<^verbatim>\<open>2 - $n - 1\<close>.\<close>

definition demo_env :: parse_env where
  "demo_env = \<lparr>pe_runtime = demo_runtime, pe_time = (\<lambda>_. None), pe_parameters = Map.empty\<rparr>"

definition int_term :: "u64 \<Rightarrow> GTerm" where
  "int_term i = GTerm None None None None (Some i) None None None None"

definition variable_term :: "string \<Rightarrow> GTerm" where
  "variable_term v = GTerm (Some v) None None None None None None None None"

definition term_operand :: "GTerm \<Rightarrow> 'e Expr4" where
  "term_operand t = Expr4 (Expr5 None (Expr6 (ExprTerm (Some t) None) [])) []"

definition demo_expression :: GExpression where
  "demo_expression = GExpression (Expr1 (Expr2 (Expr3 (term_operand (int_term 2))
     [OpExpr4 OpSub (term_operand (variable_term ''n'')), OpExpr4 OpSub (term_operand (int_term 1))]) None) []) []"

definition demo_tree :: etree where
  "demo_tree = EBinary Sub (EBinary Sub (ELeaf (BInteger 2)) (ELeaf (BVariable ''n''))) (ELeaf (BInteger 1))"

lemmas demo_parsing = demo_expression_def demo_env_def demo_tree_def term_operand_def int_term_def variable_term_def

lemma demo_expression_facts:
  "Expression_tree demo_env demo_expression = Some demo_tree" "etree_plain demo_tree" "edepth demo_tree \<le> maxStackSize"
  "Expression_text demo_env demo_expression = ''2 - $n - 1''"
  by (simp_all add: demo_parsing infix_tree_def maxStackSize_def infix_text_def op_text_def operatorMap_def show_int_def
      show_nat_def format_uint.simps digit_char_def char_of_def bit_0)

theorem parsed_expression_evaluates_as_written_witness:
  "\<exists>x t' s'. BExpression_convert demo_runtime (Expression_ToExpr demo_env demo_expression []) [''m''] = Some (x, s') \<and>
     (\<forall>us. 1024 + length (s' @ us) \<le> 2 ^ 32 \<longrightarrow> read_tree demo_runtime (s' @ us) t' = Inr demo_tree) \<and>
     (\<forall>values symbols. Expression_Evaluate demo_runtime x values symbols = tree_eval demo_runtime values t' symbols)"
  by (rule parsed_expression_evaluates_as_written[OF demo_expression_facts(1-3)])

theorem parsed_expression_prints_as_written_witness:
  "\<exists>x. BExpression_convert demo_runtime (Expression_ToExpr demo_env demo_expression []) [''m''] = Some (x, [''m'', ''n'']) \<and>
     Expression_Print demo_runtime x [''m'', ''n'', ''later''] = Some ''2 - $n - 1''"
proof -
  obtain x where x: "BExpression_convert demo_runtime (Expression_ToExpr demo_env demo_expression []) [''m''] =
      Some (x, [''m'', ''n''])"
    by (simp add: ToExpr_compile(1)[OF demo_expression_facts(1)] demo_tree_def BExpression_convert_def
        SymbolTable_Insert_def DEFAULT_SYMBOLS_def BBinaryOp_convert_def)
  have rt: "pe_runtime demo_env = demo_runtime" by (simp add: demo_env_def)
  have "Expression_Print demo_runtime x ([''m'', ''n''] @ [''later'']) = Some (Expression_text demo_env demo_expression)"
    using parsed_expression_prints_as_written[OF demo_expression_facts(1-3), of "[''m'']" x "[''m'', ''n'']" "[''later'']"] x
    by (simp add: rt)
  then show ?thesis using x demo_expression_facts(4) by auto
qed

section \<open>What the grammar lets through\<close>

text \<open>
  The number of arguments of a method is not checked. \<^verbatim>\<open>a.length(b).op()\<close>, where \<^verbatim>\<open>length\<close> has an
  argument and \<^verbatim>\<open>op\<close> has none, is the same program as \<^verbatim>\<open>a.op(b.length())\<close>.
\<close>

definition method_call :: "GTerm \<Rightarrow> GExpression OpExpr7 list \<Rightarrow> GExpression" where
  "method_call a calls = GExpression (Expr1 (Expr2 (Expr3 (Expr4 (Expr5 None (Expr6 (ExprTerm (Some a) None) calls)) []) []) None) []) []"

theorem method_arity_unchecked:
  "Expression_ToExpr pe (method_call a [OpExpr7 OpLength (Some (method_call b [])), OpExpr7 op None]) expr =
   Expression_ToExpr pe (method_call a [OpExpr7 op (Some (method_call b [OpExpr7 OpLength None]))]) expr"
  by (simp add: method_call_def)

text \<open>The two copies of the translation of policies agree.\<close>

lemma parser_Policy_ToBiscuit:
  "parser_Policy p pe policy = bind_res (parse_string (policyParser p) policy) (Policy_ToBiscuit pe)"
  by (simp add: parser_Policy_def Policy_ToBiscuit_def[abs_def])

text \<open>
  A fact that is parsed on its own is ground, but in the text of a block the same fact is
  accepted with its variables.
\<close>

theorem variables_only_refused_in_single_facts:
  assumes "factParser p input = Some pred" and "Predicate_ToBiscuit pe pred = Inr f"
    and "BVariable v \<in> set (bp_IDs f)"
    and "blockParser p block = Some [\<lparr>be_Check = None, be_Predicate = Some pred, be_RuleBody = None\<rparr>]"
  shows "parser_Fact p pe input = Inl ErrVariableInFact \<and>
     (\<exists>b. parser_Block p pe block = Inr b \<and> HashSet_Iter (pb_Facts b) = [f])"
proof
  have "list_ex (\<lambda>a. BTerm_Type a = BTermTypeVariable) (bp_IDs f)"
    using assms(3) by (force simp: list_ex_iff)
  then show "parser_Fact p pe input = Inl ErrVariableInFact"
    using assms(1,2) by (simp add: parser_Fact_def parse_string_def)
  show "\<exists>b. parser_Block p pe block = Inr b \<and> HashSet_Iter (pb_Facts b) = [f]"
    using assms(2,4) by (simp add: parser_Block_def parse_string_def Block_ToBiscuit_def BlockElement_ToBiscuit_def
      empty_ParsedBlock_def NewBFactSet_def NewHashSet_def HashSet_Insert_def HashSet_empty_def HashSet_Iter_def)
qed

definition demo_predicate :: GPredicate where
  "demo_predicate = \<lparr>gp_Name = ''user'', gp_IDs = [variable_term ''x'']\<rparr>"

definition demo_parser :: parser where
  "demo_parser = \<lparr>factParser = (\<lambda>_. Some demo_predicate), ruleParser = (\<lambda>_. None), checkParser = (\<lambda>_. None),
     policyParser = (\<lambda>_. None),
     blockParser = (\<lambda>_. Some [\<lparr>be_Check = None, be_Predicate = Some demo_predicate, be_RuleBody = None\<rparr>]),
     authorizerParser = (\<lambda>_. None)\<rparr>"

theorem variables_only_refused_in_single_facts_witness:
  "parser_Fact demo_parser demo_env ''user($x)'' = Inl ErrVariableInFact \<and>
   (\<exists>b. parser_Block demo_parser demo_env ''user($x);'' = Inr b \<and>
      HashSet_Iter (pb_Facts b) = [\<lparr>bp_Name = ''user'', bp_IDs = [BVariable ''x'']\<rparr>])"
  by (rule variables_only_refused_in_single_facts[where pred = demo_predicate and v = "''x''"])
     (simp_all add: demo_parser_def demo_predicate_def Predicate_ToBiscuit_def variable_term_def)

section \<open>Parsed checks\<close>

text \<open>Terms whose value is atomic and, if a date, in whole seconds; expressions that denote a tree.\<close>

definition plain_term :: "parse_env \<Rightarrow> GTerm \<Rightarrow> bool" where
  "plain_term pe g \<longleftrightarrow> (\<forall>t. Term_ToBiscuit pe g = Inr t \<longrightarrow> bterm_plain t)"

definition plain_element :: "parse_env \<Rightarrow> GRuleElement \<Rightarrow> bool" where
  "plain_element pe el = (case re_Predicate el of Some p \<Rightarrow> list_all (plain_term pe) (gp_IDs p)
     | None \<Rightarrow> (case re_Expression el of None \<Rightarrow> True
        | Some e \<Rightarrow> (case Expression_tree pe e of None \<Rightarrow> False | Some t \<Rightarrow> etree_plain t)))"

definition plain_check :: "parse_env \<Rightarrow> GCheck \<Rightarrow> bool" where
  "plain_check pe c = (case check_alternative c of None \<Rightarrow> True
     | Some (_, a) \<Rightarrow> list_all (list_all (plain_element pe)) (alt_Queries a))"

lemma ecompile_plain: "etree_plain t \<Longrightarrow> bexpr_plain (ecompile t)"
proof (induction t)
  case (EUnary f a)
  then show ?case by (cases f) (simp_all add: bexpr_plain_def)
next
  case (EBinary f a b)
  then show ?case by (cases f) (auto simp: bexpr_plain_def)
qed (simp add: bexpr_plain_def)

lemma Predicate_plain:
  assumes "Predicate_ToBiscuit pe p = Inr q" "list_all (plain_term pe) (gp_IDs p)"
  shows "bpred_plain q"
proof -
  obtain ts where ts: "traverse (Term_ToBiscuit pe) (gp_IDs p) = Inr ts" "bp_IDs q = ts"
    using assms(1) by (auto simp: Predicate_ToBiscuit_def bind_res_eq_Inr)
  have "\<forall>t \<in> set ts. bterm_plain t"
    by (rule traverse_all[OF ts(1)]) (use assms(2) in \<open>auto simp: list_all_iff plain_term_def\<close>)
  then show ?thesis by (simp add: bpred_plain_def ts(2))
qed

lemma body_plain:
  assumes "body_elements pe els body es = Inr (body', es')" "list_all (plain_element pe) els"
    and "\<forall>p \<in> set body. bpred_plain p" "\<forall>e \<in> set es. bexpr_plain e"
  shows "(\<forall>p \<in> set body'. bpred_plain p) \<and> (\<forall>e \<in> set es'. bexpr_plain e)"
  using assms
proof (induction els arbitrary: body es)
  case (Cons el els)
  show ?case
  proof (cases "re_Predicate el")
    case (Some p)
    then obtain q where q: "Predicate_ToBiscuit pe p = Inr q" "body_elements pe els (body @ [q]) es = Inr (body', es')"
      using Cons.prems(1) by (auto simp: bind_res_eq_Inr)
    have "bpred_plain q" using Predicate_plain[OF q(1)] Cons.prems(2) Some by (simp add: plain_element_def)
    then show ?thesis using Cons.IH[OF q(2)] Cons.prems by simp
  next
    case None
    show ?thesis
    proof (cases "re_Expression el")
      case e: (Some e)
      then obtain t where t: "Expression_tree pe e = Some t" "etree_plain t"
        using Cons.prems(2) None by (auto simp: plain_element_def split: option.splits)
      have "bexpr_plain (Expression_ToExpr pe e [])" using ToExpr_compile(1)[OF t(1)] ecompile_plain[OF t(2)] by simp
      then show ?thesis using Cons.IH[of body "es @ [Expression_ToExpr pe e []]"] Cons.prems None e by simp
    next
      case e: None
      then show ?thesis using Cons.IH[of body es] Cons.prems None by simp
    qed
  qed
qed simp

lemma scopes_plain: "OriginClause_ToBiscuit oc = Inr ss \<Longrightarrow> \<forall>s \<in> set ss. bscope_plain s"
  unfolding OriginClause_ToBiscuit_def
  by (erule traverse_all) (auto simp: Origin_ToBiscuit_def bscope_plain_def split: if_splits option.splits sum.splits)

lemma query_plain:
  assumes "CheckQuery_ToBiscuit pe q = Inr r" "list_all (plain_element pe) q"
  shows "brule_plain r \<and> br_Scopes r = []"
proof -
  obtain b es where b: "body_elements pe q [] [] = Inr (b, es)"
    "r = \<lparr>br_Head = \<lparr>bp_Name = ''query'', bp_IDs = []\<rparr>, br_Body = b, br_Expressions = es, br_Scopes = []\<rparr>"
    using assms(1) by (auto simp: CheckQuery_ToBiscuit_def bind_res_eq_Inr)
  show ?thesis using body_plain[OF b(1) assms(2)] by (simp add: b(2) brule_plain_def bpred_plain_def)
qed

lemma check_plain:
  assumes "Check_ToBiscuit pe g = Inr c" "plain_check pe g"
  shows "bcheck_plain c"
proof -
  obtain kind a ss qs where k: "check_alternative g = Some (kind, a)"
    "case alt_Origin a of None \<Rightarrow> ss = None | Some oc \<Rightarrow> \<exists>s. OriginClause_ToBiscuit oc = Inr s \<and> ss = Some s"
    "traverse (\<lambda>q. bind_res (CheckQuery_ToBiscuit pe q) (\<lambda>r. Inr (case ss of Some s \<Rightarrow> r\<lparr>br_Scopes := s\<rparr> | None \<Rightarrow> r)))
       (alt_Queries a) = Inr qs"
    "c = \<lparr>bc_Queries = qs, bc_Kind = kind\<rparr>"
    using assms(1) by (auto simp: Check_ToBiscuit_def bind_res_eq_Inr split: option.splits)
  have "\<forall>r \<in> set qs. brule_plain r"
  proof (rule traverse_all[OF k(3)])
    fix q r assume q: "q \<in> set (alt_Queries a)" and
      r: "bind_res (CheckQuery_ToBiscuit pe q) (\<lambda>r. Inr (case ss of Some s \<Rightarrow> r\<lparr>br_Scopes := s\<rparr> | None \<Rightarrow> r)) = Inr r"
    obtain r0 where r0: "CheckQuery_ToBiscuit pe q = Inr r0" "r = (case ss of Some s \<Rightarrow> r0\<lparr>br_Scopes := s\<rparr> | None \<Rightarrow> r0)"
      using r by (auto simp: bind_res_eq_Inr)
    have "list_all (plain_element pe) q" using assms(2) k(1) q by (simp add: plain_check_def list_all_iff)
    from query_plain[OF r0(1) this] show "brule_plain r"
      using k(2) scopes_plain by (auto simp: r0(2) brule_plain_def split: option.splits)
  qed
  moreover have "known_kind kind = kind"
    using k(1) by (auto simp: check_alternative_def split: option.splits)
  ultimately show ?thesis by (simp add: bcheck_plain_def k(4))
qed

text \<open>
  A check that was parsed, with atomic terms and expressions that denote trees, always converts
  to datalog, whatever is in the tables, and the converted check reads back as the parsed one
  after the tables have grown: no operator, variable or key is lost on the way into a token.
\<close>

theorem parsed_check_converts:
  assumes "parser_Check p pe input = Inr c"
    and "\<forall>g. checkParser p input = Some g \<longrightarrow> plain_check pe g"
  shows "\<exists>c' s' k'. BCheck_Convert rt c (s, k) = Some (c', (s', k')) \<and>
     (\<forall>us ks. 1024 + length (s' @ us) \<le> 2 ^ 32 \<longrightarrow> length (k' @ ks) < 2 ^ 64 \<longrightarrow>
        fromDatalogCheck rt (s' @ us) (Some (k' @ ks)) c' = Inr c)"
proof -
  obtain g where g: "checkParser p input = Some g" "Check_ToBiscuit pe g = Inr c"
    using assms(1) by (auto simp: parser_Check_def parse_string_def bind_res_eq_Inr split: option.splits)
  have plain: "bcheck_plain c" using check_plain[OF g(2)] assms(2) g(1) by blast
  obtain c' s' k' where c: "BCheck_Convert rt c (s, k) = Some (c', (s', k'))"
    using check_interning.conv_returns[OF plain, of rt "(s, k)"] by (metis not_Some_eq prod_cases3)
  have "tables_le (s', k') (s' @ us, k' @ ks) \<and> tables_fit (s' @ us, k' @ ks)"
    if "1024 + length (s' @ us) \<le> 2 ^ 32" "length (k' @ ks) < 2 ^ 64" for us ks
    using that by (auto simp: tables_le_def tables_fit_def sym_le_def key_le_def sym_fits_def key_fits_def)
  then show ?thesis using check_interning.round[OF plain c] c by fastforce
qed

definition demo_gcheck :: GCheck where
  "demo_gcheck = \<lparr>gc_CheckIf = None, gc_CheckAll = Some \<lparr>alt_Queries =
      [[\<lparr>re_Predicate = Some demo_predicate, re_Expression = None\<rparr>, \<lparr>re_Predicate = None, re_Expression = Some demo_expression\<rparr>]],
      alt_Origin = Some [\<lparr>or_Authority = Some ''authority'', or_Previous = None, or_PublicKey = None\<rparr>]\<rparr>,
     gc_RejectIf = None\<rparr>"

definition demo_bcheck2 :: BCheck where
  "demo_bcheck2 = \<lparr>bc_Queries = [\<lparr>br_Head = \<lparr>bp_Name = ''query'', bp_IDs = []\<rparr>,
      br_Body = [\<lparr>bp_Name = ''user'', bp_IDs = [BVariable ''x'']\<rparr>], br_Expressions = [ecompile demo_tree],
      br_Scopes = [\<lparr>bs_Type = AuthorityScopeType, bs_PublicKey = None\<rparr>]\<rparr>], bc_Kind = CheckAll\<rparr>"

theorem parsed_check_converts_witness:
  "\<exists>c' s' k'. BCheck_Convert demo_runtime demo_bcheck2 ([], []) = Some (c', (s', k')) \<and>
     (\<forall>us ks. 1024 + length (s' @ us) \<le> 2 ^ 32 \<longrightarrow> length (k' @ ks) < 2 ^ 64 \<longrightarrow>
        fromDatalogCheck demo_runtime (s' @ us) (Some (k' @ ks)) c' = Inr demo_bcheck2)"
proof (rule parsed_check_converts)
  let ?p = "demo_parser\<lparr>checkParser := (\<lambda>_. Some demo_gcheck)\<rparr>"
  show "parser_Check ?p demo_env ''check all user($x), 2 - $n - 1 trusting authority'' = Inr demo_bcheck2"
    by (simp add: parser_Check_def parse_string_def Check_ToBiscuit_def check_alternative_def demo_gcheck_def
        demo_predicate_def CheckQuery_ToBiscuit_def Predicate_ToBiscuit_def variable_term_def OriginClause_ToBiscuit_def
        Origin_ToBiscuit_def ToExpr_compile(1)[OF demo_expression_facts(1)] demo_bcheck2_def)
  show "\<forall>g. checkParser ?p ''check all user($x), 2 - $n - 1 trusting authority'' = Some g \<longrightarrow> plain_check demo_env g"
    using demo_expression_facts(1,2) by (simp add: plain_check_def check_alternative_def demo_gcheck_def plain_element_def
        demo_predicate_def plain_term_def variable_term_def)
qed

section \<open>Keys in the text\<close>

lemma hex_decode_encode [simp]: "hex_decode (hex_encode bs) = Some bs"
proof (induction bs)
  case (Cons b bs)
  have "unat b < 256" using unsigned_less[of b] by simp
  then have "hex_digit (digit_char (unat b div 16)) = Some (unat b div 16)"
    "hex_digit (digit_char (unat b mod 16)) = Some (unat b mod 16)"
    by (simp_all add: hex_digit_def)
  moreover have "word_of_nat (16 * (unat b div 16) + unat b mod 16) = b" by (simp add: mult_div_mod_eq)
  ultimately show ?case using Cons by (simp add: hex_encode_def del: of_nat_add of_nat_mult)
qed (simp add: hex_encode_def)

lemma digit_char_no_slash: "d < 16 \<Longrightarrow> digit_char d \<noteq> CHR ''/''"
proof
  assume "d < 16" "digit_char d = CHR ''/''"
  then have "digit_val (CHR ''/'') = Some d" using digit_val_char[of d] by simp
  then show False by (simp add: digit_val_def)
qed

lemma hex_no_slash: "CHR ''/'' \<notin> set (hex_encode bs)"
proof (induction bs)
  case (Cons b bs)
  have "unat b < 256" using unsigned_less[of b] by simp
  then have "digit_char (unat b div 16) \<noteq> CHR ''/''" "digit_char (unat b mod 16) \<noteq> CHR ''/''"
    by (simp_all add: digit_char_no_slash)
  then show ?case using Cons by (auto simp: hex_encode_def)
qed (simp add: hex_encode_def)

text \<open>
  C34: the text in which the debugger shows a key of a trusting clause parses to the scope of that
  very key, for both algorithms.
\<close>

theorem public_key_text_roundtrip:
  assumes "alg \<in> {Ed25519, SECP256R1}" and "unat i < length keys" and "unat i < 2 ^ 63"
    and "keys ! unat i = PublicKey key alg"
  shows "\<exists>shown g. SymbolDebugger_Scope \<lparr>sd_SymbolTable = symbols, sd_PublicKeyTable = Some keys\<rparr> (Scope PublicKeyScopeType i) =
       Some (''trusting '' @ shown) \<and> PublicKey_Capture [shown] = Inr g \<and>
     Origin_ToBiscuit \<lparr>or_Authority = None, or_Previous = None, or_PublicKey = Some g\<rparr> =
       Inr \<lparr>bs_Type = PublicKeyScopeType, bs_PublicKey = Some \<lparr>bpk_Algorithm = alg, bpk_Bytes = key\<rparr>\<rparr>"
proof -
  let ?name = "if alg = Ed25519 then ''ed25519'' else ''secp256r1''"
  have shown: "SymbolDebugger_PublicKey (PublicKey key alg) = ?name @ CHR ''/'' # hex_encode key"
    using assms(1) by (auto simp: SymbolDebugger_PublicKey_def)
  have "split_on (CHR ''/'') (?name @ CHR ''/'' # hex_encode key) = [?name, hex_encode key]"
    using split_on_append[of "CHR ''/''" ?name] split_on_no_sep[OF hex_no_slash] by (simp split: if_splits)
  then have cap: "PublicKey_Capture [SymbolDebugger_PublicKey (PublicKey key alg)] =
      Inr \<lparr>gpk_Algorithm = ?name, gpk_HexBytes = hex_encode key\<rparr>"
    by (simp add: PublicKey_Capture_def shown)
  have "map lower_char ''ed25519'' = ''ed25519''" "map lower_char ''secp256r1'' = ''secp256r1''"
    by (simp_all add: lower_char_def)
  then have "NewPublicKey ?name (hex_encode key) = Inr \<lparr>bpk_Algorithm = alg, bpk_Bytes = key\<rparr>"
    using assms(1) by (auto simp: NewPublicKey_def)
  moreover have "sint i < int (length keys)" using assms(2) sint_small[OF assms(3)] by linarith
  ultimately show ?thesis using cap assms(2,4)
    by (intro exI conjI) (auto simp: SymbolDebugger_Scope_def Origin_ToBiscuit_def Let_def)
qed

theorem public_key_text_roundtrip_witness:
  "\<exists>shown g. SymbolDebugger_Scope \<lparr>sd_SymbolTable = [], sd_PublicKeyTable = Some [PublicKey [10, 255] SECP256R1]\<rparr>
       (Scope PublicKeyScopeType 0) = Some (''trusting '' @ shown) \<and> PublicKey_Capture [shown] = Inr g \<and>
     Origin_ToBiscuit \<lparr>or_Authority = None, or_Previous = None, or_PublicKey = Some g\<rparr> =
       Inr \<lparr>bs_Type = PublicKeyScopeType, bs_PublicKey = Some \<lparr>bpk_Algorithm = SECP256R1, bpk_Bytes = [10, 255]\<rparr>\<rparr>"
  by (rule public_key_text_roundtrip) simp_all

section \<open>Terms without a value\<close>

definition parameter_term :: "string \<Rightarrow> GTerm" where
  "parameter_term name = GTerm None None None None None None (Some name) None None"

definition check_if :: "GRuleElement \<Rightarrow> GCheck" where
  "check_if el = \<lparr>gc_CheckIf = Some \<lparr>alt_Queries = [[el]], alt_Origin = None\<rparr>, gc_CheckAll = None, gc_RejectIf = None\<rparr>"

text \<open>
  C35: an unbound parameter is an error of the parser when it stands in a predicate; in an
  expression the error is dropped: the check is returned, and converting it panics.
\<close>

theorem unbound_parameter_in_expression_panics:
  assumes "pe_parameters pe name = None" and "parameter_term name \<in> set (gp_IDs pred)"
    and "\<forall>t \<in> set (gp_IDs pred). t \<noteq> parameter_term name \<longrightarrow> (\<exists>v. Term_ToBiscuit pe t = Inr v)"
    and "checkParser p input = Some (check_if \<lparr>re_Predicate = Some pred, re_Expression = None\<rparr>)"
    and "checkParser p input' = Some (check_if \<lparr>re_Predicate = None, re_Expression = Some (method_call (parameter_term name) [])\<rparr>)"
  shows "parser_Check p pe input = Inl (UnboundParameter name) \<and>
     (\<exists>c. parser_Check p pe input' = Inr c \<and> (\<forall>rt st. BCheck_Convert rt c st = None))"
proof
  have bad: "Term_ToBiscuit pe (parameter_term name) = Inl (UnboundParameter name)"
    using assms(1) by (simp add: parameter_term_def)
  have "traverse (Term_ToBiscuit pe) ts = Inl (UnboundParameter name)"
    if "parameter_term name \<in> set ts" "\<forall>t \<in> set ts. t \<noteq> parameter_term name \<longrightarrow> (\<exists>v. Term_ToBiscuit pe t = Inr v)" for ts
    using that
  proof (induction ts)
    case (Cons t ts)
    then show ?case by (cases "t = parameter_term name") (auto simp: bad)
  qed simp
  then show "parser_Check p pe input = Inl (UnboundParameter name)"
    using assms(2,3) by (simp add: parser_Check_def parse_string_def assms(4) Check_ToBiscuit_def check_alternative_def
        check_if_def CheckQuery_ToBiscuit_def Predicate_ToBiscuit_def)
  show "\<exists>c. parser_Check p pe input' = Inr c \<and> (\<forall>rt st. BCheck_Convert rt c st = None)"
    by (simp add: parser_Check_def parse_string_def assms(5) Check_ToBiscuit_def check_alternative_def check_if_def
        CheckQuery_ToBiscuit_def method_call_def bad BCheck_Convert_def BRule_Convert_def BExpression_convert_def split_beta)
qed

theorem unbound_parameter_in_expression_panics_witness:
  "let p = demo_parser\<lparr>checkParser := (\<lambda>input. if input = ''check if user({who})''
         then Some (check_if \<lparr>re_Predicate = Some \<lparr>gp_Name = ''user'', gp_IDs = [parameter_term ''who'']\<rparr>, re_Expression = None\<rparr>)
         else Some (check_if \<lparr>re_Predicate = None, re_Expression = Some (method_call (parameter_term ''who'') [])\<rparr>))\<rparr> in
   parser_Check p demo_env ''check if user({who})'' = Inl (UnboundParameter ''who'') \<and>
     (\<exists>c. parser_Check p demo_env ''check if {who}'' = Inr c \<and> (\<forall>rt st. BCheck_Convert rt c st = None))"
  unfolding Let_def
  by (rule unbound_parameter_in_expression_panics[where pred = "\<lparr>gp_Name = ''user'', gp_IDs = [parameter_term ''who'']\<rparr>"])
     (simp_all add: demo_env_def)

end
