(* ===== verification/TextBlocks.thy ===== *)
theory TextBlocks
  imports Parsing
begin

text \<open>
  A block from its text to the token: what the parser makes of the elements of a block, what the
  builder makes of a parsed block, and what the built block denotes.
\<close>

section \<open>The elements of a block\<close>

fun fact_of :: "GBlockElement \<Rightarrow> GPredicate option" where
  "fact_of e = (case (be_Check e, be_RuleBody e) of (None, None) \<Rightarrow> be_Predicate e | _ \<Rightarrow> None)"

fun rule_of :: "GBlockElement \<Rightarrow> GRule option" where
  "rule_of e = (case (be_Check e, be_Predicate e, be_RuleBody e) of
     (None, Some p, Some body) \<Rightarrow> Some \<lparr>gr_Head = p, gr_Body = body, gr_Origin = None\<rparr> | _ \<Rightarrow> None)"

text \<open>The written facts, rules and checks, in their order.\<close>

definition text_facts :: "GBlock \<Rightarrow> GPredicate list" where "text_facts es = List.map_filter fact_of es"
definition text_rules :: "GBlock \<Rightarrow> GRule list" where "text_rules es = List.map_filter rule_of es"
definition text_checks :: "GBlock \<Rightarrow> GCheck list" where "text_checks es = List.map_filter be_Check es"

lemmas text_defs = text_facts_def text_rules_def text_checks_def

definition plain_predicate :: "parse_env \<Rightarrow> GPredicate \<Rightarrow> bool" where
  "plain_predicate pe p \<longleftrightarrow> list_all (plain_term pe) (gp_IDs p)"

definition plain_rule :: "parse_env \<Rightarrow> GRule \<Rightarrow> bool" where
  "plain_rule pe r \<longleftrightarrow> plain_predicate pe (gr_Head r) \<and> list_all (plain_element pe) (gr_Body r)"

definition plain_block :: "parse_env \<Rightarrow> GBlock \<Rightarrow> bool" where
  "plain_block pe es \<longleftrightarrow> list_all (plain_predicate pe) (text_facts es) \<and> list_all (plain_rule pe) (text_rules es) \<and>
     list_all (plain_check pe) (text_checks es)"

lemma plain_atomic: "bpred_plain p \<Longrightarrow> bfact_atomic p"
proof -
  have "bterm_plain t \<Longrightarrow> bterm_atomic t" for t by (cases t) simp_all
  then show "bpred_plain p \<Longrightarrow> bfact_atomic p" by (auto simp: bpred_plain_def bfact_atomic_def)
qed

lemma rule_plain:
  assumes "Rule_ToBiscuit pe g = Inr r" "plain_rule pe g"
  shows "brule_plain r"
proof -
  obtain body es head scopes where r: "body_elements pe (gr_Body g) [] [] = Inr (body, es)"
    "Predicate_ToBiscuit pe (gr_Head g) = Inr head"
    "(case gr_Origin g of None \<Rightarrow> Inr [] | Some oc \<Rightarrow> OriginClause_ToBiscuit oc) = Inr scopes"
    "r = \<lparr>br_Head = head, br_Body = body, br_Expressions = es, br_Scopes = scopes\<rparr>"
    using assms(1) by (auto simp: Rule_ToBiscuit_def bind_res_eq_Inr)
  have "\<forall>s \<in> set scopes. bscope_plain s"
    using r(3) scopes_plain by (auto split: option.splits)
  then show ?thesis using body_plain[OF r(1)] Predicate_plain[OF r(2)] assms(2)
    by (simp add: r(4) brule_plain_def plain_rule_def plain_predicate_def)
qed

lemma traverse_snoc: "traverse f (xs @ ys) =
    bind_res (traverse f xs) (\<lambda>as. bind_res (traverse f ys) (\<lambda>bs. Inr (as @ bs)))"
  by (induction xs) (auto simp: bind_res_def split: sum.splits)

text \<open>What the loop over the elements adds to the block parsed so far.\<close>

lemma block_elements_spec:
  assumes "block_elements pe es b0 = Inr b" "hs_inv (bfact_hash (pe_runtime pe)) bfact_atomic (pb_Facts b0)" "plain_block pe es"
  shows "\<exists>fs rs cs. traverse (Predicate_ToBiscuit pe) (text_facts es) = Inr fs \<and>
     traverse (Rule_ToBiscuit pe) (text_rules es) = Inr rs \<and> traverse (Check_ToBiscuit pe) (text_checks es) = Inr cs \<and>
     hs_inv (bfact_hash (pe_runtime pe)) bfact_atomic (pb_Facts b) \<and> hs_set (pb_Facts b) = hs_set (pb_Facts b0) \<union> set fs \<and>
     pb_Rules b = pb_Rules b0 @ rs \<and> pb_Checks b = pb_Checks b0 @ cs \<and> pb_Scope b = pb_Scope b0"
  using assms
proof (induction es arbitrary: b0)
  case Nil
  then show ?case by (simp add: text_defs)
next
  case (Cons e es)
  obtain b1 where b1: "BlockElement_ToBiscuit pe e b0 = Inr b1" "block_elements pe es b1 = Inr b"
    using Cons.prems(1) by (auto simp: bind_res_eq_Inr)
  have plain: "plain_block pe es" using Cons.prems(3)
    by (auto simp: plain_block_def text_defs split: option.splits prod.splits)
  consider (check) c q where "be_Check e = Some c" "Check_ToBiscuit pe c = Inr q" "b1 = b0\<lparr>pb_Checks := pb_Checks b0 @ [q]\<rparr>"
    | (rule) g r where "be_Check e = None" "rule_of e = Some g" "fact_of e = None" "Rule_ToBiscuit pe g = Inr r"
      "b1 = b0\<lparr>pb_Rules := pb_Rules b0 @ [r]\<rparr>"
    | (fact) p f where "be_Check e = None" "rule_of e = None" "fact_of e = Some p" "Predicate_ToBiscuit pe p = Inr f"
      "b1 = b0\<lparr>pb_Facts := snd (HashSet_Insert (bfact_hash (pe_runtime pe)) BFact_Equal (pb_Facts b0) f)\<rparr>"
    using b1(1) by (auto simp: BlockElement_ToBiscuit_def bind_res_eq_Inr split: option.splits)
  then show ?case
  proof cases
    case check
    then have "hs_inv (bfact_hash (pe_runtime pe)) bfact_atomic (pb_Facts b1)" using Cons.prems(2) by simp
    from Cons.IH[OF b1(2) this plain] check show ?thesis by (auto simp: text_defs)
  next
    case rule
    then have "hs_inv (bfact_hash (pe_runtime pe)) bfact_atomic (pb_Facts b1)" using Cons.prems(2) by simp
    from Cons.IH[OF b1(2) this plain] rule show ?thesis by (auto simp: text_defs simp del: rule_of.simps fact_of.simps)
  next
    case fact
    have "plain_predicate pe p" using Cons.prems(3) fact(3) by (simp add: plain_block_def text_facts_def del: fact_of.simps)
    then have f: "bfact_atomic f" using Predicate_plain[OF fact(4)] plain_atomic by (simp add: plain_predicate_def)
    have "hs_inv (bfact_hash (pe_runtime pe)) bfact_atomic (pb_Facts b1)"
      "hs_set (pb_Facts b1) = insert f (hs_set (pb_Facts b0))"
      using bfact_set.inv_insert[OF Cons.prems(2) f] bfact_set.set_insert[OF Cons.prems(2) f] by (simp_all add: fact(5))
    with Cons.IH[OF b1(2) this(1) plain] fact show ?thesis by (auto simp: text_defs simp del: rule_of.simps fact_of.simps)
  qed
qed

section \<open>The builder\<close>

lemma add_facts_new:
  assumes "builder_facts_inv rt b" "distinct fs" "\<forall>f \<in> set fs. bfact_atomic f" "set fs \<inter> hs_set (bb_facts b) = {}"
  shows "\<exists>facts. add_facts rt fs b = (None, b\<lparr>bb_facts := facts\<rparr>) \<and> hs_set facts = hs_set (bb_facts b) \<union> set fs \<and>
     builder_facts_inv rt (b\<lparr>bb_facts := facts\<rparr>)"
  using assms
proof (induction fs arbitrary: b)
  case Nil
  then show ?case by (intro exI[of _ "bb_facts b"]) simp
next
  case (Cons f fs)
  obtain err b1 where b1: "blockBuilder_AddFact rt b f = (err, b1)" by fastforce
  have f: "bfact_atomic f" "f \<notin> hs_set (bb_facts b)" using Cons.prems(3,4) by auto
  note a = AddFact_duplicate[OF Cons.prems(1) f(1) b1]
  have "err = None" using a f(2) by (cases err) (simp, use build_error.exhaust in auto)
  moreover obtain s where s: "b1 = b\<lparr>bb_facts := s\<rparr>" using b1 by (auto simp: blockBuilder_AddFact_def case_prod_beta Let_def)
  moreover have "\<exists>facts. add_facts rt fs b1 = (None, b1\<lparr>bb_facts := facts\<rparr>) \<and> hs_set facts = hs_set (bb_facts b1) \<union> set fs \<and>
      builder_facts_inv rt (b1\<lparr>bb_facts := facts\<rparr>)"
    using a Cons.prems by (intro Cons.IH) auto
  ultimately show ?case using b1 a by auto
qed

lemma fold_AddRules: "fold (\<lambda>r b. blockBuilder_AddRule b r) rs b = b\<lparr>bb_rules := bb_rules b @ rs\<rparr>"
  by (induction rs arbitrary: b) (simp_all add: blockBuilder_AddRule_def)

lemma fold_AddChecks: "fold (\<lambda>c b. blockBuilder_AddCheck b c) cs b = b\<lparr>bb_checks := bb_checks b @ cs\<rparr>"
  by (induction cs arbitrary: b) (simp_all add: blockBuilder_AddCheck_def)

lemma fold_AddScopes: "fold (\<lambda>s b. blockBuilder_AddScope b s) ss b = b\<lparr>bb_scopes := bb_scopes b @ ss\<rparr>"
  by (induction ss arbitrary: b) (simp_all add: blockBuilder_AddScope_def)

lemma AddBlock_new:
  assumes "hs_inv (bfact_hash rt) bfact_atomic (pb_Facts pb)"
  shows "\<exists>b. blockBuilder_AddBlock rt (NewBlockBuilder rt []) pb = (None, b) \<and> bb_buildOptions b = [] \<and>
     hs_set (bb_facts b) = hs_set (pb_Facts pb) \<and> bb_rules b = pb_Rules pb \<and> bb_checks b = pb_Checks pb \<and>
     bb_scopes b = pb_Scope pb \<and> distinct (HashSet_Iter (bb_facts b))"
proof -
  let ?b = "NewBlockBuilder rt []"
  have new: "builder_facts_inv rt ?b" "hs_set (bb_facts ?b) = {}"
    by (simp_all add: builder_facts_inv_def NewBlockBuilder_def NewBFactSet_def NewHashSet_def)
  have "\<forall>f \<in> hs_set (pb_Facts pb). bfact_atomic f" using hs_inv_ok[OF assms] by blast
  then obtain facts where "add_facts rt (HashSet_Iter (pb_Facts pb)) ?b = (None, ?b\<lparr>bb_facts := facts\<rparr>)"
    "hs_set facts = hs_set (pb_Facts pb)" "distinct (HashSet_Iter facts)"
    using add_facts_new[OF new(1) hs_inv_distinct[OF assms]] new(2) hs_inv_distinct
    by (fastforce simp: builder_facts_inv_def)
  then show ?thesis
    by (simp add: blockBuilder_AddBlock_def fold_AddRules fold_AddChecks fold_AddScopes NewBlockBuilder_def)
qed

section \<open>From the text to the block of a token\<close>

text \<open>
  C16: a block that is written as text, with atomic terms and expressions that denote trees, is
  accepted by a new builder and built without a panic, and the built block says what the text
  says: read with the tables of the token, its rules and checks are the written ones in their
  order, its facts are the written ones (each once), and it has no scopes.
\<close>

theorem written_block_is_built:
  assumes "parser_Block p pe input = Inr pb" and "blockParser p input = Some es" and "plain_block pe es"
  shows "\<exists>b block fs rs cs. blockBuilder_AddBlock (pe_runtime pe) (NewBlockBuilder (pe_runtime pe) []) pb = (None, b) \<and>
     blockBuilder_Build (pe_runtime pe) b symbols keys reg = Some block \<and>
     (\<forall>f. f \<in> set fs \<longleftrightarrow> (\<exists>g \<in> set (text_facts es). Predicate_ToBiscuit pe g = Inr f)) \<and> distinct fs \<and>
     traverse (Rule_ToBiscuit pe) (text_rules es) = Inr rs \<and> traverse (Check_ToBiscuit pe) (text_checks es) = Inr cs \<and>
     (\<forall>us ks. 1024 + length (symbols @ blk_symbols block @ us) \<le> 2 ^ 32 \<longrightarrow> length (keys @ block_keys block @ ks) < 2 ^ 64 \<longrightarrow>
        traverse (fromDatalogFact (pe_runtime pe) (symbols @ blk_symbols block @ us)) (blk_facts block) = Inr fs \<and>
        traverse (fromDatalogRule (pe_runtime pe) (symbols @ blk_symbols block @ us) (Some (keys @ block_keys block @ ks)))
          (blk_rules block) = Inr rs \<and>
        traverse (fromDatalogCheck (pe_runtime pe) (symbols @ blk_symbols block @ us) (Some (keys @ block_keys block @ ks)))
          (blk_checks block) = Inr cs \<and>
        traverse (fromDatalogScope (Some (keys @ block_keys block @ ks))) (blk_scopes block) = Inr [])"
proof -
  let ?rt = "pe_runtime pe"
  have run: "block_elements pe es (empty_ParsedBlock pe) = Inr pb"
    using assms(1,2) by (simp add: parser_Block_def parse_string_def Block_ToBiscuit_def)
  have e: "hs_inv (bfact_hash ?rt) bfact_atomic (pb_Facts (empty_ParsedBlock pe))"
    by (simp add: empty_ParsedBlock_def NewBFactSet_def NewHashSet_def)
  obtain fs rs cs where t: "traverse (Predicate_ToBiscuit pe) (text_facts es) = Inr fs"
    "traverse (Rule_ToBiscuit pe) (text_rules es) = Inr rs" "traverse (Check_ToBiscuit pe) (text_checks es) = Inr cs"
    "hs_inv (bfact_hash ?rt) bfact_atomic (pb_Facts pb)" "hs_set (pb_Facts pb) = set fs"
    "pb_Rules pb = rs" "pb_Checks pb = cs" "pb_Scope pb = []"
    using block_elements_spec[OF run e assms(3)] by (auto simp: empty_ParsedBlock_def NewBFactSet_def NewHashSet_def)
  obtain b where b: "blockBuilder_AddBlock ?rt (NewBlockBuilder ?rt []) pb = (None, b)" "bb_buildOptions b = []"
    "hs_set (bb_facts b) = set fs" "bb_rules b = rs" "bb_checks b = cs" "bb_scopes b = []" "distinct (HashSet_Iter (bb_facts b))"
    using AddBlock_new[OF t(4)] t(5-8) by auto
  have "\<forall>f \<in> set fs. bpred_plain f"
    by (rule traverse_all[OF t(1)])
      (use assms(3) Predicate_plain in \<open>auto simp: plain_block_def plain_predicate_def list_all_iff\<close>)
  moreover have "\<forall>r \<in> set rs. brule_plain r"
    by (rule traverse_all[OF t(2)]) (use assms(3) rule_plain in \<open>auto simp: plain_block_def list_all_iff\<close>)
  moreover have "\<forall>c \<in> set cs. bcheck_plain c"
    by (rule traverse_all[OF t(3)]) (use assms(3) check_plain in \<open>auto simp: plain_block_def list_all_iff\<close>)
  ultimately have plain: "builder_plain b" by (simp add: builder_plain_def b(3-6))
  obtain block where block: "blockBuilder_Build ?rt b symbols keys reg = Some block"
    "\<And>us ks. 1024 + length (symbols @ blk_symbols block @ us) \<le> 2 ^ 32 \<Longrightarrow> length (keys @ block_keys block @ ks) < 2 ^ 64 \<Longrightarrow>
      block_denotes ?rt (symbols @ blk_symbols block @ us) (keys @ block_keys block @ ks) block b"
    using Build_denotes[OF b(2) plain, of ?rt symbols keys reg] by blast
  have "f \<in> set (HashSet_Iter (bb_facts b)) \<longleftrightarrow> (\<exists>g \<in> set (text_facts es). Predicate_ToBiscuit pe g = Inr f)" for f
    using t(1) b(3) by (auto simp: traverse_Inr list_all2_conv_all_nth in_set_conv_nth) (metis nth_mem sum.inject(2))+
  then show ?thesis
    using b block(1) t(2,3) block(2) by (intro exI[of _ b] exI[of _ block] exI[of _ "HashSet_Iter (bb_facts b)"] exI[of _ rs] exI[of _ cs])
      (simp add: block_denotes_def)
qed

definition string_term :: "string \<Rightarrow> GTerm" where
  "string_term s = GTerm None None (Some s) None None None None None None"

text \<open>\<^verbatim>\<open>user("bob"); user("bob"); seen($x) <- user($x); check all ...;\<close>\<close>

definition bob_predicate :: GPredicate where
  "bob_predicate = \<lparr>gp_Name = ''user'', gp_IDs = [string_term ''bob'']\<rparr>"

definition demo_elements :: GBlock where
  "demo_elements =
     [\<lparr>be_Check = None, be_Predicate = Some bob_predicate, be_RuleBody = None\<rparr>,
      \<lparr>be_Check = None, be_Predicate = Some bob_predicate, be_RuleBody = None\<rparr>,
      \<lparr>be_Check = None, be_Predicate = Some \<lparr>gp_Name = ''seen'', gp_IDs = [variable_term ''x'']\<rparr>,
        be_RuleBody = Some [\<lparr>re_Predicate = Some demo_predicate, re_Expression = None\<rparr>]\<rparr>,
      \<lparr>be_Check = Some demo_gcheck, be_Predicate = None, be_RuleBody = None\<rparr>]"

lemma demo_elements_plain: "plain_block demo_env demo_elements"
  using demo_expression_facts(1,2)
  by (simp add: plain_block_def text_defs List.map_filter_def demo_elements_def bob_predicate_def plain_predicate_def plain_rule_def plain_term_def
      string_term_def variable_term_def demo_predicate_def plain_element_def plain_check_def check_alternative_def demo_gcheck_def)

lemma demo_elements_parse: "\<exists>pb. Block_ToBiscuit demo_env demo_elements = Inr pb"
  by (simp add: Block_ToBiscuit_def BlockElement_ToBiscuit_def demo_elements_def bob_predicate_def Predicate_ToBiscuit_def string_term_def
      variable_term_def Rule_ToBiscuit_def demo_predicate_def Check_ToBiscuit_def check_alternative_def demo_gcheck_def
      CheckQuery_ToBiscuit_def OriginClause_ToBiscuit_def Origin_ToBiscuit_def)

theorem written_block_is_built_witness:
  "\<exists>pb b block rs cs. parser_Block (demo_parser\<lparr>blockParser := (\<lambda>_. Some demo_elements)\<rparr>) demo_env ''...'' = Inr pb \<and>
     blockBuilder_AddBlock demo_runtime (NewBlockBuilder demo_runtime []) pb = (None, b) \<and>
     blockBuilder_Build demo_runtime b [] [] [] = Some block \<and> length rs = 1 \<and> length cs = 1 \<and>
     (1024 + length (blk_symbols block) \<le> 2 ^ 32 \<longrightarrow> length (block_keys block) < 2 ^ 64 \<longrightarrow>
        traverse (fromDatalogFact demo_runtime (blk_symbols block)) (blk_facts block) =
          Inr [\<lparr>bp_Name = ''user'', bp_IDs = [BString ''bob'']\<rparr>] \<and>
        traverse (fromDatalogRule demo_runtime (blk_symbols block) (Some (block_keys block))) (blk_rules block) = Inr rs \<and>
        traverse (fromDatalogCheck demo_runtime (blk_symbols block) (Some (block_keys block))) (blk_checks block) = Inr cs)"
proof -
  let ?p = "demo_parser\<lparr>blockParser := (\<lambda>_. Some demo_elements)\<rparr>"
  obtain pb where pb: "parser_Block ?p demo_env ''...'' = Inr pb"
    using demo_elements_parse by (auto simp: parser_Block_def parse_string_def)
  have es: "blockParser ?p ''...'' = Some demo_elements" by simp
  have rt: "pe_runtime demo_env = demo_runtime" by (simp add: demo_env_def)
  obtain b block fs rs cs where w: "blockBuilder_AddBlock demo_runtime (NewBlockBuilder demo_runtime []) pb = (None, b)"
    "blockBuilder_Build demo_runtime b [] [] [] = Some block"
    "\<forall>f. f \<in> set fs \<longleftrightarrow> (\<exists>g \<in> set (text_facts demo_elements). Predicate_ToBiscuit demo_env g = Inr f)" "distinct fs"
    "traverse (Rule_ToBiscuit demo_env) (text_rules demo_elements) = Inr rs"
    "traverse (Check_ToBiscuit demo_env) (text_checks demo_elements) = Inr cs"
    "\<forall>us ks. 1024 + length (blk_symbols block @ us) \<le> 2 ^ 32 \<longrightarrow> length (block_keys block @ ks) < 2 ^ 64 \<longrightarrow>
        traverse (fromDatalogFact demo_runtime (blk_symbols block @ us)) (blk_facts block) = Inr fs \<and>
        traverse (fromDatalogRule demo_runtime (blk_symbols block @ us) (Some (block_keys block @ ks))) (blk_rules block) = Inr rs \<and>
        traverse (fromDatalogCheck demo_runtime (blk_symbols block @ us) (Some (block_keys block @ ks))) (blk_checks block) = Inr cs \<and>
        traverse (fromDatalogScope (Some (block_keys block @ ks))) (blk_scopes block) = Inr []"
    using written_block_is_built[OF pb es demo_elements_plain, of "[]" "[]" "[]", unfolded rt append_Nil]
    by (elim exE conjE) (rule that; assumption)
  let ?bob = "\<lparr>bp_Name = ''user'', bp_IDs = [BString ''bob'']\<rparr>"
  have "f \<in> set fs \<longleftrightarrow> f = ?bob" for f
    unfolding w(3)[rule_format] by (auto simp: text_facts_def List.map_filter_def demo_elements_def bob_predicate_def
        Predicate_ToBiscuit_def string_term_def)
  then have bob: "set fs = {?bob}" by (intro set_eqI) simp
  then have "length fs = Suc 0" using distinct_card[OF w(4)] by simp
  then obtain f where "fs = [f]" unfolding length_Suc_conv by fastforce
  with bob have fs: "fs = [?bob]" by simp
  have "length rs = 1" "length cs = 1"
    using w(5,6) by (auto simp: bind_res_eq_Inr text_defs List.map_filter_def demo_elements_def bob_predicate_def)
  then show ?thesis using pb w(1,2) w(7)[rule_format, of "[]" "[]"] fs by fastforce
qed

end
