(* ===== verification/Spec2Isabelle.thy ===== *)
theory Spec2Isabelle
  imports Issuing Attenuation Inspection Quoting TextBlocks
begin

text \<open>
  A model of biscuit-go, an implementation of Biscuit authorization tokens, with the properties
  that make it correct. A token is a chain of signed blocks of datalog; a service verifies the
  chain, loads the blocks into a datalog engine next to its own facts and rules, and asks whether
  all checks hold and which policy matches.

  The theories, in the order of their imports, and the code they model:

  \<^item> \<^verbatim>\<open>Prelude\<close>: machine integers, slices that may be nil, error results, loops over lists that
    stop at the first error (\<open>traverse\<close>, \<open>thread\<close>), comparators, decimal numbers; and \<open>runtime\<close>,
    the record of what the Go runtime decides (the hash function, regular expressions).
  \<^item> \<^verbatim>\<open>HashSets\<close>: internal/set. A hash set is the list of its buckets; the locales
    \<open>ordered_elements\<close> and \<open>hash_elements\<close> are the contract between the set and its elements.
  \<^item> \<^verbatim>\<open>Terms\<close>, \<^verbatim>\<open>Symbols\<close>, \<^verbatim>\<open>Origins\<close>: the terms of datalog/datalog.go, the tables of
    datalog/symbol.go and datalog/publickeys.go, and origins, scopes and trust (datalog/origin.go,
    datalog/scope.go).
  \<^item> \<^verbatim>\<open>Expressions\<close>, \<^verbatim>\<open>ExprSemantics\<close>: datalog/expressions.go, and the trees it evaluates.
  \<^item> \<^verbatim>\<open>Rules\<close>, \<^verbatim>\<open>FactSets\<close>: predicates, facts, rules, checks and the sets of them
    (datalog/datalog.go).
  \<^item> \<^verbatim>\<open>Combinations\<close>, \<^verbatim>\<open>Matching\<close>, \<^verbatim>\<open>Evaluator\<close>: datalog/evaluator.go, from the odometer over
    the facts to the derivation of facts and the verdict on checks.
  \<^item> \<^verbatim>\<open>Worlds\<close>: \<^verbatim>\<open>World\<close> of datalog/datalog.go, running rules under limits.
  \<^item> \<^verbatim>\<open>Surface\<close>, \<^verbatim>\<open>Conversions\<close>: types.go, the values callers write, and their interning; the
    locale \<open>interning\<close> is the contract of converting and reading back.
  \<^item> \<^verbatim>\<open>Blocks\<close>: blocks and the block builder (types.go, builder.go).
  \<^item> \<^verbatim>\<open>Protobuf\<close>: converters.go and converters_v2.go; the locales \<open>codec\<close> and \<open>stable_codec\<close> are
    the contract of writing and reading messages.
  \<^item> \<^verbatim>\<open>Crypto\<close>, \<^verbatim>\<open>Signatures\<close>: internal/crypto, and the payloads that are signed (biscuit.go).
  \<^item> \<^verbatim>\<open>Tokens\<close>: creating, appending to, sealing, writing and reading tokens, third-party blocks
    (biscuit.go, builder.go, third_party.go).
  \<^item> \<^verbatim>\<open>Authorizers\<close>: authorizer.go.
  \<^item> \<^verbatim>\<open>Chains\<close>: verification of the signatures of a token (biscuit.go).
  \<^item> \<^verbatim>\<open>Printing\<close>: how expressions, rules, checks, blocks and worlds are shown (\<^verbatim>\<open>Print\<close> of
    datalog/expressions.go, the debugger of datalog/symbol.go, the \<^verbatim>\<open>String\<close> methods of types.go);
    \<^verbatim>\<open>Quoting\<close>: \<^verbatim>\<open>String\<close> of blocks and tokens, with the verbs \<^verbatim>\<open>%q\<close> and \<^verbatim>\<open>%+q\<close>.
  \<^item> \<^verbatim>\<open>Grammar\<close>, \<^verbatim>\<open>Parsing\<close>: the text format, parser/grammar.go and parser/parser.go, and what a
    parsed text means; \<^verbatim>\<open>TextBlocks\<close>: a block from its text to the built block.
  \<^item> \<^verbatim>\<open>Loading\<close>: what \<^verbatim>\<open>Build\<close> of authorizer.go makes of the blocks of a token and of what was
    added to the builder: the meaning of a block under its own tables is kept.
  \<^item> \<^verbatim>\<open>Issuing\<close>: the whole way from the token builder over the wire to the authorizer; the locale
    \<open>keeping\<close> is the contract of a conversion that keeps its tables well-formed.
  \<^item> \<^verbatim>\<open>Attenuation\<close>: an appended block only restricts.
  \<^item> \<^verbatim>\<open>Inspection\<close>: authorizer_inspection.go, the iterators that show the state of an authorizer,
    and the comparison of checks in types.go they sort with.

  What the lemmas show. Hash sets behave as sets, whatever the hash; comparison is a total
  preorder; tables intern. Matching and rule application are exact against a declarative reading
  of rules; a run of a world computes the least model of its facts and rules, respects the trust
  between blocks, and ends; checks and \<^verbatim>\<open>Authorize\<close> decide their meaning over that model.
  Blocks survive interning and serialisation. A token is accepted exactly when its chain of
  signatures is valid, and every token the library makes is. An authorizer says what the blocks
  of its token and its builder say, each under its own block; what a caller puts into a token
  builder arrives in the authorizer of a service that reads the token. An expression of the text
  format is evaluated as the tree its grammar levels determine, and printed as it was written; a
  block that is written as text and built says what the text says.

  Bounds and fuel. Integers of the datalog are 64-bit words with overflow as an error value, as
  in the code. The enumeration of fact combinations has \<open>factCount ^ predicateCount\<close> units of
  fuel, which \<open>combinations_iter_complete\<close> shows to be enough. A run of a world is bounded by its
  own iteration limit.

  Arguments of the model. \<open>runtime\<close>: the seeded hash and the regexp package. \<open>schedule\<close>: after
  how many polls the context of a run is done and what its final select chooses. \<open>crypto_lib\<close>:
  Ed25519, ECDSA, SHA-256 and point compression, with the laws \<open>crypto_laws\<close>. \<open>proto_lib\<close>: the
  marshalling of protobuf messages, with the laws \<open>proto_laws\<close>. A panic of the code is an error
  value of its own (\<open>None\<close>, \<open>ConvPanic\<close>, \<open>CryptoPanic\<close>, \<open>TokenPanic\<close>). Iteration over a Go map
  follows the order in which its keys were first inserted.

  Not modelled. The step from text to syntax trees: the grammar is struct tags and the lexer a
  table of patterns, read by a library that is not part of the repository; the parsers it builds
  are the argument \<open>parser\<close>, and \<^verbatim>\<open>time.Parse\<close> the field \<open>pe_time\<close> of \<open>parse_env\<close>.
  The generated protobuf code (pb/): its message types are records and datatypes here. Sharing of
  backing arrays between cloned symbol tables, and the goroutine that a timed-out run leaves
  behind.
\<close>

end
